(* ===== verification/Py_Strings.thy ===== *)
theory Py_Strings
  imports Prelude
begin

text \<open>
  The string operations of Python's standard library the modelled code uses, on ASCII text:
  decimal printing and reading of integers, \<open>isdigit\<close>, \<open>lower\<close>, \<open>strip\<close>, \<open>join\<close>, \<open>split\<close>,
  substring tests, \<open>repr\<close> of strings and lists, and JSON values with \<open>str\<close>.
\<close>

section \<open>Decimal numerals\<close>

definition digit_char :: "nat \<Rightarrow> char" where
  "digit_char d = char_of (48 + d)"

definition digit_val :: "char \<Rightarrow> nat" where
  "digit_val c = of_char c - 48"

definition is_digit_char :: "char \<Rightarrow> bool" where
  "is_digit_char c = (48 \<le> (of_char c :: nat) \<and> (of_char c :: nat) \<le> 57)"

fun str_nat :: "nat \<Rightarrow> string" where
  "str_nat n = (if n < 10 then [digit_char n] else str_nat (n div 10) @ [digit_char (n mod 10)])"

declare str_nat.simps [simp del]

text \<open>\<open>str(i)\<close> for an int.\<close>

definition str_int :: "int \<Rightarrow> string" where
  "str_int i = (if i < 0 then ''-'' @ str_nat (nat (- i)) else str_nat (nat i))"

text \<open>\<open>s.isdigit()\<close>, and \<open>int(s)\<close> of a string for which it holds.\<close>

definition isdigit :: "string \<Rightarrow> bool" where
  "isdigit s = (s \<noteq> [] \<and> list_all is_digit_char s)"

definition nat_of_digits :: "string \<Rightarrow> nat" where
  "nat_of_digits s = foldl (\<lambda>a c. 10 * a + digit_val c) 0 s"

lemma digit_val_char [simp]: "d < 10 \<Longrightarrow> digit_val (digit_char d) = d"
  by (simp add: digit_val_def digit_char_def)

lemma is_digit_digit_char [simp]: "d < 10 \<Longrightarrow> is_digit_char (digit_char d)"
  by (simp add: is_digit_char_def digit_char_def)

lemma str_nat_nonempty [simp]: "str_nat n \<noteq> []"
  by (subst str_nat.simps) simp

lemma isdigit_str_nat [simp]: "isdigit (str_nat n)"
proof (induction n rule: str_nat.induct)
  case (1 n)
  then show ?case by (subst str_nat.simps) (auto simp: isdigit_def)
qed

lemma nat_of_digits_append: "nat_of_digits (s @ [c]) = 10 * nat_of_digits s + digit_val c"
  by (simp add: nat_of_digits_def)

text \<open>Reading back a printed number gives the number.\<close>

lemma nat_of_digits_str_nat [simp]: "nat_of_digits (str_nat n) = n"
proof (induction n rule: str_nat.induct)
  case (1 n)
  show ?case
  proof (cases "n < 10")
    case True
    then show ?thesis by (subst str_nat.simps) (simp add: nat_of_digits_def)
  next
    case False
    with 1 show ?thesis by (subst str_nat.simps) (simp add: nat_of_digits_append)
  qed
qed

lemma str_nat_inject [simp]: "str_nat m = str_nat n \<longleftrightarrow> m = n"
  by (metis nat_of_digits_str_nat)

section \<open>Case, blanks, joining and splitting\<close>

definition lower_char :: "char \<Rightarrow> char" where
  "lower_char c = (let n = of_char c :: nat in if 65 \<le> n \<and> n \<le> 90 then char_of (n + 32) else c)"

definition lower :: "string \<Rightarrow> string" where
  "lower s = map lower_char s"

definition upper_char :: "char \<Rightarrow> char" where
  "upper_char c = (let n = of_char c :: nat in if 97 \<le> n \<and> n \<le> 122 then char_of (n - 32) else c)"

definition upper :: "string \<Rightarrow> string" where
  "upper s = map upper_char s"

text \<open>The ASCII characters for which \<open>str.isspace\<close> holds.\<close>

definition is_space :: "char \<Rightarrow> bool" where
  "is_space c = (let n = of_char c :: nat in n = 32 \<or> (9 \<le> n \<and> n \<le> 13) \<or> (28 \<le> n \<and> n \<le> 31))"

definition lstrip :: "string \<Rightarrow> string" where
  "lstrip s = dropWhile is_space s"

definition rstrip :: "string \<Rightarrow> string" where
  "rstrip s = rev (dropWhile is_space (rev s))"

definition strip :: "string \<Rightarrow> string" where
  "strip s = rstrip (lstrip s)"

fun join :: "string \<Rightarrow> string list \<Rightarrow> string" where
  "join sep [] = ''''"
| "join sep [s] = s"
| "join sep (s # t # ts) = s @ sep @ join sep (t # ts)"

definition startswith :: "string \<Rightarrow> string \<Rightarrow> bool" where
  "startswith s p = (take (length p) s = p)"

definition endswith :: "string \<Rightarrow> string \<Rightarrow> bool" where
  "endswith s p = startswith (rev s) (rev p)"

text \<open>\<open>q in s\<close> for strings.\<close>

fun contains :: "string \<Rightarrow> string \<Rightarrow> bool" where
  "contains [] q = (q = [])"
| "contains (c # s) q = (startswith (c # s) q \<or> contains s q)"

text \<open>\<open>s.split(c)\<close> on one character: always at least one piece.\<close>

fun split_char :: "char \<Rightarrow> string \<Rightarrow> string list" where
  "split_char c [] = [[]]"
| "split_char c (x # xs) =
     (if x = c then [] # split_char c xs
      else (case split_char c xs of [] \<Rightarrow> [[x]] | p # ps \<Rightarrow> (x # p) # ps))"

definition nl :: char where "nl = CHR 0x0A"

text \<open>The dash of some messages, as its UTF-8 bytes.\<close>

definition em_dash :: string where "em_dash = [CHR 0xE2, CHR 0x80, CHR 0x94]"

text \<open>\<open>str.splitlines()\<close> on text whose line ends are newlines.\<close>

definition splitlines :: "string \<Rightarrow> string list" where
  "splitlines s = (let ps = split_char nl s in if last ps = [] then butlast ps else ps)"

lemma startswith_iff: "startswith s p \<longleftrightarrow> (\<exists>t. s = p @ t)"
  unfolding startswith_def by (metis append_eq_conv_conj append_take_drop_id)

lemma startswith_Nil [simp]: "startswith s []"
  by (simp add: startswith_def)

lemma contains_iff: "contains s q \<longleftrightarrow> (\<exists>u v. s = u @ q @ v)"
proof (induction s)
  case Nil
  then show ?case by simp
next
  case (Cons c s)
  have "(\<exists>u v. c # s = u @ q @ v) \<longleftrightarrow> startswith (c # s) q \<or> (\<exists>u v. s = u @ q @ v)"
  proof
    assume "\<exists>u v. c # s = u @ q @ v"
    then obtain u v where "c # s = u @ q @ v" by blast
    then show "startswith (c # s) q \<or> (\<exists>u v. s = u @ q @ v)"
      by (cases u) (auto simp: startswith_iff)
  next
    assume "startswith (c # s) q \<or> (\<exists>u v. s = u @ q @ v)"
    then show "\<exists>u v. c # s = u @ q @ v"
      by (metis append_Cons append_Nil startswith_iff)
  qed
  with Cons show ?case by simp
qed

lemma split_char_nonempty [simp]: "split_char c s \<noteq> []"
  by (induction s) (auto split: list.splits)

text \<open>Splitting on a character and joining with it gives the string back.\<close>

lemma join_split_char: "join [c] (split_char c s) = s"
proof (induction s)
  case Nil
  then show ?case by simp
next
  case (Cons x s)
  show ?case
  proof (cases "split_char c s")
    case Nil
    then show ?thesis by simp
  next
    case (Cons p ps)
    with \<open>join [c] (split_char c s) = s\<close> show ?thesis by (cases ps) auto
  qed
qed

section \<open>repr of strings and lists\<close>

definition hex_digit :: "nat \<Rightarrow> char" where
  "hex_digit d = (if d < 10 then char_of (48 + d) else char_of (87 + d))"

definition repr_char :: "char \<Rightarrow> char \<Rightarrow> string" where
  "repr_char q c = (let n = of_char c :: nat in
     if c = q \<or> n = 92 then [CHR 0x5C, c]
     else if n = 10 then [CHR 0x5C, CHR ''n'']
     else if n = 13 then [CHR 0x5C, CHR ''r'']
     else if n = 9 then [CHR 0x5C, CHR ''t'']
     else if n < 32 \<or> n = 127 then [CHR 0x5C, CHR ''x'', hex_digit (n div 16), hex_digit (n mod 16)]
     else [c])"

definition repr_str :: "string \<Rightarrow> string" where
  "repr_str s =
     (let q = (if CHR 0x27 \<in> set s \<and> CHR 0x22 \<notin> set s then CHR 0x22 else CHR 0x27)
      in [q] @ concat (map (repr_char q) s) @ [q])"

definition repr_strs :: "string list \<Rightarrow> string" where
  "repr_strs xs = ''['' @ join '', '' (map repr_str xs) @ '']''"

section \<open>JSON values\<close>

text \<open>
  The values \<open>json.load\<close> returns, with integer numbers only: objects keep their key order. The
  text syntax and the round trip \<open>json.loads(json.dumps(v)) = v\<close> belong to the standard library; a
  JSON file is modelled by the value it holds.
\<close>

datatype json =
    JNull
  | JBool bool
  | JInt int
  | JStr string
  | JArr "json list"
  | JObj "(string \<times> json) list"

fun repr_json :: "json \<Rightarrow> string" where
  "repr_json JNull = ''None''"
| "repr_json (JBool b) = (if b then ''True'' else ''False'')"
| "repr_json (JInt i) = str_int i"
| "repr_json (JStr s) = repr_str s"
| "repr_json (JArr xs) = ''['' @ join '', '' (map repr_json xs) @ '']''"
| "repr_json (JObj kvs) =
     ''{'' @ join '', '' (map (\<lambda>(k, v). repr_str k @ '': '' @ repr_json v) kvs) @ ''}''"

text \<open>\<open>str(v)\<close>: a string is itself, everything else its \<open>repr\<close>.\<close>

fun str_json :: "json \<Rightarrow> string" where
  "str_json (JStr s) = s"
| "str_json v = repr_json v"

text \<open>Python's truth value of a JSON value.\<close>

fun truthy :: "json \<Rightarrow> bool" where
  "truthy JNull = False"
| "truthy (JBool b) = b"
| "truthy (JInt i) = (i \<noteq> 0)"
| "truthy (JStr s) = (s \<noteq> '''')"
| "truthy (JArr xs) = (xs \<noteq> [])"
| "truthy (JObj kvs) = (kvs \<noteq> [])"

section \<open>Reading JSON values\<close>

text \<open>
  The accessors of loaded JSON. Python does not check the type of what it reads; a value of another
  type than the writer writes is outside the models.
\<close>

fun as_str :: "json \<Rightarrow> string result" where
  "as_str (JStr s) = Inr s"
| "as_str v = Inl (OutsideModel ''a string field holds another value'')"

fun as_int :: "json \<Rightarrow> int result" where
  "as_int (JInt i) = Inr i"
| "as_int v = Inl (OutsideModel ''an integer field holds another value'')"

fun as_opt :: "json \<Rightarrow> string option result" where
  "as_opt JNull = Inr None"
| "as_opt (JStr s) = Inr (Some s)"
| "as_opt v = Inl (OutsideModel ''an optional string field holds another value'')"

fun as_strs :: "json \<Rightarrow> string list result" where
  "as_strs (JArr xs) = Inr (map str_json xs)"
| "as_strs v = Inl (TypeError ''not iterable as a list'')"

text \<open>A list of values through \<open>str\<close>, and a list of strings as it stands.\<close>

fun as_raw_strs :: "json \<Rightarrow> string list result" where
  "as_raw_strs (JArr xs) = mapM as_str xs"
| "as_raw_strs v = Inl (OutsideModel ''a list field holds another value'')"

fun as_obj :: "json \<Rightarrow> (string, json) dict result" where
  "as_obj (JObj d) = Inr d"
| "as_obj v = Inl (OutsideModel ''an object field holds another value'')"

fun as_list :: "json \<Rightarrow> json list result" where
  "as_list (JArr xs) = Inr xs"
| "as_list v = Inl (TypeError ''not iterable as a list'')"

definition field :: "(string, json) dict \<Rightarrow> string \<Rightarrow> json result" where
  "field d k = (case dget d k of None \<Rightarrow> Inl (KeyError k) | Some v \<Rightarrow> Inr v)"

fun as_bool :: "json \<Rightarrow> bool result" where
  "as_bool (JBool b) = Inr b"
| "as_bool v = Inl (OutsideModel ''a boolean field holds another value'')"

section \<open>The text of an exception\<close>

text \<open>\<open>str(e)\<close>.\<close>

fun err_text :: "py_error \<Rightarrow> string" where
  "err_text (ValueError s) = s"
| "err_text (KeyError s) = s"
| "err_text (TypeError s) = s"
| "err_text (RuntimeError s) = s"
| "err_text (TimeoutError s) = s"
| "err_text (OSError s) = s"
| "err_text (OutsideModel s) = s"
| "err_text IndexError = ''list index out of range''"
| "err_text ZeroDivisionError = ''integer division or modulo by zero''"
| "err_text InvalidStateError = ''invalid state''"
| "err_text (AxiomCheckError s) = s"
| "err_text (DeclarationNotFoundError s) = s"
| "err_text (ReplProcessExited s) = s"
| "err_text (ReplProcessRestarted s) = s"
| "err_text (JSONDecodeError s) = s"
| "err_text (AttributeError s) = s"
| "err_text (PromptTooLongError s) = s"
| "err_text (APIError s) = s"
| "err_text (NotImplementedError s) = s"
| "err_text (PermissionError s) = s"
| "err_text (FileNotFoundError s) = s"

end
