(* ===== verification/Py_Float.thy ===== *)
theory Py_Float
  imports Py_Strings Complex_Main
begin

text \<open>
  Python's floats as the rationals they denote: the result of an operation is the exact one rounded
  to 53 significant bits, halves to even (IEEE 754 double precision; the magnitudes here are far from
  overflow and underflow), and the formatting and rounding to decimals, which Python does on the exact
  value of the float, halves to even.
\<close>

section \<open>Rounding\<close>

definition half_even :: "rat \<Rightarrow> int" where
  "half_even q =
     (let f = \<lfloor>q\<rfloor>; r = q - of_int f
      in if r < 1 / 2 then f else if 1 / 2 < r then f + 1 else if even f then f else f + 1)"

function bits :: "int \<Rightarrow> int" where
  "bits n = (if n \<le> 0 then 0 else 1 + bits (n div 2))"
  by auto

termination by (relation "measure nat") auto

declare bits.simps [simp del]

definition pow2 :: "int \<Rightarrow> rat" where
  "pow2 k = (if 0 \<le> k then 2 ^ nat k else 1 / 2 ^ nat (- k))"

text \<open>The exponent of the last of the 53 bits of a positive rational.\<close>

definition last_bit :: "rat \<Rightarrow> int" where
  "last_bit q =
     (let (n, d) = quotient_of q;
          e = bits n - bits d - 53
      in if q / pow2 e < 2 ^ 53 then e else e + 1)"

definition flt :: "rat \<Rightarrow> rat" where
  "flt q =
     (if q = 0 then 0
      else let e = last_bit \<bar>q\<bar> in sgn q * of_int (half_even (\<bar>q\<bar> / pow2 e)) * pow2 e)"

text \<open>\<open>a / b\<close> of two integers, and \<open>x * y\<close> of two floats.\<close>

definition py_div :: "int \<Rightarrow> int \<Rightarrow> rat result" where
  "py_div a b = (if b = 0 then Inl ZeroDivisionError else Inr (flt (of_int a / of_int b)))"

definition py_mul :: "rat \<Rightarrow> rat \<Rightarrow> rat" where
  "py_mul x y = flt (x * y)"

text \<open>\<open>f"{x:.0f}"\<close>, and \<open>round(x, n)\<close>.\<close>

definition fixed0 :: "rat \<Rightarrow> string" where
  "fixed0 x = str_int (half_even x)"

definition py_round :: "rat \<Rightarrow> nat \<Rightarrow> rat" where
  "py_round x n = flt (of_int (half_even (x * 10 ^ n)) / 10 ^ n)"

text \<open>\<open>f"{a / b * 100:.0f}%"\<close>.\<close>

definition percent :: "nat \<Rightarrow> nat \<Rightarrow> string result" where
  "percent a b = rbind (py_div (int a) (int b)) (\<lambda>q. Inr (fixed0 (py_mul q 100) @ ''%''))"

section \<open>Bounds\<close>

lemma half_even_le: "q \<le> of_int m \<Longrightarrow> half_even q \<le> m"
proof -
  assume q: "q \<le> of_int m"
  then have f: "\<lfloor>q\<rfloor> \<le> m" by (simp add: floor_le_iff) 
  show ?thesis
  proof (cases "\<lfloor>q\<rfloor> = m")
    case True
    then have "q = of_int m" using q by (metis of_int_floor_le order_antisym)
    then show ?thesis by (simp add: half_even_def)
  next
    case False
    then have "\<lfloor>q\<rfloor> + 1 \<le> m" using f by simp
    then show ?thesis by (auto simp: half_even_def Let_def)
  qed
qed

lemma half_even_ge: "of_int m \<le> q \<Longrightarrow> m \<le> half_even q"
proof -
  assume "of_int m \<le> q"
  then have "m \<le> \<lfloor>q\<rfloor>" by (simp add: le_floor_iff)
  then show ?thesis by (auto simp: half_even_def Let_def)
qed

lemma half_even_of_int [simp]: "half_even (of_int m) = m"
  by (simp add: half_even_def)

lemma half_even_mono: "p \<le> q \<Longrightarrow> half_even p \<le> half_even q"
proof -
  assume pq: "p \<le> q"
  have fp: "\<lfloor>p\<rfloor> \<le> \<lfloor>q\<rfloor>" using pq by (rule floor_mono)
  show ?thesis
  proof (cases "\<lfloor>p\<rfloor> = \<lfloor>q\<rfloor>")
    case True
    then show ?thesis using pq by (auto simp: half_even_def Let_def)
  next
    case False
    then have "\<lfloor>p\<rfloor> + 1 \<le> \<lfloor>q\<rfloor>" using fp by simp
    moreover have "half_even p \<le> \<lfloor>p\<rfloor> + 1" "\<lfloor>q\<rfloor> \<le> half_even q" by (auto simp: half_even_def Let_def)
    ultimately show ?thesis by linarith
  qed
qed

lemma bits_double: "0 < n \<Longrightarrow> bits (2 * n) = bits n + 1"
  by (subst bits.simps) simp

lemma bits_mono: "m \<le> n \<Longrightarrow> bits m \<le> bits n"
proof (induction m arbitrary: n rule: bits.induct)
  case (1 m)
  have pos: "0 \<le> bits k" for k by (induction k rule: bits.induct) (subst bits.simps, auto)
  show ?case
  proof (cases "m \<le> 0")
    case True then show ?thesis using pos [of n] by (subst bits.simps) simp
  next
    case False
    have "m div 2 \<le> n div 2" using 1(2) by (rule zdiv_mono1) simp
    then have "bits (m div 2) \<le> bits (n div 2)" using 1(1) False by simp
    then show ?thesis using False 1(2) by (simp add: bits.simps [of m] bits.simps [of n])
  qed
qed

lemma bits_128: "0 < d \<Longrightarrow> bits (128 * d) = bits d + 7"
  using bits_double [of d] bits_double [of "2 * d"] bits_double [of "4 * d"] bits_double [of "8 * d"]
    bits_double [of "16 * d"] bits_double [of "32 * d"] bits_double [of "64 * d"] by simp

lemma pow2_pos: "0 < pow2 k"
  by (simp add: pow2_def)

text \<open>The last bit of a number up to 128 is behind the point.\<close>

lemma last_bit_neg:
  assumes "0 < q" "q \<le> 128" shows "last_bit q < 0"
proof -
  obtain n d where nd: "quotient_of q = (n, d)" by fastforce
  have d: "0 < d" and q: "q = of_int n / of_int d"
    using quotient_of_denom_pos [OF nd] quotient_of_div [OF nd] by simp_all
  have "of_int n \<le> (128 * of_int d :: rat)" using assms(2) d unfolding q by (simp add: field_simps)
  then have "n \<le> 128 * d" by (metis of_int_le_iff of_int_mult of_int_numeral)
  then have "bits n \<le> bits d + 7" using bits_mono bits_128 [OF d] by metis
  then show ?thesis using nd by (auto simp: last_bit_def Let_def)
qed

lemma fl_bounds:
  assumes "0 \<le> q" "q \<le> of_int m" "m \<le> 128" shows "0 \<le> flt q \<and> flt q \<le> of_int m"
proof (cases "q = 0")
  case False
  then have q: "0 < q" using assms(1) by simp
  have "q \<le> 128" using assms(2,3) by (metis of_int_le_iff of_int_numeral order_trans)
  then have e: "last_bit q < 0" using last_bit_neg q by blast
  have p: "pow2 (last_bit q) = 1 / 2 ^ nat (- last_bit q)" using e by (simp add: pow2_def)
  let ?h = "half_even (q / pow2 (last_bit q))"
  have "q / pow2 (last_bit q) \<le> of_int (m * 2 ^ nat (- last_bit q))"
    using assms(2) by (simp add: p mult_right_mono)
  then have "?h \<le> m * 2 ^ nat (- last_bit q)" by (rule half_even_le)
  then have "of_int ?h \<le> (of_int m * 2 ^ nat (- last_bit q) :: rat)"
    by (metis of_int_le_iff of_int_mult of_int_numeral of_int_power)
  then have le: "of_int ?h * pow2 (last_bit q) \<le> of_int m" by (simp add: p divide_le_eq)
  have "0 \<le> ?h" using q pow2_pos [of "last_bit q"] by (intro half_even_ge) simp
  then have "0 \<le> of_int ?h * pow2 (last_bit q)" using pow2_pos [of "last_bit q"] by simp
  then show ?thesis using q le by (simp add: flt_def Let_def)
qed (use assms in \<open>simp add: flt_def\<close>)

text \<open>A share is printed as a whole number from 0 to 100.\<close>

lemma percent_bounds:
  assumes "a \<le> b" "0 < b"
  shows "\<exists>n \<le> 100. percent a b = Inr (str_nat n @ ''%'')"
proof -
  let ?q = "flt (of_int (int a) / of_int (int b))"
  have "0 \<le> (of_int (int a) / of_int (int b) :: rat)" "(of_int (int a) / of_int (int b) :: rat) \<le> of_int 1"
    using assms by (simp_all add: divide_le_eq)
  then have "0 \<le> ?q \<and> ?q \<le> of_int 1" by (intro fl_bounds) simp_all
  then have "0 \<le> flt (?q * 100) \<and> flt (?q * 100) \<le> of_int 100" by (intro fl_bounds) simp_all
  then have "0 \<le> half_even (flt (?q * 100)) \<and> half_even (flt (?q * 100)) \<le> 100"
    using half_even_ge [of 0] half_even_le by fastforce
  then have "nat (half_even (flt (?q * 100))) \<le> 100 \<and> percent a b = Inr (str_nat (nat (half_even (flt (?q * 100)))) @ ''%'')"
    using assms(2) by (simp add: percent_def py_div_def py_mul_def fixed0_def str_int_def nat_le_iff)
  then show ?thesis by blast
qed

section \<open>Rounding is monotonic\<close>

lemma pow2_powi: "pow2 k = power_int 2 k"
  by (simp add: pow2_def power_int_def inverse_eq_divide power_one_over)

lemma pow2_add: "pow2 (a + b) = pow2 a * pow2 b"
  by (simp add: pow2_powi power_int_add)

lemma pow2_mono: "a \<le> b \<Longrightarrow> pow2 a \<le> pow2 b"
  by (simp add: pow2_powi power_int_increasing)

lemma bits_bounds: "0 < n \<Longrightarrow> pow2 (bits n - 1) \<le> of_int n \<and> of_int n < pow2 (bits n)"
proof (induction n rule: bits.induct)
  case (1 n)
  show ?case
  proof (cases "n = 1")
    case True
    have "bits 1 = 1" by (simp add: bits.simps)
    then show ?thesis using True by (simp add: pow2_def)
  next
    case False
    then have h: "0 < n div 2" "\<not> n \<le> 0" using 1(2) by auto
    have b: "bits n = bits (n div 2) + 1" using h(2) by (simp add: bits.simps [of n])
    have IH: "pow2 (bits (n div 2) - 1) \<le> of_int (n div 2)" "of_int (n div 2) < pow2 (bits (n div 2))"
      using 1(1) h by auto
    have n: "2 * (n div 2) \<le> n" "n < 2 * (n div 2) + 2" by simp_all
    have two: "pow2 1 = 2" by (simp add: pow2_def)
    have lo: "pow2 (bits n - 1) = 2 * pow2 (bits (n div 2) - 1)" and hi: "pow2 (bits n) = 2 * pow2 (bits (n div 2))"
      using pow2_add [of 1 "bits (n div 2) - 1"] pow2_add [of 1 "bits (n div 2)"] two b by (simp_all add: add.commute)
    have pos: "0 \<le> bits k" for k by (induction k rule: bits.induct) (subst bits.simps, auto)
    have "pow2 (bits (n div 2)) = of_int (2 ^ nat (bits (n div 2)))" using pos [of "n div 2"] by (simp add: pow2_def)
    then have "n div 2 + 1 \<le> 2 ^ nat (bits (n div 2))" using IH(2) by (metis of_int_less_iff zless_imp_add1_zle)
    then have "n < 2 * 2 ^ nat (bits (n div 2))" using n(2) by linarith
    then have "of_int n < (of_int (2 * 2 ^ nat (bits (n div 2))) :: rat)" using of_int_less_iff by blast
    then have up: "of_int n < pow2 (bits n)" using hi \<open>pow2 (bits (n div 2)) = _\<close> by simp
    have "(of_int (2 * (n div 2)) :: rat) \<le> of_int n" using n(1) of_int_le_iff by blast
    then have "pow2 (bits n - 1) \<le> of_int n" using IH(1) lo by simp
    with up show ?thesis by blast
  qed
qed

lemma last_bit_range:
  assumes "0 < q" shows "2 ^ 52 \<le> q / pow2 (last_bit q) \<and> q / pow2 (last_bit q) < 2 ^ 53"
proof -
  obtain n d where nd: "quotient_of q = (n, d)" by fastforce
  have d: "0 < d" and q: "q = of_int n / of_int d"
    using quotient_of_denom_pos [OF nd] quotient_of_div [OF nd] by simp_all
  have n: "0 < n" using assms q d by (simp add: zero_less_divide_iff)
  define e where "e = bits n - bits d - 53"
  note bn = bits_bounds [OF n] and bd = bits_bounds [OF d]
  have p: "0 < pow2 k" for k by (rule pow2_pos)
  have dq: "0 < (of_int d :: rat)" using d by simp
  have k: "pow2 52 = 2 ^ 52" "pow2 53 = 2 ^ 53" "pow2 54 = 2 ^ 54" "pow2 1 = 2" by (simp_all add: pow2_def)
  have "2 ^ 52 * pow2 e * of_int d \<le> pow2 (bits n - 1)"
  proof -
    have "pow2 (bits n - 1) = pow2 52 * pow2 e * pow2 (bits d)" by (simp add: e_def flip: pow2_add)
    then show ?thesis using bd p [of e] k by (simp add: mult_left_mono)
  qed
  then have "2 ^ 52 * pow2 e * of_int d \<le> of_int n" using bn by linarith
  then have lo: "2 ^ 52 \<le> q / pow2 e" using p [of e] dq by (simp add: q le_divide_eq mult.commute mult.left_commute)
  have "pow2 (bits n) \<le> 2 ^ 54 * pow2 e * of_int d"
  proof -
    have "pow2 (bits n) = pow2 54 * pow2 e * pow2 (bits d - 1)" by (simp add: e_def flip: pow2_add)
    then show ?thesis using bd p [of e] k by (simp add: mult_left_mono)
  qed
  then have "of_int n < 2 ^ 54 * pow2 e * of_int d" using bn by linarith
  then have hi: "q / pow2 e < 2 ^ 54" using p [of e] dq by (simp add: q divide_less_eq mult.commute mult.left_commute)
  have next_e: "pow2 (e + 1) = 2 * pow2 e" using pow2_add [of 1 e] k by (simp add: add.commute)
  show ?thesis
  proof (cases "q / pow2 e < 2 ^ 53")
    case True
    then have "last_bit q = e" by (simp add: last_bit_def nd e_def Let_def)
    then show ?thesis using lo True by simp
  next
    case False
    then have "last_bit q = e + 1" by (simp add: last_bit_def nd e_def Let_def)
    moreover have "q / (2 * pow2 e) = q / pow2 e / 2" by simp
    ultimately show ?thesis using False hi next_e by simp
  qed
qed

lemma fl_mono_pos:
  assumes "0 < p" "p \<le> q" shows "flt p \<le> flt q"
proof -
  define e f where "e = last_bit p" and "f = last_bit q"
  have q: "0 < q" using assms by simp
  note rp = last_bit_range [OF assms(1), folded e_def] and rq = last_bit_range [OF q, folded f_def]
  have P: "flt p = of_int (half_even (p / pow2 e)) * pow2 e" and Q: "flt q = of_int (half_even (q / pow2 f)) * pow2 f"
    using assms(1) q by (simp_all add: flt_def e_def f_def Let_def)
  have pos: "0 < pow2 k" for k by (rule pow2_pos)
  consider "e = f" | "e < f" | "f < e" by linarith
  then show ?thesis
  proof cases
    case 1
    have "p / pow2 e \<le> q / pow2 e" using assms(2) pos [of e] by (simp add: divide_right_mono)
    then have "half_even (p / pow2 e) \<le> half_even (q / pow2 e)" by (rule half_even_mono)
    then show ?thesis using P Q 1 pos [of e] by simp
  next
    case 2
    have "half_even (p / pow2 e) \<le> 2 ^ 53" by (rule half_even_le) (use rp in simp)
    then have "(of_int (half_even (p / pow2 e)) :: rat) \<le> of_int (2 ^ 53)" using of_int_le_iff by blast
    then have "flt p \<le> 2 ^ 53 * pow2 e" using P pos [of e] by simp
    also have "\<dots> = pow2 (53 + e)" by (simp add: pow2_add pow2_def [of 53])
    also have "\<dots> \<le> pow2 (52 + f)" using 2 by (intro pow2_mono) simp
    also have "\<dots> = 2 ^ 52 * pow2 f" by (simp add: pow2_add pow2_def [of 52])
    also have "\<dots> \<le> flt q"
    proof -
      have "2 ^ 52 \<le> half_even (q / pow2 f)" by (rule half_even_ge) (use rq in simp)
      then have "(of_int (2 ^ 52) :: rat) \<le> of_int (half_even (q / pow2 f))" using of_int_le_iff by blast
      then show ?thesis using Q pos [of f] by simp
    qed
    finally show ?thesis .
  next
    case 3
    have "q < 2 ^ 53 * pow2 f" using rq pos [of f] by (simp add: divide_less_eq)
    also have "\<dots> = pow2 (53 + f)" by (simp add: pow2_add pow2_def [of 53])
    also have "\<dots> \<le> pow2 (52 + e)" using 3 by (intro pow2_mono) simp
    also have "\<dots> = 2 ^ 52 * pow2 e" by (simp add: pow2_add pow2_def [of 52])
    also have "\<dots> \<le> p" using rp pos [of e] by (simp add: le_divide_eq)
    finally show ?thesis using assms(2) by simp
  qed
qed

lemma fl_pos: "0 < q \<Longrightarrow> 0 < flt q"
proof -
  assume q: "0 < q"
  have "2 ^ 52 \<le> half_even (q / pow2 (last_bit q))" by (rule half_even_ge) (use last_bit_range [OF q] in simp)
  then have "(0 :: int) < half_even (q / pow2 (last_bit q))" by (rule less_le_trans [rotated]) simp
  then show ?thesis using q pow2_pos [of "last_bit q"] by (simp add: flt_def Let_def)
qed

lemma fl_mono: "0 \<le> p \<Longrightarrow> p \<le> q \<Longrightarrow> flt p \<le> flt q"
  using fl_mono_pos [of p q] fl_pos [of q] by (cases "p = 0"; cases "q = 0") (auto simp: flt_def)

lemma fl_nonneg: "0 \<le> q \<Longrightarrow> 0 \<le> flt q"
  using fl_pos [of q] by (cases "q = 0") (auto simp: flt_def)

end
