(* ===== verification/Item_Tracker.thy ===== *)
theory Item_Tracker
  imports Py_Float
begin

text \<open>
  \<open>core/tracker/core.py\<close>: the persistent item tracker. Items live in a dictionary keyed by their
  id; edges are kept in both directions (\<open>depends_on\<close>, \<open>dependents\<close>); every mutation writes the
  whole tracker to its JSON file, modelled by the value the file holds (\<open>disk\<close>).
\<close>

section \<open>Data\<close>

text \<open>\<open>ItemStatus\<close> and \<open>ItemFlavor\<close> are string enums: their members are their values.\<close>

definition PENDING :: string where "PENDING = ''pending''"
definition IN_PROGRESS :: string where "IN_PROGRESS = ''in_progress''"
definition COMPLETED :: string where "COMPLETED = ''completed''"
definition FAILED :: string where "FAILED = ''failed''"
definition DELETED :: string where "DELETED = ''deleted''"

lemmas status_defs = PENDING_def IN_PROGRESS_def COMPLETED_def FAILED_def DELETED_def

definition TERMINAL :: "string list" where "TERMINAL = [COMPLETED, DELETED]"
definition RESET_ON_UPDATE :: "string list" where "RESET_ON_UPDATE = [FAILED]"
definition STATUSES :: "string list" where
  "STATUSES = [PENDING, IN_PROGRESS, COMPLETED, FAILED, DELETED]"

datatype item_flavor = TASK | ISSUE | GOAL

fun flavor_value :: "item_flavor \<Rightarrow> string" where
  "flavor_value TASK = ''task''"
| "flavor_value ISSUE = ''issue''"
| "flavor_value GOAL = ''goal''"

text \<open>An item id argument is a string or an int; the tracker uses \<open>str(item_id)\<close>.\<close>

datatype id_arg = IdStr string | IdInt int

fun str_id :: "id_arg \<Rightarrow> string" where
  "str_id (IdStr s) = s"
| "str_id (IdInt i) = str_int i"

text \<open>A keyword argument whose default is the private sentinel: not given, or given a value.\<close>

datatype 'a kwarg = Unset | Given 'a

record item =
  it_id :: string
  it_title :: string
  it_description :: string
  it_status :: string
  it_flavor :: string
  it_depends_on :: "string list"
  it_dependents :: "string list"
  it_owner :: "string option"
  it_active_form :: "string option"
  it_attempts :: int
  it_metadata :: "(string, json) dict"

record tracker =
  tk_default_flavor :: string
  tk_items :: "(string, item) dict"
  tk_next_id :: int
  tk_max_id_ever :: int
  tk_disk :: "json option"

text \<open>\<open>_sort_key\<close>: numeric ids first, by value, then the others lexicographically.\<close>

datatype skey = NumKey nat | StrKey string

definition sort_key_of :: "item \<Rightarrow> skey" where
  "sort_key_of i = (let k = it_id i in if isdigit k then NumKey (nat_of_digits k) else StrKey k)"

instantiation skey :: linorder
begin

fun less_eq_skey :: "skey \<Rightarrow> skey \<Rightarrow> bool" where
  "less_eq_skey (NumKey m) (NumKey n) = (m \<le> n)"
| "less_eq_skey (NumKey m) (StrKey t) = True"
| "less_eq_skey (StrKey s) (NumKey n) = False"
| "less_eq_skey (StrKey s) (StrKey t) = (s \<le> t)"

definition less_skey :: "skey \<Rightarrow> skey \<Rightarrow> bool" where
  "less_skey a b = (a \<le> b \<and> \<not> b \<le> a)"

instance
proof
  fix x y z :: skey
  show "(x < y) = (x \<le> y \<and> \<not> y \<le> x)" by (simp add: less_skey_def)
  show "x \<le> x" by (cases x) auto
  show "x \<le> y \<Longrightarrow> y \<le> z \<Longrightarrow> x \<le> z" by (cases x; cases y; cases z) auto
  show "x \<le> y \<Longrightarrow> y \<le> x \<Longrightarrow> x = y" by (cases x; cases y) auto
  show "x \<le> y \<or> y \<le> x" by (cases x; cases y) auto
qed

end

section \<open>Persistence\<close>

definition json_opt :: "string option \<Rightarrow> json" where
  "json_opt s = (case s of None \<Rightarrow> JNull | Some x \<Rightarrow> JStr x)"

definition item_json :: "item \<Rightarrow> json" where
  "item_json i = JObj
    [(''id'', JStr (it_id i)), (''title'', JStr (it_title i)),
     (''description'', JStr (it_description i)), (''status'', JStr (it_status i)),
     (''flavor'', JStr (it_flavor i)), (''depends_on'', JArr (map JStr (it_depends_on i))),
     (''dependents'', JArr (map JStr (it_dependents i))), (''owner'', json_opt (it_owner i)),
     (''active_form'', json_opt (it_active_form i)), (''attempts'', JInt (it_attempts i)),
     (''metadata'', JObj (it_metadata i))]"

text \<open>
  \<open>_save\<close>: the payload goes to a temporary file that then replaces the tracker file, so the file
  holds either the old value or the new one.
\<close>

definition save :: "tracker \<Rightarrow> tracker" where
  "save t = t\<lparr>tk_disk := Some (JObj
     [(''kind'', JStr (tk_default_flavor t)), (''max_id'', JInt (tk_max_id_ever t)),
      (''items'', JArr (map item_json (dvals (tk_items t))))])\<rparr>"

text \<open>One item of the file, with the defaults the loader fills in; \<open>title\<close>, \<open>description\<close> and
  \<open>status\<close>, which every saved item has, are required.\<close>

definition load_item :: "string \<Rightarrow> json \<Rightarrow> item result" where
  "load_item kind j =
     rbind (as_obj j) (\<lambda>d.
     rbind (as_str (dget_or d ''flavor'' (JStr kind))) (\<lambda>fl.
     rbind (field d ''id'') (\<lambda>idv.
     rbind (as_strs (dget_or d ''depends_on'' (JArr []))) (\<lambda>deps.
     rbind (as_raw_strs (dget_or d ''dependents'' (JArr []))) (\<lambda>dpts.
     rbind (as_opt (dget_or d ''owner'' JNull)) (\<lambda>ow.
     rbind (as_opt (dget_or d ''active_form'' JNull)) (\<lambda>af.
     rbind (as_int (dget_or d ''attempts'' (JInt 0))) (\<lambda>att.
     rbind (as_obj (dget_or d ''metadata'' (JObj []))) (\<lambda>md.
     rbind (field d ''title'') (\<lambda>ti. rbind (as_str ti) (\<lambda>tis.
     rbind (field d ''description'') (\<lambda>de. rbind (as_str de) (\<lambda>des.
     rbind (field d ''status'') (\<lambda>st. rbind (as_str st) (\<lambda>sts.
     Inr \<lparr>it_id = str_json idv, it_title = tis, it_description = des, it_status = sts,
          it_flavor = fl, it_depends_on = deps, it_dependents = dpts, it_owner = ow,
          it_active_form = af, it_attempts = att, it_metadata = md\<rparr>)))))))))))))))"

definition lacks_dependents :: "json \<Rightarrow> bool" where
  "lacks_dependents j = (case j of JObj d \<Rightarrow> \<not> has_key d ''dependents'' | _ \<Rightarrow> True)"

definition add_dependent :: "string \<Rightarrow> (string, item) dict \<Rightarrow> string \<Rightarrow> (string, item) dict" where
  "add_dependent key its dep =
     dmodify its dep (\<lambda>j. j\<lparr>it_dependents := it_dependents j @ [key]\<rparr>)"

text \<open>The one-time migration: \<open>dependents\<close> rebuilt from the \<open>depends_on\<close> edges.\<close>

definition rebuild_dependents :: "(string, item) dict \<Rightarrow> (string, item) dict" where
  "rebuild_dependents its =
     foldl (\<lambda>acc i. foldl (add_dependent (it_id i)) acc (it_depends_on i))
       (map (\<lambda>(k, i). (k, i\<lparr>it_dependents := []\<rparr>)) its) (dvals its)"

definition max_digit_id :: "(string, item) dict \<Rightarrow> int \<Rightarrow> int" where
  "max_digit_id its m =
     foldl (\<lambda>a k. if isdigit k then max a (int (nat_of_digits k)) else a) m (dkeys its)"

text \<open>\<open>__init__\<close> and \<open>_load\<close>: an absent file is an empty tracker.\<close>

definition empty_tracker :: "string \<Rightarrow> tracker" where
  "empty_tracker fl = \<lparr>tk_default_flavor = fl, tk_items = [], tk_next_id = 1,
     tk_max_id_ever = 0, tk_disk = None\<rparr>"

definition load :: "string \<Rightarrow> json option \<Rightarrow> tracker result" where
  "load fl disk = (case disk of
     None \<Rightarrow> Inr (empty_tracker fl)
   | Some j \<Rightarrow>
       rbind (as_obj j) (\<lambda>data.
       rbind (as_str (dget_or data ''kind'' (JStr fl))) (\<lambda>kind.
       rbind (as_list (dget_or data ''items'' (JArr []))) (\<lambda>js.
       rbind (mapM (load_item kind) js) (\<lambda>is.
       rbind (as_int (dget_or data ''max_id'' (JInt 0))) (\<lambda>m.
         let its = foldl (\<lambda>acc i. dset acc (it_id i) i) [] is;
             mx = max_digit_id its m
         in Inr \<lparr>tk_default_flavor = fl,
                 tk_items = (if list_ex lacks_dependents js then rebuild_dependents its else its),
                 tk_next_id = mx + 1, tk_max_id_ever = mx, tk_disk = disk\<rparr>))))))"

section \<open>Mutations\<close>

definition new_item :: "string \<Rightarrow> string \<Rightarrow> string \<Rightarrow> string \<Rightarrow> string list \<Rightarrow> string option \<Rightarrow>
    string option \<Rightarrow> (string, json) dict \<Rightarrow> item" where
  "new_item k ti de fl deps ow af md =
     \<lparr>it_id = k, it_title = ti, it_description = de, it_status = PENDING, it_flavor = fl,
      it_depends_on = deps, it_dependents = [], it_owner = ow, it_active_form = af,
      it_attempts = 0, it_metadata = md\<rparr>"

text \<open>\<open>flavor or self.default_flavor\<close>: the empty string also means the default.\<close>

definition or_default :: "string option \<Rightarrow> string \<Rightarrow> string" where
  "or_default s d = (case s of None \<Rightarrow> d | Some x \<Rightarrow> (if x = [] then d else x))"

text \<open>The id an \<open>add\<close> uses and the id counters after it was chosen.\<close>

definition choose_id :: "tracker \<Rightarrow> id_arg option \<Rightarrow> (string \<times> tracker) result" where
  "choose_id t item_id = (case item_id of
     Some a \<Rightarrow>
       (let k = str_id a in
        if has_key (tk_items t) k then Inl (ValueError (''Item '' @ k @ '' already exists''))
        else if isdigit k
        then Inr (k, t\<lparr>tk_next_id := max (tk_next_id t) (int (nat_of_digits k) + 1),
                      tk_max_id_ever := max (tk_max_id_ever t) (int (nat_of_digits k))\<rparr>)
        else Inr (k, t))
   | None \<Rightarrow>
       Inr (str_int (tk_next_id t),
            t\<lparr>tk_max_id_ever := max (tk_max_id_ever t) (tk_next_id t),
              tk_next_id := tk_next_id t + 1\<rparr>))"

definition insert_item :: "tracker \<Rightarrow> item \<Rightarrow> tracker" where
  "insert_item t i =
     t\<lparr>tk_items := foldl (add_dependent (it_id i)) (dset (tk_items t) (it_id i) i) (it_depends_on i)\<rparr>"

text \<open>
  \<open>add\<close>. A \<open>ValueError\<close> leaves the \<open>with self._mutate()\<close> block before anything was written, so
  neither the memory nor the file changes.
\<close>

definition add :: "tracker \<Rightarrow> string \<Rightarrow> string \<Rightarrow> id_arg list \<Rightarrow> (string, json) dict \<Rightarrow>
    id_arg option \<Rightarrow> string option \<Rightarrow> string option \<Rightarrow> string option \<Rightarrow>
    (string \<times> tracker) result" where
  "add t ti de dep_args md item_id ow af fl =
     (let deps = map str_id dep_args;
          unknown = filter (\<lambda>d. \<not> has_key (tk_items t) d) deps
      in if unknown \<noteq> [] then Inl (ValueError (''Unknown dependency IDs: '' @ repr_strs unknown))
         else rbind (choose_id t item_id) (\<lambda>(k, t').
           Inr (k, save (insert_item t'
             (new_item k ti de (or_default fl (tk_default_flavor t')) deps ow af md)))))"

section \<open>update\<close>

record update_args =
  ua_title :: "string option"
  ua_description :: "string option"
  ua_status :: "string option"
  ua_depends_on :: "id_arg list option"
  ua_metadata :: "(string, json) dict option"
  ua_owner :: "string option kwarg"
  ua_active_form :: "string option kwarg"

definition no_update :: update_args where
  "no_update = \<lparr>ua_title = None, ua_description = None, ua_status = None, ua_depends_on = None,
     ua_metadata = None, ua_owner = Unset, ua_active_form = Unset\<rparr>"

text \<open>The validation part: the message of the first check that fails.\<close>

definition invalid_deps :: "tracker \<Rightarrow> string \<Rightarrow> id_arg list \<Rightarrow> string list" where
  "invalid_deps t key ds =
     filter (\<lambda>d. \<not> has_key (tk_items t) d \<or> d = key) (map str_id ds)"

definition quoted :: "string \<Rightarrow> string" where
  "quoted s = [CHR 0x27] @ s @ [CHR 0x27]"

definition owner_error :: "string \<Rightarrow> item \<Rightarrow> string option kwarg \<Rightarrow> string option" where
  "owner_error key i ow = (case ow of
     Given (Some w) \<Rightarrow>
       (case it_owner i of
          None \<Rightarrow> (if it_status i \<in> set TERMINAL
                 then Some (''Error: item '' @ key @ '' is '' @ it_status i @ '' (terminal).'')
                 else None)
        | Some v \<Rightarrow> (if v \<noteq> w
                   then Some (''Error: item '' @ key @ '' is already owned by '' @ quoted v @ ''.'')
                   else None))
   | _ \<Rightarrow> None)"

definition deps_error :: "tracker \<Rightarrow> string \<Rightarrow> id_arg list option \<Rightarrow> string option" where
  "deps_error t key deps = (case deps of
     None \<Rightarrow> None
   | Some ds \<Rightarrow> (let unknown = invalid_deps t key ds in
                if unknown \<noteq> [] then Some (''Error: invalid dependency IDs: '' @ repr_strs unknown @ ''.'')
                else None))"

definition status_error :: "string option \<Rightarrow> string option" where
  "status_error st = (case st of
     None \<Rightarrow> None
   | Some s \<Rightarrow> (if s \<notin> set STATUSES
                then Some (''Error: '' @ quoted s @ '' is not a valid status. Valid: ''
                           @ join '', '' STATUSES @ ''.'')
                else None))"

definition update_error :: "tracker \<Rightarrow> string \<Rightarrow> item \<Rightarrow> update_args \<Rightarrow> string option" where
  "update_error t key i a =
     (case owner_error key i (ua_owner a) of
        Some e \<Rightarrow> Some e
      | None \<Rightarrow> (case deps_error t key (ua_depends_on a) of
          Some e \<Rightarrow> Some e
        | None \<Rightarrow> status_error (ua_status a)))"

text \<open>The mutating part, statement by statement, on the stored item with this key.\<close>

definition set_owner :: "update_args \<Rightarrow> item \<Rightarrow> item" where
  "set_owner a i = (case ua_owner a of
     Unset \<Rightarrow> i
   | Given None \<Rightarrow> i\<lparr>it_owner := None\<rparr>
   | Given (Some w) \<Rightarrow>
       (if it_status i \<notin> set TERMINAL \<and> ua_status a = None
        then i\<lparr>it_owner := Some w, it_status := IN_PROGRESS\<rparr>
        else i\<lparr>it_owner := Some w\<rparr>))"

definition remove_dependent :: "string \<Rightarrow> (string, item) dict \<Rightarrow> string \<Rightarrow> (string, item) dict" where
  "remove_dependent key its dep =
     dmodify its dep (\<lambda>j. j\<lparr>it_dependents := filter (\<lambda>d. d \<noteq> key) (it_dependents j)\<rparr>)"

definition set_edges :: "string \<Rightarrow> string list \<Rightarrow> string list \<Rightarrow> (string, item) dict \<Rightarrow>
    (string, item) dict" where
  "set_edges key old new its =
     (let removed = filter (\<lambda>d. d \<notin> set new) (remdups old);
          added = filter (\<lambda>d. d \<notin> set old) (remdups new);
          its1 = foldl (remove_dependent key) its removed;
          its2 = foldl (add_dependent key) its1 added
      in dmodify its2 key (\<lambda>i. i\<lparr>it_depends_on := new\<rparr>))"

definition set_fields :: "update_args \<Rightarrow> item \<Rightarrow> item" where
  "set_fields a i0 =
     (let i1 = (case ua_title a of None \<Rightarrow> i0 | Some x \<Rightarrow> i0\<lparr>it_title := x\<rparr>);
          i2 = (case ua_description a of None \<Rightarrow> i1 | Some x \<Rightarrow> i1\<lparr>it_description := x\<rparr>);
          i3 = (case ua_metadata a of None \<Rightarrow> i2 | Some m \<Rightarrow> i2\<lparr>it_metadata := dupdate (it_metadata i2) m\<rparr>);
          i4 = (case ua_active_form a of Unset \<Rightarrow> i3 | Given x \<Rightarrow> i3\<lparr>it_active_form := x\<rparr>);
          i5 = (if it_status i4 \<in> set RESET_ON_UPDATE then i4\<lparr>it_status := PENDING\<rparr> else i4)
      in (case ua_status a of None \<Rightarrow> i5 | Some s \<Rightarrow> i5\<lparr>it_status := s\<rparr>))"

definition update :: "tracker \<Rightarrow> id_arg \<Rightarrow> update_args \<Rightarrow> string \<times> tracker" where
  "update t item_id a =
     (let key = str_id item_id in
      case dget (tk_items t) key of
        None \<Rightarrow> (''Error: item '' @ key @ '' not found.'', t)
      | Some i \<Rightarrow>
          (case update_error t key i a of
             Some e \<Rightarrow> (e, t)
           | None \<Rightarrow>
               let its1 = dmodify (tk_items t) key (set_owner a);
                   its2 = (case ua_depends_on a of
                             None \<Rightarrow> its1
                           | Some ds \<Rightarrow> set_edges key (it_depends_on i) (map str_id ds) its1);
                   its3 = dmodify its2 key (set_fields a)
               in (''Item '' @ key @ '' updated.'', save (t\<lparr>tk_items := its3\<rparr>))))"

section \<open>Bulk changes\<close>

definition bulk_transition :: "tracker \<Rightarrow> string \<Rightarrow> string \<Rightarrow> tracker" where
  "bulk_transition t from_status to_status =
     (if filter (\<lambda>i. it_status i = from_status) (dvals (tk_items t)) = [] then t
      else save (t\<lparr>tk_items := map (\<lambda>(k, i).
             (k, if it_status i = from_status then i\<lparr>it_status := to_status\<rparr> else i)) (tk_items t)\<rparr>))"

definition sync_one :: "(string, item) dict \<Rightarrow> id_arg \<times> string \<times> (string, json) dict \<Rightarrow>
    (string, item) dict" where
  "sync_one its u = (case u of (item_id, st, patch) \<Rightarrow>
     dmodify its (str_id item_id)
       (\<lambda>i. i\<lparr>it_status := st, it_metadata := dupdate (it_metadata i) patch\<rparr>))"

definition sync_applicable :: "tracker \<Rightarrow> id_arg \<Rightarrow> bool" where
  "sync_applicable t item_id = (case dget (tk_items t) (str_id item_id) of
     None \<Rightarrow> False | Some i \<Rightarrow> it_status i \<notin> set TERMINAL)"

definition sync_statuses :: "tracker \<Rightarrow> (id_arg \<times> string \<times> (string, json) dict) list \<Rightarrow> tracker" where
  "sync_statuses t updates =
     (let applicable = filter (\<lambda>(k, _). sync_applicable t k) updates
      in if applicable = [] then t
         else save (t\<lparr>tk_items := foldl sync_one (tk_items t) applicable\<rparr>))"

section \<open>Queries\<close>

definition get :: "tracker \<Rightarrow> id_arg \<Rightarrow> item option" where
  "get t item_id = dget (tk_items t) (str_id item_id)"

definition sorted_items :: "tracker \<Rightarrow> item list" where
  "sorted_items t = sort_key sort_key_of (dvals (tk_items t))"

definition matches_query :: "string \<Rightarrow> item \<Rightarrow> bool" where
  "matches_query q i =
     contains (lower (it_id i @ '' '' @ it_title i @ '' '' @ it_description i)) (lower q)"

definition list_items :: "tracker \<Rightarrow> string option \<Rightarrow> string option \<Rightarrow> string option \<Rightarrow> item list" where
  "list_items t st fl q =
     (let is0 = sorted_items t;
          is1 = (case st of None \<Rightarrow> is0 | Some s \<Rightarrow> filter (\<lambda>i. it_status i = s) is0);
          is2 = (case fl of None \<Rightarrow> is1 | Some f \<Rightarrow> filter (\<lambda>i. it_flavor i = f) is1)
      in (case q of None \<Rightarrow> is2 | Some s \<Rightarrow> filter (matches_query s) is2))"

definition terminal_dep :: "tracker \<Rightarrow> string \<Rightarrow> bool" where
  "terminal_dep t d = (case dget (tk_items t) d of
     None \<Rightarrow> False | Some j \<Rightarrow> it_status j \<in> set TERMINAL)"

definition ready :: "tracker \<Rightarrow> item list" where
  "ready t = filter (\<lambda>i. it_status i = PENDING \<and> list_all (terminal_dep t) (it_depends_on i))
     (sorted_items t)"

definition count_status :: "tracker \<Rightarrow> string \<Rightarrow> nat" where
  "count_status t s = length (filter (\<lambda>i. it_status i = s) (dvals (tk_items t)))"

text \<open>\<open>summary\<close>; the completion rate is a float.\<close>

record tracker_summary =
  ts_kind :: string
  ts_total :: nat
  ts_counts :: "(string, nat) dict"
  ts_completion_rate :: rat

definition summary :: "tracker \<Rightarrow> tracker_summary" where
  "summary t =
     (let counts = map (\<lambda>s. (s, count_status t s)) STATUSES;
          total = length (tk_items t);
          terminal_count = sum_list (map (\<lambda>s. dget_or counts s 0) TERMINAL)
      in \<lparr>ts_kind = tk_default_flavor t, ts_total = total, ts_counts = counts,
          ts_completion_rate = (if total = 0 then 0 else flt (of_nat terminal_count / of_nat total))\<rparr>)"

section \<open>Scheduling operations\<close>

definition mark_in_progress :: "tracker \<Rightarrow> string \<Rightarrow> tracker" where
  "mark_in_progress t item_id =
     (if \<not> has_key (tk_items t) item_id then t
      else save (t\<lparr>tk_items := dmodify (tk_items t) item_id
        (\<lambda>i. i\<lparr>it_status := IN_PROGRESS, it_attempts := it_attempts i + 1\<rparr>)\<rparr>))"

definition record_result :: "tracker \<Rightarrow> string \<Rightarrow> bool \<Rightarrow> string \<times> tracker" where
  "record_result t item_id success =
     (if \<not> has_key (tk_items t) item_id then (''failed'', t)
      else if success
      then (''completed'', save (t\<lparr>tk_items := dmodify (tk_items t) item_id (\<lambda>i. i\<lparr>it_status := COMPLETED\<rparr>)\<rparr>))
      else (''failed'', save (t\<lparr>tk_items := dmodify (tk_items t) item_id (\<lambda>i. i\<lparr>it_status := FAILED\<rparr>)\<rparr>)))"

definition has_pending :: "tracker \<Rightarrow> bool" where
  "has_pending t = list_ex (\<lambda>i. it_status i \<notin> set TERMINAL) (dvals (tk_items t))"

definition get_attempts :: "tracker \<Rightarrow> string \<Rightarrow> int" where
  "get_attempts t item_id = (case dget (tk_items t) item_id of None \<Rightarrow> 0 | Some i \<Rightarrow> it_attempts i)"

section \<open>Histories\<close>

text \<open>A mutating call, with a rejected one leaving the tracker as it is.\<close>

datatype tracker_op =
    OpAdd string string "id_arg list" "(string, json) dict" "id_arg option"
      "string option" "string option" "string option"
  | OpUpdate id_arg update_args
  | OpBulk string string
  | OpSync "(id_arg \<times> string \<times> (string, json) dict) list"
  | OpMark string
  | OpRecord string bool

fun run_op :: "tracker \<Rightarrow> tracker_op \<Rightarrow> tracker" where
  "run_op t (OpAdd ti de ds md a ow af fl) =
     (case add t ti de ds md a ow af fl of Inl e \<Rightarrow> t | Inr (k, t') \<Rightarrow> t')"
| "run_op t (OpUpdate a ua) = snd (update t a ua)"
| "run_op t (OpBulk a b) = bulk_transition t a b"
| "run_op t (OpSync us) = sync_statuses t us"
| "run_op t (OpMark k) = mark_in_progress t k"
| "run_op t (OpRecord k ok) = snd (record_result t k ok)"

definition run_ops :: "tracker \<Rightarrow> tracker_op list \<Rightarrow> tracker" where
  "run_ops = foldl run_op"

end
