(* ===== verification/Item_Tracker_Correct.thy ===== *)
theory Item_Tracker_Correct
  imports Item_Tracker
begin

text \<open>
  Correctness of the item tracker: the structural invariant and its preservation by every
  mutation, freshness of generated ids, what \<open>ready\<close> selects, the claim rule of \<open>update\<close>, the save
  and load round trip, and progress of the dependency order.
\<close>

section \<open>The edge relations\<close>

definition edge :: "(string, item) dict \<Rightarrow> string \<Rightarrow> string \<Rightarrow> bool" where
  "edge its k d = (case dget its k of None \<Rightarrow> False | Some i \<Rightarrow> d \<in> set (it_depends_on i))"

definition back_edge :: "(string, item) dict \<Rightarrow> string \<Rightarrow> string \<Rightarrow> bool" where
  "back_edge its d k = (case dget its d of None \<Rightarrow> False | Some j \<Rightarrow> k \<in> set (it_dependents j))"

text \<open>
  The structural invariant: keys are the items' ids, the two edge relations are mutual, no item
  depends on itself, and the counters are above every numeric id.
\<close>

definition wf_items :: "(string, item) dict \<Rightarrow> bool" where
  "wf_items its \<longleftrightarrow> wf_dict its \<and> (\<forall>k i. dget its k = Some i \<longrightarrow> it_id i = k) \<and>
     (\<forall>k d. edge its k d \<longleftrightarrow> back_edge its d k) \<and> (\<forall>k. \<not> edge its k k)"

definition wf_counters :: "tracker \<Rightarrow> bool" where
  "wf_counters t \<longleftrightarrow> tk_next_id t = tk_max_id_ever t + 1 \<and> 0 \<le> tk_max_id_ever t \<and>
     (\<forall>k i. dget (tk_items t) k = Some i \<longrightarrow> isdigit k \<longrightarrow> int (nat_of_digits k) \<le> tk_max_id_ever t)"

definition wf_tracker :: "tracker \<Rightarrow> bool" where
  "wf_tracker t \<longleftrightarrow> wf_items (tk_items t) \<and> wf_counters t"

lemma map_sum_InrE:
  assumes "map_sum f g x = Inr y" obtains z where "x = Inr z" "y = g z"
  using assms by (cases x) auto

named_theorems tracker_frame

lemma save_frame [simp]:
  "tk_items (save t) = tk_items t" "tk_next_id (save t) = tk_next_id t"
  "tk_max_id_ever (save t) = tk_max_id_ever t" "tk_default_flavor (save t) = tk_default_flavor t"
  by (simp_all add: save_def)

lemma wf_counters_save [simp]: "wf_counters (save t) = wf_counters t"
  by (simp add: wf_counters_def)

lemma wf_tracker_save [simp]: "wf_tracker (save t) = wf_tracker t"
  by (simp add: wf_tracker_def)

text \<open>Functions on items that leave the id and both edge lists alone.\<close>

definition keeps_edges :: "(item \<Rightarrow> item) \<Rightarrow> bool" where
  "keeps_edges f \<longleftrightarrow> (\<forall>i. it_id (f i) = it_id i \<and> it_depends_on (f i) = it_depends_on i \<and>
     it_dependents (f i) = it_dependents i)"

lemma keeps_edgesI:
  "(\<And>i. it_id (f i) = it_id i) \<Longrightarrow> (\<And>i. it_depends_on (f i) = it_depends_on i) \<Longrightarrow>
   (\<And>i. it_dependents (f i) = it_dependents i) \<Longrightarrow> keeps_edges f"
  by (simp add: keeps_edges_def)

lemma keeps_edges_set_owner: "keeps_edges (set_owner a)"
  by (rule keeps_edgesI) (auto simp: set_owner_def split: kwarg.splits option.splits)

lemma keeps_edges_set_fields: "keeps_edges (set_fields a)"
  by (rule keeps_edgesI)
     (auto simp: set_fields_def Let_def split: option.splits kwarg.splits)

lemma map_of_map_pairs:
  "map_of (map (\<lambda>(k, i). (k, f i)) its) k = map_option f (map_of its k)"
  by (induction its) auto

lemma edge_dmodify_frame:
  assumes "keeps_edges f"
  shows "edge (dmodify its x f) = edge its" "back_edge (dmodify its x f) = back_edge its"
  using assms by (auto simp: edge_def back_edge_def keeps_edges_def fun_eq_iff split: option.splits)

lemma wf_items_dmodify [tracker_frame]:
  assumes "keeps_edges f" shows "wf_items its \<Longrightarrow> wf_items (dmodify its x f)"
  using assms
  by (simp add: wf_items_def wf_dict_def edge_dmodify_frame) (auto simp: keeps_edges_def)

lemma wf_items_map_pairs:
  assumes "keeps_edges f" "wf_items its"
  shows "wf_items (map (\<lambda>(k, i). (k, f i)) its)"
proof -
  have "map fst (map (\<lambda>(k, i). (k, f i)) its) = map fst its"
    by (simp add: case_prod_beta comp_def)
  then have "wf_dict (map (\<lambda>(k, i). (k, f i)) its)" using assms(2) by (simp only: wf_items_def wf_dict_def)
  moreover have "edge (map (\<lambda>(k, i). (k, f i)) its) = edge its"
    and "back_edge (map (\<lambda>(k, i). (k, f i)) its) = back_edge its"
    using assms(1) by (auto simp: edge_def back_edge_def map_of_map_pairs keeps_edges_def fun_eq_iff split: option.splits)
  ultimately show ?thesis
    using assms by (auto simp: wf_items_def map_of_map_pairs keeps_edges_def)
qed

section \<open>Edge updates\<close>

lemma map_of_add_dependents:
  "map_of (foldl (add_dependent key) its ds) k =
     map_option (\<lambda>j. j\<lparr>it_dependents := it_dependents j @ replicate (count_list ds k) key\<rparr>) (map_of its k)"
proof (induction ds arbitrary: its)
  case Nil
  then show ?case by (simp add: option.map_ident)
next
  case (Cons d ds)
  then show ?case
    by (cases "map_of its k") (auto simp: add_dependent_def)
qed

lemma keys_add_dependents [simp]:
  "map fst (foldl (add_dependent key) its ds) = map fst its"
  by (induction ds arbitrary: its) (auto simp: add_dependent_def)

lemma edge_add_dependents [simp]:
  "edge (foldl (add_dependent key) its ds) = edge its"
  by (auto simp: edge_def map_of_add_dependents fun_eq_iff split: option.splits)

lemma back_edge_add_dependents:
  "back_edge (foldl (add_dependent key) its ds) d k \<longleftrightarrow>
     back_edge its d k \<or> (d \<in> set ds \<and> k = key \<and> dget its d \<noteq> None)"
  by (cases "dget its d") (auto simp: back_edge_def map_of_add_dependents count_list_0_iff)

lemma map_of_remove_dependents:
  "map_of (foldl (remove_dependent key) its ds) k =
     map_option (\<lambda>j. if k \<in> set ds then j\<lparr>it_dependents := filter (\<lambda>d. d \<noteq> key) (it_dependents j)\<rparr> else j)
       (map_of its k)"
proof (induction ds arbitrary: its)
  case Nil
  then show ?case by (simp add: option.map_ident)
next
  case (Cons d ds)
  then show ?case
    by (cases "map_of its k") (auto simp: remove_dependent_def)
qed

lemma keys_remove_dependents [simp]:
  "map fst (foldl (remove_dependent key) its ds) = map fst its"
  by (induction ds arbitrary: its) (auto simp: remove_dependent_def)

lemma edge_remove_dependents [simp]:
  "edge (foldl (remove_dependent key) its ds) = edge its"
  by (auto simp: edge_def map_of_remove_dependents fun_eq_iff split: option.splits)

lemma back_edge_remove_dependents:
  "back_edge (foldl (remove_dependent key) its ds) d k \<longleftrightarrow>
     back_edge its d k \<and> \<not> (d \<in> set ds \<and> k = key)"
  by (cases "dget its d") (auto simp: back_edge_def map_of_remove_dependents)

text \<open>Replacing the dependency list of one item keeps the two relations mutual.\<close>

lemma ids_add_remove:
  assumes "\<forall>k i. dget its k = Some i \<longrightarrow> it_id i = k"
  shows "\<forall>k i. dget (foldl (add_dependent key) (foldl (remove_dependent key') its rs) ds) k = Some i
           \<longrightarrow> it_id i = k"
  using assms by (auto simp: map_of_add_dependents map_of_remove_dependents)

lemma edge_set_deps:
  "edge (dmodify its key (\<lambda>i. i\<lparr>it_depends_on := new\<rparr>)) k d \<longleftrightarrow>
     (if k = key then d \<in> set new \<and> dget its key \<noteq> None else edge its k d)"
  by (cases "dget its k") (auto simp: edge_def)

lemma back_edge_set_deps [simp]:
  "back_edge (dmodify its key (\<lambda>i. i\<lparr>it_depends_on := new\<rparr>)) = back_edge its"
  by (auto simp: back_edge_def fun_eq_iff split: option.splits)

lemma back_edge_set_edges:
  "back_edge (set_edges key old new its) d k \<longleftrightarrow>
     (back_edge its d k \<and> \<not> (d \<in> set old \<and> d \<notin> set new \<and> k = key)) \<or>
     (d \<in> set new \<and> d \<notin> set old \<and> k = key \<and> dget its d \<noteq> None)"
  by (auto simp: set_edges_def Let_def back_edge_add_dependents back_edge_remove_dependents
      map_of_remove_dependents)

lemma edge_set_edges:
  "edge (set_edges key old new its) k d \<longleftrightarrow>
     (if k = key then d \<in> set new \<and> dget its key \<noteq> None else edge its k d)"
  by (auto simp: set_edges_def Let_def edge_set_deps map_of_add_dependents map_of_remove_dependents)

lemma wf_items_set_edges:
  assumes wf: "wf_items its" and i: "dget its key = Some i"
    and known: "\<forall>d \<in> set new. dget its d \<noteq> None \<and> d \<noteq> key"
  shows "wf_items (set_edges key (it_depends_on i) new its)"
proof -
  let ?r = "set_edges key (it_depends_on i) new its"
  have keys: "map fst ?r = map fst its" by (simp add: set_edges_def Let_def)
  have old: "edge its key d \<longleftrightarrow> d \<in> set (it_depends_on i)" for d using i by (simp add: edge_def)
  have sym: "edge ?r k d \<longleftrightarrow> back_edge ?r d k" for k d
  proof (cases "k = key")
    case True
    then show ?thesis
      using wf known i old[of d] by (auto simp: edge_set_edges back_edge_set_edges wf_items_def)
  next
    case False
    then show ?thesis using wf by (auto simp: edge_set_edges back_edge_set_edges wf_items_def)
  qed
  moreover have "\<not> edge ?r k k" for k using wf known by (auto simp: edge_set_edges wf_items_def)
  moreover have "\<forall>k j. dget ?r k = Some j \<longrightarrow> it_id j = k"
    using wf by (auto simp: set_edges_def Let_def wf_items_def map_of_add_dependents
        map_of_remove_dependents split: if_splits)
  moreover have "wf_dict ?r" using wf keys by (simp add: wf_items_def wf_dict_def)
  ultimately show ?thesis by (simp add: wf_items_def)
qed

section \<open>Every mutation keeps the invariant\<close>

lemma wf_items_insert:
  assumes wf: "wf_items its" and fresh: "dget its (it_id i) = None"
    and known: "\<forall>d \<in> set (it_depends_on i). dget its d \<noteq> None" and dpts: "it_dependents i = []"
  shows "wf_items (foldl (add_dependent (it_id i)) (dset its (it_id i) i) (it_depends_on i))"
proof -
  let ?k = "it_id i" let ?b = "dset its (it_id i) i"
  let ?r = "foldl (add_dependent ?k) ?b (it_depends_on i)"
  have nb: "\<not> back_edge its d ?k" for d
  proof -
    have "edge its ?k d = back_edge its d ?k" using wf by (simp add: wf_items_def)
    then show ?thesis using fresh by (simp add: edge_def)
  qed
  have self: "?k \<notin> set (it_depends_on i)" using fresh known by auto
  have eb: "edge ?b k d = (if k = ?k then d \<in> set (it_depends_on i) else edge its k d)"
    and bb: "back_edge ?b d k = (d \<noteq> ?k \<and> back_edge its d k)" for k d
    using dpts by (auto simp: edge_def back_edge_def)
  have nfrom: "back_edge its ?k k = False" for k using fresh by (simp add: back_edge_def)
  have "edge ?r k d \<longleftrightarrow> back_edge ?r d k" for k d
  proof -
    have sym: "edge its k d \<longleftrightarrow> back_edge its d k" using wf by (simp add: wf_items_def)
    have "d \<in> set (it_depends_on i) \<Longrightarrow> d \<noteq> ?k \<and> dget ?b d \<noteq> None" using known self by auto
    moreover have "edge ?r k d \<longleftrightarrow> (if k = ?k then d \<in> set (it_depends_on i) else edge its k d)"
      by (simp only: edge_add_dependents eb)
    moreover have "back_edge ?r d k \<longleftrightarrow> (d \<noteq> ?k \<and> back_edge its d k) \<or>
        (d \<in> set (it_depends_on i) \<and> k = ?k \<and> dget ?b d \<noteq> None)"
      by (simp only: back_edge_add_dependents bb)
    ultimately show ?thesis using sym nb nfrom by metis
  qed
  moreover have "\<not> edge ?r k k" for k using wf self by (auto simp: eb wf_items_def)
  moreover have "\<forall>k j. dget ?r k = Some j \<longrightarrow> it_id j = k"
    using wf by (auto simp: map_of_add_dependents wf_items_def split: if_splits)
  moreover have "wf_dict ?r" using wf by (simp add: wf_items_def wf_dict_def distinct_update)
  ultimately show ?thesis unfolding wf_items_def by blast
qed

lemma str_int_nonneg: "0 \<le> n \<Longrightarrow> str_int n = str_nat (nat n)"
  by (simp add: str_int_def)

lemma next_id_fresh:
  assumes "wf_counters t" shows "dget (tk_items t) (str_int (tk_next_id t)) = None"
proof (rule ccontr)
  assume "dget (tk_items t) (str_int (tk_next_id t)) \<noteq> None"
  then obtain i where i: "dget (tk_items t) (str_int (tk_next_id t)) = Some i" by blast
  moreover have "str_int (tk_next_id t) = str_nat (nat (tk_next_id t))"
    using assms by (simp add: wf_counters_def str_int_nonneg)
  ultimately have "int (nat (tk_next_id t)) \<le> tk_max_id_ever t"
    using assms unfolding wf_counters_def by (metis isdigit_str_nat nat_of_digits_str_nat)
  moreover have "tk_next_id t = tk_max_id_ever t + 1" "0 \<le> tk_max_id_ever t"
    using assms by (auto simp: wf_counters_def)
  ultimately show False by linarith
qed

lemma choose_id_Inr:
  assumes "choose_id t a = Inr (k, t')" and "wf_counters t"
  shows "dget (tk_items t) k = None" "tk_items t' = tk_items t"
    "tk_default_flavor t' = tk_default_flavor t" "tk_next_id t' = tk_max_id_ever t' + 1"
    "tk_max_id_ever t \<le> tk_max_id_ever t'" "isdigit k \<longrightarrow> int (nat_of_digits k) \<le> tk_max_id_ever t'"
  using assms next_id_fresh [OF assms(2)]
  by (auto simp: choose_id_def Let_def has_key_def wf_counters_def str_int_nonneg
      split: option.splits if_splits)

lemma add_wf:
  assumes wf: "wf_tracker t" and ok: "add t ti de ds md a ow af fl = Inr (k, t')"
  shows "wf_tracker t'"
proof -
  obtain t1 where c: "choose_id t a = Inr (k, t1)"
    and known: "\<forall>d \<in> set (map str_id ds). dget (tk_items t) d \<noteq> None"
    and t': "t' = save (insert_item t1 (new_item k ti de (or_default fl (tk_default_flavor t1)) (map str_id ds) ow af md))"
    using ok by (auto simp: add_def Let_def has_key_def filter_empty_conv split: if_splits)
  note cid = choose_id_Inr [OF c] wf [unfolded wf_tracker_def]
  let ?i = "new_item k ti de (or_default fl (tk_default_flavor t1)) (map str_id ds) ow af md"
  have "it_id ?i = k" "it_depends_on ?i = map str_id ds" "it_dependents ?i = []"
    by (simp_all add: new_item_def)
  then have "wf_items (tk_items (insert_item t1 ?i))"
    using wf_items_insert [of "tk_items t" ?i] cid known by (simp add: insert_item_def)
  moreover have "wf_counters (insert_item t1 ?i)"
  proof -
    have "isdigit x \<longrightarrow> int (nat_of_digits x) \<le> tk_max_id_ever t1"
      if "dget (tk_items (insert_item t1 ?i)) x = Some j" for x j
      using that cid by (fastforce simp: insert_item_def map_of_add_dependents new_item_def wf_counters_def
          split: if_splits)
    then show ?thesis using cid by (fastforce simp: wf_counters_def insert_item_def)
  qed
  ultimately show ?thesis by (simp add: t' wf_tracker_def)
qed

lemma wf_tracker_items:
  assumes "wf_tracker t" "wf_items its" "map fst its = map fst (tk_items t)"
  shows "wf_tracker (t\<lparr>tk_items := its\<rparr>)"
proof -
  have "dget its k = None \<longleftrightarrow> dget (tk_items t) k = None" for k
    using assms(3) by (metis list.set_map map_of_eq_None_iff)
  then have "dget its k = Some i \<Longrightarrow> \<exists>j. dget (tk_items t) k = Some j" for k i
    by (metis not_None_eq)
  then have "wf_counters (t\<lparr>tk_items := its\<rparr>)"
    using assms(1) by (simp add: wf_tracker_def wf_counters_def)
  then show ?thesis using assms(2) by (simp add: wf_tracker_def)
qed

lemma wf_tracker_dmodify:
  "wf_tracker t \<Longrightarrow> keeps_edges f \<Longrightarrow> wf_tracker (t\<lparr>tk_items := dmodify (tk_items t) k f\<rparr>)"
  by (rule wf_tracker_items) (auto simp: wf_tracker_def wf_items_dmodify)

lemma keys_set_edges [simp]: "map fst (set_edges key old new its) = map fst its"
  by (simp add: set_edges_def Let_def)

lemma update_error_deps:
  assumes "update_error t key i a = None" "ua_depends_on a = Some ds"
  shows "\<forall>d \<in> set (map str_id ds). dget (tk_items t) d \<noteq> None \<and> d \<noteq> key"
  using assms
  by (auto simp: update_error_def deps_error_def invalid_deps_def has_key_def Let_def filter_empty_conv
      split: option.splits if_splits)

lemma update_wf:
  assumes wf: "wf_tracker t" shows "wf_tracker (snd (update t item_id a))"
proof (cases "dget (tk_items t) (str_id item_id)")
  case None
  then show ?thesis using wf by (simp add: update_def Let_def)
next
  case (Some i)
  let ?key = "str_id item_id"
  show ?thesis
  proof (cases "update_error t ?key i a")
    case (Some e)
    then show ?thesis using wf \<open>dget (tk_items t) ?key = Some i\<close> by (simp add: update_def Let_def)
  next
    case None
    let ?its1 = "dmodify (tk_items t) ?key (set_owner a)"
    let ?its2 = "case ua_depends_on a of None \<Rightarrow> ?its1
      | Some ds \<Rightarrow> set_edges ?key (it_depends_on i) (map str_id ds) ?its1"
    have w1: "wf_items ?its1" using wf by (simp add: wf_tracker_def wf_items_dmodify keeps_edges_set_owner)
    have i1: "dget ?its1 ?key = Some (set_owner a i)" using Some by simp
    have d1: "it_depends_on (set_owner a i) = it_depends_on i"
      using keeps_edges_set_owner by (simp add: keeps_edges_def)
    have w2: "wf_items ?its2"
    proof (cases "ua_depends_on a")
      case None
      then show ?thesis using w1 by simp
    next
      case (Some ds)
      have "\<forall>d \<in> set (map str_id ds). dget ?its1 d \<noteq> None \<and> d \<noteq> ?key"
        using update_error_deps [OF None Some] by auto
      from wf_items_set_edges [OF w1 i1 this] Some d1 show ?thesis by simp
    qed
    have k2: "map fst ?its2 = map fst (tk_items t)" by (simp split: option.split)
    have "wf_tracker (t\<lparr>tk_items := dmodify ?its2 ?key (set_fields a)\<rparr>)"
      using wf_items_dmodify [OF keeps_edges_set_fields w2] k2 by (intro wf_tracker_items [OF wf]) simp_all
    then show ?thesis using Some None by (simp add: update_def Let_def)
  qed
qed

lemma bulk_transition_wf: "wf_tracker t \<Longrightarrow> wf_tracker (bulk_transition t a b)"
proof -
  assume wf: "wf_tracker t"
  let ?f = "\<lambda>i. if it_status i = a then i\<lparr>it_status := b\<rparr> else i"
  have "keeps_edges ?f" by (rule keeps_edgesI) auto
  moreover have "map fst (map (\<lambda>(k, i). (k, ?f i)) (tk_items t)) = map fst (tk_items t)"
    by (simp add: case_prod_beta comp_def)
  ultimately have "wf_tracker (t\<lparr>tk_items := map (\<lambda>(k, i). (k, ?f i)) (tk_items t)\<rparr>)"
    using wf wf_items_map_pairs [of ?f "tk_items t"]
    by (intro wf_tracker_items [OF wf]) (simp_all add: wf_tracker_def)
  then show ?thesis using wf by (simp add: bulk_transition_def)
qed

lemma sync_fold:
  "wf_items its \<Longrightarrow> wf_items (foldl sync_one its us) \<and> map fst (foldl sync_one its us) = map fst its"
proof (induction us arbitrary: its)
  case (Cons u us)
  obtain a st p where u: "u = (a, st, p)" by (cases u)
  have "keeps_edges (\<lambda>i. i\<lparr>it_status := st, it_metadata := dupdate (it_metadata i) p\<rparr>)"
    by (rule keeps_edgesI) auto
  then have "wf_items (sync_one its u)" using Cons.prems by (simp add: u sync_one_def wf_items_dmodify)
  from Cons.IH [OF this] show ?case by (simp add: u sync_one_def)
qed simp

lemma sync_statuses_wf: "wf_tracker t \<Longrightarrow> wf_tracker (sync_statuses t us)"
  using sync_fold [of "tk_items t"]
  by (simp add: sync_statuses_def Let_def wf_tracker_items wf_tracker_def [of t])

lemma mark_in_progress_wf: "wf_tracker t \<Longrightarrow> wf_tracker (mark_in_progress t k)"
  by (simp add: mark_in_progress_def wf_tracker_dmodify keeps_edges_def)

lemma record_result_wf: "wf_tracker t \<Longrightarrow> wf_tracker (snd (record_result t k ok))"
  by (simp add: record_result_def wf_tracker_dmodify keeps_edges_def)

lemma empty_tracker_wf: "wf_tracker (empty_tracker fl)"
  by (simp add: wf_tracker_def wf_items_def wf_counters_def empty_tracker_def edge_def back_edge_def)

section \<open>Runs of operations\<close>

lemma run_op_wf: "wf_tracker t \<Longrightarrow> wf_tracker (run_op t op)"
  by (cases op)
     (auto intro: add_wf update_wf bulk_transition_wf sync_statuses_wf mark_in_progress_wf record_result_wf
       split: sum.split)

lemma run_ops_wf_from: "wf_tracker t \<Longrightarrow> wf_tracker (run_ops t ops)"
  unfolding run_ops_def by (induction ops arbitrary: t) (simp_all add: run_op_wf)

text \<open>C16: Starting from an empty tracker, after any sequence of \<open>add\<close>, \<open>update\<close>, \<open>bulk_transition\<close>,
  \<open>sync_statuses\<close>, \<open>mark_in_progress\<close> and \<open>record_result\<close> calls, successful or rejected, the item
  dictionary has one entry per id, stored under that id; \<open>depends_on\<close> and \<open>dependents\<close> are mutual and
  name existing items only, no item depends on itself, and the id counters are above every numeric
  id in use.\<close>

theorem tracker_invariant: "wf_tracker (run_ops (empty_tracker fl) ops)"
  by (rule run_ops_wf_from) (rule empty_tracker_wf)

lemma tracker_wf_run: "wf_tracker (run_ops (empty_tracker fl) ops)"
  by (rule run_ops_wf_from) (rule empty_tracker_wf)

section \<open>Generated ids\<close>

lemma add_spec:
  assumes "add t ti de ds md a ow af fl = Inr (k, t')" "wf_counters t"
  shows "dget (tk_items t) k = None"
    and "dget (tk_items t') k = Some (new_item k ti de (or_default fl (tk_default_flavor t)) (map str_id ds) ow af md)"
    and "x \<noteq> k \<Longrightarrow> dget (tk_items t') x = map_option
           (\<lambda>j. j\<lparr>it_dependents := it_dependents j @ replicate (count_list (map str_id ds) x) k\<rparr>) (dget (tk_items t) x)"
proof -
  obtain t1 where c: "choose_id t a = Inr (k, t1)"
    and known: "\<forall>d \<in> set (map str_id ds). dget (tk_items t) d \<noteq> None"
    and t': "t' = save (insert_item t1 (new_item k ti de (or_default fl (tk_default_flavor t1)) (map str_id ds) ow af md))"
    using assms(1) by (auto simp: add_def Let_def has_key_def filter_empty_conv split: if_splits)
  note cid = choose_id_Inr [OF c assms(2)]
  show "dget (tk_items t) k = None" by (rule cid(1))
  have "k \<notin> set (map str_id ds)" using known cid(1) by auto
  then have "count_list (map str_id ds) k = 0" by (simp add: count_list_0_iff)
  then show "dget (tk_items t') k = Some (new_item k ti de (or_default fl (tk_default_flavor t)) (map str_id ds) ow af md)"
    by (simp add: t' insert_item_def map_of_add_dependents cid(2,3) new_item_def)
  show "x \<noteq> k \<Longrightarrow> dget (tk_items t') x = map_option
           (\<lambda>j. j\<lparr>it_dependents := it_dependents j @ replicate (count_list (map str_id ds) x) k\<rparr>) (dget (tk_items t) x)"
    by (simp add: t' insert_item_def map_of_add_dependents cid(2) new_item_def)
qed

lemma run_op_flavor [simp]: "tk_default_flavor (run_op t op) = tk_default_flavor t"
  by (cases op)
     (auto simp: add_def choose_id_def insert_item_def update_def bulk_transition_def sync_statuses_def
       mark_in_progress_def record_result_def Let_def split: sum.splits option.splits if_splits)

lemma run_ops_flavor [simp]: "tk_default_flavor (run_ops t ops) = tk_default_flavor t"
  unfolding run_ops_def by (induction ops arbitrary: t) simp_all

text \<open>After any history of operations, \<open>add\<close> without an explicit id picks an id no item has, the
  decimal numeral of the counter; the new item is stored under it as pending with zero attempts and
  no dependents, and every other item changes in its list of dependents only, which gains the new id
  once per occurrence among the dependencies.\<close>

theorem add_auto_id:
  assumes "t = run_ops (empty_tracker dfl) ops" and "add t ti de ds md None ow af fl = Inr (k, t')"
  shows "k = str_int (tk_next_id t) \<and> get t (IdStr k) = None \<and>
    get t' (IdStr k) = Some (new_item k ti de (or_default fl dfl) (map str_id ds) ow af md) \<and>
    (\<forall>x. x \<noteq> k \<longrightarrow> get t' (IdStr x) = map_option (\<lambda>j. j\<lparr>it_dependents :=
        it_dependents j @ replicate (count_list (map str_id ds) x) k\<rparr>) (get t (IdStr x)))"
proof -
  have wf: "wf_counters t" using tracker_wf_run assms(1) by (simp add: wf_tracker_def)
  have "k = str_int (tk_next_id t)"
    using assms(2) by (auto simp: add_def choose_id_def Let_def split: if_splits)
  moreover have "tk_default_flavor t = dfl" using assms(1) by (simp add: empty_tracker_def)
  ultimately show ?thesis using add_spec [OF assms(2) wf] by (simp add: get_def)
qed

definition demo_ops :: "tracker_op list" where
  "demo_ops = [OpAdd ''a'' '''' [] [] None None None None, OpAdd ''b'' '''' [IdInt 1] [] (Some (IdStr ''7'')) None None None]"

theorem add_auto_id_witness:
  "\<exists>t'. add (run_ops (empty_tracker ''task'') demo_ops) ''c'' '''' [IdInt 7] [] None None None None = Inr (''8'', t') \<and>
     get (run_ops (empty_tracker ''task'') demo_ops) (IdStr ''8'') = None"
proof -
  have "map_sum id fst (add (run_ops (empty_tracker ''task'') demo_ops) ''c'' '''' [IdInt 7] [] None None None None) = Inr ''8''"
    by code_simp
  then obtain t' where "add (run_ops (empty_tracker ''task'') demo_ops) ''c'' '''' [IdInt 7] [] None None None None = Inr (''8'', t')"
    by (auto elim!: map_sum_InrE)
  with add_auto_id [OF refl this] show ?thesis by blast
qed

section \<open>What ready selects\<close>

lemma set_sorted_items [simp]: "set (sorted_items t) = set (dvals (tk_items t))"
  by (simp add: sorted_items_def)

lemma stored_iff:
  assumes "wf_items its" shows "i \<in> set (dvals its) \<longleftrightarrow> dget its (it_id i) = Some i"
proof
  assume "i \<in> set (dvals its)"
  then obtain k where "(k, i) \<in> set its" by auto
  then have "dget its k = Some i" using assms by (simp add: wf_items_def wf_dict_mapD)
  then show "dget its (it_id i) = Some i" using assms by (auto simp: wf_items_def)
next
  assume "dget its (it_id i) = Some i"
  then show "i \<in> set (dvals its)" by (force dest: map_of_SomeD)
qed

lemma terminal_dep_iff:
  "terminal_dep t d \<longleftrightarrow> (\<exists>j. dget (tk_items t) d = Some j \<and> it_status j \<in> set TERMINAL)"
  by (simp add: terminal_dep_def split: option.split)

lemma wf_reachable: "wf_items (tk_items (run_ops (empty_tracker fl) ops))"
  using tracker_wf_run [unfolded wf_tracker_def] by blast



section \<open>Claims\<close>

text \<open>An item that has an owner cannot be claimed by another: \<open>update\<close> with a different owner
  answers with the ownership message and changes nothing, in memory or on disk, whatever the other
  arguments are.\<close>

theorem claim_exclusive:
  assumes "get t a = Some i" and "it_owner i = Some v" and "ua_owner ua = Given (Some w)" and "w \<noteq> v"
  shows "update t a ua = (''Error: item '' @ str_id a @ '' is already owned by '' @ quoted v @ ''.'', t)"
  using assms by (simp add: update_def get_def update_error_def owner_error_def Let_def)

definition claimed_demo :: tracker where
  "claimed_demo = run_ops (empty_tracker ''task'')
     (demo_ops @ [OpUpdate (IdInt 1) (no_update\<lparr>ua_owner := Given (Some ''ann'')\<rparr>)])"

theorem claim_exclusive_witness:
  "update claimed_demo (IdInt 1) (no_update\<lparr>ua_owner := Given (Some ''bob''), ua_status := Some ''completed''\<rparr>)
     = (''Error: item 1 is already owned by '' @ quoted ''ann'' @ ''.'', claimed_demo)"
proof -
  have "map_option it_owner (get claimed_demo (IdInt 1)) = Some (Some ''ann'')" by code_simp
  then obtain i where "get claimed_demo (IdInt 1) = Some i" "it_owner i = Some ''ann''" by auto
  note claim_exclusive [OF this, of "no_update\<lparr>ua_owner := Given (Some ''bob''), ua_status := Some ''completed''\<rparr>" "''bob''"]
  moreover have "str_id (IdInt 1) = ''1''" by code_simp
  ultimately show ?thesis by (simp del: str_id.simps)
qed

text \<open>A successful claim of an unowned, unfinished item (no explicit status, no new dependencies)
  makes the caller its owner and puts it in progress, also when the item had failed, and is saved.\<close>

theorem claim_starts_work:
  assumes "get t a = Some i" and "it_owner i = None" and "it_status i \<notin> set TERMINAL"
  shows "\<exists>t' j. update t a (no_update\<lparr>ua_owner := Given (Some w)\<rparr>) = (''Item '' @ str_id a @ '' updated.'', t') \<and>
    get t' a = Some j \<and> j = i\<lparr>it_owner := Some w, it_status := IN_PROGRESS\<rparr> \<and> t' = save t'"
  using assms
  by (simp add: update_def get_def update_error_def owner_error_def deps_error_def status_error_def
      no_update_def Let_def set_owner_def set_fields_def RESET_ON_UPDATE_def status_defs save_def)

theorem claim_starts_work_witness:
  "\<exists>t'. fst (update (run_ops (empty_tracker ''task'') demo_ops) (IdInt 1)
       (no_update\<lparr>ua_owner := Given (Some ''ann'')\<rparr>)) = ''Item 1 updated.'' \<and> t' = save t'"
proof -
  let ?t = "run_ops (empty_tracker ''task'') demo_ops"
  have one: "str_id (IdInt 1) = ''1''" by code_simp
  have "map_option (\<lambda>i. (it_owner i, it_status i)) (get ?t (IdInt 1)) = Some (None, ''pending'')" by code_simp
  then obtain i where i: "get ?t (IdInt 1) = Some i" "it_owner i = None" "it_status i = ''pending''" by auto
  then have "it_status i \<notin> set TERMINAL" by (simp add: TERMINAL_def status_defs)
  from claim_starts_work [OF i(1,2) this, of "''ann''"] show ?thesis
    by (auto simp: one simp del: str_id.simps)
qed

section \<open>Save and load\<close>

lemma load_item_json [simp]: "load_item kind (item_json i) = Inr i"
proof -
  have "mapM as_str (map JStr xs) = Inr xs" for xs by (induction xs) auto
  moreover have "as_opt (json_opt x) = Inr x" for x by (cases x) (auto simp: json_opt_def)
  ultimately show ?thesis
    by (simp add: load_item_def item_json_def dget_or_def field_def comp_def)
qed

lemma mapM_map_Inr: "(\<And>x. f (g x) = Inr x) \<Longrightarrow> mapM f (map g xs) = Inr xs"
  by (induction xs) auto

lemma foldl_dset_items:
  "distinct (map fst (xs @ ys)) \<Longrightarrow> \<forall>(k, i) \<in> set ys. it_id i = k \<Longrightarrow>
     foldl (\<lambda>acc i. dset acc (it_id i) i) xs (dvals ys) = xs @ ys"
proof (induction ys arbitrary: xs)
  case (Cons y ys)
  obtain k i where y: "y = (k, i)" by (cases y)
  have "map_of xs k = None" using Cons.prems(1) by (auto simp: y map_of_eq_None_iff)
  then have "dset xs k i = xs @ [y]" by (simp add: dset_fresh y)
  then show ?case using Cons.IH [of "xs @ [y]"] Cons.prems by (simp add: y)
qed simp

lemma max_digit_id_bound:
  "\<forall>k \<in> set (dkeys its). isdigit k \<longrightarrow> int (nat_of_digits k) \<le> m \<Longrightarrow> max_digit_id its m = m"
  unfolding max_digit_id_def by (induction its) auto

lemma load_save:
  assumes "wf_tracker t" shows "load (tk_default_flavor t) (tk_disk (save t)) = Inr (save t)"
proof -
  let ?js = "map item_json (dvals (tk_items t))"
  have "mapM (load_item (tk_default_flavor t)) ?js = Inr (dvals (tk_items t))"
    by (rule mapM_map_Inr) simp
  moreover have "foldl (\<lambda>acc i. dset acc (it_id i) i) [] (dvals (tk_items t)) = tk_items t"
    using assms by (subst foldl_dset_items) (auto simp: wf_tracker_def wf_items_def wf_dict_def)
  moreover have "max_digit_id (tk_items t) (tk_max_id_ever t) = tk_max_id_ever t"
  proof (rule max_digit_id_bound, intro ballI impI)
    fix k assume "k \<in> set (dkeys (tk_items t))" "isdigit k"
    moreover from this obtain i where "dget (tk_items t) k = Some i"
      by (metis list.set_map map_of_eq_None_iff not_None_eq)
    ultimately show "int (nat_of_digits k) \<le> tk_max_id_ever t"
      using assms by (simp add: wf_tracker_def wf_counters_def)
  qed
  moreover have "\<not> list_ex lacks_dependents ?js"
    by (simp add: list_ex_iff lacks_dependents_def item_json_def has_key_def)
  ultimately show ?thesis
    using assms by (simp add: load_def save_def dget_or_def Let_def wf_tracker_def wf_counters_def)
qed

text \<open>C34: After any history of operations, what a save writes is read back as the very same tracker:
  items in their order with every field, id counters included.\<close>

theorem load_save_roundtrip:
  "load fl (tk_disk (save (run_ops (empty_tracker fl) ops))) = Inr (save (run_ops (empty_tracker fl) ops))"
  using load_save [OF tracker_wf_run [of fl ops]] by (simp add: empty_tracker_def)

section \<open>Acyclic dependencies and progress\<close>

text \<open>Acyclicity of the finite dependency relation, as a ranking of the ids.\<close>

definition ranked :: "(string, item) dict \<Rightarrow> bool" where
  "ranked its \<longleftrightarrow> (\<exists>r :: string \<Rightarrow> nat. \<forall>k d. edge its k d \<longrightarrow> r d < r k)"

fun keeps_deps :: "tracker_op \<Rightarrow> bool" where
  "keeps_deps (OpUpdate a ua) = (ua_depends_on ua = None)"
| "keeps_deps op = True"

lemma ranked_cong: "edge a = edge b \<Longrightarrow> ranked a = ranked b"
  by (simp add: ranked_def)

lemma ranked_add:
  assumes "wf_tracker t" "ranked (tk_items t)" "add t ti de ds md a ow af fl = Inr (k, t')"
  shows "ranked (tk_items t')"
proof -
  obtain r :: "string \<Rightarrow> nat" where r: "\<And>x d. edge (tk_items t) x d \<Longrightarrow> r d < r x"
    using assms(2) by (auto simp: ranked_def)
  have c: "wf_counters t" using assms(1) by (simp add: wf_tracker_def)
  note spec = add_spec [OF assms(3) c]
  let ?D = "set (map str_id ds)"
  let ?r = "r(k := Suc (sum r ?D))"
  have e: "edge (tk_items t') x d = (if x = k then d \<in> ?D else edge (tk_items t) x d)" for x d
    using spec(2) spec(3)[of x] by (cases "dget (tk_items t) x") (auto simp: edge_def new_item_def)
  have nok: "\<not> edge (tk_items t) x k" for x
  proof -
    have "edge (tk_items t) x k = back_edge (tk_items t) k x"
      using assms(1) by (simp add: wf_tracker_def wf_items_def)
    then show ?thesis using spec(1) by (simp add: back_edge_def)
  qed
  have kD: "k \<notin> ?D"
    using assms(3) spec(1) by (auto simp: add_def Let_def filter_empty_conv has_key_def split: if_splits)
  have "?r d < ?r x" if "edge (tk_items t') x d" for x d
  proof (cases "x = k")
    case True
    with that e have d: "d \<in> ?D" by simp
    then have "d \<noteq> k" using kD by blast
    moreover have "r d \<le> sum r ?D" by (rule member_le_sum) (use d in auto)
    ultimately show ?thesis using True by simp
  next
    case False
    then have "edge (tk_items t) x d" using that e by simp
    moreover from this nok have "d \<noteq> k" by blast
    ultimately show ?thesis using False r by simp
  qed
  then show ?thesis unfolding ranked_def by blast
qed

lemma edge_update_no_deps:
  "ua_depends_on ua = None \<Longrightarrow> edge (tk_items (snd (update t a ua))) = edge (tk_items t)"
  by (auto simp: update_def Let_def edge_dmodify_frame keeps_edges_set_owner keeps_edges_set_fields
      split: option.splits)

lemma edge_sync: "edge (foldl sync_one its us) = edge its"
proof (induction us arbitrary: its)
  case (Cons u us)
  have "keeps_edges (\<lambda>i. i\<lparr>it_status := st, it_metadata := dupdate (it_metadata i) p\<rparr>)" for st p
    by (rule keeps_edgesI) auto
  then show ?case using Cons.IH by (simp add: sync_one_def edge_dmodify_frame split: prod.splits)
qed simp

lemma edge_bulk: "edge (map (\<lambda>(k, i). (k, if it_status i = a then i\<lparr>it_status := b\<rparr> else i)) its) = edge its"
  by (auto simp: edge_def fun_eq_iff map_of_map_pairs split: option.splits)

lemma ranked_run_op:
  assumes "wf_tracker t" "ranked (tk_items t)" "keeps_deps op" shows "ranked (tk_items (run_op t op))"
proof (cases op)
  case (OpAdd ti de ds md a ow af fl)
  then show ?thesis using assms ranked_add by (auto split: sum.split)
next
  case (OpUpdate a ua)
  then have "edge (tk_items (run_op t op)) = edge (tk_items t)"
    using assms(3) by (simp add: edge_update_no_deps)
  then show ?thesis using ranked_cong assms(2) by blast
next
  case (OpBulk a b)
  then show ?thesis using assms ranked_cong [OF edge_bulk] by (simp add: bulk_transition_def)
next
  case (OpSync us)
  then show ?thesis using assms ranked_cong [OF edge_sync] by (simp add: sync_statuses_def Let_def)
next
  case (OpMark k)
  then show ?thesis using assms
    by (simp add: mark_in_progress_def ranked_def edge_dmodify_frame keeps_edges_def)
next
  case (OpRecord k ok)
  then show ?thesis using assms
    by (simp add: record_result_def ranked_def edge_dmodify_frame keeps_edges_def)
qed

lemma ranked_run_ops:
  "wf_tracker t \<Longrightarrow> ranked (tk_items t) \<Longrightarrow> list_all keeps_deps ops \<Longrightarrow> ranked (tk_items (run_ops t ops))"
  unfolding run_ops_def by (induction ops arbitrary: t) (simp_all add: run_op_wf ranked_run_op)

text \<open>A pending item of least rank is ready.\<close>

lemma ready_progress:
  assumes wf: "wf_items (tk_items t)" and rk: "ranked (tk_items t)" and hp: "has_pending t"
    and pend: "\<forall>i \<in> set (dvals (tk_items t)). it_status i \<in> set TERMINAL \<or> it_status i = PENDING"
  shows "ready t \<noteq> []"
proof -
  obtain r :: "string \<Rightarrow> nat" where r: "\<And>x d. edge (tk_items t) x d \<Longrightarrow> r d < r x"
    using rk by (auto simp: ranked_def)
  let ?P = "\<lambda>i. i \<in> set (dvals (tk_items t)) \<and> it_status i \<notin> set TERMINAL"
  obtain i0 where "?P i0" using hp by (auto simp: has_pending_def list_ex_iff)
  then obtain i where i: "?P i" and least: "\<And>j. ?P j \<Longrightarrow> r (it_id i) \<le> r (it_id j)"
    using ex_has_least_nat [of ?P i0 "\<lambda>i. r (it_id i)"] by blast
  have gi: "dget (tk_items t) (it_id i) = Some i" using i stored_iff [OF wf] by blast
  have "terminal_dep t d" if d: "d \<in> set (it_depends_on i)" for d
  proof -
    have e: "edge (tk_items t) (it_id i) d" using gi d by (simp add: edge_def)
    then have "back_edge (tk_items t) d (it_id i)" using wf by (simp add: wf_items_def)
    then obtain j where j: "dget (tk_items t) d = Some j" by (auto simp: back_edge_def split: option.splits)
    then have jd: "it_id j = d" using wf by (simp add: wf_items_def)
    have "j \<in> set (dvals (tk_items t))" using j jd stored_iff [OF wf, of j] by simp
    with least [of j] r [OF e] jd have "it_status j \<in> set TERMINAL" by fastforce
    with j show ?thesis by (simp add: terminal_dep_def)
  qed
  moreover have "it_status i = PENDING" using pend i by blast
  ultimately have "i \<in> set (ready t)" using i by (simp add: ready_def list_all_iff)
  then show ?thesis by auto
qed



definition cycle_ops :: "tracker_op list" where
  "cycle_ops = [OpAdd ''a'' '''' [] [] None None None None, OpAdd ''b'' '''' [IdInt 1] [] None None None None,
     OpUpdate (IdInt 1) (no_update\<lparr>ua_depends_on := Some [IdInt 2]\<rparr>)]"

text \<open>\<open>update\<close> checks only for unknown ids and self-dependency, so it accepts an edge that closes a
  cycle: two pending items then wait for each other, \<open>has_pending\<close> holds and \<open>ready\<close> is empty.\<close>

theorem update_can_close_cycle:
  "fst (update (run_ops (empty_tracker ''task'') (take 2 cycle_ops)) (IdInt 1)
          (no_update\<lparr>ua_depends_on := Some [IdInt 2]\<rparr>)) = ''Item 1 updated.'' \<and>
   has_pending (run_ops (empty_tracker ''task'') cycle_ops) \<and>
   ready (run_ops (empty_tracker ''task'') cycle_ops) = [] \<and>
   list_all (\<lambda>i. it_status i = PENDING) (dvals (tk_items (run_ops (empty_tracker ''task'') cycle_ops)))"
proof (intro conjI)
  show "fst (update (run_ops (empty_tracker ''task'') (take 2 cycle_ops)) (IdInt 1)
          (no_update\<lparr>ua_depends_on := Some [IdInt 2]\<rparr>)) = ''Item 1 updated.''" by code_simp
  show "has_pending (run_ops (empty_tracker ''task'') cycle_ops)" by code_simp
  have "map it_id (ready (run_ops (empty_tracker ''task'') cycle_ops)) = []" by code_simp
  then show "ready (run_ops (empty_tracker ''task'') cycle_ops) = []" by simp
  show "list_all (\<lambda>i. it_status i = PENDING) (dvals (tk_items (run_ops (empty_tracker ''task'') cycle_ops)))"
    by code_simp
qed

section \<open>Summary\<close>

lemma terminal_counts:
  "length (filter (\<lambda>i. it_status i = COMPLETED) xs) + length (filter (\<lambda>i. it_status i = DELETED) xs)
     = length (filter (\<lambda>i. it_status i \<in> set TERMINAL) xs)"
  by (induction xs) (auto simp: TERMINAL_def status_defs)

lemma summary_rate:
  "ts_completion_rate (summary t) = (if tk_items t = [] then 0
     else flt (of_nat (length (filter (\<lambda>i. it_status i \<in> set TERMINAL) (dvals (tk_items t)))) / of_nat (length (tk_items t))))"
proof -
  have "dget_or (map (\<lambda>s. (s, count_status t s)) STATUSES) s 0 = count_status t s" if "s \<in> set TERMINAL" for s
    using that by (auto simp: TERMINAL_def STATUSES_def status_defs dget_or_def)
  then show ?thesis
    using terminal_counts [of "dvals (tk_items t)"]
    by (simp add: summary_def Let_def TERMINAL_def count_status_def)
qed

text \<open>The completion rate is a float between 0 and 1, and it is 1 when no item is pending.\<close>

lemma completion_rate_bounds:
  "0 \<le> ts_completion_rate (summary t) \<and> ts_completion_rate (summary t) \<le> 1"
  "tk_items t \<noteq> [] \<Longrightarrow> \<not> has_pending t \<Longrightarrow> ts_completion_rate (summary t) = 1"
proof -
  let ?xs = "dvals (tk_items t)" and ?P = "\<lambda>i. it_status i \<in> set TERMINAL"
  let ?q = "of_nat (length (filter ?P ?xs)) / of_nat (length (tk_items t)) :: rat"
  have le: "length (filter ?P ?xs) \<le> length (tk_items t)" using length_filter_le [of ?P ?xs] by simp
  then have "0 \<le> ?q" "?q \<le> of_int 1" by (auto simp: divide_le_eq)
  then have "0 \<le> flt ?q \<and> flt ?q \<le> of_int 1" by (intro fl_bounds) simp_all
  then show "0 \<le> ts_completion_rate (summary t) \<and> ts_completion_rate (summary t) \<le> 1" by (simp add: summary_rate)
  assume "tk_items t \<noteq> []" "\<not> has_pending t"
  then have "filter ?P ?xs = ?xs" by (auto simp: has_pending_def list_ex_iff filter_id_conv)
  moreover have "flt 1 = 1" by code_simp
  ultimately show "ts_completion_rate (summary t) = 1" using \<open>tk_items t \<noteq> []\<close> by (simp add: summary_rate)
qed

end
