(* ===== verification/Tracker_Refinement.thy ===== *)
theory Tracker_Refinement
  imports Item_Tracker_Correct
begin

text \<open>
  The item tracker as its clients see it: a map from ids to a status, dependencies and an owner, and the
  next number. The specification says what every mutating call does to this map; the tracker, with its
  order of items, the edges in both directions and the file, refines it.
\<close>

section \<open>Specification\<close>

record spec_item =
  si_status :: string
  si_deps :: "string list"
  si_owner :: "string option"

record spec_state =
  sp_items :: "string \<Rightarrow> spec_item option"
  sp_next :: int

definition unknown_id :: "spec_state \<Rightarrow> string \<Rightarrow> bool" where
  "unknown_id s k = (sp_items s k = None)"

definition spec_add :: "spec_state \<Rightarrow> string \<Rightarrow> string list \<Rightarrow> string option \<Rightarrow> int \<Rightarrow> spec_state" where
  "spec_add s k deps ow next_id =
     s\<lparr>sp_items := (sp_items s)(k \<mapsto> \<lparr>si_status = PENDING, si_deps = deps, si_owner = ow\<rparr>), sp_next := next_id\<rparr>"

text \<open>When an update is rejected, and what an accepted one makes of an item.\<close>

definition spec_rejected :: "spec_state \<Rightarrow> string \<Rightarrow> spec_item \<Rightarrow> update_args \<Rightarrow> bool" where
  "spec_rejected s k i a \<longleftrightarrow>
     (case ua_owner a of
        Given (Some w) \<Rightarrow> (case si_owner i of None \<Rightarrow> si_status i \<in> set TERMINAL | Some v \<Rightarrow> v \<noteq> w)
      | _ \<Rightarrow> False) \<or>
     (case ua_depends_on a of None \<Rightarrow> False | Some ds \<Rightarrow> list_ex (\<lambda>d. unknown_id s d \<or> d = k) (map str_id ds)) \<or>
     (case ua_status a of None \<Rightarrow> False | Some st \<Rightarrow> st \<notin> set STATUSES)"

definition claimed :: "update_args \<Rightarrow> string \<Rightarrow> string" where
  "claimed a st = (case ua_owner a of Given (Some w) \<Rightarrow> if st \<notin> set TERMINAL then IN_PROGRESS else st | _ \<Rightarrow> st)"

definition spec_updated :: "update_args \<Rightarrow> spec_item \<Rightarrow> spec_item" where
  "spec_updated a i =
     \<lparr>si_status = (case ua_status a of Some st \<Rightarrow> st
        | None \<Rightarrow> if claimed a (si_status i) = FAILED then PENDING else claimed a (si_status i)),
      si_deps = (case ua_depends_on a of None \<Rightarrow> si_deps i | Some ds \<Rightarrow> map str_id ds),
      si_owner = (case ua_owner a of Unset \<Rightarrow> si_owner i | Given ow \<Rightarrow> ow)\<rparr>"

definition set_status :: "spec_state \<Rightarrow> string \<Rightarrow> string \<Rightarrow> spec_state" where
  "set_status s k st = s\<lparr>sp_items := (\<lambda>j. if j = k then map_option (\<lambda>i. i\<lparr>si_status := st\<rparr>) (sp_items s k) else sp_items s j)\<rparr>"

definition spec_open :: "spec_state \<Rightarrow> string \<Rightarrow> bool" where
  "spec_open s k = (case sp_items s k of None \<Rightarrow> False | Some i \<Rightarrow> si_status i \<notin> set TERMINAL)"

fun spec_op :: "spec_state \<Rightarrow> tracker_op \<Rightarrow> spec_state" where
  "spec_op s (OpAdd ti de ds md a ow af fl) =
     (if list_ex (unknown_id s) (map str_id ds) then s
      else case a of
        None \<Rightarrow> spec_add s (str_int (sp_next s)) (map str_id ds) ow (sp_next s + 1)
      | Some x \<Rightarrow>
          (if \<not> unknown_id s (str_id x) then s
           else spec_add s (str_id x) (map str_id ds) ow
                  (if isdigit (str_id x) then max (sp_next s) (int (nat_of_digits (str_id x)) + 1) else sp_next s)))"
| "spec_op s (OpUpdate x a) =
     (case sp_items s (str_id x) of
        None \<Rightarrow> s
      | Some i \<Rightarrow> if spec_rejected s (str_id x) i a then s
                 else s\<lparr>sp_items := (sp_items s)(str_id x \<mapsto> spec_updated a i)\<rparr>)"
| "spec_op s (OpBulk a b) =
     s\<lparr>sp_items := (\<lambda>k. map_option (\<lambda>i. if si_status i = a then i\<lparr>si_status := b\<rparr> else i) (sp_items s k))\<rparr>"
| "spec_op s (OpSync us) =
     foldl (\<lambda>u (k, st, patch). set_status u (str_id k) st) s (filter (\<lambda>(k, st, patch). spec_open s (str_id k)) us)"
| "spec_op s (OpMark k) = set_status s k IN_PROGRESS"
| "spec_op s (OpRecord k ok) = set_status s k (if ok then COMPLETED else FAILED)"

section \<open>Refinement\<close>

definition spec_item_of :: "item \<Rightarrow> spec_item" where
  "spec_item_of i = \<lparr>si_status = it_status i, si_deps = it_depends_on i, si_owner = it_owner i\<rparr>"

definition view :: "(string, item) dict \<Rightarrow> string \<Rightarrow> spec_item option" where
  "view its = (\<lambda>k. map_option spec_item_of (dget its k))"

definition abs_tracker :: "tracker \<Rightarrow> spec_state" where
  "abs_tracker t = \<lparr>sp_items = view (tk_items t), sp_next = tk_next_id t\<rparr>"

lemma abs_save [simp]: "abs_tracker (save t) = abs_tracker t"
  by (simp add: abs_tracker_def)

lemma view_dmodify:
  "view (dmodify its k f) = (\<lambda>j. if j = k then map_option (\<lambda>i. spec_item_of (f i)) (dget its k) else view its j)"
  by (auto simp: view_def option.map_comp comp_def)

lemma view_dset: "view (dset its k i) = (view its)(k \<mapsto> spec_item_of i)"
  by (auto simp: view_def)

lemma spec_item_simps [simp]:
  "spec_item_of (i\<lparr>it_dependents := x\<rparr>) = spec_item_of i"
  "spec_item_of (i\<lparr>it_depends_on := ds\<rparr>) = (spec_item_of i)\<lparr>si_deps := ds\<rparr>"
  by (simp_all add: spec_item_of_def)

lemma view_add_dependents [simp]: "view (foldl (add_dependent key) its deps) = view its"
  by (auto simp: view_def map_of_add_dependents option.map_comp comp_def fun_eq_iff)

lemma view_remove_dependents [simp]: "view (foldl (remove_dependent key) its deps) = view its"
proof
  fix k
  show "view (foldl (remove_dependent key) its deps) k = view its k"
    by (cases "dget its k") (auto simp: view_def map_of_remove_dependents)
qed

lemma view_set_edges:
  "view (set_edges key old new its) = (\<lambda>j. if j = key then map_option (\<lambda>i. i\<lparr>si_deps := new\<rparr>) (view its key) else view its j)"
proof
  fix j
  show "view (set_edges key old new its) j = (if j = key then map_option (\<lambda>i. i\<lparr>si_deps := new\<rparr>) (view its key) else view its j)"
    by (cases "dget its j") (auto simp: set_edges_def view_def map_of_add_dependents map_of_remove_dependents)
qed

lemma has_key_view: "has_key its k \<longleftrightarrow> view its k \<noteq> None"
  by (simp add: has_key_def view_def)

lemma unknown_abs [simp]: "unknown_id (abs_tracker t) k \<longleftrightarrow> \<not> has_key (tk_items t) k"
  by (simp add: unknown_id_def abs_tracker_def has_key_view)


lemma abs_rejected:
  "spec_rejected (abs_tracker t) k (spec_item_of i) a \<longleftrightarrow> update_error t k i a \<noteq> None"
proof -
  have o: "(case ua_owner a of Given (Some w) \<Rightarrow>
        (case si_owner (spec_item_of i) of None \<Rightarrow> si_status (spec_item_of i) \<in> set TERMINAL | Some v \<Rightarrow> v \<noteq> w)
      | _ \<Rightarrow> False) \<longleftrightarrow> owner_error k i (ua_owner a) \<noteq> None"
    by (auto simp: owner_error_def spec_item_of_def split: kwarg.splits option.splits)
  have d: "(case ua_depends_on a of None \<Rightarrow> False
      | Some ds \<Rightarrow> list_ex (\<lambda>d. unknown_id (abs_tracker t) d \<or> d = k) (map str_id ds)) \<longleftrightarrow> deps_error t k (ua_depends_on a) \<noteq> None"
    by (auto simp: deps_error_def invalid_deps_def list_ex_iff filter_empty_conv Let_def split: option.splits)
  have s: "(case ua_status a of None \<Rightarrow> False | Some st \<Rightarrow> st \<notin> set STATUSES) \<longleftrightarrow> status_error (ua_status a) \<noteq> None"
    by (auto simp: status_error_def split: option.splits)
  show ?thesis unfolding spec_rejected_def o d s by (auto simp: update_error_def split: option.splits)
qed

lemma abs_updated:
  "spec_item_of (set_fields a (set_owner a i)) = (spec_updated a (spec_item_of i))\<lparr>si_deps := it_depends_on i\<rparr>"
  by (auto simp: spec_item_of_def spec_updated_def claimed_def set_fields_def set_owner_def Let_def RESET_ON_UPDATE_def
      split: option.splits kwarg.splits if_splits)


lemma set_fields_cong: "spec_item_of i = spec_item_of j \<Longrightarrow> spec_item_of (set_fields a i) = spec_item_of (set_fields a j)"
  by (auto simp: spec_item_of_def set_fields_def Let_def split: option.splits kwarg.splits)

lemma abs_add:
  "abs_tracker (run_op t (OpAdd ti de ds md a ow af flavor)) = spec_op (abs_tracker t) (OpAdd ti de ds md a ow af flavor)"
proof -
  have unk: "list_ex (unknown_id (abs_tracker t)) (map str_id ds) \<longleftrightarrow> filter (\<lambda>d. \<not> has_key (tk_items t) d) (map str_id ds) \<noteq> []"
    by (simp add: list_ex_iff filter_empty_conv)
  have ins: "abs_tracker (insert_item u (new_item k ti de f (map str_id ds) ow af md)) =
      (abs_tracker u)\<lparr>sp_items := (sp_items (abs_tracker u))(k \<mapsto> \<lparr>si_status = PENDING, si_deps = map str_id ds, si_owner = ow\<rparr>)\<rparr>" for u k f
    by (simp add: abs_tracker_def insert_item_def view_dset new_item_def spec_item_of_def)
  have frame: "abs_tracker (u\<lparr>tk_next_id := n, tk_max_id_ever := m\<rparr>) = (abs_tracker u)\<lparr>sp_next := n\<rparr>" for u n m
    by (simp add: abs_tracker_def)
  have frame': "abs_tracker (u\<lparr>tk_max_id_ever := m, tk_next_id := n\<rparr>) = (abs_tracker u)\<lparr>sp_next := n\<rparr>" for u n m
    by (simp add: abs_tracker_def)
  have nx: "sp_next (abs_tracker t) = tk_next_id t" by (simp add: abs_tracker_def)
  show ?thesis
  proof (cases "list_ex (unknown_id (abs_tracker t)) (map str_id ds)")
    case True
    then show ?thesis using unk by (simp add: add_def)
  next
    case False
    then have f: "filter (\<lambda>d. \<not> has_key (tk_items t) d) (map str_id ds) = []" using unk by simp
    show ?thesis
      using False f by (cases a) (auto simp: add_def choose_id_def ins frame frame' nx spec_add_def Let_def)
  qed
qed

lemma abs_update: "abs_tracker (run_op t (OpUpdate x a)) = spec_op (abs_tracker t) (OpUpdate x a)"
proof (cases "dget (tk_items t) (str_id x)")
  case None
  then show ?thesis by (simp add: update_def abs_tracker_def view_def)
next
  case (Some i)
  let ?k = "str_id x" let ?its1 = "dmodify (tk_items t) ?k (set_owner a)"
  let ?its2 = "case ua_depends_on a of None \<Rightarrow> ?its1 | Some ds \<Rightarrow> set_edges ?k (it_depends_on i) (map str_id ds) ?its1"
  let ?its3 = "dmodify ?its2 ?k (set_fields a)"
  have sp: "sp_items (abs_tracker t) ?k = Some (spec_item_of i)" using Some by (simp add: abs_tracker_def view_def)
  show ?thesis
  proof (cases "update_error t ?k i a")
    case None
    have v: "view ?its3 = (view (tk_items t))(?k \<mapsto> spec_updated a (spec_item_of i))"
    proof
      fix j
      show "view ?its3 j = ((view (tk_items t))(?k \<mapsto> spec_updated a (spec_item_of i))) j"
      proof (cases "ua_depends_on a")
        case None
        then have "spec_item_of (set_fields a (set_owner a i)) = spec_updated a (spec_item_of i)"
          using abs_updated [of a i] by (simp add: spec_updated_def spec_item_of_def)
        then show ?thesis using None Some by (simp add: view_dmodify)
      next
        case (Some ds)
        let ?e = "set_edges ?k (it_depends_on i) (map str_id ds) ?its1"
        have "view ?e ?k = Some ((spec_item_of (set_owner a i))\<lparr>si_deps := map str_id ds\<rparr>)"
          unfolding view_set_edges using \<open>dget (tk_items t) ?k = Some i\<close> by (simp add: view_def)
        then obtain i' where i': "dget ?e ?k = Some i'" "spec_item_of i' = spec_item_of ((set_owner a i)\<lparr>it_depends_on := map str_id ds\<rparr>)"
          by (auto simp: view_def)
        have "spec_item_of (set_fields a i') = spec_item_of (set_fields a ((set_owner a i)\<lparr>it_depends_on := map str_id ds\<rparr>))"
          by (rule set_fields_cong [OF i'(2)])
        also have "\<dots> = spec_updated a (spec_item_of i)"
        proof -
          have "spec_item_of (set_fields a ((set_owner a i)\<lparr>it_depends_on := map str_id ds\<rparr>)) =
              (spec_item_of (set_fields a (set_owner a i)))\<lparr>si_deps := map str_id ds\<rparr>"
            by (auto simp: spec_item_of_def set_fields_def Let_def split: option.splits kwarg.splits)
          then show ?thesis using Some by (simp add: abs_updated spec_updated_def)
        qed
        finally show ?thesis using i'(1) Some by (simp add: view_dmodify view_set_edges)
      qed
    qed
    have "abs_tracker (run_op t (OpUpdate x a)) = abs_tracker (t\<lparr>tk_items := ?its3\<rparr>)"
      using Some None by (simp add: update_def Let_def)
    also have "\<dots> = (abs_tracker t)\<lparr>sp_items := (sp_items (abs_tracker t))(?k \<mapsto> spec_updated a (spec_item_of i))\<rparr>"
      by (simp add: abs_tracker_def v)
    finally show ?thesis using sp abs_rejected [of t ?k i a] None by simp
  next
    case e: (Some e)
    then show ?thesis using Some sp abs_rejected [of t ?k i a] by (simp add: update_def)
  qed
qed

lemma abs_set_status:
  "abs_tracker (t\<lparr>tk_items := dmodify (tk_items t) k f\<rparr>) = set_status (abs_tracker t) k st"
  if "\<And>i. spec_item_of (f i) = (spec_item_of i)\<lparr>si_status := st\<rparr>" for t
  by (auto simp: abs_tracker_def set_status_def view_dmodify fun_eq_iff that view_def option.map_comp comp_def)

lemma set_status_absent: "sp_items s k = None \<Longrightarrow> set_status s k st = s"
  by (cases s) (auto simp: set_status_def fun_eq_iff)

lemma spec_open_iff: "spec_open (abs_tracker t) k \<longleftrightarrow> (case dget (tk_items t) k of None \<Rightarrow> False | Some i \<Rightarrow> it_status i \<notin> set TERMINAL)"
  by (auto simp: spec_open_def abs_tracker_def view_def spec_item_of_def split: option.split)

lemma abs_sync_fold:
  "abs_tracker (t\<lparr>tk_items := foldl sync_one (tk_items t) us\<rparr>) =
     foldl (\<lambda>u (k, st, patch). set_status u (str_id k) st) (abs_tracker t) us"
proof (induction us arbitrary: t)
  case (Cons u us)
  obtain k st patch where u: "u = (k, st, patch)" by (metis surj_pair)
  let ?t = "t\<lparr>tk_items := sync_one (tk_items t) u\<rparr>"
  have "abs_tracker ?t = set_status (abs_tracker t) (str_id k) st"
    unfolding u sync_one_def prod.case by (rule abs_set_status) (simp add: spec_item_of_def)
  then show ?case using Cons.IH [of ?t] u by simp
qed simp

lemma abs_op: "abs_tracker (run_op t op) = spec_op (abs_tracker t) op"
proof (cases op)
  case (OpBulk a b)
  have none: "filter (\<lambda>i. it_status i = a) (dvals (tk_items t)) = [] \<Longrightarrow> dget (tk_items t) k = Some i \<Longrightarrow> it_status i \<noteq> a" for k i
    by (force simp: filter_empty_conv dest: map_of_SomeD)
  show ?thesis
  proof (cases "filter (\<lambda>i. it_status i = a) (dvals (tk_items t)) = []")
    case True
    have "(\<lambda>k. map_option (\<lambda>i. if si_status i = a then i\<lparr>si_status := b\<rparr> else i) (view (tk_items t) k)) = view (tk_items t)"
    proof
      fix k
      show "map_option (\<lambda>i. if si_status i = a then i\<lparr>si_status := b\<rparr> else i) (view (tk_items t) k) = view (tk_items t) k"
        using none [OF True, of k] by (cases "dget (tk_items t) k") (auto simp: view_def spec_item_of_def)
    qed
    then show ?thesis using OpBulk True by (simp add: bulk_transition_def abs_tracker_def)
  next
    case False
    have "view (map (\<lambda>(k, i). (k, if it_status i = a then i\<lparr>it_status := b\<rparr> else i)) (tk_items t)) =
        (\<lambda>k. map_option (\<lambda>i. if si_status i = a then i\<lparr>si_status := b\<rparr> else i) (view (tk_items t) k))"
      by (rule ext) (auto simp: view_def map_of_map_values option.map_comp comp_def spec_item_of_def intro!: option.map_cong)
    then show ?thesis using OpBulk False by (simp add: bulk_transition_def abs_tracker_def del: map_map)
  qed
next
  case (OpSync us)
  have f: "filter (\<lambda>(k, st, patch). spec_open (abs_tracker t) (str_id k)) us = filter (\<lambda>(k, _). sync_applicable t k) us"
    by (rule filter_cong) (auto simp: spec_open_iff sync_applicable_def split: option.split)
  show ?thesis using OpSync f abs_sync_fold [of t "filter (\<lambda>(k, _). sync_applicable t k) us"]
    by (simp add: sync_statuses_def Let_def)
next
  case (OpMark k)
  show ?thesis
  proof (cases "has_key (tk_items t) k")
    case True
    have "abs_tracker (t\<lparr>tk_items := dmodify (tk_items t) k (\<lambda>i. i\<lparr>it_status := IN_PROGRESS, it_attempts := it_attempts i + 1\<rparr>)\<rparr>) =
        set_status (abs_tracker t) k IN_PROGRESS"
      by (rule abs_set_status) (simp add: spec_item_of_def)
    then show ?thesis using OpMark True by (simp add: mark_in_progress_def)
  next
    case False
    then have "sp_items (abs_tracker t) k = None" by (simp add: abs_tracker_def has_key_view)
    then show ?thesis using OpMark False by (simp add: mark_in_progress_def set_status_absent)
  qed
next
  case (OpRecord k ok)
  show ?thesis
  proof (cases "has_key (tk_items t) k")
    case True
    have "abs_tracker (t\<lparr>tk_items := dmodify (tk_items t) k (\<lambda>i. i\<lparr>it_status := st\<rparr>)\<rparr>) = set_status (abs_tracker t) k st" for st
      by (rule abs_set_status) (simp add: spec_item_of_def)
    then show ?thesis using OpRecord True by (simp add: record_result_def)
  next
    case False
    then have "sp_items (abs_tracker t) k = None" by (simp add: abs_tracker_def has_key_view)
    then show ?thesis using OpRecord False by (simp add: record_result_def set_status_absent)
  qed
qed (simp_all only: abs_add abs_update)

definition spec_empty :: spec_state where
  "spec_empty = \<lparr>sp_items = (\<lambda>_. None), sp_next = 1\<rparr>"

lemma abs_run: "abs_tracker (run_ops (empty_tracker flavor) ops) = foldl spec_op spec_empty ops"
proof -
  have "abs_tracker (foldl run_op t ops) = foldl spec_op (abs_tracker t) ops" for t
    by (induction ops arbitrary: t) (simp_all add: abs_op)
  moreover have "abs_tracker (empty_tracker flavor) = spec_empty"
    by (simp add: abs_tracker_def empty_tracker_def spec_empty_def view_def)
  ultimately show ?thesis by (simp add: run_ops_def)
qed

text \<open>C15: The tracker refines its specification: after any history of calls, what a client sees of it (every item's
  status, dependencies and owner, and the next number) is what the specification computes from the same calls.\<close>

theorem tracker_refines_spec:
  "abs_tracker (run_ops (empty_tracker flavor) ops) = foldl spec_op spec_empty ops"
  by (rule abs_run)

section \<open>Status values\<close>

text \<open>The statuses a call is given; an update checks its own.\<close>

definition valid_statuses :: "tracker_op \<Rightarrow> bool" where
  "valid_statuses op = (case op of OpBulk a b \<Rightarrow> b \<in> set STATUSES
     | OpSync us \<Rightarrow> list_all (\<lambda>(k, st, patch). st \<in> set STATUSES) us | _ \<Rightarrow> True)"

definition well_typed :: "spec_state \<Rightarrow> bool" where
  "well_typed s \<longleftrightarrow> (\<forall>k i. sp_items s k = Some i \<longrightarrow> si_status i \<in> set STATUSES)"

lemma well_typed_set: "well_typed s \<Longrightarrow> st \<in> set STATUSES \<Longrightarrow> well_typed (set_status s k st)"
  by (auto simp: well_typed_def set_status_def)

lemma well_typed_sync:
  "well_typed s \<Longrightarrow> list_all (\<lambda>(k, st, patch). st \<in> set STATUSES) us \<Longrightarrow>
     well_typed (foldl (\<lambda>u (k, st, patch). set_status u (str_id k) st) s us)"
  by (induction us arbitrary: s) (auto simp: well_typed_set)

lemma statuses_in: "PENDING \<in> set STATUSES" "IN_PROGRESS \<in> set STATUSES" "COMPLETED \<in> set STATUSES" "FAILED \<in> set STATUSES"
  by (simp_all add: STATUSES_def)

lemma well_typed_op: "well_typed s \<Longrightarrow> valid_statuses op \<Longrightarrow> well_typed (spec_op s op)"
proof (cases op)
  case (OpUpdate x a)
  assume w: "well_typed s"
  have "si_status (spec_updated a i) \<in> set STATUSES" if "sp_items s (str_id x) = Some i" "\<not> spec_rejected s (str_id x) i a" for i
    using w that statuses_in
    by (auto simp: well_typed_def spec_updated_def claimed_def spec_rejected_def split: option.splits kwarg.splits)
  then show ?thesis using w OpUpdate by (auto simp: well_typed_def split: option.splits)
next
  case (OpSync us)
  assume "well_typed s" "valid_statuses op"
  then show ?thesis using OpSync by (auto simp: valid_statuses_def list_all_iff intro!: well_typed_sync)
qed (auto simp: well_typed_def spec_add_def valid_statuses_def set_status_def statuses_in split: option.splits if_splits)

text \<open>C37: Every item of a tracker has one of the five statuses, after any history of calls whose bulk changes name
  such statuses; updates check theirs.\<close>

theorem statuses_well_typed:
  assumes "list_all valid_statuses ops" "dget (tk_items (run_ops (empty_tracker flavor) ops)) k = Some i"
  shows "it_status i \<in> set STATUSES"
proof -
  have "well_typed (foldl spec_op s ops)" if "well_typed s" "list_all valid_statuses ops" for s and ops :: "tracker_op list"
    using that by (induction ops arbitrary: s) (auto simp: well_typed_op)
  moreover have "well_typed spec_empty" by (simp add: well_typed_def spec_empty_def)
  ultimately have "well_typed (abs_tracker (run_ops (empty_tracker flavor) ops))" using assms(1) by (simp add: abs_run)
  moreover have "sp_items (abs_tracker (run_ops (empty_tracker flavor) ops)) k = Some (spec_item_of i)"
    using assms(2) by (simp add: abs_tracker_def view_def)
  ultimately have "si_status (spec_item_of i) \<in> set STATUSES" by (auto simp: well_typed_def)
  then show ?thesis by (simp add: spec_item_of_def)
qed

theorem statuses_well_typed_witness:
  "it_status (new_item ''1'' ''a'' [] ''task'' [] None None []) \<in> set STATUSES"
proof (rule statuses_well_typed)
  show "list_all valid_statuses [OpAdd ''a'' [] [] [] None None None None]" by (simp add: valid_statuses_def)
  show "dget (tk_items (run_ops (empty_tracker ''task'') [OpAdd ''a'' [] [] [] None None None None])) ''1'' =
      Some (new_item ''1'' ''a'' [] ''task'' [] None None [])"
    by code_simp
qed

end
