(* ===== verification/Agent_Pool.thy ===== *)
theory Agent_Pool
  imports Prelude
begin

text \<open>
  \<open>core/coordination/pool.py\<close>: the pool of agents with its busy set, checkout and checkin, the
  reviewer table, and the batched start-up with retries. Agents and reviewers are named by their
  ids; starting and closing an agent is code of the agent, given by an outcome function.
\<close>

section \<open>State and operations\<close>

record agent_pool =
  ap_agents :: "string list"
  ap_busy :: "string list"
  ap_reviewers :: "(string, string) dict"

definition new_pool :: "string list \<Rightarrow> (string, string) dict option \<Rightarrow> agent_pool" where
  "new_pool agents reviewers =
     \<lparr>ap_agents = agents, ap_busy = [], ap_reviewers = (case reviewers of None \<Rightarrow> [] | Some r \<Rightarrow> r)\<rparr>"

definition pool_size :: "agent_pool \<Rightarrow> nat" where
  "pool_size p = length (ap_agents p)"

definition available :: "agent_pool \<Rightarrow> string list" where
  "available p = filter (\<lambda>a. a \<notin> set (ap_busy p)) (ap_agents p)"

text \<open>\<open>avail[:n]\<close> with a negative \<open>n\<close> drops that many from the end.\<close>

definition slice_to :: "int \<Rightarrow> 'a list \<Rightarrow> 'a list" where
  "slice_to n xs = (if 0 \<le> n then take (nat n) xs else take (nat (int (length xs) + n)) xs)"

text \<open>The busy set as a list without repetition: adding and discarding one id.\<close>

definition set_add :: "'a \<Rightarrow> 'a list \<Rightarrow> 'a list" where
  "set_add x xs = (if x \<in> set xs then xs else xs @ [x])"

definition checkout :: "agent_pool \<Rightarrow> int \<Rightarrow> string list \<times> agent_pool" where
  "checkout p n =
     (let taken = slice_to n (available p)
      in (taken, p\<lparr>ap_busy := foldl (\<lambda>b a. set_add a b) (ap_busy p) taken\<rparr>))"

definition checkin :: "agent_pool \<Rightarrow> string list \<Rightarrow> agent_pool" where
  "checkin p agents = p\<lparr>ap_busy := foldl (\<lambda>b a. removeAll a b) (ap_busy p) agents\<rparr>"

definition get_reviewer :: "agent_pool \<Rightarrow> string \<Rightarrow> string option" where
  "get_reviewer p a = dget (ap_reviewers p) a"

record pool_status =
  ps_total :: nat
  ps_available :: nat
  ps_busy :: nat
  ps_agents :: "(string \<times> bool) list"

definition pool_status :: "agent_pool \<Rightarrow> pool_status" where
  "pool_status p = \<lparr>ps_total = pool_size p, ps_available = length (available p),
     ps_busy = length (ap_busy p), ps_agents = map (\<lambda>a. (a, a \<in> set (ap_busy p))) (ap_agents p)\<rparr>"

section \<open>Start-up and shutdown\<close>

text \<open>The batches \<open>all_agents[i : i + batch_size]\<close> for \<open>i\<close> in \<open>range(0, len, batch_size)\<close>.\<close>

function batches :: "nat \<Rightarrow> 'a list \<Rightarrow> 'a list list" where
  "batches n xs = (if n = 0 \<or> xs = [] then [] else take n xs # batches n (drop n xs))"
  by pat_completeness auto
termination
  by (relation "measure (\<lambda>(n, xs). length xs)") auto

declare batches.simps [simp del]

text \<open>
  One agent: attempts \<open>attempt, attempt + 1, \<dots>\<close>, the last one being \<open>max_retries + 1\<close>. \<open>starts a k\<close>
  tells whether \<open>a.__aenter__()\<close> succeeds at attempt \<open>k\<close>; the log holds the attempts made.
\<close>

function start_agent :: "(string \<Rightarrow> nat \<Rightarrow> bool) \<Rightarrow> nat \<Rightarrow> string \<Rightarrow> nat \<Rightarrow>
    (string \<times> nat) list \<Rightarrow> (string \<times> nat) list \<times> bool" where
  "start_agent starts max_retries a attempt log =
     (if starts a attempt then (log @ [(a, attempt)], True)
      else if attempt > max_retries then (log @ [(a, attempt)], False)
      else start_agent starts max_retries a (Suc attempt) (log @ [(a, attempt)]))"
  by pat_completeness auto
termination
  by (relation "measure (\<lambda>(s, m, a, k, l). Suc m - k)") auto

declare start_agent.simps [simp del]

fun start_batch :: "(string \<Rightarrow> nat \<Rightarrow> bool) \<Rightarrow> nat \<Rightarrow> string list \<Rightarrow> (string \<times> nat) list \<Rightarrow>
    (string \<times> nat) list \<times> bool" where
  "start_batch starts m [] log = (log, True)"
| "start_batch starts m (a # as) log =
     (case start_agent starts m a 1 log of
        (log', True) \<Rightarrow> start_batch starts m as log'
      | (log', False) \<Rightarrow> (log', False))"

fun start_batches :: "(string \<Rightarrow> nat \<Rightarrow> bool) \<Rightarrow> nat \<Rightarrow> string list list \<Rightarrow> (string \<times> nat) list \<Rightarrow>
    (string \<times> nat) list \<times> bool" where
  "start_batches starts m [] log = (log, True)"
| "start_batches starts m (b # bs) log =
     (case start_batch starts m b log of
        (log', True) \<Rightarrow> start_batches starts m bs log'
      | (log', False) \<Rightarrow> (log', False))"

text \<open>\<open>initialize\<close>: the log of attempts, and whether it returned or re-raised the last error;
  a batch size of zero makes \<open>range\<close> raise.\<close>

definition initialize :: "(string \<Rightarrow> nat \<Rightarrow> bool) \<Rightarrow> agent_pool \<Rightarrow> nat \<Rightarrow> nat \<Rightarrow>
    ((string \<times> nat) list \<times> bool) result" where
  "initialize starts p batch_size max_retries =
     (if batch_size = 0 then Inl (ValueError ''range() arg 3 must not be zero'')
      else Inr (start_batches starts max_retries (batches batch_size (ap_agents p @ dvals (ap_reviewers p))) []))"

text \<open>\<open>shutdown\<close>: every reviewer and then every agent gets one close call, whatever the calls do;
  \<open>closes\<close> tells which calls succeed, the others are logged as warnings.\<close>

definition shutdown :: "(string \<Rightarrow> bool) \<Rightarrow> agent_pool \<Rightarrow> (string \<times> bool) list" where
  "shutdown closes p = map (\<lambda>a. (a, closes a)) (dvals (ap_reviewers p) @ ap_agents p)"

section \<open>Checkout and checkin\<close>

definition wf_pool :: "agent_pool \<Rightarrow> bool" where
  "wf_pool p \<longleftrightarrow> distinct (ap_agents p) \<and> distinct (ap_busy p) \<and> set (ap_busy p) \<subseteq> set (ap_agents p)"

lemma set_foldl_add [simp]: "set (foldl (\<lambda>b a. set_add a b) bs as) = set bs \<union> set as"
  by (induction as arbitrary: bs) (auto simp: set_add_def)

lemma set_foldl_removeAll [simp]: "set (foldl (\<lambda>b a. removeAll a b) bs as) = set bs - set as"
  by (induction as arbitrary: bs) auto

lemma distinct_foldl_add: "distinct bs \<Longrightarrow> distinct (foldl (\<lambda>b a. set_add a b) bs as)"
  by (induction as arbitrary: bs) (auto simp: set_add_def)

lemma distinct_removeAll: "distinct bs \<Longrightarrow> distinct (removeAll a bs)"
  by (induction bs) auto

lemma distinct_foldl_removeAll: "distinct bs \<Longrightarrow> distinct (foldl (\<lambda>b a. removeAll a b) bs as)"
  by (induction as arbitrary: bs) (auto simp: distinct_removeAll)

lemma set_slice_to: "set (slice_to n xs) \<subseteq> set xs"
  by (auto simp: slice_to_def dest: in_set_takeD)

lemma available_set [simp]: "set (available p) = set (ap_agents p) - set (ap_busy p)"
  by (auto simp: available_def)

lemma checkout_wf: "wf_pool p \<Longrightarrow> checkout p n = (as, p') \<Longrightarrow> wf_pool p'"
  using set_slice_to [of n "available p"]
  by (auto simp: wf_pool_def checkout_def Let_def distinct_foldl_add)

lemma checkin_wf: "wf_pool p \<Longrightarrow> wf_pool (checkin p as)"
  by (auto simp: wf_pool_def checkin_def distinct_foldl_removeAll)

lemma checkout_taken:
  assumes "checkout p n = (as, p')"
  shows "set as \<subseteq> set (ap_agents p) - set (ap_busy p)" "set (ap_busy p') = set (ap_busy p) \<union> set as"
    "ap_agents p' = ap_agents p" "ap_reviewers p' = ap_reviewers p"
  using assms set_slice_to [of n "available p"] by (auto simp: checkout_def Let_def)

text \<open>Checking out never hands out a busy agent, marks exactly the agents it hands out busy, hands
  out the first idle ones up to the number asked for, and checking the same agents in again restores
  the busy set; so two checkouts in a row share no agent.\<close>

theorem checkout_exclusive:
  assumes "checkout p (int n) = (as, p1)" and "checkout p1 m = (bs, p2)"
  shows "as = take n (available p) \<and> set as \<inter> set (ap_busy p) = {} \<and>
    set (available p1) = set (available p) - set as \<and> set as \<inter> set bs = {} \<and>
    set (ap_busy (checkin p1 as)) = set (ap_busy p)"
  using checkout_taken [OF assms(1)] checkout_taken [OF assms(2)] assms(1)
  by (auto simp: checkin_def checkout_def slice_to_def Let_def)

theorem checkout_exclusive_witness:
  "fst (checkout (new_pool [''a'', ''b'', ''c''] None) (int 2)) = [''a'', ''b''] \<and>
   fst (checkout (snd (checkout (new_pool [''a'', ''b'', ''c''] None) (int 2))) 5) = [''c''] \<and>
   set [''a'', ''b''] \<inter> set [''c''] = {}"
proof -
  let ?p = "new_pool [''a'', ''b'', ''c''] None"
  have a: "fst (checkout ?p (int 2)) = [''a'', ''b'']" by code_simp
  have b: "fst (checkout (snd (checkout ?p (int 2))) 5) = [''c'']" by code_simp
  obtain p1 where p1: "checkout ?p (int 2) = ([''a'', ''b''], p1)" using a by (cases "checkout ?p (int 2)") auto
  obtain p2 where p2: "checkout p1 5 = ([''c''], p2)" using b p1 by (cases "checkout p1 5") auto
  from checkout_exclusive [OF p1 p2] a b show ?thesis by blast
qed

section \<open>Start-up\<close>

lemma concat_batches: "0 < n \<Longrightarrow> concat (batches n xs) = xs"
proof (induction n xs rule: batches.induct)
  case (1 n xs)
  then show ?case by (subst batches.simps) auto
qed

lemma start_batch_append:
  "start_batch starts m (as @ bs) log =
     (case start_batch starts m as log of (l, True) \<Rightarrow> start_batch starts m bs l | (l, False) \<Rightarrow> (l, False))"
  by (induction as arbitrary: log) (auto split: prod.splits bool.splits)

lemma start_batches_concat: "start_batches starts m bs log = start_batch starts m (concat bs) log"
  by (induction bs arbitrary: log) (auto simp: start_batch_append split: prod.splits bool.splits)

lemma start_agent_ok:
  "attempt \<le> Suc m \<Longrightarrow>
   snd (start_agent starts m a attempt log) \<longleftrightarrow> (\<exists>k. attempt \<le> k \<and> k \<le> Suc m \<and> starts a k)"
proof (induction starts m a attempt log rule: start_agent.induct)
  case (1 starts m a attempt log)
  show ?case
  proof (cases "starts a attempt \<or> attempt > m")
    case True
    with 1 show ?thesis by (subst start_agent.simps) (auto simp: le_Suc_eq)
  next
    case False
    with 1 have "snd (start_agent starts m a attempt log) \<longleftrightarrow> (\<exists>k. Suc attempt \<le> k \<and> k \<le> Suc m \<and> starts a k)"
      by (subst start_agent.simps) simp
    with False show ?thesis by (metis Suc_leD Suc_leI le_neq_implies_less)
  qed
qed

lemma start_batch_ok:
  "snd (start_batch starts m as log) \<longleftrightarrow> (\<forall>a \<in> set as. \<exists>k. 1 \<le> k \<and> k \<le> Suc m \<and> starts a k)"
proof (induction as arbitrary: log)
  case (Cons a as)
  then show ?case using start_agent_ok [of 1 m starts a log]
    by (auto split: prod.splits bool.splits)
qed simp

text \<open>\<open>initialize\<close> returns, for any positive batch size, exactly when every agent and every reviewer
  starts at one of its attempts 1 to \<open>max_retries + 1\<close>, and the attempts it makes do not depend on
  the batch size: they are those of starting the agents and then the reviewers one after the other.\<close>

theorem initialize_exact:
  assumes "0 < batch_size"
  shows "\<exists>log ok. initialize starts p batch_size max_retries = Inr (log, ok) \<and>
    (ok \<longleftrightarrow> (\<forall>a \<in> set (ap_agents p) \<union> set (dvals (ap_reviewers p)).
              \<exists>k. 1 \<le> k \<and> k \<le> max_retries + 1 \<and> starts a k)) \<and>
    (log, ok) = start_batch starts max_retries (ap_agents p @ dvals (ap_reviewers p)) []"
proof -
  let ?all = "ap_agents p @ dvals (ap_reviewers p)"
  obtain log ok where r: "start_batch starts max_retries ?all [] = (log, ok)" by fastforce
  have "initialize starts p batch_size max_retries = Inr (log, ok)"
    using assms r by (simp add: initialize_def start_batches_concat concat_batches)
  moreover have "ok \<longleftrightarrow> (\<forall>a \<in> set ?all. \<exists>k. 1 \<le> k \<and> k \<le> Suc max_retries \<and> starts a k)"
    using start_batch_ok [of starts max_retries ?all "[]"] r by simp
  ultimately show ?thesis using r by auto
qed

theorem initialize_exact_witness:
  "initialize (\<lambda>a k. a \<noteq> ''b'' \<or> k = 2) (new_pool [''a'', ''b''] (Some [(''a'', ''r'')])) 4 2
     = Inr ([(''a'', 1), (''b'', 1), (''b'', 2), (''r'', 1)], True)"
proof -
  obtain log ok where i: "initialize (\<lambda>a k. a \<noteq> ''b'' \<or> k = 2) (new_pool [''a'', ''b''] (Some [(''a'', ''r'')])) 4 2 = Inr (log, ok)"
    and l: "(log, ok) = start_batch (\<lambda>a k. a \<noteq> ''b'' \<or> k = 2) 2
       (ap_agents (new_pool [''a'', ''b''] (Some [(''a'', ''r'')])) @ dvals (ap_reviewers (new_pool [''a'', ''b''] (Some [(''a'', ''r'')])))) []"
    using initialize_exact [of 4 "\<lambda>a k. a \<noteq> ''b'' \<or> k = 2" "new_pool [''a'', ''b''] (Some [(''a'', ''r'')])" 2] by auto
  have "(log, ok) = ([(''a'', 1), (''b'', 1), (''b'', 2), (''r'', 1)], True)"
    unfolding l by (simp add: new_pool_def start_agent.simps)
  with i show ?thesis by simp
qed

end
