(* ===== verification/Executor_Interface.thy ===== *)
theory Executor_Interface
  imports Item_Tracker Agent_Pool
begin

text \<open>
  \<open>core/coordination/executor.py\<close>: the contract between the scheduling loop and whatever runs the
  tasks (\<open>TaskExecutor\<close>) as a locale, the result record they exchange, and the local executor with
  its interpretation of the contract.
\<close>

section \<open>Results\<close>

text \<open>\<open>FailureCause\<close> and \<open>ConcurrentResult\<close> of \<open>core/coordination/concurrent_agents.py\<close>.\<close>

datatype failure_cause = CauseTask | CauseInfrastructure

fun failure_cause_of :: "string \<Rightarrow> failure_cause result" where
  "failure_cause_of s =
     (if s = ''task'' then Inr CauseTask
      else if s = ''infrastructure'' then Inr CauseInfrastructure
      else Inl (ValueError (quoted s @ '' is not a valid FailureCause'')))"

record concurrent_result =
  cr_success :: bool
  cr_winner_id :: "string option"
  cr_error :: "string option"
  cr_failure_cause :: "failure_cause option"
  cr_pre_merge_hash :: "string option"
  cr_post_merge_hash :: "string option"

definition failed_result :: "string \<Rightarrow> failure_cause option \<Rightarrow> concurrent_result" where
  "failed_result err cause = \<lparr>cr_success = False, cr_winner_id = None, cr_error = Some err,
     cr_failure_cause = cause, cr_pre_merge_hash = None, cr_post_merge_hash = None\<rparr>"

section \<open>The executor contract\<close>

text \<open>
  What happens when the coroutine of \<open>run\<close> gets control: it hands the task to a worker (and calls
  \<open>on_dispatched\<close>), waits for capacity, returns a result at once, or raises.
\<close>

datatype 'e begin_outcome =
    Started 'e
  | Waits
  | Returns concurrent_result
  | Raises py_error 'e

text \<open>
  \<open>active\<close> are the tasks handed to workers whose \<open>run\<close> has not returned; \<open>finish\<close> is the return of
  one of them with a result; \<open>env\<close> are the executor's own steps (messages, deadlines).
\<close>

locale task_executor =
  fixes einv :: "'e \<Rightarrow> bool"
    and active :: "'e \<Rightarrow> string set"
    and begin_run :: "'e \<Rightarrow> item \<Rightarrow> int \<Rightarrow> 'e begin_outcome"
    and finish :: "'e \<Rightarrow> string \<Rightarrow> concurrent_result \<Rightarrow> 'e \<Rightarrow> bool"
    and env :: "'e \<Rightarrow> 'e \<Rightarrow> bool"
  assumes begin_started: "einv e \<Longrightarrow> it_id t \<notin> active e \<Longrightarrow> begin_run e t n = Started e' \<Longrightarrow>
      einv e' \<and> active e' = insert (it_id t) (active e)"
    and begin_raises: "einv e \<Longrightarrow> it_id t \<notin> active e \<Longrightarrow> begin_run e t n = Raises x e' \<Longrightarrow>
      einv e' \<and> active e' = active e"
    and finish_active: "einv e \<Longrightarrow> finish e k r e' \<Longrightarrow>
      k \<in> active e \<and> einv e' \<and> active e' = active e - {k}"
    and env_active: "einv e \<Longrightarrow> env e e' \<Longrightarrow> einv e' \<and> active e' = active e"

section \<open>The local executor\<close>

text \<open>
  The agents checked out for a task are a local variable of its \<open>run\<close> coroutine; \<open>le_out\<close> holds
  them while it runs.
\<close>

record local_exec =
  le_pool :: agent_pool
  le_agents_per_task :: int
  le_out :: "(string, string list) dict"

definition local_available_slots :: "local_exec \<Rightarrow> int result" where
  "local_available_slots e =
     (if le_agents_per_task e = 0 then Inl ZeroDivisionError
      else Inr (int (length (available (le_pool e))) div le_agents_per_task e))"

definition local_begin :: "local_exec \<Rightarrow> item \<Rightarrow> int \<Rightarrow> local_exec begin_outcome" where
  "local_begin e t attempt_number =
     (case checkout (le_pool e) (le_agents_per_task e) of (agents, p') \<Rightarrow>
        if agents = [] then Returns (failed_result ''No agents available'' None)
        else Started (e\<lparr>le_pool := p', le_out := dset (le_out e) (it_id t) agents\<rparr>))"

text \<open>The \<open>finally\<close> clause returns the agents, whether \<open>run_task\<close> returned or raised.\<close>

definition local_finish :: "local_exec \<Rightarrow> string \<Rightarrow> local_exec result" where
  "local_finish e k = (case dget (le_out e) k of
     None \<Rightarrow> Inl (KeyError k)
   | Some agents \<Rightarrow> Inr (e\<lparr>le_pool := checkin (le_pool e) agents, le_out := ddel (le_out e) k\<rparr>))"

definition local_active :: "local_exec \<Rightarrow> string set" where
  "local_active e = set (dkeys (le_out e))"

text \<open>The invariant: the busy agents are exactly the checked out ones, each in one task only.\<close>

definition local_inv :: "local_exec \<Rightarrow> bool" where
  "local_inv e \<longleftrightarrow> wf_pool (le_pool e) \<and> wf_dict (le_out e) \<and>
     (\<forall>a. a \<in> set (ap_busy (le_pool e)) \<longleftrightarrow> (\<exists>k as. dget (le_out e) k = Some as \<and> a \<in> set as)) \<and>
     (\<forall>k l as bs. dget (le_out e) k = Some as \<longrightarrow> dget (le_out e) l = Some bs \<longrightarrow> k \<noteq> l \<longrightarrow> set as \<inter> set bs = {})"

lemma local_begin_started:
  assumes einv: "local_inv e" and new: "it_id t \<notin> local_active e" and st: "local_begin e t n = Started e'"
  shows "local_inv e' \<and> local_active e' = insert (it_id t) (local_active e)"
proof -
  obtain as p' where c: "checkout (le_pool e) (le_agents_per_task e) = (as, p')"
    and e': "e' = e\<lparr>le_pool := p', le_out := dset (le_out e) (it_id t) as\<rparr>"
    using st by (auto simp: local_begin_def split: prod.splits if_splits)
  have fresh: "dget (le_out e) (it_id t) = None" using new by (simp add: local_active_def map_of_eq_None_iff)
  note tk = checkout_taken [OF c]
  have free: "set as \<inter> set bs = {}" if "dget (le_out e) k = Some bs" for k bs
    using that einv tk(1) unfolding local_inv_def by blast
  have "wf_pool p'" using checkout_wf [OF _ c] einv by (simp add: local_inv_def)
  moreover have "a \<in> set (ap_busy p') \<longleftrightarrow> (\<exists>k bs. dget (le_out e') k = Some bs \<and> a \<in> set bs)" for a
  proof -
    have "(\<exists>k bs. dget (le_out e') k = Some bs \<and> a \<in> set bs) \<longleftrightarrow>
      a \<in> set as \<or> (\<exists>k bs. dget (le_out e) k = Some bs \<and> a \<in> set bs)"
    proof -
      have "dget (le_out e') k = Some bs \<longleftrightarrow> (if k = it_id t then bs = as else dget (le_out e) k = Some bs)" for k bs
        by (auto simp: e')
      then show ?thesis using fresh by (metis option.distinct(1))
    qed
    then show ?thesis using tk(2) einv by (auto simp: local_inv_def)
  qed
  moreover have "set as' \<inter> set bs = {}"
    if "dget (le_out e') k = Some as'" "dget (le_out e') l = Some bs" "k \<noteq> l" for k l as' bs
    using that free einv unfolding local_inv_def by (auto simp: e' split: if_splits)
  moreover have "wf_dict (le_out e')" using einv by (simp add: e' local_inv_def)
  ultimately have "local_inv e'" unfolding local_inv_def by (simp add: e')
  moreover have "local_active e' = insert (it_id t) (local_active e)"
    by (auto simp: local_active_def e' keys_dset_fresh [OF fresh])
  ultimately show ?thesis by blast
qed

lemma local_finish_ok:
  assumes einv: "local_inv e" and fin: "local_finish e k = Inr e'"
  shows "k \<in> local_active e \<and> local_inv e' \<and> local_active e' = local_active e - {k}"
proof -
  obtain as where as: "dget (le_out e) k = Some as"
    and e': "e' = e\<lparr>le_pool := checkin (le_pool e) as, le_out := ddel (le_out e) k\<rparr>"
    using fin by (auto simp: local_finish_def split: option.splits)
  have "k \<in> local_active e" using as by (force simp: local_active_def dest: map_of_SomeD)
  moreover have "local_active e' = local_active e - {k}"
    by (auto simp: local_active_def e' delete_keys)
  moreover have "local_inv e'"
  proof -
    have busy: "a \<in> set (ap_busy (checkin (le_pool e) as)) \<longleftrightarrow>
        (\<exists>l bs. dget (ddel (le_out e) k) l = Some bs \<and> a \<in> set bs)" for a
    proof -
      have "a \<in> set as \<Longrightarrow> dget (le_out e) l = Some bs \<Longrightarrow> l \<noteq> k \<Longrightarrow> a \<notin> set bs" for l bs
        using einv as unfolding local_inv_def by blast
      moreover have "a \<in> set (ap_busy (le_pool e)) \<longleftrightarrow> (\<exists>k as. dget (le_out e) k = Some as \<and> a \<in> set as)"
        using einv by (simp add: local_inv_def)
      moreover have "dget (ddel (le_out e) k) l = Some bs \<longleftrightarrow> l \<noteq> k \<and> dget (le_out e) l = Some bs" for l bs
        by simp
      moreover have "a \<in> set (ap_busy (checkin (le_pool e) as)) \<longleftrightarrow> a \<in> set (ap_busy (le_pool e)) \<and> a \<notin> set as"
        by (simp add: checkin_def)
      ultimately show ?thesis using as by (metis option.inject)
    qed
    have "set as' \<inter> set bs = {}" if "dget (ddel (le_out e) k) l = Some as'" "dget (ddel (le_out e) k) m = Some bs" "l \<noteq> m"
      for l m as' bs
      using that einv unfolding local_inv_def by (auto split: if_splits)
    then show ?thesis using einv busy unfolding local_inv_def by (simp add: e' checkin_wf)
  qed
  ultimately show ?thesis by blast
qed

interpretation local_ex: task_executor local_inv local_active local_begin
    "\<lambda>e k r e'. local_finish e k = Inr e'" "\<lambda>e e'. False"
proof
  show "\<And>e t n e'. local_inv e \<Longrightarrow> it_id t \<notin> local_active e \<Longrightarrow> local_begin e t n = Started e' \<Longrightarrow>
      local_inv e' \<and> local_active e' = insert (it_id t) (local_active e)"
    by (rule local_begin_started)
  show "\<And>e t n x e'. local_inv e \<Longrightarrow> it_id t \<notin> local_active e \<Longrightarrow> local_begin e t n = Raises x e' \<Longrightarrow>
      local_inv e' \<and> local_active e' = local_active e"
    by (auto simp: local_begin_def split: prod.splits if_splits)
  show "\<And>e k r e'. local_inv e \<Longrightarrow> local_finish e k = Inr e' \<Longrightarrow>
      k \<in> local_active e \<and> local_inv e' \<and> local_active e' = local_active e - {k}"
    by (rule local_finish_ok)
qed simp

end
