(* ===== verification/Dist_Executor.thy ===== *)
theory Dist_Executor
  imports Executor_Interface
begin

text \<open>
  \<open>core/coordination/multinode/executor.py\<close>: dispatch of tasks to worker nodes. The state holds the
  nodes' free capacity, the futures of the running tasks, the rank each task went to and the
  dispatch times of the tasks not yet acknowledged. The ZMQ server is represented by the ranks whose
  identity it has recorded and the messages sent; the monotonic clock by an integer of the state that
  the environment advances.
\<close>

section \<open>State\<close>

datatype pick_strategy = BIGGEST_FIRST | BEST_FIT

record task_msg =
  tm_task_id :: string
  tm_title :: string
  tm_description :: string
  tm_attempt_number :: int
  tm_n_agents :: int
  tm_metadata :: "(string, json) dict"

datatype coord_msg = MTask task_msg | MShutdown | MRestart

record result_msg =
  rm_task_id :: string
  rm_success :: "bool option"
  rm_winner_id :: "string option"
  rm_error :: "string option"
  rm_failure_cause :: "string option"
  rm_pre_merge_hash :: "string option"
  rm_post_merge_hash :: "string option"
  rm_capacity :: "int option"

datatype worker_msg = WRegister int | WAck "string option" | WResult result_msg | WOther

text \<open>
  \<open>de_pending\<close> are the tasks whose future is unresolved. A resolved future that \<open>run\<close> has not yet
  returned is an entry of \<open>de_resolved\<close>.
\<close>

record dist_exec =
  de_num_workers :: int
  de_min_agents :: int
  de_max_agents :: int
  de_strategy :: pick_strategy
  de_registration_timeout :: int
  de_ack_timeout :: int
  de_node_capacity :: "(int, int) dict"
  de_pending :: "string list"
  de_task_rank :: "(string, int) dict"
  de_unacked :: "(string, int) dict"
  de_resolved :: "(string, concurrent_result) dict"
  de_identities :: "int list"
  de_sent :: "(int \<times> coord_msg) list"
  de_clock :: int

text \<open>\<open>ZmqTaskServer.send\<close>: a rank whose identity is not known is a \<open>KeyError\<close>.\<close>

definition de_send :: "dist_exec \<Rightarrow> int \<Rightarrow> coord_msg \<Rightarrow> dist_exec result" where
  "de_send e rank msg =
     (if rank \<in> set (de_identities e) then Inr (e\<lparr>de_sent := de_sent e @ [(rank, msg)]\<rparr>)
      else Inl (KeyError (str_int rank)))"

section \<open>Capacity and node choice\<close>

definition available_slots :: "dist_exec \<Rightarrow> int result" where
  "available_slots e =
     (if de_node_capacity e \<noteq> [] \<and> de_min_agents e = 0 then Inl ZeroDivisionError
      else Inr (sum_list (map (\<lambda>cap. cap div de_min_agents e) (dvals (de_node_capacity e)))))"

text \<open>\<open>max\<close> and \<open>min\<close> with a key: the first of the extreme elements.\<close>

fun max_by :: "('a \<Rightarrow> int) \<Rightarrow> 'a \<Rightarrow> 'a list \<Rightarrow> 'a" where
  "max_by f m [] = m"
| "max_by f m (x # xs) = max_by f (if f x > f m then x else m) xs"

fun min_by :: "('a \<Rightarrow> int) \<Rightarrow> 'a \<Rightarrow> 'a list \<Rightarrow> 'a" where
  "min_by f m [] = m"
| "min_by f m (x # xs) = min_by f (if f x < f m then x else m) xs"

definition pick_node :: "dist_exec \<Rightarrow> int \<Rightarrow> int \<Rightarrow> (int \<times> int) option" where
  "pick_node e min_agents max_agents =
     (case filter (\<lambda>(rank, cap). cap \<ge> min_agents) (de_node_capacity e) of
        [] \<Rightarrow> None
      | c # cs \<Rightarrow>
          (let (rank, cap) = (case de_strategy e of
                 BIGGEST_FIRST \<Rightarrow> max_by snd c cs
               | BEST_FIT \<Rightarrow> min_by snd c cs)
           in Some (rank, min max_agents cap)))"

section \<open>run\<close>

text \<open>\<open>metadata.get(key, default)\<close> used as a number: a bool counts as 0 or 1, any other value is a
  \<open>TypeError\<close> where it is first compared.\<close>

definition meta_int :: "(string, json) dict \<Rightarrow> string \<Rightarrow> int \<Rightarrow> int option" where
  "meta_int md k d = (case dget md k of
     None \<Rightarrow> Some d
   | Some (JInt i) \<Rightarrow> Some i
   | Some (JBool b) \<Rightarrow> Some (if b then 1 else 0)
   | Some _ \<Rightarrow> None)"

text \<open>
  The dispatch, which has no await in it: the future and the rank are stored, the task message is
  sent, the capacity is reduced and the dispatch time is noted. A failing send leaves the future and
  the rank behind.
\<close>

definition dispatch_to :: "int \<Rightarrow> dist_exec \<Rightarrow> item \<Rightarrow> int \<Rightarrow> int \<times> int \<Rightarrow> dist_exec begin_outcome" where
  "dispatch_to now e t attempt_number node = (case node of (rank, n_agents) \<Rightarrow>
     let e1 = e\<lparr>de_pending := set_add (it_id t) (de_pending e),
                de_task_rank := dset (de_task_rank e) (it_id t) rank\<rparr>
     in (case de_send e1 rank (MTask \<lparr>tm_task_id = it_id t, tm_title = it_title t,
             tm_description = it_description t, tm_attempt_number = attempt_number,
             tm_n_agents = n_agents, tm_metadata = it_metadata t\<rparr>) of
           Inl x \<Rightarrow> Raises x e1
         | Inr e2 \<Rightarrow> Started (e2\<lparr>de_node_capacity := dmodify (de_node_capacity e2) rank (\<lambda>c. c - n_agents),
                               de_unacked := dset (de_unacked e2) (it_id t) now\<rparr>)))"

text \<open>One pass of the loop of \<open>run\<close>, with the dispatch when a node is found. Whether a node is found
  does not depend on \<open>max_agents\<close>.\<close>

definition run_begin :: "int \<Rightarrow> dist_exec \<Rightarrow> item \<Rightarrow> int \<Rightarrow> dist_exec begin_outcome" where
  "run_begin now e t attempt_number =
     (if de_node_capacity e = []
      then Raises (RuntimeError ''All workers are dead - no nodes available to dispatch tasks'') e
      else (case meta_int (it_metadata t) ''min_agents'' (de_min_agents e) of
        None \<Rightarrow> Raises (TypeError ''min_agents'') e
      | Some min_agents \<Rightarrow> (case pick_node e min_agents 0 of
          None \<Rightarrow> Waits
        | Some _ \<Rightarrow> (case meta_int (it_metadata t) ''max_agents'' (de_max_agents e) of
            None \<Rightarrow> Raises (TypeError ''max_agents'') e
          | Some max_agents \<Rightarrow> dispatch_to now e t attempt_number (the (pick_node e min_agents max_agents))))))"

text \<open>The awaited future has its result: \<open>run\<close> returns it.\<close>

definition run_return :: "dist_exec \<Rightarrow> string \<Rightarrow> (concurrent_result \<times> dist_exec) option" where
  "run_return e k = (case dget (de_resolved e) k of
     None \<Rightarrow> None
   | Some r \<Rightarrow> Some (r, e\<lparr>de_resolved := ddel (de_resolved e) k\<rparr>))"

section \<open>The listener\<close>

text \<open>\<open>fut = self._pending.pop(task_id, None)\<close> and, if it was there, \<open>fut.set_result(r)\<close>.\<close>

definition resolve :: "dist_exec \<Rightarrow> string \<Rightarrow> concurrent_result \<Rightarrow> dist_exec" where
  "resolve e k r =
     (if k \<in> set (de_pending e)
      then e\<lparr>de_pending := removeAll k (de_pending e), de_resolved := dset (de_resolved e) k r\<rparr>
      else e)"

definition dead_error :: "dist_exec \<Rightarrow> int \<Rightarrow> string" where
  "dead_error e rank = ''Worker rank '' @ str_int rank @ '' declared dead (no ACK within ''
     @ str_int (de_ack_timeout e) @ ''s)''"

definition fail_task :: "int \<Rightarrow> dist_exec \<Rightarrow> string \<Rightarrow> dist_exec" where
  "fail_task rank e k =
     (let e1 = e\<lparr>de_unacked := ddel (de_unacked e) k\<rparr>;
          e2 = resolve e1 k (failed_result (dead_error e rank) (Some CauseInfrastructure))
      in e2\<lparr>de_task_rank := ddel (de_task_rank e2) k\<rparr>)"

text \<open>\<open>_handle_dead_worker\<close>: a restart message (a failing send is ignored), every task of the rank is
  failed, and the node loses its capacity entry.\<close>

definition handle_dead_worker :: "dist_exec \<Rightarrow> int \<Rightarrow> dist_exec" where
  "handle_dead_worker e rank =
     (let e0 = (case de_send e rank MRestart of Inl x \<Rightarrow> e | Inr e' \<Rightarrow> e');
          e1 = foldl (fail_task rank) e0 (map fst (filter (\<lambda>(k, r). r = rank) (de_task_rank e0)))
      in e1\<lparr>de_node_capacity := ddel (de_node_capacity e1) rank\<rparr>)"

definition check_one :: "int \<Rightarrow> dist_exec \<Rightarrow> string \<Rightarrow> dist_exec" where
  "check_one now e k = (case dget (de_unacked e) k of
     None \<Rightarrow> e
   | Some since \<Rightarrow>
       (if now - since > de_ack_timeout e
        then (case dget (de_task_rank e) k of None \<Rightarrow> e | Some rank \<Rightarrow> handle_dead_worker e rank)
        else e))"

definition check_unacked_tasks :: "dist_exec \<Rightarrow> int \<Rightarrow> dist_exec" where
  "check_unacked_tasks e now = foldl (check_one now) e (dkeys (de_unacked e))"

definition process_ack :: "dist_exec \<Rightarrow> int \<times> worker_msg \<Rightarrow> dist_exec" where
  "process_ack e m = (case m of
     (rank, WRegister cap) \<Rightarrow> e\<lparr>de_node_capacity := dset (de_node_capacity e) rank cap\<rparr>
   | (rank, WAck (Some k)) \<Rightarrow> (if k = [] then e else e\<lparr>de_unacked := ddel (de_unacked e) k\<rparr>)
   | _ \<Rightarrow> e)"

text \<open>The \<open>ConcurrentResult\<close> built from a result message; an unknown failure cause raises.\<close>

definition result_of_msg :: "result_msg \<Rightarrow> concurrent_result result" where
  "result_of_msg m =
     (let mk = (\<lambda>cause. \<lparr>cr_success = (case rm_success m of None \<Rightarrow> False | Some b \<Rightarrow> b),
                 cr_winner_id = rm_winner_id m, cr_error = rm_error m, cr_failure_cause = cause,
                 cr_pre_merge_hash = rm_pre_merge_hash m, cr_post_merge_hash = rm_post_merge_hash m\<rparr>)
      in (case rm_failure_cause m of
            None \<Rightarrow> Inr (mk None)
          | Some raw \<Rightarrow> (if raw = [] then Inr (mk None)
                         else rbind (failure_cause_of raw) (\<lambda>c. Inr (mk (Some c))))))"

text \<open>
  One result message. The future is popped before its result is built, so an unknown
  \<open>failure_cause\<close>, which raises, loses the future; the flag tells whether no exception was raised.
\<close>

definition process_result :: "dist_exec \<Rightarrow> int \<Rightarrow> result_msg \<Rightarrow> dist_exec \<times> bool" where
  "process_result e rank m =
     (let k = rm_task_id m;
          e1 = e\<lparr>de_unacked := ddel (de_unacked e) k,
                 de_node_capacity := (case rm_capacity m of
                     None \<Rightarrow> de_node_capacity e | Some c \<Rightarrow> dset (de_node_capacity e) rank c),
                 de_task_rank := ddel (de_task_rank e) k,
                 de_pending := removeAll k (de_pending e)\<rparr>
      in if k \<notin> set (de_pending e) then (e1, True)
         else (case result_of_msg m of
                 Inl x \<Rightarrow> (e1, False)
               | Inr r \<Rightarrow> (e1\<lparr>de_resolved := dset (de_resolved e) k r\<rparr>, True)))"

text \<open>The results of a batch in order; an exception ends the iteration and drops the rest.\<close>

fun process_results :: "dist_exec \<Rightarrow> (int \<times> worker_msg) list \<Rightarrow> dist_exec" where
  "process_results e [] = e"
| "process_results e ((rank, WResult m) # ms) =
     (case process_result e rank m of (e', True) \<Rightarrow> process_results e' ms | (e', False) \<Rightarrow> e')"
| "process_results e (m # ms) = process_results e ms"

text \<open>Receiving records the identity of every non-negative rank.\<close>

definition receive_batch :: "dist_exec \<Rightarrow> (int \<times> worker_msg) list \<Rightarrow> dist_exec" where
  "receive_batch e ms =
     e\<lparr>de_identities := foldl (\<lambda>ids r. set_add r ids) (de_identities e) (filter (\<lambda>r. r \<ge> 0) (map fst ms))\<rparr>"

text \<open>One iteration of \<open>_listen\<close>: receive, acknowledge, check the deadlines, then the results. A
  message without a known type raises when the acknowledgement loop reads it or is skipped by it;
  messages here have a type, \<open>WOther\<close> standing for the types the listener ignores.\<close>

definition listen :: "int \<Rightarrow> dist_exec \<Rightarrow> (int \<times> worker_msg) list \<Rightarrow> dist_exec" where
  "listen now e batch =
     (let e0 = receive_batch e batch;
          e1 = foldl process_ack e0 batch;
          e2 = check_unacked_tasks e1 now
      in process_results e2 batch)"

section \<open>start and shutdown\<close>

text \<open>\<open>start\<close> over the messages that arrive one by one, each with the loop time at which the
  iteration that receives it began (\<open>None\<close>: nothing within the poll interval); it stops at the first
  registration, and raises when the deadline has passed. Running out of the given arrivals is \<open>None\<close>.\<close>

fun start_loop :: "int \<Rightarrow> dist_exec \<Rightarrow> (int \<times> (int \<times> worker_msg) option) list \<Rightarrow> dist_exec result option" where
  "start_loop deadline e [] = (if de_node_capacity e \<noteq> [] then Some (Inr e) else None)"
| "start_loop deadline e ((now, arrival) # rest) =
     (if de_node_capacity e \<noteq> [] then Some (Inr e)
      else if now > deadline
      then Some (Inl (TimeoutError (''No workers registered within '' @ str_int (de_registration_timeout e) @ ''s'')))
      else (case arrival of
              None \<Rightarrow> start_loop deadline e rest
            | Some m \<Rightarrow>
                (let e' = receive_batch e [m] in
                 case m of
                   (rank, WRegister cap) \<Rightarrow>
                     start_loop deadline (e'\<lparr>de_node_capacity := dset (de_node_capacity e') rank cap\<rparr>) rest
                 | _ \<Rightarrow> start_loop deadline e' rest)))"

definition de_start :: "int \<Rightarrow> dist_exec \<Rightarrow> (int \<times> (int \<times> worker_msg) option) list \<Rightarrow> dist_exec result option" where
  "de_start now e arrivals = start_loop (now + de_registration_timeout e) e arrivals"

definition de_shutdown :: "dist_exec \<Rightarrow> dist_exec" where
  "de_shutdown e = foldl (\<lambda>e' rank. case de_send e' rank MShutdown of Inl x \<Rightarrow> e' | Inr e2 \<Rightarrow> e2)
     e (dkeys (de_node_capacity e))"

end
