(* ===== verification/Dist_Executor_Correct.thy ===== *)
theory Dist_Executor_Correct
  imports Dist_Executor
begin

text \<open>
  Correctness of the distributed executor: node choice, the state invariant, dead worker handling,
  and the executor contract.
\<close>

section \<open>Node choice\<close>

lemma max_by_spec:
  "max_by f m xs \<in> set (m # xs) \<and> (\<forall>x \<in> set (m # xs). f x \<le> f (max_by f m xs))"
proof (induction xs arbitrary: m)
  case (Cons x xs)
  from Cons.IH [of "if f x > f m then x else m"] show ?case by (auto split: if_splits)
qed simp

lemma min_by_spec:
  "min_by f m xs \<in> set (m # xs) \<and> (\<forall>x \<in> set (m # xs). f (min_by f m xs) \<le> f x)"
proof (induction xs arbitrary: m)
  case (Cons x xs)
  from Cons.IH [of "if f x < f m then x else m"] show ?case by (auto split: if_splits)
qed simp

lemma pick_node_None: "pick_node e mn mx = None \<longleftrightarrow> (\<forall>c \<in> set (dvals (de_node_capacity e)). c < mn)"
  by (auto simp: pick_node_def filter_empty_conv split: list.splits prod.splits pick_strategy.splits)
     (force dest: filter_eq_ConsD)+

lemma pick_node_Some:
  assumes "pick_node e mn mx = Some (rank, n)"
  shows "\<exists>cap. (rank, cap) \<in> set (de_node_capacity e) \<and> mn \<le> cap \<and> n = min mx cap \<and>
    (\<forall>c \<in> set (dvals (de_node_capacity e)). mn \<le> c \<longrightarrow>
       (case de_strategy e of BIGGEST_FIRST \<Rightarrow> c \<le> cap | BEST_FIT \<Rightarrow> cap \<le> c))"
proof -
  obtain c cs where f: "filter (\<lambda>(rank, cap). cap \<ge> mn) (de_node_capacity e) = c # cs"
    using assms by (auto simp: pick_node_def split: list.splits)
  have sub: "x \<in> set (c # cs) \<longleftrightarrow> x \<in> set (de_node_capacity e) \<and> mn \<le> snd x" for x
    unfolding f [symmetric] by auto
  show ?thesis
  proof (cases "de_strategy e")
    case BIGGEST_FIRST
    with assms f have "(rank, snd (max_by snd c cs)) = max_by snd c cs" "n = min mx (snd (max_by snd c cs))"
      by (auto simp: pick_node_def Let_def split: prod.splits)
    with max_by_spec [of snd c cs] sub BIGGEST_FIRST show ?thesis
      by (intro exI [of _ "snd (max_by snd c cs)"]) (auto, metis snd_conv)
  next
    case BEST_FIT
    with assms f have "(rank, snd (min_by snd c cs)) = min_by snd c cs" "n = min mx (snd (min_by snd c cs))"
      by (auto simp: pick_node_def Let_def split: prod.splits)
    with min_by_spec [of snd c cs] sub BEST_FIT show ?thesis
      by (intro exI [of _ "snd (min_by snd c cs)"]) (auto, metis snd_conv)
  qed
qed

lemma slots_pos:
  "0 < m \<Longrightarrow> \<forall>c \<in> set cs. (0::int) \<le> c \<Longrightarrow> 0 < sum_list (map (\<lambda>c. c div m) cs) \<longleftrightarrow> (\<exists>c \<in> set cs. m \<le> c)"
proof (induction cs)
  case (Cons c cs)
  have "0 \<le> sum_list (map (\<lambda>c. c div m) cs)"
    using Cons.prems by (intro sum_list_nonneg) (auto simp: pos_imp_zdiv_nonneg_iff)
  moreover have "0 \<le> c div m" "0 < c div m \<longleftrightarrow> m \<le> c"
    using Cons.prems by (auto simp: pos_imp_zdiv_nonneg_iff pos_imp_zdiv_pos_iff)
  ultimately show ?case using Cons by auto
qed simp

text \<open>With a positive default and nodes reporting non-negative capacities, \<open>available_slots\<close> is
  positive exactly when \<open>_pick_node\<close> finds a node for a task with the default minimum; and what
  \<open>_pick_node\<close> returns is a node of sufficient capacity that is biggest, or smallest, among those,
  with the capped agent count.\<close>

theorem slots_iff_pick:
  assumes "0 < de_min_agents e" and "\<forall>c \<in> set (dvals (de_node_capacity e)). 0 \<le> c"
  shows "\<exists>s. available_slots e = Inr s \<and> (0 < s \<longleftrightarrow> pick_node e (de_min_agents e) mx \<noteq> None) \<and>
    (\<forall>rank n. pick_node e (de_min_agents e) mx = Some (rank, n) \<longrightarrow>
       (\<exists>cap. (rank, cap) \<in> set (de_node_capacity e) \<and> de_min_agents e \<le> cap \<and> n = min mx cap \<and>
         (\<forall>c \<in> set (dvals (de_node_capacity e)). de_min_agents e \<le> c \<longrightarrow>
           (case de_strategy e of BIGGEST_FIRST \<Rightarrow> c \<le> cap | BEST_FIT \<Rightarrow> cap \<le> c))))"
proof -
  have "available_slots e = Inr (sum_list (map (\<lambda>c. c div de_min_agents e) (dvals (de_node_capacity e))))"
    using assms by (simp add: available_slots_def)
  moreover have "pick_node e (de_min_agents e) mx \<noteq> None \<longleftrightarrow> (\<exists>c \<in> set (dvals (de_node_capacity e)). de_min_agents e \<le> c)"
    by (simp add: pick_node_None not_less)
  ultimately show ?thesis using slots_pos [OF assms] pick_node_Some by blast
qed

definition demo_exec :: dist_exec where
  "demo_exec = \<lparr>de_num_workers = 2, de_min_agents = 2, de_max_agents = 4, de_strategy = BIGGEST_FIRST,
     de_registration_timeout = 3600, de_ack_timeout = 300, de_node_capacity = [(1, 3), (2, 5)], de_pending = [],
     de_task_rank = [], de_unacked = [], de_resolved = [], de_identities = [1, 2], de_sent = [], de_clock = 0\<rparr>"

theorem slots_iff_pick_witness:
  "available_slots demo_exec = Inr 3 \<and> pick_node demo_exec 2 4 = Some (2, 4)"
proof -
  have "\<exists>s. available_slots demo_exec = Inr s \<and> (0 < s \<longleftrightarrow> pick_node demo_exec 2 4 \<noteq> None)"
    using slots_iff_pick [of demo_exec 4] by (auto simp: demo_exec_def)
  moreover have "available_slots demo_exec = Inr 3" by code_simp
  moreover have "pick_node demo_exec 2 4 = Some (2, 4)" by code_simp
  ultimately show ?thesis by blast
qed

section \<open>The state invariant\<close>

definition de_inv :: "dist_exec \<Rightarrow> bool" where
  "de_inv e \<longleftrightarrow> distinct (de_pending e) \<and> wf_dict (de_task_rank e) \<and> wf_dict (de_unacked e) \<and>
     wf_dict (de_node_capacity e) \<and>
     (\<forall>k. dget (de_task_rank e) k \<noteq> None \<longleftrightarrow> k \<in> set (de_pending e)) \<and>
     (\<forall>k. dget (de_unacked e) k \<noteq> None \<longrightarrow> k \<in> set (de_pending e)) \<and>
     (\<forall>k. dget (de_resolved e) k \<noteq> None \<longrightarrow> k \<notin> set (de_pending e)) \<and>
     (\<forall>r. dget (de_node_capacity e) r \<noteq> None \<longrightarrow> r \<in> set (de_identities e))"

definition de_active :: "dist_exec \<Rightarrow> string set" where
  "de_active e = set (de_pending e) \<union> {k. dget (de_resolved e) k \<noteq> None}"

text \<open>Messages the workers' side of the protocol sends: a non-negative rank, a known failure cause.\<close>

definition msg_ok :: "int \<times> worker_msg \<Rightarrow> bool" where
  "msg_ok m \<longleftrightarrow> 0 \<le> fst m \<and> (case snd m of
     WResult r \<Rightarrow> (case rm_failure_cause r of None \<Rightarrow> True | Some c \<Rightarrow> c = [] \<or> c = ''task'' \<or> c = ''infrastructure'')
   | _ \<Rightarrow> True)"

text \<open>The executor's own steps: time passes, or the listener runs one iteration.\<close>

definition de_env :: "dist_exec \<Rightarrow> dist_exec \<Rightarrow> bool" where
  "de_env e e' \<longleftrightarrow> (\<exists>d. 0 \<le> d \<and> e' = e\<lparr>de_clock := de_clock e + d\<rparr>) \<or>
     (\<exists>batch. list_all msg_ok batch \<and> e' = listen (de_clock e) e batch)"

lemma clock_inv [simp]: "de_inv (e\<lparr>de_clock := c\<rparr>) = de_inv e" "de_active (e\<lparr>de_clock := c\<rparr>) = de_active e"
  by (simp_all add: de_inv_def de_active_def)

definition de_begin :: "dist_exec \<Rightarrow> item \<Rightarrow> int \<Rightarrow> dist_exec begin_outcome" where
  "de_begin e t n = run_begin (de_clock e) e t n"

lemma resolve_fields [simp]:
  "de_task_rank (resolve e k r) = de_task_rank e" "de_unacked (resolve e k r) = de_unacked e"
  "de_node_capacity (resolve e k r) = de_node_capacity e" "de_identities (resolve e k r) = de_identities e"
  "de_ack_timeout (resolve e k r) = de_ack_timeout e" "de_sent (resolve e k r) = de_sent e"
  "set (de_pending (resolve e k r)) = set (de_pending e) - {k}"
  "distinct (de_pending e) \<Longrightarrow> distinct (de_pending (resolve e k r))"
  "dget (de_resolved (resolve e k r)) j =
     (if j = k \<and> k \<in> set (de_pending e) then Some r else dget (de_resolved e) j)"
  by (auto simp: resolve_def distinct_removeAll)

lemma dead_error_cong: "de_ack_timeout e = de_ack_timeout e' \<Longrightarrow> dead_error e = dead_error e'"
  by (simp add: dead_error_def fun_eq_iff)

lemma fail_task_fields [simp]:
  "dget (de_task_rank (fail_task rank e k)) j = (if j = k then None else dget (de_task_rank e) j)"
  "dget (de_unacked (fail_task rank e k)) j = (if j = k then None else dget (de_unacked e) j)"
  "set (de_pending (fail_task rank e k)) = set (de_pending e) - {k}"
  "distinct (de_pending e) \<Longrightarrow> distinct (de_pending (fail_task rank e k))"
  "wf_dict (de_task_rank e) \<Longrightarrow> wf_dict (de_task_rank (fail_task rank e k))"
  "wf_dict (de_unacked e) \<Longrightarrow> wf_dict (de_unacked (fail_task rank e k))"
  "de_node_capacity (fail_task rank e k) = de_node_capacity e"
  "de_identities (fail_task rank e k) = de_identities e"
  "de_ack_timeout (fail_task rank e k) = de_ack_timeout e"
  "dget (de_resolved (fail_task rank e k)) j =
     (if j = k \<and> k \<in> set (de_pending e) then Some (failed_result (dead_error e rank) (Some CauseInfrastructure))
      else dget (de_resolved e) j)"
  by (auto simp: fail_task_def Let_def dead_error_def)

lemma fail_tasks_fields [simp]:
  "dget (de_task_rank (foldl (fail_task rank) e ks)) j = (if j \<in> set ks then None else dget (de_task_rank e) j)"
  "dget (de_unacked (foldl (fail_task rank) e ks)) j = (if j \<in> set ks then None else dget (de_unacked e) j)"
  "set (de_pending (foldl (fail_task rank) e ks)) = set (de_pending e) - set ks"
  "distinct (de_pending e) \<Longrightarrow> distinct (de_pending (foldl (fail_task rank) e ks))"
  "wf_dict (de_task_rank e) \<Longrightarrow> wf_dict (de_task_rank (foldl (fail_task rank) e ks))"
  "wf_dict (de_unacked e) \<Longrightarrow> wf_dict (de_unacked (foldl (fail_task rank) e ks))"
  "de_node_capacity (foldl (fail_task rank) e ks) = de_node_capacity e"
  "de_identities (foldl (fail_task rank) e ks) = de_identities e"
  "de_ack_timeout (foldl (fail_task rank) e ks) = de_ack_timeout e"
  "dget (de_resolved (foldl (fail_task rank) e ks)) j =
     (if j \<in> set ks \<and> j \<in> set (de_pending e) then Some (failed_result (dead_error e rank) (Some CauseInfrastructure))
      else dget (de_resolved e) j)"
  by (induction ks arbitrary: e) (auto simp: dead_error_def)

text \<open>What declaring a worker dead does to every component of the state.\<close>

lemma handle_dead_worker_spec:
  assumes "de_inv e"
  shows "dget (de_task_rank (handle_dead_worker e rank)) k =
      (if dget (de_task_rank e) k = Some rank then None else dget (de_task_rank e) k)"
    and "dget (de_unacked (handle_dead_worker e rank)) k =
      (if dget (de_task_rank e) k = Some rank then None else dget (de_unacked e) k)"
    and "k \<in> set (de_pending (handle_dead_worker e rank)) \<longleftrightarrow>
      k \<in> set (de_pending e) \<and> dget (de_task_rank e) k \<noteq> Some rank"
    and "dget (de_resolved (handle_dead_worker e rank)) k =
      (if dget (de_task_rank e) k = Some rank then Some (failed_result (dead_error e rank) (Some CauseInfrastructure))
       else dget (de_resolved e) k)"
    and "de_node_capacity (handle_dead_worker e rank) = ddel (de_node_capacity e) rank"
    and "de_ack_timeout (handle_dead_worker e rank) = de_ack_timeout e"
    and "de_identities (handle_dead_worker e rank) = de_identities e"
    and "de_inv (handle_dead_worker e rank)"
proof -
  define e0 where "e0 = (case de_send e rank MRestart of Inl x \<Rightarrow> e | Inr e' \<Rightarrow> e')"
  define ks where "ks = map fst (filter (\<lambda>(k, r). r = rank) (de_task_rank e))"
  have e0: "de_task_rank e0 = de_task_rank e" "de_unacked e0 = de_unacked e" "de_pending e0 = de_pending e"
    "de_resolved e0 = de_resolved e" "de_node_capacity e0 = de_node_capacity e"
    "de_ack_timeout e0 = de_ack_timeout e" "de_identities e0 = de_identities e"
    by (auto simp: e0_def de_send_def split: sum.split)
  have ks: "k \<in> set ks \<longleftrightarrow> dget (de_task_rank e) k = Some rank" for k
  proof -
    have "k \<in> set ks \<longleftrightarrow> (k, rank) \<in> set (de_task_rank e)" by (auto simp: ks_def image_iff)
    also have "\<dots> \<longleftrightarrow> dget (de_task_rank e) k = Some rank"
      using assms by (auto simp: de_inv_def wf_dict_def dest: map_of_SomeD)
    finally show ?thesis .
  qed
  have pend: "dget (de_task_rank e) k = Some rank \<Longrightarrow> k \<in> set (de_pending e)" for k
    using assms unfolding de_inv_def by blast
  have h: "handle_dead_worker e rank = (let e1 = foldl (fail_task rank) e0 ks
      in e1\<lparr>de_node_capacity := ddel (de_node_capacity e1) rank\<rparr>)"
    by (simp add: handle_dead_worker_def e0_def [symmetric] Let_def ks_def e0)
  show 1: "dget (de_task_rank (handle_dead_worker e rank)) k =
      (if dget (de_task_rank e) k = Some rank then None else dget (de_task_rank e) k)" for k
    by (simp add: h Let_def ks e0)
  show 2: "dget (de_unacked (handle_dead_worker e rank)) k =
      (if dget (de_task_rank e) k = Some rank then None else dget (de_unacked e) k)" for k
    by (simp add: h Let_def ks e0)
  show 3: "k \<in> set (de_pending (handle_dead_worker e rank)) \<longleftrightarrow>
      k \<in> set (de_pending e) \<and> dget (de_task_rank e) k \<noteq> Some rank" for k
    by (simp add: h Let_def ks e0)
  have de: "dead_error e0 = dead_error e" by (rule dead_error_cong) (simp add: e0)
  show 4: "dget (de_resolved (handle_dead_worker e rank)) k =
      (if dget (de_task_rank e) k = Some rank then Some (failed_result (dead_error e rank) (Some CauseInfrastructure))
       else dget (de_resolved e) k)" for k
    using pend by (simp add: h Let_def ks e0 de)
  show 5: "de_node_capacity (handle_dead_worker e rank) = ddel (de_node_capacity e) rank"
    and "de_ack_timeout (handle_dead_worker e rank) = de_ack_timeout e"
    and 6: "de_identities (handle_dead_worker e rank) = de_identities e"
    by (simp_all add: h Let_def e0)
  have "distinct (de_pending (handle_dead_worker e rank))" "wf_dict (de_task_rank (handle_dead_worker e rank))"
    "wf_dict (de_unacked (handle_dead_worker e rank))" "wf_dict (de_node_capacity (handle_dead_worker e rank))"
    using assms by (simp_all add: h Let_def e0 de_inv_def)
  then show "de_inv (handle_dead_worker e rank)"
    using assms unfolding de_inv_def 1 2 3 4 5 6 by simp
qed

section \<open>The deadline check\<close>

lemma dget_in_keys: "dget d k \<noteq> None \<longleftrightarrow> k \<in> set (dkeys d)"
  by (simp add: map_of_eq_None_iff)

lemma handle_dead_worker_active:
  assumes "de_inv e" shows "de_active (handle_dead_worker e rank) = de_active e"
proof -
  have "k \<in> de_active (handle_dead_worker e rank) \<longleftrightarrow> k \<in> de_active e" for k
    using assms handle_dead_worker_spec(3,4) [OF assms, where rank = rank]
    by (auto simp: de_active_def de_inv_def split: if_splits)
  then show ?thesis by blast
qed

lemma check_one_inv: "de_inv e \<Longrightarrow> de_inv (check_one now e k) \<and> de_active (check_one now e k) = de_active e"
  by (auto simp: check_one_def handle_dead_worker_spec(8) handle_dead_worker_active split: option.splits)

lemma check_unacked_inv:
  assumes "de_inv e" shows "de_inv (check_unacked_tasks e now)" "de_active (check_unacked_tasks e now) = de_active e"
proof -
  have "de_inv (foldl (check_one now) e ks) \<and> de_active (foldl (check_one now) e ks) = de_active e" for ks
    using assms by (induction ks arbitrary: e) (simp_all add: check_one_inv)
  then show "de_inv (check_unacked_tasks e now)" "de_active (check_unacked_tasks e now) = de_active e"
    by (simp_all add: check_unacked_tasks_def)
qed

text \<open>
  How the state during the check relates to the state before it: an unacknowledged task either is as
  it was, or has been failed together with its worker.
\<close>

definition check_rel :: "dist_exec \<Rightarrow> dist_exec \<Rightarrow> bool" where
  "check_rel e e' \<longleftrightarrow> de_inv e' \<and> de_ack_timeout e' = de_ack_timeout e \<and>
     (\<forall>k rank. dget (de_task_rank e) k = Some rank \<longrightarrow>
        (dget (de_task_rank e') k = Some rank \<and> dget (de_unacked e') k = dget (de_unacked e) k) \<or>
        (dget (de_task_rank e') k = None \<and> dget (de_unacked e') k = None \<and>
         dget (de_resolved e') k = Some (failed_result (dead_error e rank) (Some CauseInfrastructure))))"

lemma check_rel_refl: "de_inv e \<Longrightarrow> check_rel e e"
  by (simp add: check_rel_def)

lemma check_rel_step:
  assumes "check_rel e e'" shows "check_rel e (handle_dead_worker e' r)"
proof -
  have inv: "de_inv e'" and t: "de_ack_timeout e' = de_ack_timeout e" using assms by (auto simp: check_rel_def)
  note s = handle_dead_worker_spec [OF inv, where rank = r]
  have "dead_error e' = dead_error e" by (rule dead_error_cong) (rule t)
  moreover have "(dget (de_task_rank e') k = Some rank \<and> dget (de_unacked e') k = dget (de_unacked e) k) \<or>
        (dget (de_task_rank e') k = None \<and> dget (de_unacked e') k = None \<and>
         dget (de_resolved e') k = Some (failed_result (dead_error e rank) (Some CauseInfrastructure)))"
    if "dget (de_task_rank e) k = Some rank" for k rank
    using assms that unfolding check_rel_def by blast
  ultimately show ?thesis
    unfolding check_rel_def s(1,2,4,6) using s(8) t by (metis option.inject option.distinct(1))
qed

lemma check_one_rel: "check_rel e e' \<Longrightarrow> check_rel e (check_one now e' k)"
  by (auto simp: check_one_def check_rel_step split: option.splits)

lemma check_fold_rel: "check_rel e e' \<Longrightarrow> check_rel e (foldl (check_one now) e' ks)"
  by (induction ks arbitrary: e') (simp_all add: check_one_rel)

lemma check_one_clears:
  assumes rel: "check_rel e e'" and r: "dget (de_task_rank e) k = Some rank"
    and u: "dget (de_unacked e) k = Some since" and late: "now - since > de_ack_timeout e"
  shows "dget (de_unacked (check_one now e' k)) k = None"
proof -
  consider "dget (de_task_rank e') k = Some rank" "dget (de_unacked e') k = Some since"
    | "dget (de_unacked e') k = None"
    using rel r u unfolding check_rel_def by metis
  then show ?thesis
  proof cases
    case 1
    have inv: "de_inv e'" and t: "de_ack_timeout e' = de_ack_timeout e" using rel by (auto simp: check_rel_def)
    show ?thesis using 1 late t by (simp add: check_one_def handle_dead_worker_spec(2) [OF inv])
  next
    case 2
    then show ?thesis by (simp add: check_one_def)
  qed
qed

lemma unacked_stays_None:
  assumes "de_inv e" "dget (de_unacked e) k = None"
  shows "dget (de_unacked (foldl (check_one now) e ks)) k = None"
  using assms
proof (induction ks arbitrary: e)
  case (Cons j ks)
  have "dget (de_unacked (check_one now e j)) k = None"
    using Cons.prems by (auto simp: check_one_def handle_dead_worker_spec(2) split: option.splits)
  with Cons show ?case by (simp add: check_one_inv)
qed simp

lemma check_fold_clears:
  assumes "check_rel e e'" "dget (de_task_rank e) k = Some rank" "dget (de_unacked e) k = Some since"
    "now - since > de_ack_timeout e" "k \<in> set ks"
  shows "dget (de_unacked (foldl (check_one now) e' ks)) k = None"
  using assms(1,5)
proof (induction ks arbitrary: e')
  case (Cons j ks)
  have rel: "check_rel e (check_one now e' j)" using Cons.prems(1) by (rule check_one_rel)
  show ?case
  proof (cases "j = k")
    case True
    then have "dget (de_unacked (check_one now e' j)) k = None"
      using check_one_clears [OF Cons.prems(1) assms(2-4)] by simp
    moreover have "de_inv (check_one now e' j)" using rel by (simp add: check_rel_def)
    ultimately show ?thesis by (simp add: unacked_stays_None)
  next
    case False
    with Cons rel show ?thesis by simp
  qed
qed simp

text \<open>The deadline check fails every overdue task: a running task that has not been acknowledged for
  longer than the timeout is resolved as an infrastructure failure naming its worker, and is no
  longer waited for; no task whose wait exceeds the timeout is left unacknowledged.\<close>

theorem overdue_tasks_fail:
  assumes "de_inv e" and "dget (de_unacked e) k = Some since" and "now - since > de_ack_timeout e"
  shows "\<exists>rank. dget (de_task_rank e) k = Some rank \<and>
    dget (de_unacked (check_unacked_tasks e now)) k = None \<and>
    k \<notin> set (de_pending (check_unacked_tasks e now)) \<and>
    dget (de_resolved (check_unacked_tasks e now)) k
      = Some (failed_result (dead_error e rank) (Some CauseInfrastructure))"
proof -
  let ?e' = "check_unacked_tasks e now"
  have "k \<in> set (de_pending e)" using assms(1,2) by (simp add: de_inv_def)
  then obtain rank where r: "dget (de_task_rank e) k = Some rank"
    using assms(1) unfolding de_inv_def by blast
  have rel: "check_rel e ?e'"
    unfolding check_unacked_tasks_def by (rule check_fold_rel) (rule check_rel_refl [OF assms(1)])
  have "k \<in> set (dkeys (de_unacked e))" using assms(2) dget_in_keys [of "de_unacked e" k] by simp
  then have u: "dget (de_unacked ?e') k = None"
    unfolding check_unacked_tasks_def
    by (intro check_fold_clears [OF check_rel_refl [OF assms(1)] r assms(2,3)])
  then have res: "dget (de_task_rank ?e') k = None"
    "dget (de_resolved ?e') k = Some (failed_result (dead_error e rank) (Some CauseInfrastructure))"
    using rel r assms(2) unfolding check_rel_def by (metis option.distinct(1))+
  then have "k \<notin> set (de_pending ?e')" using rel unfolding check_rel_def de_inv_def by blast
  with r u res show ?thesis by blast
qed

definition two_tasks :: dist_exec where
  "two_tasks = demo_exec\<lparr>de_pending := [''t1'', ''t2'', ''t3''], de_task_rank := [(''t1'', 1), (''t2'', 1), (''t3'', 2)],
     de_unacked := [(''t1'', 0), (''t2'', 900), (''t3'', 900)]\<rparr>"

lemma two_tasks_inv: "de_inv two_tasks"
  by (simp add: two_tasks_def demo_exec_def de_inv_def wf_dict_def)

theorem overdue_tasks_fail_witness:
  "dget (de_unacked two_tasks) ''t1'' = Some 0 \<and>
   dget (de_resolved (check_unacked_tasks two_tasks 1000)) ''t1''
     = Some (failed_result (dead_error two_tasks 1) (Some CauseInfrastructure)) \<and>
   de_pending (check_unacked_tasks two_tasks 1000) = [''t3'']"
proof -
  have u: "dget (de_unacked two_tasks) ''t1'' = Some 0" by (simp add: two_tasks_def)
  have l: "1000 - 0 > de_ack_timeout two_tasks" by (simp add: two_tasks_def demo_exec_def)
  have r: "dget (de_task_rank two_tasks) ''t1'' = Some 1" by (simp add: two_tasks_def)
  have p: "de_pending (check_unacked_tasks two_tasks 1000) = [''t3'']" by code_simp
  from overdue_tasks_fail [OF two_tasks_inv u l] u r p show ?thesis by auto
qed

section \<open>The listener keeps every running task\<close>

lemma foldl_set_add_ids: "set (foldl (\<lambda>ids r. set_add r ids) ids rs) = set ids \<union> set rs"
  by (induction rs arbitrary: ids) (auto simp: set_add_def)

lemma receive_batch_inv:
  "de_inv e \<Longrightarrow> de_inv (receive_batch e ms) \<and> de_active (receive_batch e ms) = de_active e"
  by (auto simp: receive_batch_def de_inv_def de_active_def foldl_set_add_ids)

lemma process_ack_inv:
  assumes "de_inv e" "fst m \<in> set (de_identities e)"
  shows "de_inv (process_ack e m)" "de_active (process_ack e m) = de_active e"
    "de_identities (process_ack e m) = de_identities e"
  using assms by (auto simp: process_ack_def de_inv_def de_active_def split: prod.splits worker_msg.splits option.splits)

lemma process_acks_inv:
  "de_inv e \<Longrightarrow> fst ` set ms \<subseteq> set (de_identities e) \<Longrightarrow>
   de_inv (foldl process_ack e ms) \<and> de_active (foldl process_ack e ms) = de_active e \<and>
   de_identities (foldl process_ack e ms) = de_identities e"
  by (induction ms arbitrary: e) (simp_all add: process_ack_inv)

lemma check_unacked_identities: "de_inv e \<Longrightarrow> de_identities (check_unacked_tasks e now) = de_identities e"
proof -
  have "de_inv e \<Longrightarrow> de_identities (foldl (check_one now) e ks) = de_identities e" for ks
  proof (induction ks arbitrary: e)
    case (Cons k ks)
    have "de_identities (check_one now e k) = de_identities e"
      using Cons.prems by (auto simp: check_one_def handle_dead_worker_spec(7) split: option.splits)
    with Cons show ?case by (simp add: check_one_inv)
  qed simp
  then show "de_inv e \<Longrightarrow> ?thesis" by (simp add: check_unacked_tasks_def)
qed

lemma process_result_inv:
  assumes inv: "de_inv e" and rank: "rank \<in> set (de_identities e)"
  shows "de_inv (fst (process_result e rank m))"
    "de_identities (fst (process_result e rank m)) = de_identities e"
    "snd (process_result e rank m) \<Longrightarrow> de_active (fst (process_result e rank m)) = de_active e"
proof -
  let ?k = "rm_task_id m"
  define e1 where "e1 = e\<lparr>de_unacked := ddel (de_unacked e) ?k,
     de_node_capacity := (case rm_capacity m of
         None \<Rightarrow> de_node_capacity e | Some c \<Rightarrow> dset (de_node_capacity e) rank c),
     de_task_rank := ddel (de_task_rank e) ?k, de_pending := removeAll ?k (de_pending e)\<rparr>"
  have p: "process_result e rank m = (if ?k \<notin> set (de_pending e) then (e1, True)
      else (case result_of_msg m of Inl x \<Rightarrow> (e1, False)
            | Inr r \<Rightarrow> (e1\<lparr>de_resolved := dset (de_resolved e) ?k r\<rparr>, True)))"
    by (simp only: process_result_def e1_def Let_def)
  have i1: "de_inv e1"
    using inv rank by (auto simp: e1_def de_inv_def distinct_removeAll split: option.splits)
  have "?k \<notin> set (de_pending e1)" and r1: "de_resolved e1 = de_resolved e" by (simp_all add: e1_def)
  then have i2: "de_inv (e1\<lparr>de_resolved := dset (de_resolved e) ?k r\<rparr>)" for r
    using i1 by (simp add: de_inv_def)
  show "de_inv (fst (process_result e rank m))" using i1 i2 by (simp add: p split: sum.split)
  show "de_identities (fst (process_result e rank m)) = de_identities e"
    by (simp add: p e1_def split: sum.split)
  show "snd (process_result e rank m) \<Longrightarrow> de_active (fst (process_result e rank m)) = de_active e"
    by (auto simp: p e1_def de_active_def split: sum.splits if_splits)
qed

lemma process_result_ok:
  "msg_ok (rank, WResult m) \<Longrightarrow> snd (process_result e rank m)"
  by (auto simp: msg_ok_def process_result_def result_of_msg_def Let_def split: option.splits sum.splits)

lemma process_results_inv:
  "de_inv e \<Longrightarrow> fst ` set ms \<subseteq> set (de_identities e) \<Longrightarrow> list_all msg_ok ms \<Longrightarrow>
   de_inv (process_results e ms) \<and> de_active (process_results e ms) = de_active e"
proof (induction e ms rule: process_results.induct)
  case (2 e rank m ms)
  have ok: "snd (process_result e rank m)" using "2.prems" by (intro process_result_ok) simp
  obtain e' where e': "process_result e rank m = (e', True)" using ok by (metis prod.collapse)
  have r: "rank \<in> set (de_identities e)" using "2.prems" by simp
  note p = process_result_inv [OF "2.prems"(1) r, of m]
  have "de_inv (process_results e' ms) \<and> de_active (process_results e' ms) = de_active e'"
    using "2.IH" [OF e' [symmetric] refl] e' p "2.prems" by simp
  with e' p show ?case by simp
qed simp_all

lemma listen_contract:
  assumes "de_inv e" "list_all msg_ok batch"
  shows "de_inv (listen now e batch)" "de_active (listen now e batch) = de_active e"
proof -
  let ?e0 = "receive_batch e batch" and ?e1 = "foldl process_ack (receive_batch e batch) batch"
  have ranks: "fst ` set batch \<subseteq> set (de_identities ?e0)"
    using assms(2) by (auto simp: receive_batch_def foldl_set_add_ids list_all_iff msg_ok_def)
  note a = process_acks_inv [OF _ ranks] receive_batch_inv [OF assms(1), of batch]
  let ?e2 = "check_unacked_tasks ?e1 now"
  have i1: "de_inv ?e1" "de_active ?e1 = de_active e" "de_identities ?e1 = de_identities ?e0" using a by auto
  have "de_inv ?e2" "de_active ?e2 = de_active e" "fst ` set batch \<subseteq> set (de_identities ?e2)"
    using check_unacked_inv [OF i1(1)] i1 check_unacked_identities [OF i1(1)] ranks by auto
  then show "de_inv (listen now e batch)" "de_active (listen now e batch) = de_active e"
    using process_results_inv [OF _ _ assms(2)] by (simp_all add: listen_def Let_def)
qed

text \<open>C32: No running task is ever lost by the listener: for every batch of well-formed worker messages
  and any clock value, the tasks that are running or have a result waiting for \<open>run\<close> are the same
  before and after, and the invariant of the executor's tables is kept.\<close>

theorem listener_keeps_tasks:
  assumes "de_inv e" and "list_all msg_ok batch"
  shows "de_inv (listen now e batch) \<and> de_active (listen now e batch) = de_active e"
  using listen_contract [OF assms] by blast

definition demo_result :: "string option \<Rightarrow> result_msg" where
  "demo_result cause = \<lparr>rm_task_id = ''t3'', rm_success = Some False, rm_winner_id = None, rm_error = Some ''e'',
     rm_failure_cause = cause, rm_pre_merge_hash = None, rm_post_merge_hash = None, rm_capacity = Some 5\<rparr>"

theorem listener_keeps_tasks_witness:
  "de_active (listen 1000 two_tasks [(1, WAck (Some ''t2'')), (2, WResult (demo_result (Some ''task'')))])
     = {''t1'', ''t2'', ''t3''}"
proof -
  let ?b = "[(1, WAck (Some ''t2'')), (2, WResult (demo_result (Some ''task'')))]"
  have "list_all msg_ok ?b" by (simp add: msg_ok_def demo_result_def)
  from listener_keeps_tasks [OF two_tasks_inv this, of 1000]
  show ?thesis by (auto simp: de_active_def two_tasks_def demo_exec_def)
qed

text \<open>A result message with an unknown failure cause raises inside the listener after the future was
  popped: the task is then neither running nor resolved, so its \<open>run\<close> never returns.\<close>

theorem bad_cause_loses_future:
  assumes "k = rm_task_id m" and "k \<in> set (de_pending e)" and "dget (de_resolved e) k = None"
    and "rm_failure_cause m = Some c" and "c \<noteq> []" and "c \<noteq> ''task''" and "c \<noteq> ''infrastructure''"
  shows "k \<in> de_active e \<and> k \<notin> de_active (process_results e ((rank, WResult m) # ms)) \<and>
    run_return (process_results e ((rank, WResult m) # ms)) k = None"
  using assms
  by (simp add: process_result_def result_of_msg_def Let_def de_active_def run_return_def)

theorem bad_cause_loses_future_witness:
  "''t3'' \<in> de_active two_tasks \<and>
   ''t3'' \<notin> de_active (process_results two_tasks [(2, WResult (demo_result (Some ''timeout'')))])"
  using bad_cause_loses_future [of "''t3''" "demo_result (Some ''timeout'')" two_tasks "''timeout''" 2 "[]"]
  by (simp add: demo_result_def two_tasks_def demo_exec_def)

section \<open>The executor contract\<close>

lemma pick_node_mem: "pick_node e mn mx = Some (rank, n) \<Longrightarrow> dget (de_node_capacity e) rank \<noteq> None"
  using pick_node_Some [of e mn mx rank n] dget_in_keys [of "de_node_capacity e" rank] by force

lemma dispatch_to_started:
  assumes "de_inv e" "it_id t \<notin> de_active e" "rank \<in> set (de_identities e)"
  shows "\<exists>e'. dispatch_to now e t n (rank, a) = Started e' \<and> de_inv e' \<and> de_active e' = insert (it_id t) (de_active e)"
  using assms
  by (auto simp: dispatch_to_def de_send_def Let_def de_inv_def de_active_def set_add_def wf_dict_def
      distinct_update)

lemma run_begin_cases:
  assumes "de_inv e" "it_id t \<notin> de_active e"
  shows "(\<exists>x. run_begin now e t n = Raises x e) \<or> run_begin now e t n = Waits \<or>
    (\<exists>e'. run_begin now e t n = Started e' \<and> de_inv e' \<and> de_active e' = insert (it_id t) (de_active e))"
proof -
  have "\<exists>e'. dispatch_to now e t n (the (pick_node e mn mx)) = Started e' \<and> de_inv e' \<and>
      de_active e' = insert (it_id t) (de_active e)" if "pick_node e mn 0 \<noteq> None" for mn mx
  proof -
    have "pick_node e mn mx \<noteq> None" using that by (simp add: pick_node_None)
    then obtain rank a where p: "pick_node e mn mx = Some (rank, a)" by auto
    have "rank \<in> set (de_identities e)" using pick_node_mem [OF p] assms(1) unfolding de_inv_def by blast
    from dispatch_to_started [OF assms this] p show ?thesis by simp
  qed
  then show ?thesis
    by (auto simp: run_begin_def split: option.splits)
qed

lemma run_return_active:
  assumes "de_inv e" "run_return e k = Some (r, e')"
  shows "k \<in> de_active e \<and> de_inv e' \<and> de_active e' = de_active e - {k}"
  using assms by (auto simp: run_return_def de_active_def de_inv_def split: option.splits if_splits)

interpretation dist_ex: task_executor de_inv de_active de_begin
    "\<lambda>e k r e'. run_return e k = Some (r, e')" de_env
proof
  show "de_inv e' \<and> de_active e' = insert (it_id t) (de_active e)"
    if "de_inv e" "it_id t \<notin> de_active e" "de_begin e t n = Started e'" for e t n e'
    using run_begin_cases [OF that(1,2), of "de_clock e" n] that(3) by (auto simp: de_begin_def)
  show "de_inv e' \<and> de_active e' = de_active e"
    if "de_inv e" "it_id t \<notin> de_active e" "de_begin e t n = Raises x e'" for e t n x e'
    using run_begin_cases [OF that(1,2), of "de_clock e" n] that by (auto simp: de_begin_def)
  show "k \<in> de_active e \<and> de_inv e' \<and> de_active e' = de_active e - {k}"
    if "de_inv e" "run_return e k = Some (r, e')" for e k r e'
    using run_return_active [OF that] .
  show "de_inv e' \<and> de_active e' = de_active e" if "de_inv e" "de_env e e'" for e e'
    using listen_contract that by (auto simp: de_env_def)
qed

end
