(* ===== verification/Dag_Runner.thy ===== *)
theory Dag_Runner
  imports Executor_Interface
begin

text \<open>
  \<open>core/coordination/dag_runner.py\<close>: the scheduling loop. Coroutines are explicit: dispatching a task
  creates one, and it gets control later, when the executor's \<open>run\<close> starts, waits, returns or
  raises. The item dictionaries the tracker hands out are references, so a coroutine keeps the id
  and reads the current item. The executor is a parameter.
\<close>

section \<open>State\<close>

datatype co_phase = Created | Dispatched

record coroutine =
  co_task :: string
  co_attempt :: int
  co_phase :: co_phase

datatype callback = TaskStart string | TaskComplete string concurrent_result

record 'e runner =
  rn_dag :: tracker
  rn_exec :: 'e
  rn_flavors :: "string list option"
  rn_running :: "string list"
  rn_coros :: "coroutine list"
  rn_paused :: bool
  rn_result_event :: bool
  rn_trace_store :: bool
  rn_status_file :: "(tracker_summary \<times> int) option"
  rn_callbacks :: "callback list"

definition new_runner :: "tracker \<Rightarrow> 'e \<Rightarrow> string list option \<Rightarrow> bool \<Rightarrow> 'e runner" where
  "new_runner dag e flavors store = \<lparr>rn_dag = dag, rn_exec = e, rn_flavors = flavors, rn_running = [],
     rn_coros = [], rn_paused = False, rn_result_event = False, rn_trace_store = store,
     rn_status_file = None, rn_callbacks = []\<rparr>"

definition pause :: "'e runner \<Rightarrow> 'e runner" where
  "pause r = r\<lparr>rn_paused := True\<rparr>"

definition resume :: "'e runner \<Rightarrow> 'e runner" where
  "resume r = r\<lparr>rn_paused := False\<rparr>"

definition write_status :: "('e \<Rightarrow> int) \<Rightarrow> 'e runner \<Rightarrow> 'e runner" where
  "write_status slots r =
     (if \<not> rn_trace_store r then r
      else r\<lparr>rn_status_file := Some (summary (rn_dag r), slots (rn_exec r))\<rparr>)"

section \<open>Dispatch\<close>

definition dispatch_one :: "'e runner \<Rightarrow> item \<Rightarrow> 'e runner" where
  "dispatch_one r task =
     (let attempt_number = get_attempts (rn_dag r) (it_id task) + 1
      in r\<lparr>rn_running := set_add (it_id task) (rn_running r),
           rn_coros := rn_coros r @ [\<lparr>co_task = it_id task, co_attempt = attempt_number, co_phase = Created\<rparr>],
           rn_callbacks := rn_callbacks r @ [TaskStart (it_id task)]\<rparr>)"

fun dispatch_loop :: "('e \<Rightarrow> int) \<Rightarrow> 'e runner \<Rightarrow> item list \<Rightarrow> nat \<Rightarrow> nat \<times> 'e runner" where
  "dispatch_loop slots r [] dispatched = (dispatched, r)"
| "dispatch_loop slots r (task # tasks) dispatched =
     (if slots (rn_exec r) \<le> 0 then (dispatched, r)
      else dispatch_loop slots (dispatch_one r task) tasks (dispatched + 1))"

definition dispatchable :: "'e runner \<Rightarrow> item list" where
  "dispatchable r =
     (let rd = filter (\<lambda>t. it_id t \<notin> set (rn_running r)) (ready (rn_dag r))
      in (case rn_flavors r of None \<Rightarrow> rd | Some fs \<Rightarrow> filter (\<lambda>t. it_flavor t \<in> set fs) rd))"

definition dispatch_ready :: "('e \<Rightarrow> int) \<Rightarrow> 'e runner \<Rightarrow> nat \<times> 'e runner" where
  "dispatch_ready slots r = dispatch_loop slots r (dispatchable r) 0"

definition dispatch_task :: "('e \<Rightarrow> int) \<Rightarrow> 'e runner \<Rightarrow> string \<Rightarrow> string \<times> 'e runner" where
  "dispatch_task slots r task_id =
     (if task_id \<in> set (rn_running r) then (''Task '' @ task_id @ '' is already running.'', r)
      else (case find (\<lambda>t. it_id t = task_id) (ready (rn_dag r)) of
        None \<Rightarrow> (''Task '' @ task_id @ '' is not ready (either not pending or has unmet dependencies).'', r)
      | Some task \<Rightarrow>
          (if slots (rn_exec r) \<le> 0 then (''No executor slots available - all workers are busy.'', r)
           else (''Task '' @ task_id @ '' dispatched.'', dispatch_one r task))))"

section \<open>The coroutine of a dispatched task\<close>

text \<open>The part of \<open>_execute_and_handle\<close> after the result is there: it has no await, so it is one step.\<close>

definition complete :: "('e \<Rightarrow> int) \<Rightarrow> 'e runner \<Rightarrow> string \<Rightarrow> concurrent_result \<Rightarrow> 'e runner" where
  "complete slots r k result =
     write_status slots (r\<lparr>rn_coros := filter (\<lambda>c. co_task c \<noteq> k) (rn_coros r),
        rn_running := removeAll k (rn_running r),
        rn_dag := snd (record_result (rn_dag r) k (cr_success result)),
        rn_callbacks := rn_callbacks r @ [TaskComplete k result],
        rn_result_event := True\<rparr>)"

text \<open>The coroutine gets control before its task was handed to a worker.\<close>

definition set_dispatched :: "string \<Rightarrow> coroutine \<Rightarrow> coroutine" where
  "set_dispatched k c = (if co_task c = k then c\<lparr>co_phase := Dispatched\<rparr> else c)"

definition begin_coro :: "('e \<Rightarrow> int) \<Rightarrow> ('e \<Rightarrow> item \<Rightarrow> int \<Rightarrow> 'e begin_outcome) \<Rightarrow>
    'e runner \<Rightarrow> coroutine \<Rightarrow> 'e runner" where
  "begin_coro slots begin_run r c =
     (let k = co_task c in
      case dget (tk_items (rn_dag r)) k of
        None \<Rightarrow> r
      | Some task \<Rightarrow>
          (case begin_run (rn_exec r) task (co_attempt c) of
             Started e' \<Rightarrow> r\<lparr>rn_exec := e', rn_dag := mark_in_progress (rn_dag r) k,
                            rn_coros := map (set_dispatched k) (rn_coros r)\<rparr>
           | Waits \<Rightarrow> r
           | Returns result \<Rightarrow> complete slots r k result
           | Raises x e' \<Rightarrow> complete slots (r\<lparr>rn_exec := e'\<rparr>) k
                (failed_result (err_text x) (Some CauseInfrastructure))))"

section \<open>The loop\<close>

datatype loop_action = WaitUnpaused | SleepBusy | SleepIdle | WaitResult | Stop

text \<open>One iteration of the \<open>while True\<close> of \<open>run\<close>: what it does to the state and what it
  awaits next; \<open>keep_polling\<close> is the argument \<open>continuous\<close>.\<close>

definition run_iteration :: "('e \<Rightarrow> int) \<Rightarrow> bool \<Rightarrow> bool \<Rightarrow> 'e runner \<Rightarrow> loop_action \<times> 'e runner" where
  "run_iteration slots orchestrator_busy keep_polling r =
     (if rn_paused r then (WaitUnpaused, r)
      else if orchestrator_busy then (SleepBusy, r)
      else if \<not> has_pending (rn_dag r) \<and> rn_running r = []
      then (if \<not> keep_polling then (Stop, r) else (SleepIdle, r))
      else
        let (dispatched, r1) = dispatch_ready slots r;
            r2 = write_status slots r1
        in if dispatched = 0 \<and> rn_running r2 = []
           then (if ready (rn_dag r2) = [] \<and> has_pending (rn_dag r2)
                 then (let r3 = write_status slots r2
                       in if \<not> keep_polling then (Stop, r3) else (SleepIdle, r3))
                 else (SleepIdle, r2))
           else (WaitResult, r2\<lparr>rn_result_event := False\<rparr>))"

text \<open>What \<open>run\<close> does before the loop and after it.\<close>

definition run_start :: "('e \<Rightarrow> int) \<Rightarrow> 'e runner \<Rightarrow> 'e runner" where
  "run_start slots r = write_status slots r"

definition run_end :: "('e \<Rightarrow> int) \<Rightarrow> 'e runner \<Rightarrow> tracker_summary \<times> 'e runner" where
  "run_end slots r = (summary (rn_dag r), write_status slots r)"

section \<open>All interleavings\<close>

text \<open>
  The steps of the whole system: loop iterations, explicit dispatches, a coroutine getting control,
  an executor's \<open>run\<close> returning a result, the executor's own steps, pausing, and edits of the tracker
  by the orchestrator or a tool.
\<close>

inductive runner_step :: "('e \<Rightarrow> int) \<Rightarrow> ('e \<Rightarrow> item \<Rightarrow> int \<Rightarrow> 'e begin_outcome) \<Rightarrow>
    ('e \<Rightarrow> string \<Rightarrow> concurrent_result \<Rightarrow> 'e \<Rightarrow> bool) \<Rightarrow> ('e \<Rightarrow> 'e \<Rightarrow> bool) \<Rightarrow>
    'e runner \<Rightarrow> 'e runner \<Rightarrow> bool"
  for slots begin_run finish env where
  loop: "run_iteration slots busy keep_polling r = (a, r') \<Longrightarrow> runner_step slots begin_run finish env r r'"
| call: "dispatch_task slots r k = (msg, r') \<Longrightarrow> runner_step slots begin_run finish env r r'"
| start: "c \<in> set (rn_coros r) \<Longrightarrow> co_phase c = Created \<Longrightarrow>
    runner_step slots begin_run finish env r (begin_coro slots begin_run r c)"
| return: "c \<in> set (rn_coros r) \<Longrightarrow> co_phase c = Dispatched \<Longrightarrow> finish (rn_exec r) (co_task c) result e' \<Longrightarrow>
    runner_step slots begin_run finish env r (complete slots (r\<lparr>rn_exec := e'\<rparr>) (co_task c) result)"
| internal: "env (rn_exec r) e' \<Longrightarrow> runner_step slots begin_run finish env r (r\<lparr>rn_exec := e'\<rparr>)"
| edit: "runner_step slots begin_run finish env r (r\<lparr>rn_dag := run_op (rn_dag r) op\<rparr>)"
| pausing: "runner_step slots begin_run finish env r (pause r)"
| resuming: "runner_step slots begin_run finish env r (resume r)"

end
