(* ===== verification/Dag_Runner_Correct.thy ===== *)
theory Dag_Runner_Correct
  imports Dag_Runner Item_Tracker_Correct Dist_Executor_Correct
begin

text \<open>
  Correctness of the scheduling loop over any executor that keeps the contract of
  \<open>Executor_Interface\<close>, then for the local and the distributed executor by interpretation.
\<close>

section \<open>The invariant\<close>

definition coro_ids :: "'e runner \<Rightarrow> string list" where
  "coro_ids r = map co_task (rn_coros r)"

definition dispatched_ids :: "'e runner \<Rightarrow> string set" where
  "dispatched_ids r = set (map co_task (filter (\<lambda>c. co_phase c = Dispatched) (rn_coros r)))"

text \<open>One coroutine per running task, the running set names exactly the coroutines, and the
  executor's active tasks are exactly the dispatched ones.\<close>

definition runner_inv :: "('e \<Rightarrow> bool) \<Rightarrow> ('e \<Rightarrow> string set) \<Rightarrow> 'e runner \<Rightarrow> bool" where
  "runner_inv einv active r \<longleftrightarrow> wf_tracker (rn_dag r) \<and> einv (rn_exec r) \<and> distinct (coro_ids r) \<and>
     set (rn_running r) = set (coro_ids r) \<and> active (rn_exec r) = dispatched_ids r"

lemma write_status_fields [simp]:
  "rn_dag (write_status slots r) = rn_dag r" "rn_exec (write_status slots r) = rn_exec r"
  "rn_running (write_status slots r) = rn_running r" "rn_coros (write_status slots r) = rn_coros r"
  "rn_flavors (write_status slots r) = rn_flavors r" "rn_paused (write_status slots r) = rn_paused r"
  by (simp_all add: write_status_def)

lemma write_status_inv [simp]: "runner_inv einv active (write_status slots r) = runner_inv einv active r"
  by (simp add: runner_inv_def coro_ids_def dispatched_ids_def)

lemma dispatch_one_inv:
  assumes "runner_inv einv active r" "it_id t \<notin> set (rn_running r)"
  shows "runner_inv einv active (dispatch_one r t)"
  using assms by (auto simp: runner_inv_def dispatch_one_def coro_ids_def dispatched_ids_def set_add_def Let_def)

lemma dispatch_loop_inv:
  "runner_inv einv active r \<Longrightarrow> distinct (map it_id ts) \<Longrightarrow> \<forall>t \<in> set ts. it_id t \<notin> set (rn_running r) \<Longrightarrow>
   runner_inv einv active (snd (dispatch_loop slots r ts n))"
proof (induction ts arbitrary: r n)
  case (Cons t ts)
  have "runner_inv einv active (dispatch_one r t)" using Cons.prems by (intro dispatch_one_inv) auto
  have "set (rn_running (dispatch_one r t)) = insert (it_id t) (set (rn_running r))"
    by (auto simp: dispatch_one_def set_add_def Let_def)
  then have "\<forall>u \<in> set ts. it_id u \<notin> set (rn_running (dispatch_one r t))"
    using Cons.prems by (auto simp: image_iff)
  with \<open>runner_inv einv active (dispatch_one r t)\<close> have
    "runner_inv einv active (snd (dispatch_loop slots (dispatch_one r t) ts (n + 1)))"
    using Cons.IH Cons.prems(2) by simp
  then show ?case using Cons.prems(1) by simp
qed simp

lemma distinct_ready_ids:
  assumes "wf_items (tk_items t)" shows "distinct (map it_id (ready t))"
proof -
  have "map it_id (dvals (tk_items t)) = dkeys (tk_items t)"
  proof -
    have "it_id i = k" if "(k, i) \<in> set (tk_items t)" for k i
      using that assms by (auto simp: wf_items_def dest!: wf_dict_mapD)
    then show ?thesis by (induction "tk_items t") auto
  qed
  then have "distinct (map it_id (dvals (tk_items t)))" using assms unfolding wf_items_def wf_dict_def by metis
  then have "distinct (map it_id (sorted_items t))"
    by (metis (no_types, lifting) distinct_map distinct_sort set_sorted_items sorted_items_def)
  then show ?thesis unfolding ready_def by (rule distinct_map_filter)
qed

lemma dispatchable_facts:
  assumes "wf_tracker (rn_dag r)"
  shows "distinct (map it_id (dispatchable r))" "\<forall>t \<in> set (dispatchable r). it_id t \<notin> set (rn_running r)"
  using distinct_ready_ids [of "rn_dag r"] assms
  by (auto simp: dispatchable_def Let_def wf_tracker_def distinct_map_filter split: option.splits)

lemma dispatch_ready_inv:
  "runner_inv einv active r \<Longrightarrow> runner_inv einv active (snd (dispatch_ready slots r))"
  unfolding dispatch_ready_def
  by (rule dispatch_loop_inv, assumption) (use dispatchable_facts [of r] in \<open>auto simp: runner_inv_def\<close>)

lemma dispatch_task_inv:
  assumes "runner_inv einv active r" shows "runner_inv einv active (snd (dispatch_task slots r k))"
proof -
  have "it_id t = k" if "find (\<lambda>t. it_id t = k) (ready (rn_dag r)) = Some t" for t
    using that by (auto simp: find_Some_iff)
  then show ?thesis using assms by (auto simp: dispatch_task_def intro: dispatch_one_inv split: option.split)
qed

lemma flag_inv [simp]: "runner_inv einv active (r\<lparr>rn_result_event := b\<rparr>) = runner_inv einv active r"
  by (simp add: runner_inv_def coro_ids_def dispatched_ids_def)

lemma run_iteration_inv:
  "runner_inv einv active r \<Longrightarrow> runner_inv einv active (snd (run_iteration slots busy keep r))"
  using dispatch_ready_inv [of einv active r slots]
  by (auto simp: run_iteration_def Let_def split: prod.splits)

lemma coro_unique:
  "distinct (map co_task cs) \<Longrightarrow> c \<in> set cs \<Longrightarrow> d \<in> set cs \<Longrightarrow> co_task c = co_task d \<Longrightarrow> c = d"
  by (meson distinct_map inj_onD)

lemma complete_inv:
  assumes "wf_tracker (rn_dag r)" "einv (rn_exec r)" "distinct (coro_ids r)"
    "set (rn_running r) = set (coro_ids r)" "active (rn_exec r) = dispatched_ids r - {k}"
  shows "runner_inv einv active (complete slots r k result)"
  using assms record_result_wf [of "rn_dag r" k "cr_success result"]
  by (auto simp: runner_inv_def complete_def coro_ids_def dispatched_ids_def distinct_map_filter)

lemma created_not_dispatched:
  assumes "runner_inv einv active r" "c \<in> set (rn_coros r)" "co_phase c = Created"
  shows "co_task c \<notin> dispatched_ids r"
proof
  assume "co_task c \<in> dispatched_ids r"
  then obtain d where d: "d \<in> set (rn_coros r)" "co_task c = co_task d" "co_phase d = Dispatched"
    by (auto simp: dispatched_ids_def)
  have "c = d" using assms d by (intro coro_unique [of "rn_coros r"]) (auto simp: runner_inv_def coro_ids_def)
  with assms d show False by simp
qed

lemma set_dispatched_ids [simp]: "map co_task (map (set_dispatched k) cs) = map co_task cs"
  by (simp add: set_dispatched_def comp_def)

lemma dispatched_ids_map:
  assumes "c \<in> set (rn_coros r)"
  shows "dispatched_ids (r\<lparr>rn_coros := map (set_dispatched (co_task c)) (rn_coros r)\<rparr>)
    = insert (co_task c) (dispatched_ids r)"
proof -
  have f: "co_task (set_dispatched k d) = co_task d"
    "co_phase (set_dispatched k d) = Dispatched \<longleftrightarrow> co_task d = k \<or> co_phase d = Dispatched" for k d
    by (simp_all add: set_dispatched_def)
  have "set (map co_task (filter (\<lambda>c. co_phase c = Dispatched) (map (set_dispatched k) cs))) =
      set (map co_task (filter (\<lambda>c. co_task c = k \<or> co_phase c = Dispatched) cs))" for k cs
    by (induction cs) (simp_all add: f)
  then show ?thesis using assms by (auto simp: dispatched_ids_def)
qed

context task_executor
begin

lemma begin_coro_inv:
  assumes r: "runner_inv einv active r" and c: "c \<in> set (rn_coros r)" "co_phase c = Created"
  shows "runner_inv einv active (begin_coro slots begin_run r c)"
proof (cases "dget (tk_items (rn_dag r)) (co_task c)")
  case None
  with r show ?thesis by (simp add: begin_coro_def Let_def)
next
  case (Some task)
  have e: "einv (rn_exec r)" and a: "active (rn_exec r) = dispatched_ids r" using r by (auto simp: runner_inv_def)
  have id: "it_id task = co_task c" using r Some by (auto simp: runner_inv_def wf_tracker_def wf_items_def)
  have new: "it_id task \<notin> active (rn_exec r)" using created_not_dispatched [OF r c] a id by simp
  have rem: "dispatched_ids r - {co_task c} = dispatched_ids r" using created_not_dispatched [OF r c] by blast
  show ?thesis
  proof (cases "begin_run (rn_exec r) task (co_attempt c)")
    case (Started e')
    have d: "dispatched_ids (r\<lparr>rn_coros := map (set_dispatched (co_task c)) (rn_coros r)\<rparr>)
        = insert (co_task c) (dispatched_ids r)"
      using c by (simp add: dispatched_ids_map)
    have "einv e'" "active e' = insert (co_task c) (dispatched_ids r)"
      using begin_started [OF e new Started] a id by simp_all
    then have "runner_inv einv active (r\<lparr>rn_exec := e', rn_dag := mark_in_progress (rn_dag r) (co_task c),
        rn_coros := map (set_dispatched (co_task c)) (rn_coros r)\<rparr>)"
      using r d mark_in_progress_wf by (simp add: runner_inv_def coro_ids_def dispatched_ids_def del: map_map)
    with Started Some show ?thesis by (simp add: begin_coro_def Let_def)
  next
    case Waits
    with r Some show ?thesis by (simp add: begin_coro_def Let_def)
  next
    case (Returns result)
    have "runner_inv einv active (complete slots r (co_task c) result)"
      using r rem by (intro complete_inv) (auto simp: runner_inv_def)
    with Returns Some show ?thesis by (simp add: begin_coro_def Let_def)
  next
    case (Raises x e')
    have "einv e'" "active e' = dispatched_ids r" using begin_raises [OF e new Raises] a by simp_all
    then have "runner_inv einv active (complete slots (r\<lparr>rn_exec := e'\<rparr>) (co_task c)
        (failed_result (err_text x) (Some CauseInfrastructure)))"
      using r rem by (intro complete_inv) (auto simp: runner_inv_def coro_ids_def dispatched_ids_def)
    with Raises Some show ?thesis by (simp add: begin_coro_def Let_def)
  qed
qed

lemma runner_step_inv:
  "runner_step slots begin_run finish env r r' \<Longrightarrow> runner_inv einv active r \<Longrightarrow> runner_inv einv active r'"
proof (induction rule: runner_step.induct)
  case (loop busy keep_polling r a r')
  then show ?case using run_iteration_inv [of einv active r slots busy keep_polling] by simp
next
  case (call r k msg r')
  then show ?case using dispatch_task_inv [of einv active r slots k] by simp
next
  case (start c r)
  then show ?case by (intro begin_coro_inv)
next
  case (return c r result e')
  have "einv (rn_exec r)" using return.prems by (simp add: runner_inv_def)
  from finish_active [OF this return.hyps(3)] return.prems
  show ?case by (intro complete_inv) (auto simp: runner_inv_def coro_ids_def dispatched_ids_def)
next
  case (internal r e')
  then have "einv (rn_exec r)" by (simp add: runner_inv_def)
  from env_active [OF this internal.hyps] internal.prems
  show ?case by (simp add: runner_inv_def coro_ids_def dispatched_ids_def)
next
  case (edit r op)
  then show ?case by (simp add: runner_inv_def coro_ids_def dispatched_ids_def run_op_wf)
next
  case (pausing r)
  then show ?case by (simp add: runner_inv_def coro_ids_def dispatched_ids_def pause_def)
next
  case (resuming r)
  then show ?case by (simp add: runner_inv_def coro_ids_def dispatched_ids_def resume_def)
qed

lemma runner_reach_inv:
  assumes "(runner_step slots begin_run finish env)\<^sup>*\<^sup>* r r'" "runner_inv einv active r"
  shows "runner_inv einv active r'"
  using assms by (induction rule: rtranclp_induct) (auto intro: runner_step_inv)

end

section \<open>Both executors\<close>

lemma iteration_reach:
  "(runner_step slots begin_run finish env)\<^sup>*\<^sup>* r (snd (run_iteration slots busy keep r))"
  by (rule r_into_rtranclp, rule runner_step.loop, rule surjective_pairing)

lemma new_runner_inv:
  "wf_tracker t \<Longrightarrow> einv e \<Longrightarrow> active e = {} \<Longrightarrow> runner_inv einv active (new_runner t e fl st)"
  by (simp add: runner_inv_def new_runner_def coro_ids_def dispatched_ids_def)

text \<open>C31: With the distributed executor, in every interleaving of loop iterations, explicit dispatches,
  coroutine starts and returns, worker messages, passing time, pauses and tracker edits: no task ever
  has two executions at once, the running set names exactly the tasks being executed, and the tasks
  the executor holds (a future or a waiting result) are exactly those handed to a worker.\<close>

theorem dist_no_double_execution:
  assumes "wf_tracker t" and "de_inv e" and "de_active e = {}"
    and "(runner_step slots de_begin (\<lambda>e k r e'. run_return e k = Some (r, e')) de_env)\<^sup>*\<^sup>* (new_runner t e fl st) r"
  shows "distinct (coro_ids r) \<and> set (rn_running r) = set (coro_ids r) \<and>
    de_active (rn_exec r) = dispatched_ids r \<and> wf_tracker (rn_dag r)"
  using dist_ex.runner_reach_inv [OF assms(4)] new_runner_inv [of t de_inv e de_active fl st] assms(1-3)
  by (simp add: runner_inv_def)

lemma demo_exec_inv: "de_inv demo_exec" "de_active demo_exec = {}"
  by (simp_all add: de_inv_def de_active_def demo_exec_def wf_dict_def)

theorem dist_no_double_execution_witness:
  "coro_ids (snd (run_iteration (\<lambda>e. 3) False False (new_runner (run_ops (empty_tracker ''task'') demo_ops) demo_exec None True))) = [''1''] \<and>
   rn_running (snd (run_iteration (\<lambda>e. 3) False False (new_runner (run_ops (empty_tracker ''task'') demo_ops) demo_exec None True))) = [''1''] \<and>
   distinct (coro_ids (snd (run_iteration (\<lambda>e. 3) False False (new_runner (run_ops (empty_tracker ''task'') demo_ops) demo_exec None True))))"
proof -
  let ?r0 = "new_runner (run_ops (empty_tracker ''task'') demo_ops) demo_exec None True"
  let ?r = "snd (run_iteration (\<lambda>e. 3) False False ?r0)"
  have "distinct (coro_ids ?r)"
    using dist_no_double_execution [OF tracker_wf_run demo_exec_inv iteration_reach] by blast
  moreover have "coro_ids ?r = [''1'']" by code_simp
  moreover have "rn_running ?r = [''1'']" by code_simp
  ultimately show ?thesis by blast
qed

text \<open>The same for the local executor; in addition every busy agent is checked out by exactly one
  dispatched task.\<close>

theorem local_no_double_execution:
  assumes "wf_tracker t" and "local_inv e" and "local_active e = {}"
    and "(runner_step slots local_begin (\<lambda>e k r e'. local_finish e k = Inr e') (\<lambda>e e'. False))\<^sup>*\<^sup>* (new_runner t e fl st) r"
  shows "distinct (coro_ids r) \<and> set (rn_running r) = set (coro_ids r) \<and>
    local_active (rn_exec r) = dispatched_ids r \<and>
    (\<forall>a. a \<in> set (ap_busy (le_pool (rn_exec r))) \<longleftrightarrow>
       (\<exists>!k. \<exists>as. dget (le_out (rn_exec r)) k = Some as \<and> a \<in> set as))"
proof -
  have "runner_inv local_inv local_active r"
    using local_ex.runner_reach_inv [OF assms(4)] new_runner_inv [of t local_inv e local_active fl st] assms(1-3)
    by blast
  moreover from this have i: "local_inv (rn_exec r)" by (simp add: runner_inv_def)
  have "a \<in> set (ap_busy (le_pool (rn_exec r))) \<longleftrightarrow>
       (\<exists>!k. \<exists>as. dget (le_out (rn_exec r)) k = Some as \<and> a \<in> set as)" for a
  proof -
    let ?P = "\<lambda>k. \<exists>as. dget (le_out (rn_exec r)) k = Some as \<and> a \<in> set as"
    have uniq: "k = l" if "?P k" "?P l" for k l
      using i that unfolding local_inv_def by blast
    have ex: "a \<in> set (ap_busy (le_pool (rn_exec r))) \<longleftrightarrow> (\<exists>k. ?P k)"
      using i unfolding local_inv_def by blast
    have "(\<exists>k. ?P k) \<longleftrightarrow> (\<exists>!k. ?P k)"
    proof
      assume "\<exists>k. ?P k"
      then obtain k where k: "?P k" ..
      show "\<exists>!k. ?P k" by (rule ex1I [of ?P k], rule k) (rule uniq [OF _ k])
    qed (rule ex1_implies_ex)
    with ex show ?thesis by (rule trans)
  qed
  ultimately show ?thesis by (simp add: runner_inv_def)
qed

definition demo_local :: local_exec where
  "demo_local = \<lparr>le_pool = new_pool [''w1''] None, le_agents_per_task = 1, le_out = []\<rparr>"

lemma demo_local_inv: "local_inv demo_local" "local_active demo_local = {}"
  by (simp_all add: local_inv_def local_active_def demo_local_def new_pool_def wf_pool_def)

definition two_ready :: tracker where
  "two_ready = run_ops (empty_tracker ''task'') [OpAdd ''a'' '''' [] [] None None None None, OpAdd ''b'' '''' [] [] None None None None]"

definition local_slots :: "local_exec \<Rightarrow> int" where
  "local_slots e = (case local_available_slots e of Inl x \<Rightarrow> 0 | Inr s \<Rightarrow> s)"

definition after_loop :: "local_exec runner" where
  "after_loop = snd (run_iteration local_slots False False (new_runner two_ready demo_local None False))"

definition created :: "string \<Rightarrow> coroutine" where
  "created k = \<lparr>co_task = k, co_attempt = 1, co_phase = Created\<rparr>"

definition after_starts :: "local_exec runner" where
  "after_starts = begin_coro local_slots local_begin (begin_coro local_slots local_begin after_loop (created ''1'')) (created ''2'')"

theorem local_no_double_execution_witness:
  "coro_ids after_loop = [''1'', ''2''] \<and> distinct (coro_ids after_loop)"
proof -
  have "wf_tracker two_ready" unfolding two_ready_def by (rule tracker_wf_run)
  then have "distinct (coro_ids after_loop)"
    unfolding after_loop_def using local_no_double_execution [OF _ demo_local_inv iteration_reach] by blast
  moreover have "coro_ids after_loop = [''1'', ''2'']" by code_simp
  ultimately show ?thesis by blast
qed

text \<open>Capacity is not consumed by a dispatch: the executor's slots are read again for every task, but
  change only when the coroutines run later, so \<open>dispatch_ready\<close> dispatches all eligible tasks as
  soon as one slot is free, and none otherwise.\<close>

lemma dispatch_one_exec [simp]: "rn_exec (dispatch_one r t) = rn_exec r"
  by (simp add: dispatch_one_def Let_def)

lemma dispatch_loop_count:
  "fst (dispatch_loop slots r ts n) = (if slots (rn_exec r) \<le> 0 then n else n + length ts)"
  by (induction ts arbitrary: r n) auto

theorem dispatch_all_or_none:
  "fst (dispatch_ready slots r) = (if slots (rn_exec r) \<le> 0 then 0 else length (dispatchable r))"
  by (simp add: dispatch_ready_def dispatch_loop_count)

text \<open>With one idle local agent and two ready tasks, one loop iteration dispatches both; the second
  to start finds no agent, and is recorded as failed although no agent ever ran it: its attempt
  count is still 0, while the first is in progress.\<close>

theorem local_overdispatch_fails_task:
  "local_slots (rn_exec (new_runner two_ready demo_local None False)) = 1 \<and>
   map_option (\<lambda>i. (it_status i, it_attempts i)) (dget (tk_items (rn_dag after_starts)) ''1'') = Some (''in_progress'', 1) \<and>
   map_option (\<lambda>i. (it_status i, it_attempts i)) (dget (tk_items (rn_dag after_starts)) ''2'') = Some (''failed'', 0)"
proof (intro conjI)
  show "local_slots (rn_exec (new_runner two_ready demo_local None False)) = 1" by code_simp
  show "map_option (\<lambda>i. (it_status i, it_attempts i)) (dget (tk_items (rn_dag after_starts)) ''1'') = Some (''in_progress'', 1)"
    by code_simp
  show "map_option (\<lambda>i. (it_status i, it_attempts i)) (dget (tk_items (rn_dag after_starts)) ''2'') = Some (''failed'', 0)"
    by code_simp
qed

text \<open>The loop ends by itself only when it is not told to keep polling, nothing is running, and
  either everything is finished or no pending task has its dependencies met.\<close>

theorem loop_stop_exact:
  assumes "run_iteration slots busy keep r = (Stop, r')"
  shows "\<not> keep \<and> \<not> rn_paused r \<and> \<not> busy \<and> rn_running r' = [] \<and>
    (\<not> has_pending (rn_dag r') \<or> ready (rn_dag r') = [])"
  using assms by (auto simp: run_iteration_def Let_def split: if_splits prod.splits)

theorem loop_stop_exact_witness:
  "fst (run_iteration local_slots False False (new_runner (run_ops (empty_tracker ''task'') cycle_ops) demo_local None False)) = Stop \<and>
   ready (run_ops (empty_tracker ''task'') cycle_ops) = []"
proof -
  let ?r = "new_runner (run_ops (empty_tracker ''task'') cycle_ops) demo_local None False"
  have s: "fst (run_iteration local_slots False False ?r) = Stop" by code_simp
  then obtain r' where r': "run_iteration local_slots False False ?r = (Stop, r')"
    by (cases "run_iteration local_slots False False ?r") auto
  have "\<not> has_pending (rn_dag r') \<or> ready (rn_dag r') = []" using loop_stop_exact [OF r'] by blast
  moreover have "map it_id (ready (run_ops (empty_tracker ''task'') cycle_ops)) = []" by code_simp
  ultimately show ?thesis using s by simp
qed

end
