(* ===== verification/Effects.thy ===== *)
theory Effects
  imports Py_Strings
begin

text \<open>
  Code with effects and exceptions: a computation takes the state and gives a result (a value or the
  exception that left it) together with the new state. Operating-system calls (git as a
  subprocess, the file system) go through one function of the model's user, \<open>os\<close>, that answers a
  call and changes the world; the modelled code is the code around these calls.
\<close>

section \<open>Computations\<close>

type_synonym ('s, 'a) eff = "'s \<Rightarrow> 'a result \<times> 's"

definition ret :: "'a \<Rightarrow> ('s, 'a) eff" where
  "ret a = (\<lambda>s. (Inr a, s))"

definition throw :: "py_error \<Rightarrow> ('s, 'a) eff" where
  "throw e = (\<lambda>s. (Inl e, s))"

definition bindE :: "('s, 'a) eff \<Rightarrow> ('a \<Rightarrow> ('s, 'b) eff) \<Rightarrow> ('s, 'b) eff" where
  "bindE m f = (\<lambda>s. case m s of (Inl e, s') \<Rightarrow> (Inl e, s') | (Inr a, s') \<Rightarrow> f a s')"

definition seqE :: "('s, 'a) eff \<Rightarrow> ('s, 'b) eff \<Rightarrow> ('s, 'b) eff" where
  "seqE m n = bindE m (\<lambda>_. n)"

definition getsE :: "('s \<Rightarrow> 'a) \<Rightarrow> ('s, 'a) eff" where
  "getsE f = (\<lambda>s. (Inr (f s), s))"

definition modifyE :: "('s \<Rightarrow> 's) \<Rightarrow> ('s, unit) eff" where
  "modifyE f = (\<lambda>s. (Inr (), f s))"

text \<open>\<open>try: m except: h\<close> and \<open>try: m finally: f\<close>; an exception of the \<open>finally\<close> block replaces the outcome.\<close>

definition catchE :: "('s, 'a) eff \<Rightarrow> (py_error \<Rightarrow> ('s, 'a) eff) \<Rightarrow> ('s, 'a) eff" where
  "catchE m h = (\<lambda>s. case m s of (Inl e, s') \<Rightarrow> h e s' | (Inr a, s') \<Rightarrow> (Inr a, s'))"

definition finallyE :: "('s, 'a) eff \<Rightarrow> ('s, unit) eff \<Rightarrow> ('s, 'a) eff" where
  "finallyE m f = (\<lambda>s. case m s of (r, s') \<Rightarrow>
     (case f s' of (Inl e, s'') \<Rightarrow> (Inl e, s'') | (Inr _, s'') \<Rightarrow> (r, s'')))"

fun forE :: "'x list \<Rightarrow> ('x \<Rightarrow> ('s, unit) eff) \<Rightarrow> ('s, unit) eff" where
  "forE [] f = ret ()"
| "forE (x # xs) f = seqE (f x) (forE xs f)"

definition whenE :: "bool \<Rightarrow> ('s, unit) eff \<Rightarrow> ('s, unit) eff" where
  "whenE b m = (if b then m else ret ())"

named_theorems eff_simps

lemma eff_unfold [eff_simps]:
  "ret a s = (Inr a, s)" "throw e s = (Inl e, s)" "getsE g s = (Inr (g s), s)" "modifyE h s = (Inr (), h s)"
  "bindE m f s = (case m s of (Inl e, s') \<Rightarrow> (Inl e, s') | (Inr a, s') \<Rightarrow> f a s')"
  "seqE m n s = (case m s of (Inl e, s') \<Rightarrow> (Inl e, s') | (Inr a, s') \<Rightarrow> n s')"
  "whenE b k = (if b then k else ret ())"
  by (simp_all add: ret_def throw_def getsE_def modifyE_def bindE_def seqE_def whenE_def)

lemma bindE_Inr_iff:
  "bindE m f s = (Inr b, s'') \<longleftrightarrow> (\<exists>a s'. m s = (Inr a, s') \<and> f a s' = (Inr b, s''))"
  by (auto simp: bindE_def split: prod.splits sum.splits)

lemma seqE_Inr_iff:
  "seqE m n s = (Inr b, s'') \<longleftrightarrow> (\<exists>a s'. m s = (Inr a, s') \<and> n s' = (Inr b, s''))"
  by (simp add: seqE_def bindE_Inr_iff)

lemma finallyE_Inr: "finallyE m fin s = (Inr a, s'') \<Longrightarrow> \<exists>s' u. m s = (Inr a, s') \<and> fin s' = (Inr u, s'')"
  by (auto simp: finallyE_def split: prod.splits sum.splits)

text \<open>Properties every computation step keeps, whatever its outcome.\<close>

definition keeps :: "('s \<Rightarrow> 's \<Rightarrow> bool) \<Rightarrow> ('s, 'a) eff \<Rightarrow> bool" where
  "keeps R m \<longleftrightarrow> (\<forall>s. R s (snd (m s)))"

lemma keepsD: "keeps R m \<Longrightarrow> m s = (r, s') \<Longrightarrow> R s s'"
  by (metis keeps_def snd_conv)

lemma keeps_ret: "reflp R \<Longrightarrow> keeps R (ret a)"
  by (simp add: keeps_def ret_def reflpD)

lemma keeps_throw: "reflp R \<Longrightarrow> keeps R (throw a)"
  by (simp add: keeps_def throw_def reflpD)

lemma keeps_getsE: "reflp R \<Longrightarrow> keeps R (getsE f)"
  by (simp add: keeps_def getsE_def reflpD)

lemma keeps_bindE:
  assumes "transp R" "keeps R m" "\<And>a. keeps R (f a)" shows "keeps R (bindE m f)"
  unfolding keeps_def bindE_def
proof
  fix s
  obtain r s' where m: "m s = (r, s')" by fastforce
  have "R s s'" by (rule keepsD [OF assms(2) m])
  moreover have "R s' (snd (f a s'))" for a using assms(3) by (simp add: keeps_def)
  ultimately show "R s (snd (case m s of (Inl e, s') \<Rightarrow> (Inl e, s') | (Inr a, s') \<Rightarrow> f a s'))"
    using assms(1) m by (auto split: sum.split dest: transpD)
qed

lemma keeps_bind_value:
  assumes "transp R" "keeps R m" "\<And>s a s'. m s = (Inr a, s') \<Longrightarrow> keeps R (f a)" shows "keeps R (bindE m f)"
  unfolding keeps_def bindE_def
proof
  fix s
  obtain r s' where m: "m s = (r, s')" by fastforce
  have "R s s'" by (rule keepsD [OF assms(2) m])
  moreover have "R s' (snd (f a s'))" if "r = Inr a" for a using assms(3) m that by (simp add: keeps_def)
  ultimately show "R s (snd (case m s of (Inl e, s') \<Rightarrow> (Inl e, s') | (Inr a, s') \<Rightarrow> f a s'))"
    using assms(1) m by (auto split: sum.split dest: transpD)
qed

lemma keeps_seqE: "transp R \<Longrightarrow> keeps R m \<Longrightarrow> keeps R n \<Longrightarrow> keeps R (seqE m n)"
  unfolding seqE_def by (rule keeps_bindE)

lemma keeps_catchE:
  assumes "transp R" "keeps R m" "\<And>e. keeps R (h e)" shows "keeps R (catchE m h)"
  unfolding keeps_def catchE_def
proof
  fix s
  obtain r s' where m: "m s = (r, s')" by fastforce
  have "R s s'" by (rule keepsD [OF assms(2) m])
  moreover have "R s' (snd (h a s'))" for a using assms(3) by (simp add: keeps_def)
  ultimately show "R s (snd (case m s of (Inl e, s') \<Rightarrow> h e s' | (Inr a, s') \<Rightarrow> (Inr a, s')))"
    using assms(1) m by (auto split: sum.split dest: transpD)
qed

lemma keeps_finallyE:
  assumes "transp R" "keeps R m" "keeps R f" shows "keeps R (finallyE m f)"
  unfolding keeps_def finallyE_def
proof
  fix s
  obtain r s' where m: "m s = (r, s')" by fastforce
  obtain q s'' where f: "f s' = (q, s'')" by fastforce
  have "R s s'" "R s' s''" using keepsD [OF assms(2) m] keepsD [OF assms(3) f] by auto
  then have "R s s''" using assms(1) by (auto dest: transpD)
  then show "R s (snd (case m s of (r, s') \<Rightarrow>
     (case f s' of (Inl e, s'') \<Rightarrow> (Inl e, s'') | (Inr _, s'') \<Rightarrow> (r, s''))))"
    using m f by (simp split: sum.split)
qed

lemma keeps_forE: "reflp R \<Longrightarrow> transp R \<Longrightarrow> (\<And>x. keeps R (f x)) \<Longrightarrow> keeps R (forE xs f)"
  by (induction xs) (auto intro: keeps_ret keeps_seqE)

lemma keeps_whenE: "reflp R \<Longrightarrow> keeps R m \<Longrightarrow> keeps R (whenE b m)"
  by (simp add: whenE_def keeps_ret)

section \<open>The operating system\<close>

text \<open>
  A call of git carries the working directory (\<open>None\<close>: inherited), the arguments after \<open>git\<close>, the
  timeout in seconds and whether the non-interactive environment is passed.
\<close>

datatype os_call =
    Git "string option" "string list" "nat option" bool
  | PathExists string
  | IsDir string
  | IterDir string
  | MakeDirs string
  | RmTree string
  | Rename string string
  | Unlink string
  | LockFile string
  | UnlockFile string
  | WriteFile string string
  | Touch string

datatype os_reply =
    Completed int string string
  | TimedOut
  | Answer bool
  | Entries "string list"
  | Done
  | OsFailed string

type_synonym 'w os = "'w \<Rightarrow> os_call \<Rightarrow> os_reply \<times> 'w"

record proc =
  returncode :: int
  stdout :: string
  stderr :: string

definition timeout_expired :: py_error where
  "timeout_expired = TimeoutError ''TimeoutExpired''"

text \<open>\<open>subprocess.run\<close> of git.\<close>

definition git :: "'w os \<Rightarrow> string option \<Rightarrow> string list \<Rightarrow> nat option \<Rightarrow> bool \<Rightarrow> ('w, proc) eff" where
  "git os cwd args tmo env = (\<lambda>w. case os w (Git cwd args tmo env) of
     (Completed rc out err, w') \<Rightarrow> (Inr \<lparr>returncode = rc, stdout = out, stderr = err\<rparr>, w')
   | (TimedOut, w') \<Rightarrow> (Inl timeout_expired, w')
   | (OsFailed s, w') \<Rightarrow> (Inl (OSError s), w')
   | (_, w') \<Rightarrow> (Inl (OSError ''unexpected reply''), w'))"

definition ask :: "'w os \<Rightarrow> os_call \<Rightarrow> ('w, bool) eff" where
  "ask os c = (\<lambda>w. case os w c of
     (Answer b, w') \<Rightarrow> (Inr b, w')
   | (OsFailed s, w') \<Rightarrow> (Inl (OSError s), w')
   | (_, w') \<Rightarrow> (Inl (OSError ''unexpected reply''), w'))"

definition entries :: "'w os \<Rightarrow> os_call \<Rightarrow> ('w, string list) eff" where
  "entries os c = (\<lambda>w. case os w c of
     (Entries b, w') \<Rightarrow> (Inr b, w')
   | (OsFailed s, w') \<Rightarrow> (Inl (OSError s), w')
   | (_, w') \<Rightarrow> (Inl (OSError ''unexpected reply''), w'))"

definition act :: "'w os \<Rightarrow> os_call \<Rightarrow> ('w, unit) eff" where
  "act os c = (\<lambda>w. case os w c of
     (OsFailed s, w') \<Rightarrow> (Inl (OSError s), w')
   | (_, w') \<Rightarrow> (Inr (), w'))"

text \<open>\<open>shutil.rmtree(p, ignore_errors=True)\<close>, and other calls whose errors are swallowed.\<close>

definition act_ignore :: "'w os \<Rightarrow> os_call \<Rightarrow> ('w, unit) eff" where
  "act_ignore os c = (\<lambda>w. (Inr (), snd (os w c)))"

text \<open>Paths are strings with \<open>/\<close>; \<open>parent\<close>, the \<open>/\<close> operator, \<open>name\<close> and \<open>with_name\<close> of \<open>pathlib\<close>.\<close>

definition path_join :: "string \<Rightarrow> string \<Rightarrow> string" where
  "path_join p q = p @ ''/'' @ q"

definition path_name :: "string \<Rightarrow> string" where
  "path_name p = rev (takeWhile (\<lambda>c. c \<noteq> CHR ''/'') (rev p))"

definition path_parent :: "string \<Rightarrow> string" where
  "path_parent p = rev (drop 1 (dropWhile (\<lambda>c. c \<noteq> CHR ''/'') (rev p)))"

end
