(* ===== verification/Worktree.thy ===== *)
theory Worktree
  imports Effects
begin

text \<open>
  \<open>core/worktree.py\<close>: creating, syncing, rebasing, merging and removing git worktrees. Every function
  is the sequence of git and file-system calls the code makes, with its branches on their results;
  what git does is the parameter \<open>os\<close>.
\<close>

definition LOCAL_TIMEOUT :: nat where "LOCAL_TIMEOUT = 300"
definition NETWORK_TIMEOUT :: nat where "NETWORK_TIMEOUT = 120"
definition DEFAULT_DIFF_TRUNCATION :: nat where "DEFAULT_DIFF_TRUNCATION = 2000"

definition git_ok :: "proc \<Rightarrow> bool" where
  "git_ok p = (returncode p = 0)"

definition nlnl :: string where "nlnl = [nl, nl]"

section \<open>Removing a worktree\<close>

definition cleanup_worktree :: "'w os \<Rightarrow> string \<Rightarrow> string \<Rightarrow> ('w, unit) eff" where
  "cleanup_worktree os wt repo =
     bindE (catchE
        (bindE (git os None [''-C'', repo, ''worktree'', ''remove'', ''--force'', wt] (Some LOCAL_TIMEOUT) False)
           (\<lambda>p. ret (Some p)))
        (\<lambda>e. if e = timeout_expired then ret None else throw e))
     (\<lambda>result.
       if (case result of None \<Rightarrow> True | Some p \<Rightarrow> \<not> git_ok p)
       then bindE (ask os (PathExists wt)) (\<lambda>ex.
         whenE ex
           (let internal = path_join (path_join (path_join repo ''.git'') ''worktrees'') (path_name wt)
            in bindE (ask os (PathExists internal)) (\<lambda>ie.
               seqE (whenE ie (act_ignore os (RmTree internal)))
               (seqE (act_ignore os (RmTree wt))
               (bindE (git os None [''-C'', repo, ''worktree'', ''prune''] (Some LOCAL_TIMEOUT) False) (\<lambda>_. ret ()))))))
       else ret ())"

section \<open>Creating a worktree\<close>

definition empty_dir :: "'w os \<Rightarrow> string \<Rightarrow> ('w, unit) eff" where
  "empty_dir os d =
     bindE (entries os (IterDir d)) (\<lambda>children.
       forE children (\<lambda>c.
         bindE (ask os (IsDir c)) (\<lambda>dir.
           if dir then act_ignore os (RmTree c) else act_ignore os (Unlink c))))"

definition move_aside :: "'w os \<Rightarrow> string \<Rightarrow> ('w, unit) eff" where
  "move_aside os wt =
     (let stale = path_join (path_parent wt) (path_name wt @ ''.stale'')
      in bindE (ask os (PathExists stale)) (\<lambda>ex.
         seqE (whenE ex (act_ignore os (RmTree stale)))
           (catchE (act os (Rename wt stale))
              (\<lambda>e. case e of OSError _ \<Rightarrow> empty_dir os wt | _ \<Rightarrow> throw e))))"

definition create_worktree :: "'w os \<Rightarrow> string \<Rightarrow> string \<Rightarrow> string option \<Rightarrow> ('w, string) eff" where
  "create_worktree os repo branch_name worktrees_dir =
     (let wdir = (case worktrees_dir of None \<Rightarrow> path_join (path_parent repo) ''worktrees'' | Some d \<Rightarrow> d);
          wt = path_join wdir branch_name;
          make =
            seqE (act os (MakeDirs (path_parent wt)))
            (bindE (git os None [''-C'', repo, ''worktree'', ''add'', ''--force'', ''--force'', ''--detach'', wt, ''main'']
                     (Some LOCAL_TIMEOUT) False) (\<lambda>p.
              if \<not> git_ok p
              then throw (RuntimeError (''Failed to create worktree at '' @ wt @ '':'' @ [nl] @ ''stdout: '' @ stdout p
                     @ [nl] @ ''stderr: '' @ stderr p))
              else bindE (ask os (PathExists wt)) (\<lambda>ex.
                if \<not> ex
                then throw (RuntimeError (''Worktree directory '' @ wt @ '' does not exist after git worktree add''))
                else ret wt)))
      in bindE (ask os (PathExists wt)) (\<lambda>present.
         if \<not> present then make
         else bindE (git os (Some wt) [''rev-parse'', ''--git-dir''] None False) (\<lambda>check.
           if git_ok check then ret wt
           else seqE (cleanup_worktree os wt repo)
             (bindE (ask os (PathExists wt)) (\<lambda>still.
               seqE (whenE still (move_aside os wt)) make)))))"

section \<open>Syncing to main\<close>

definition run_checked :: "'w os \<Rightarrow> string \<Rightarrow> string list \<Rightarrow> nat \<Rightarrow> ('w, unit) eff" where
  "run_checked os wt args tmo =
     bindE (git os (Some wt) args (Some tmo) False) (\<lambda>p.
       if \<not> git_ok p
       then throw (RuntimeError (''sync_to_main failed in '' @ wt @ '':'' @ [nl] @ ''  cmd: '' @ repr_strs (''git'' # args)
              @ [nl] @ ''  stderr: '' @ strip (stderr p)))
       else ret ())"

definition sync_to_main :: "'w os \<Rightarrow> string \<Rightarrow> string \<Rightarrow> ('w, unit) eff" where
  "sync_to_main os wt repo =
     seqE (git os (Some wt) [''rebase'', ''--abort''] None False)
     (seqE (git os (Some wt) [''merge'', ''--abort''] None False)
     (seqE (run_checked os wt [''fetch'', repo, ''main''] NETWORK_TIMEOUT)
     (seqE (run_checked os wt [''reset'', ''--hard'', ''HEAD''] LOCAL_TIMEOUT)
     (seqE (run_checked os wt [''clean'', ''-fd''] LOCAL_TIMEOUT)
     (seqE (run_checked os wt [''checkout'', ''--detach'', ''FETCH_HEAD''] LOCAL_TIMEOUT)
     (seqE (run_checked os wt [''reset'', ''--hard'', ''FETCH_HEAD''] LOCAL_TIMEOUT)
     (seqE (run_checked os wt [''clean'', ''-fd''] LOCAL_TIMEOUT)
     (bindE (git os (Some wt) [''branch'', ''--format=%(refname:short)''] (Some LOCAL_TIMEOUT) False) (\<lambda>branches.
       forE (map strip (splitlines (strip (stdout branches)))) (\<lambda>b.
         whenE (b \<noteq> [] \<and> b \<noteq> ''main'')
           (bindE (git os (Some wt) [''branch'', ''-D'', b] (Some LOCAL_TIMEOUT) False) (\<lambda>_. ret ()))))))))))))"

definition has_commits :: "'w os \<Rightarrow> string \<Rightarrow> string \<Rightarrow> ('w, bool) eff" where
  "has_commits os wt repo =
     bindE (git os None [''-C'', repo, ''rev-parse'', ''main''] (Some LOCAL_TIMEOUT) False) (\<lambda>p.
       let main_hash = strip (stdout p)
       in bindE (git os (Some wt) [''log'', main_hash @ ''..HEAD'', ''--oneline''] (Some LOCAL_TIMEOUT) False) (\<lambda>r.
         ret (strip (stdout r) \<noteq> [])))"

section \<open>Rebasing onto main\<close>

text \<open>The report of a conflict, and the calls that gather it; shared by rebase and merge.\<close>

definition conflict_report :: "'w os \<Rightarrow> string \<Rightarrow> nat option \<Rightarrow> string \<Rightarrow> nat \<Rightarrow> ('w, string) eff" where
  "conflict_report os dir tmo error_msg diff_truncation =
     bindE (git os (Some dir) [''diff'', ''--name-only'', ''--diff-filter=U''] tmo False) (\<lambda>c.
       let files = strip (stdout c)
       in if files = [] then ret error_msg
          else bindE (git os (Some dir) [''diff''] tmo False) (\<lambda>d.
            ret (error_msg @ nlnl @ ''Conflicted files:'' @ [nl] @ files @ nlnl @ ''Conflict diff:'' @ [nl]
                 @ take diff_truncation (stdout d))))"

definition rebase_onto_main :: "'w os \<Rightarrow> string \<Rightarrow> string \<Rightarrow> nat \<Rightarrow> ('w, bool \<times> string) eff" where
  "rebase_onto_main os wt repo diff_truncation =
     bindE (catchE
        (bindE (git os (Some wt) [''fetch'', repo, ''main''] (Some NETWORK_TIMEOUT) False) (\<lambda>fetch.
          if \<not> git_ok fetch then ret (Inl (False, ''Failed to fetch main: '' @ stderr fetch))
          else bindE (git os (Some wt) [''rebase'', ''FETCH_HEAD''] (Some NETWORK_TIMEOUT) True) (\<lambda>r. ret (Inr r))))
        (\<lambda>e. if e = timeout_expired
             then ret (Inl (False, ''rebase_onto_main timed out after '' @ str_nat NETWORK_TIMEOUT @ ''s''))
             else throw e))
     (\<lambda>early. case early of
        Inl answer \<Rightarrow> ret answer
      | Inr result \<Rightarrow>
          (if \<not> git_ok result
           then bindE (conflict_report os wt (Some LOCAL_TIMEOUT) (stderr result @ stdout result) diff_truncation) (\<lambda>msg.
             bindE (git os (Some wt) [''rebase'', ''--abort''] (Some LOCAL_TIMEOUT) False) (\<lambda>_. ret (False, msg)))
           else ret (True, [])))"

section \<open>Merging into main\<close>

definition reset_repo :: "'w os \<Rightarrow> string \<Rightarrow> ('w, unit) eff" where
  "reset_repo os repo =
     seqE (git os (Some repo) [''reset'', ''--hard'', ''HEAD''] (Some LOCAL_TIMEOUT) False)
     (bindE (git os (Some repo) [''clean'', ''-fd'', ''-e'', ''.*_lock''] (Some LOCAL_TIMEOUT) False) (\<lambda>_. ret ()))"

definition merge_to_main_locked :: "'w os \<Rightarrow> string \<Rightarrow> string \<Rightarrow> bool \<Rightarrow> nat \<Rightarrow> ('w, bool \<times> string) eff" where
  "merge_to_main_locked os wt repo ff_only diff_truncation =
     seqE (reset_repo os repo)
     (bindE (catchE
        (bindE (git os (Some repo) [''fetch'', wt, ''HEAD''] (Some NETWORK_TIMEOUT) True) (\<lambda>fetch.
          if \<not> git_ok fetch then ret (Inl (False, ''Failed to fetch from worktree: '' @ stderr fetch))
          else bindE (git os (Some repo) [''merge'', if ff_only then ''--ff-only'' else ''--no-edit'', ''FETCH_HEAD'']
                        (Some LOCAL_TIMEOUT) True) (\<lambda>r. ret (Inr r))))
        (\<lambda>e. if e = timeout_expired
             then seqE (reset_repo os repo)
               (ret (Inl (False, ''merge_to_main timed out after '' @ str_nat NETWORK_TIMEOUT @ ''s'')))
             else throw e))
     (\<lambda>early. case early of
        Inl answer \<Rightarrow> ret answer
      | Inr result \<Rightarrow>
          (if \<not> git_ok result
           then bindE (if ff_only then ret (stderr result @ stdout result)
                       else bindE (conflict_report os repo (Some LOCAL_TIMEOUT) (stderr result @ stdout result) diff_truncation) (\<lambda>msg.
                         bindE (git os (Some repo) [''merge'', ''--abort''] (Some LOCAL_TIMEOUT) False) (\<lambda>_. ret msg)))
             (\<lambda>msg. seqE (reset_repo os repo) (ret (False, msg)))
           else bindE (git os (Some repo) [''gc'', ''--auto''] (Some LOCAL_TIMEOUT) False) (\<lambda>_. ret (True, [])))))"

text \<open>Without the lock held, the whole merge runs under an exclusive lock that is released when the
  lock file is closed, also when an exception leaves the block.\<close>

definition merge_to_main :: "'w os \<Rightarrow> string \<Rightarrow> string \<Rightarrow> bool \<Rightarrow> nat \<Rightarrow> bool \<Rightarrow> ('w, bool \<times> string) eff" where
  "merge_to_main os wt repo ff_only diff_truncation lock_held =
     (if lock_held then merge_to_main_locked os wt repo ff_only diff_truncation
      else
        let lock = path_join repo ''.merge_lock''
        in seqE (act os (LockFile lock))
             (finallyE (merge_to_main_locked os wt repo ff_only diff_truncation)
                       (act_ignore os (UnlockFile lock))))"

end
