(* ===== verification/Worktree_Correct.thy ===== *)
theory Worktree_Correct
  imports Worktree
begin

text \<open>
  What the worktree functions leave behind: which kinds of operating-system calls they can make, and
  that a rebase or a merge that fails is undone before they return.
\<close>

section \<open>Which calls a function makes\<close>

text \<open>A relation on worlds kept by all calls of a kind is kept by the functions that only make such calls.\<close>

definition os_keeps :: "(os_call \<Rightarrow> bool) \<Rightarrow> ('w \<Rightarrow> 'w \<Rightarrow> bool) \<Rightarrow> 'w os \<Rightarrow> bool" where
  "os_keeps P R os \<longleftrightarrow> reflp R \<and> transp R \<and> (\<forall>w c. P c \<longrightarrow> R w (snd (os w c)))"

fun is_merge :: "os_call \<Rightarrow> bool" where
  "is_merge (Git cwd args tmo env) = (args \<noteq> [] \<and> hd args = ''merge'')"
| "is_merge c = False"

abbreviation no_merge :: "os_call \<Rightarrow> bool" where
  "no_merge c \<equiv> \<not> is_merge c"

named_theorems call_intros

lemma os_keeps_order: "os_keeps P R os \<Longrightarrow> reflp R \<and> transp R"
  by (simp add: os_keeps_def)

lemma calls_git [call_intros]: "os_keeps P R os \<Longrightarrow> P (Git cwd args tmo env) \<Longrightarrow> keeps R (git os cwd args tmo env)"
  unfolding keeps_def git_def os_keeps_def by (auto split: prod.split os_reply.split) (metis snd_conv)+

lemma calls_act [call_intros]:
  "os_keeps P R os \<Longrightarrow> P c \<Longrightarrow> keeps R (act os c)"
  "os_keeps P R os \<Longrightarrow> P c \<Longrightarrow> keeps R (act_ignore os c)"
  "os_keeps P R os \<Longrightarrow> P c \<Longrightarrow> keeps R (ask os c)"
  "os_keeps P R os \<Longrightarrow> P c \<Longrightarrow> keeps R (entries os c)"
  unfolding keeps_def act_def act_ignore_def ask_def entries_def os_keeps_def
  by (auto split: prod.split os_reply.split) (metis snd_conv)+

lemma calls_compose [call_intros]:
  "os_keeps P R os \<Longrightarrow> keeps R m \<Longrightarrow> (\<And>a. keeps R (g a)) \<Longrightarrow> keeps R (bindE m g)"
  "os_keeps P R os \<Longrightarrow> keeps R m \<Longrightarrow> keeps R n \<Longrightarrow> keeps R (seqE m n)"
  "os_keeps P R os \<Longrightarrow> keeps R m \<Longrightarrow> (\<And>e. keeps R (h e)) \<Longrightarrow> keeps R (catchE m h)"
  "os_keeps P R os \<Longrightarrow> keeps R m \<Longrightarrow> keeps R fin \<Longrightarrow> keeps R (finallyE m fin)"
  "os_keeps P R os \<Longrightarrow> (\<And>x. keeps R (k x)) \<Longrightarrow> keeps R (forE xs k)"
  "os_keeps P R os \<Longrightarrow> keeps R u \<Longrightarrow> keeps R (whenE b u)"
  "os_keeps P R os \<Longrightarrow> keeps R (ret x)"
  "os_keeps P R os \<Longrightarrow> keeps R (throw e)"
  by (simp_all add: keeps_bindE keeps_seqE keeps_catchE keeps_finallyE keeps_forE keeps_whenE keeps_ret keeps_throw
      os_keeps_order)

lemma calls_cases [call_intros]:
  "(\<And>a b. keeps R (p a b)) \<Longrightarrow> keeps R (case_prod p x)"
  "keeps R n \<Longrightarrow> (\<And>a. keeps R (q a)) \<Longrightarrow> keeps R (case_option n q y)"
  "(\<And>a. keeps R (l a)) \<Longrightarrow> (\<And>a. keeps R (q a)) \<Longrightarrow> keeps R (case_sum l q z)"
  "keeps R t \<Longrightarrow> keeps R u \<Longrightarrow> keeps R (if b then t else u)"
  "(\<And>x. keeps R (v x)) \<Longrightarrow> keeps R r \<Longrightarrow> keeps R (case e of OSError x \<Rightarrow> v x | _ \<Rightarrow> r)"
  by (simp_all split: prod.split option.split sum.split py_error.split)

lemma cleanup_calls [call_intros]: "os_keeps no_merge R os \<Longrightarrow> keeps R (cleanup_worktree os wt repo)"
  unfolding cleanup_worktree_def Let_def
  by (intro call_intros | assumption | simp)+

lemma create_calls [call_intros]: "os_keeps no_merge R os \<Longrightarrow> keeps R (create_worktree os repo b d)"
  unfolding create_worktree_def move_aside_def empty_dir_def Let_def
  by (intro call_intros | assumption | simp split del: option.splits)+

lemma rebase_calls [call_intros]: "os_keeps no_merge R os \<Longrightarrow> keeps R (rebase_onto_main os wt repo n)"
  unfolding rebase_onto_main_def conflict_report_def Let_def
  by (intro call_intros | assumption | simp)+

lemma merge_calls [call_intros]: "os_keeps (\<lambda>_. True) R os \<Longrightarrow> keeps R (merge_to_main os wt repo ff n held)"
  unfolding merge_to_main_def merge_to_main_locked_def reset_repo_def conflict_report_def Let_def
  by (intro call_intros | assumption | simp)+

lemma sync_calls [call_intros]: "os_keeps (\<lambda>_. True) R os \<Longrightarrow> keeps R (sync_to_main os wt repo)"
  unfolding sync_to_main_def run_checked_def Let_def
  by (intro call_intros | assumption | simp)+

section \<open>A failed rebase or merge is undone\<close>

lemma git_Inr_iff:
  "git os cwd args tmo env w = (Inr p, w') \<longleftrightarrow>
     os w (Git cwd args tmo env) = (Completed (returncode p) (stdout p) (stderr p), w')"
  by (auto simp: git_def split: prod.splits os_reply.splits)

lemma catchE_Inr_iff:
  "catchE m h w = (Inr a, w') \<longleftrightarrow> m w = (Inr a, w') \<or> (\<exists>e w1. m w = (Inl e, w1) \<and> h e w1 = (Inr a, w'))"
  by (auto simp: catchE_def split: prod.splits sum.splits)

lemmas eff_Inr_iffs = bindE_Inr_iff seqE_Inr_iff catchE_Inr_iff

lemma ret_Inr_iff [simp]: "ret a w = (Inr b, w') \<longleftrightarrow> b = a \<and> w' = w"
  by (auto simp: ret_def)

lemma throw_not_Inr [simp]: "throw e w \<noteq> (Inr b, w')"
  by (simp add: throw_def)

text \<open>When \<open>rebase_onto_main\<close> answers that it failed, either the fetch failed or timed out and no
  conflict was met, or the last thing it did was \<open>git rebase --abort\<close>, so that no rebase is left in
  progress; and it answers success only after a fetch and a rebase that both ended with code 0.\<close>

theorem rebase_outcome:
  assumes "rebase_onto_main os wt repo n w = (Inr (ok, msg), w')"
  shows "if ok
    then msg = [] \<and> (\<exists>w1 out err out' err'.
           os w (Git (Some wt) [''fetch'', repo, ''main''] (Some NETWORK_TIMEOUT) False) = (Completed 0 out err, w1) \<and>
           os w1 (Git (Some wt) [''rebase'', ''FETCH_HEAD''] (Some NETWORK_TIMEOUT) True) = (Completed 0 out' err', w'))
    else (\<exists>err. msg = ''Failed to fetch main: '' @ err) \<or> msg = ''rebase_onto_main timed out after '' @ str_nat 120 @ ''s'' \<or>
         (\<exists>w2 rc out err. os w2 (Git (Some wt) [''rebase'', ''--abort''] (Some LOCAL_TIMEOUT) False) = (Completed rc out err, w'))"
  using assms
  by (auto simp: rebase_onto_main_def eff_Inr_iffs git_Inr_iff git_ok_def NETWORK_TIMEOUT_def
      split: if_splits sum.splits simp del: append.simps)

text \<open>When \<open>merge_to_main\<close> (with the lock held by the caller) answers that it failed, either the fetch
  from the worktree failed, or the last thing it did was to reset and clean the repository; and it
  answers success only after a merge of what was fetched that ended with code 0.\<close>

theorem merge_outcome:
  assumes "merge_to_main os wt repo ff n True w = (Inr (ok, msg), w')"
  shows "if ok
    then msg = [] \<and> (\<exists>w1 w2 w3 out err out' err' p.
           os w1 (Git (Some repo) [''fetch'', wt, ''HEAD''] (Some NETWORK_TIMEOUT) True) = (Completed 0 out err, w2) \<and>
           os w2 (Git (Some repo) [''merge'', if ff then ''--ff-only'' else ''--no-edit'', ''FETCH_HEAD'']
             (Some LOCAL_TIMEOUT) True) = (Completed 0 out' err', w3) \<and>
           os w3 (Git (Some repo) [''gc'', ''--auto''] (Some LOCAL_TIMEOUT) False) = (p, w'))
    else (\<exists>err. msg = ''Failed to fetch from worktree: '' @ err) \<or> (\<exists>w1. reset_repo os repo w1 = (Inr (), w'))"
proof (cases ok)
  case True
  show ?thesis using assms True
    by (auto simp: merge_to_main_def merge_to_main_locked_def eff_Inr_iffs git_Inr_iff git_ok_def
        split: if_splits sum.splits simp del: append.simps) blast+
next
  case False
  show ?thesis using assms False
    by (auto simp: merge_to_main_def merge_to_main_locked_def eff_Inr_iffs git_Inr_iff git_ok_def
        split: if_splits sum.splits simp del: append.simps)
qed

section \<open>A repository on which one kind of command fails\<close>

text \<open>The world is the log of calls; the commands named fail, every path exists.\<close>

definition demo_os :: "string list \<Rightarrow> os_call list os" where
  "demo_os failing w c =
     (case c of
        Git cwd args tmo env \<Rightarrow>
          (if hd args \<in> set failing then Completed 1 [] ''bad''
           else if hd args = ''diff'' then Completed 0 [] [] else Completed 0 ''abc'' [])
      | PathExists p \<Rightarrow> Answer True
      | IsDir p \<Rightarrow> Answer True
      | IterDir p \<Rightarrow> Entries []
      | _ \<Rightarrow> Done, w @ [c])"

theorem rebase_outcome_witness:
  "\<exists>w2 rc out err. demo_os [''rebase''] w2 (Git (Some ''/w'') [''rebase'', ''--abort''] (Some LOCAL_TIMEOUT) False) =
     (Completed rc out err, snd (rebase_onto_main (demo_os [''rebase'']) ''/w'' ''/r'' 9 []))"
proof -
  have run: "rebase_onto_main (demo_os [''rebase'']) ''/w'' ''/r'' 9 [] =
     (Inr (False, ''bad''), snd (rebase_onto_main (demo_os [''rebase'']) ''/w'' ''/r'' 9 []))"
    by code_simp
  show ?thesis using rebase_outcome [OF run] by simp
qed

theorem merge_outcome_witness:
  "\<exists>w1. reset_repo (demo_os [''merge'']) ''/r'' w1 =
     (Inr (), snd (merge_to_main (demo_os [''merge'']) ''/w'' ''/r'' False 9 True []))"
proof -
  have run: "merge_to_main (demo_os [''merge'']) ''/w'' ''/r'' False 9 True [] =
     (Inr (False, ''bad''), snd (merge_to_main (demo_os [''merge'']) ''/w'' ''/r'' False 9 True []))"
    by code_simp
  show ?thesis using merge_outcome [OF run] by simp
qed

end
