(* ===== verification/Merge_Queue.thy ===== *)
theory Merge_Queue
  imports Worktree
begin

text \<open>
  \<open>core/coordination/merge_queue.py\<close>: the merge train on the coordinator, and the two ends of the
  bridge that lets a worker submit to it. A future is a number; \<open>mq_futures\<close> holds the outcome of
  the futures that are done (with a result, or cancelled because the submitting coroutine was
  cancelled). One batch is handled in one go: submissions that arrive meanwhile are later steps.
\<close>

section \<open>State\<close>

datatype merge_status = MERGED | REJECTED

fun merge_status_value :: "merge_status \<Rightarrow> string" where
  "merge_status_value MERGED = ''merged''"
| "merge_status_value REJECTED = ''rejected''"

definition merge_status_of :: "string \<Rightarrow> merge_status result" where
  "merge_status_of s =
     (if s = ''merged'' then Inr MERGED else if s = ''rejected'' then Inr REJECTED
      else Inl (ValueError (repr_str s @ '' is not a valid MergeStatus'')))"

record merge_result =
  mr_status :: merge_status
  mr_pre_hash :: "string option"
  mr_post_hash :: "string option"
  mr_error :: "string option"

definition rejected :: "string \<Rightarrow> merge_result" where
  "rejected err = \<lparr>mr_status = REJECTED, mr_pre_hash = None, mr_post_hash = None, mr_error = Some err\<rparr>"

definition merged :: "string \<Rightarrow> string option \<Rightarrow> merge_result" where
  "merged pre post = \<lparr>mr_status = MERGED, mr_pre_hash = Some pre, mr_post_hash = post, mr_error = None\<rparr>"

datatype future_state = Resolved merge_result | Cancelled

record merge_request =
  rq_agent :: string
  rq_worktree :: string
  rq_future :: nat

record 'w mq =
  mq_world :: 'w
  mq_queue :: "merge_request list"
  mq_futures :: "(nat, future_state) dict"
  mq_next_future :: nat
  mq_stopped :: bool

text \<open>What the constructor is given: the repository, the build function and the optional hooks. A step
  hook gets the step's name, the agent, whether it succeeded and the error; the merge hook the hash
  before, the hash after and the agents.\<close>

record 'w mq_env =
  ev_os :: "'w os"
  ev_repo_root :: string
  ev_build_fn :: "string \<Rightarrow> ('w, bool \<times> string) eff"
  ev_batch_size :: nat
  ev_on_batch_merged :: "(string \<Rightarrow> string option \<Rightarrow> string list \<Rightarrow> ('w, unit) eff) option"
  ev_on_step :: "(string \<Rightarrow> string \<Rightarrow> bool \<Rightarrow> string option \<Rightarrow> ('w, unit) eff) option"
  ev_trace_save :: "(string \<Rightarrow> ('w, unit) eff) option"
  ev_now :: "'w \<Rightarrow> int"

definition new_queue :: "'w \<Rightarrow> 'w mq" where
  "new_queue w = \<lparr>mq_world = w, mq_queue = [], mq_futures = [], mq_next_future = 0, mq_stopped = False\<rparr>"

definition on_world :: "('w, 'a) eff \<Rightarrow> ('w mq, 'a) eff" where
  "on_world m = (\<lambda>s. case m (mq_world s) of (r, w) \<Rightarrow> (r, s\<lparr>mq_world := w\<rparr>))"

definition is_done :: "'w mq \<Rightarrow> nat \<Rightarrow> bool" where
  "is_done s f = (dget (mq_futures s) f \<noteq> None)"

definition set_result :: "nat \<Rightarrow> merge_result \<Rightarrow> ('w mq, unit) eff" where
  "set_result f r = (\<lambda>s.
     if is_done s f then (Inl (InvalidStateError), s)
     else (Inr (), s\<lparr>mq_futures := dset (mq_futures s) f (Resolved r)\<rparr>))"

definition put :: "merge_request \<Rightarrow> ('w mq, unit) eff" where
  "put rq = modifyE (\<lambda>s. s\<lparr>mq_queue := mq_queue s @ [rq]\<rparr>)"

definition resolve_all :: "merge_request list \<Rightarrow> merge_result \<Rightarrow> ('w mq, unit) eff" where
  "resolve_all rqs r = forE rqs (\<lambda>rq. set_result (rq_future rq) r)"

section \<open>Git helpers\<close>

definition rev_parse :: "'w mq_env \<Rightarrow> string \<Rightarrow> string \<Rightarrow> ('w, string option) eff" where
  "rev_parse env path rv =
     bindE (git (ev_os env) (Some path) [''rev-parse'', rv] (Some 30) False) (\<lambda>p.
       ret (if git_ok p then Some (strip (stdout p)) else None))"

definition cherry_pick_range :: "'w mq_env \<Rightarrow> string \<Rightarrow> string \<Rightarrow> string \<Rightarrow> ('w, bool \<times> string) eff" where
  "cherry_pick_range env staging source_wt base_ref =
     bindE (git (ev_os env) (Some staging) [''fetch'', source_wt, ''HEAD''] (Some LOCAL_TIMEOUT) True) (\<lambda>fetch.
       if \<not> git_ok fetch then ret (False, ''fetch failed: '' @ stderr fetch)
       else bindE (git (ev_os env) (Some staging)
              [''log'', ''--reverse'', ''--format=%H'', base_ref @ ''..FETCH_HEAD''] (Some LOCAL_TIMEOUT) False) (\<lambda>log.
         let commits = splitlines (strip (stdout log))
         in if commits = [] then ret (True, [])
            else bindE (git (ev_os env) (Some staging) (''cherry-pick'' # commits) (Some LOCAL_TIMEOUT) True) (\<lambda>p.
              if \<not> git_ok p
              then seqE (git (ev_os env) (Some staging) [''cherry-pick'', ''--abort''] (Some LOCAL_TIMEOUT) False)
                     (ret (False, stderr p @ stdout p))
              else ret (True, []))))"

section \<open>Submitting and collecting\<close>

text \<open>\<open>submit\<close> up to its \<open>await future\<close>: the new future's number and the state. \<open>cancel\<close> is the
  cancellation of that await.\<close>

definition submit :: "string \<Rightarrow> string \<Rightarrow> 'w mq \<Rightarrow> nat \<times> 'w mq" where
  "submit agent wt s =
     (mq_next_future s,
      s\<lparr>mq_queue := mq_queue s @ [\<lparr>rq_agent = agent, rq_worktree = wt, rq_future = mq_next_future s\<rparr>],
        mq_next_future := mq_next_future s + 1\<rparr>)"

definition cancel :: "nat \<Rightarrow> 'w mq \<Rightarrow> 'w mq" where
  "cancel f s = (if is_done s f then s else s\<lparr>mq_futures := dset (mq_futures s) f Cancelled\<rparr>)"

definition stop :: "'w mq \<Rightarrow> 'w mq" where
  "stop s = s\<lparr>mq_stopped := True\<rparr>"

text \<open>
  One wait on the queue: the deadline has passed before it starts, or it waits while the given
  submissions arrive and then takes the head of the queue, timing out if there is none.
\<close>

datatype wait = Expired | Waited "(string \<times> string) list"

definition submits :: "(string \<times> string) list \<Rightarrow> 'w mq \<Rightarrow> 'w mq" where
  "submits xs s = foldl (\<lambda>s (a, wt). snd (submit a wt s)) s xs"

definition queue_get :: "'w mq \<Rightarrow> merge_request option \<times> 'w mq" where
  "queue_get s = (case mq_queue s of [] \<Rightarrow> (None, s) | rq # rest \<Rightarrow> (Some rq, s\<lparr>mq_queue := rest\<rparr>))"

fun collect_more :: "'w mq_env \<Rightarrow> wait list \<Rightarrow> merge_request list \<Rightarrow> 'w mq \<Rightarrow> merge_request list \<times> 'w mq" where
  "collect_more env [] batch s = (batch, s)"
| "collect_more env (Expired # ws) batch s = (batch, s)"
| "collect_more env (Waited xs # ws) batch s =
     (if length batch < ev_batch_size env
      then (case queue_get (submits xs s) of
              (None, s') \<Rightarrow> (batch, s')
            | (Some rq, s') \<Rightarrow> collect_more env ws (batch @ [rq]) s')
      else (batch, s))"

definition collect_batch :: "'w mq_env \<Rightarrow> (string \<times> string) list \<Rightarrow> wait list \<Rightarrow> 'w mq \<Rightarrow> merge_request list \<times> 'w mq" where
  "collect_batch env first ws s =
     (case queue_get (submits first s) of
        (None, s') \<Rightarrow> ([], s')
      | (Some rq, s') \<Rightarrow> collect_more env ws [rq] s')"

section \<open>Rebasing, staging and building\<close>

definition note_step :: "'w mq_env \<Rightarrow> string \<Rightarrow> string \<Rightarrow> bool \<Rightarrow> string option \<Rightarrow> ('w mq, unit) eff" where
  "note_step env step agent ok err =
     (case ev_on_step env of None \<Rightarrow> ret () | Some f \<Rightarrow> on_world (f step agent ok err))"

fun rebase_all_onto_main :: "'w mq_env \<Rightarrow> merge_request list \<Rightarrow> ('w mq, merge_request list) eff" where
  "rebase_all_onto_main env [] = ret []"
| "rebase_all_onto_main env (rq # rqs) =
     bindE (on_world (rebase_onto_main (ev_os env) (rq_worktree rq) (ev_repo_root env) DEFAULT_DIFF_TRUNCATION)) (\<lambda>(ok, err).
       seqE (note_step env ''rebase'' (rq_agent rq) ok (Some err))
         (if ok then bindE (rebase_all_onto_main env rqs) (\<lambda>rebased. ret (rq # rebased))
          else seqE (set_result (rq_future rq) (rejected (''Rebase onto main failed:'' @ [nl] @ err)))
                 (rebase_all_onto_main env rqs)))"

definition create_staging :: "'w mq_env \<Rightarrow> string \<Rightarrow> ('w, string) eff" where
  "create_staging env main_ref =
     (let lock = path_join (ev_repo_root env) ''.worktree_lock''
      in seqE (act (ev_os env) (LockFile lock))
           (finallyE
              (seqE (git (ev_os env) None [''-C'', ev_repo_root env, ''worktree'', ''prune''] None False)
                 (create_worktree (ev_os env) (ev_repo_root env) (''merge-staging-'' @ take 12 main_ref) None))
              (act_ignore (ev_os env) (UnlockFile lock))))"

fun stage_all :: "'w mq_env \<Rightarrow> merge_request list \<Rightarrow> string \<Rightarrow> string \<Rightarrow> ('w mq, merge_request list) eff" where
  "stage_all env [] staging main_ref = ret []"
| "stage_all env (rq # rqs) staging main_ref =
     bindE (on_world (cherry_pick_range env staging (rq_worktree rq) main_ref)) (\<lambda>(ok, err).
       if ok
       then seqE (note_step env ''stage'' (rq_agent rq) True None)
              (bindE (stage_all env rqs staging main_ref) (\<lambda>staged. ret (rq # staged)))
       else seqE (note_step env ''stage_deferred'' (rq_agent rq) False (Some err))
              (seqE (put rq) (stage_all env rqs staging main_ref)))"

definition build :: "'w mq_env \<Rightarrow> string \<Rightarrow> ('w mq, bool \<times> string) eff" where
  "build env staging = on_world (ev_build_fn env staging)"

section \<open>Landing and bisecting\<close>

text \<open>The answer of the landing functions is what they append to \<open>merged_ids\<close>.\<close>

definition land_batch :: "'w mq_env \<Rightarrow> merge_request list \<Rightarrow> string \<Rightarrow> string \<Rightarrow> ('w mq, string list) eff" where
  "land_batch env staged staging pre_hash =
     bindE (on_world (merge_to_main (ev_os env) staging (ev_repo_root env) False DEFAULT_DIFF_TRUNCATION False)) (\<lambda>(ok, err).
     bindE (on_world (rev_parse env (ev_repo_root env) ''HEAD'')) (\<lambda>post_hash.
       if ok then seqE (resolve_all staged (merged pre_hash post_hash)) (ret (map rq_agent staged))
       else seqE (resolve_all staged (rejected (''Merge to main failed: '' @ err))) (ret [])))"

text \<open>The loop of \<open>_rebuild_staging_and_test\<close>: the first request that does not cherry-pick, with its error.\<close>

fun pick_each :: "'w mq_env \<Rightarrow> merge_request list \<Rightarrow> string \<Rightarrow> string \<Rightarrow> ('w, (merge_request \<times> string) option) eff" where
  "pick_each env [] staging main_ref = ret None"
| "pick_each env (rq # rqs) staging main_ref =
     bindE (cherry_pick_range env staging (rq_worktree rq) main_ref) (\<lambda>(ok, err).
       if ok then pick_each env rqs staging main_ref else ret (Some (rq, err)))"

text \<open>The subset is the caller's list: \<open>subset.remove(req)\<close> shortens it, so it is returned as well.\<close>

definition rebuild_staging_and_test :: "'w mq_env \<Rightarrow> string \<Rightarrow> merge_request list \<Rightarrow> string \<Rightarrow>
    ('w mq, bool \<times> merge_request list) eff" where
  "rebuild_staging_and_test env staging subs main_ref =
     seqE (on_world (git (ev_os env) (Some staging) [''reset'', ''--hard'', main_ref] (Some LOCAL_TIMEOUT) False))
     (bindE (on_world (pick_each env subs staging main_ref)) (\<lambda>bad. case bad of
        Some (rq, err) \<Rightarrow>
          seqE (set_result (rq_future rq) (rejected (''Cherry-pick failed during bisect:'' @ [nl] @ err)))
            (ret (False, remove1 rq subs))
      | None \<Rightarrow> bindE (build env staging) (\<lambda>(ok, _). ret (ok, subs))))"

definition current_main :: "'w mq_env \<Rightarrow> string \<Rightarrow> ('w mq, string) eff" where
  "current_main env main_ref =
     bindE (on_world (rev_parse env (ev_repo_root env) ''HEAD'')) (\<lambda>h.
       ret (case h of None \<Rightarrow> main_ref | Some x \<Rightarrow> if x = [] then main_ref else x))"

text \<open>Python bounds the depth of calls: the first argument is the number of nested calls of
  \<open>_bisect_subset\<close> that are left, and running out of them raises \<open>RecursionError\<close>.\<close>

definition recursion_error :: py_error where
  "recursion_error = RuntimeError ''maximum recursion depth exceeded''"

fun bisect_subset :: "nat \<Rightarrow> 'w mq_env \<Rightarrow> merge_request list \<Rightarrow> string \<Rightarrow> string \<Rightarrow> ('w mq, string list) eff" where
  "bisect_subset 0 env subs main_ref build_error = throw recursion_error"
| "bisect_subset (Suc depth) env subs main_ref build_error =
     (case subs of
        [rq] \<Rightarrow> seqE (set_result (rq_future rq) (rejected (''Build failed (identified by bisect):'' @ [nl] @ build_error)))
                  (ret [])
      | _ \<Rightarrow>
        bindE (on_world (create_staging env main_ref)) (\<lambda>staging.
          finallyE
            (let mid = length subs div 2; right = drop mid subs
             in bindE (rebuild_staging_and_test env staging (take mid subs) main_ref) (\<lambda>(left_ok, left).
                if left_ok
                then bindE (land_batch env left staging main_ref) (\<lambda>ids.
                     bindE (current_main env main_ref) (\<lambda>new_main.
                     bindE (bisect_subset depth env right new_main build_error) (\<lambda>ids'. ret (ids @ ids'))))
                else seqE (forE right put) (bisect_subset depth env left main_ref build_error)))
            (on_world (cleanup_worktree (ev_os env) staging (ev_repo_root env)))))"

definition bisect_and_land :: "nat \<Rightarrow> 'w mq_env \<Rightarrow> merge_request list \<Rightarrow> string \<Rightarrow> string \<Rightarrow> string \<Rightarrow>
    ('w mq, string list) eff" where
  "bisect_and_land depth env staged staging main_ref build_error =
     (case staged of
        [rq] \<Rightarrow> seqE (set_result (rq_future rq) (rejected (''Build failed:'' @ [nl] @ build_error))) (ret [])
      | _ \<Rightarrow>
        (let mid = length staged div 2; right = drop mid staged
         in bindE (rebuild_staging_and_test env staging (take mid staged) main_ref) (\<lambda>(left_ok, left).
            if left_ok
            then bindE (land_batch env left staging main_ref) (\<lambda>ids.
                 bindE (current_main env main_ref) (\<lambda>new_main.
                 bindE (bisect_subset depth env right new_main build_error) (\<lambda>ids'. ret (ids @ ids'))))
            else seqE (forE right put) (bisect_subset depth env left main_ref build_error))))"

section \<open>A batch\<close>

definition fire_callback :: "'w mq_env \<Rightarrow> string \<Rightarrow> string list \<Rightarrow> ('w mq, unit) eff" where
  "fire_callback env pre_hash ids =
     (case ev_on_batch_merged env of
        None \<Rightarrow> ret ()
      | Some f \<Rightarrow>
          whenE (ids \<noteq> [])
            (bindE (on_world (rev_parse env (ev_repo_root env) ''HEAD'')) (\<lambda>post.
               catchE (on_world (f pre_hash post ids)) (\<lambda>_. ret ()))))"

definition trace_name :: "string option \<Rightarrow> string \<Rightarrow> int \<Rightarrow> string" where
  "trace_name post_hash main_ref now =
     (case post_hash of
        Some p \<Rightarrow> (if p \<noteq> [] \<and> p \<noteq> main_ref then ''merge_batches/'' @ take 8 p @ ''/steps''
                   else ''merge_batches/rejected-'' @ take 8 main_ref @ ''-'' @ str_int now @ ''/steps'')
      | None \<Rightarrow> ''merge_batches/rejected-'' @ take 8 main_ref @ ''-'' @ str_int now @ ''/steps'')"

definition save_trace :: "'w mq_env \<Rightarrow> string \<Rightarrow> ('w mq, unit) eff" where
  "save_trace env main_ref =
     bindE (on_world (rev_parse env (ev_repo_root env) ''HEAD'')) (\<lambda>post_hash.
       case ev_trace_save env of
         None \<Rightarrow> ret ()
       | Some f \<Rightarrow> bindE (getsE (\<lambda>s. ev_now env (mq_world s))) (\<lambda>now. on_world (f (trace_name post_hash main_ref now))))"

definition build_and_land :: "nat \<Rightarrow> 'w mq_env \<Rightarrow> merge_request list \<Rightarrow> string \<Rightarrow> string \<Rightarrow> ('w mq, unit) eff" where
  "build_and_land depth env staged staging main_ref =
     bindE (build env staging) (\<lambda>(ok, err).
     bindE (if ok then land_batch env staged staging main_ref
            else bisect_and_land depth env staged staging main_ref err) (\<lambda>ids.
       fire_callback env main_ref ids))"

definition stage_and_land :: "nat \<Rightarrow> 'w mq_env \<Rightarrow> merge_request list \<Rightarrow> string \<Rightarrow> ('w mq, unit) eff" where
  "stage_and_land depth env rebased main_ref =
     bindE (on_world (create_staging env main_ref)) (\<lambda>staging.
       finallyE
         (bindE (stage_all env rebased staging main_ref) (\<lambda>staged.
            whenE (staged \<noteq> []) (build_and_land depth env staged staging main_ref)))
         (on_world (cleanup_worktree (ev_os env) staging (ev_repo_root env))))"

definition main_head :: "'w mq_env \<Rightarrow> ('w mq, string option) eff" where
  "main_head env =
     bindE (on_world (rev_parse env (ev_repo_root env) ''main'')) (\<lambda>m.
       if m \<noteq> None \<and> m \<noteq> Some [] then ret m
       else bindE (on_world (rev_parse env (ev_repo_root env) ''HEAD'')) (\<lambda>h.
         ret (if h = Some [] then None else h)))"

definition process_batch :: "nat \<Rightarrow> 'w mq_env \<Rightarrow> merge_request list \<Rightarrow> ('w mq, unit) eff" where
  "process_batch depth env batch =
     bindE (main_head env) (\<lambda>head. case head of
       None \<Rightarrow> resolve_all batch (rejected ''Cannot resolve main HEAD'')
     | Some main_ref \<Rightarrow>
         finallyE
           (bindE (rebase_all_onto_main env batch) (\<lambda>rebased.
              whenE (rebased \<noteq> []) (stage_and_land depth env rebased main_ref)))
           (save_trace env main_ref))"

text \<open>One turn of \<open>run\<close> with a collected batch: an exception rejects what is left of it.\<close>

definition reject_undone :: "merge_request list \<Rightarrow> ('w mq, unit) eff" where
  "reject_undone batch = forE batch (\<lambda>rq s.
     if is_done s (rq_future rq) then (Inr (), s)
     else set_result (rq_future rq) (rejected ''Internal merge queue error'') s)"

definition handle_batch :: "nat \<Rightarrow> 'w mq_env \<Rightarrow> merge_request list \<Rightarrow> ('w mq, unit) eff" where
  "handle_batch depth env batch = catchE (process_batch depth env batch) (\<lambda>_. reject_undone batch)"

text \<open>The main loop. A turn is given by what other coroutines do around it: the submissions and waits of
  its collection, the submitters cancelled before the batch is handled, and whether \<open>stop\<close> is
  called before its end. The loop ends when stopped, or when no turn is left to look at.\<close>

record turn =
  tn_first :: "(string \<times> string) list"
  tn_waits :: "wait list"
  tn_cancels :: "nat list"
  tn_stop :: bool

fun run :: "nat \<Rightarrow> 'w mq_env \<Rightarrow> turn list \<Rightarrow> 'w mq \<Rightarrow> 'w mq" where
  "run depth env [] s = s"
| "run depth env (tn # turns) s =
     (if mq_stopped s then s
      else case collect_batch env (tn_first tn) (tn_waits tn) s of
             (batch, s1) \<Rightarrow>
               (let s2 = foldl (\<lambda>s f. cancel f s) s1 (tn_cancels tn);
                    s3 = (if batch = [] then s2 else snd (handle_batch depth env batch s2))
                in run depth env turns (if tn_stop tn then stop s3 else s3)))"

section \<open>The bridge: coordinator side\<close>

record merge_response =
  rs_request_id :: string
  rs_status :: string
  rs_pre_hash :: "string option"
  rs_post_hash :: "string option"
  rs_error :: "string option"

definition response_of :: "string \<Rightarrow> merge_result \<Rightarrow> merge_response" where
  "response_of rid r = \<lparr>rs_request_id = rid, rs_status = merge_status_value (mr_status r),
     rs_pre_hash = mr_pre_hash r, rs_post_hash = mr_post_hash r, rs_error = mr_error r\<rparr>"

definition internal_error_response :: "string \<Rightarrow> merge_response" where
  "internal_error_response rid = \<lparr>rs_request_id = rid, rs_status = ''rejected'', rs_pre_hash = None,
     rs_post_hash = None, rs_error = Some ''Internal merge queue error''\<rparr>"

text \<open>\<open>_handle\<close>: the outcome of the awaited \<open>submit\<close>, then the answer to the worker of that rank.\<close>

definition server_handle :: "(int \<Rightarrow> merge_response \<Rightarrow> ('w, unit) eff) \<Rightarrow> int \<Rightarrow> string \<Rightarrow> merge_result result \<Rightarrow>
    ('w, unit) eff" where
  "server_handle send rank rid outcome =
     catchE (case outcome of Inl e \<Rightarrow> throw e | Inr r \<Rightarrow> send rank (response_of rid r))
       (\<lambda>_. send rank (internal_error_response rid))"

section \<open>The bridge: worker side\<close>

record merge_client =
  mc_rank :: int
  mc_pending :: "(string, nat) dict"
  mc_futures :: "(nat, future_state) dict"
  mc_next_future :: nat
  mc_counter :: nat
  mc_sent :: "(string \<times> string \<times> string) list"
  mc_stopped :: bool
  mc_closed :: bool

definition new_client :: "int \<Rightarrow> merge_client" where
  "new_client rank = \<lparr>mc_rank = rank, mc_pending = [], mc_futures = [], mc_next_future = 0, mc_counter = 0,
     mc_sent = [], mc_stopped = False, mc_closed = False\<rparr>"

definition request_id :: "string \<Rightarrow> nat \<Rightarrow> string" where
  "request_id agent n = agent @ ''-'' @ str_nat n"

text \<open>\<open>submit\<close> up to its \<open>await future\<close>; a sent request is its id, agent and worktree.\<close>

definition client_submit :: "merge_client \<Rightarrow> string \<Rightarrow> string \<Rightarrow> nat \<times> merge_client" where
  "client_submit c agent wt =
     (let n = mc_counter c + 1; rid = request_id agent n; f = mc_next_future c
      in (f, c\<lparr>mc_counter := n, mc_next_future := f + 1, mc_pending := dset (mc_pending c) rid f,
               mc_sent := mc_sent c @ [(rid, agent, wt)]\<rparr>))"

definition result_of_response :: "merge_response \<Rightarrow> merge_result result" where
  "result_of_response m =
     rbind (merge_status_of (rs_status m)) (\<lambda>st.
       Inr \<lparr>mr_status = st, mr_pre_hash = rs_pre_hash m, mr_post_hash = rs_post_hash m, mr_error = rs_error m\<rparr>)"

text \<open>A received message that is a merge response; other messages change nothing.\<close>

definition client_receive :: "merge_client \<Rightarrow> merge_response \<Rightarrow> unit result \<times> merge_client" where
  "client_receive c m =
     (case dget (mc_pending c) (rs_request_id m) of
        None \<Rightarrow> (Inr (), c)
      | Some f \<Rightarrow>
          (let c' = c\<lparr>mc_pending := ddel (mc_pending c) (rs_request_id m)\<rparr>
           in if dget (mc_futures c') f \<noteq> None then (Inr (), c')
              else case result_of_response m of
                     Inl e \<Rightarrow> (Inl e, c')
                   | Inr r \<Rightarrow> (Inr (), c'\<lparr>mc_futures := dset (mc_futures c') f (Resolved r)\<rparr>)))"

definition client_stop :: "merge_client \<Rightarrow> merge_client" where
  "client_stop c = c\<lparr>mc_stopped := True\<rparr>"

definition client_cancel :: "nat \<Rightarrow> merge_client \<Rightarrow> merge_client" where
  "client_cancel f c = (if dget (mc_futures c) f \<noteq> None then c
     else c\<lparr>mc_futures := dset (mc_futures c) f Cancelled\<rparr>)"

definition client_close :: "merge_client \<Rightarrow> merge_client" where
  "client_close c = (foldl (\<lambda>c f. client_cancel f c) c (dvals (mc_pending c)))\<lparr>mc_pending := [], mc_closed := True\<rparr>"

text \<open>The listener: a turn receives nothing (or another message) or a response; between turns the node's
  coroutines act on the client. It ends when stopped or with an exception, closing either way.\<close>

fun client_run :: "((merge_client \<Rightarrow> merge_client) \<times> merge_response option) list \<Rightarrow> merge_client \<Rightarrow> merge_client" where
  "client_run [] c = client_close (client_stop c)"
| "client_run ((others, m) # turns) c =
     (let c1 = others c
      in if mc_stopped c1 then client_close c1
         else case m of
                None \<Rightarrow> client_run turns c1
              | Some resp \<Rightarrow>
                  (case client_receive c1 resp of
                     (Inl _, c2) \<Rightarrow> client_close c2
                   | (Inr _, c2) \<Rightarrow> client_run turns c2))"

end
