(* ===== verification/Merge_Queue_Correct.thy ===== *)
theory Merge_Queue_Correct
  imports Merge_Queue Worktree_Correct
begin

text \<open>
  What the merge queue promises: no submission is lost whatever git, the build and the hooks do;
  nothing is merged without a build that passed; a batch without trouble is merged as a whole. And
  two ways in which it does not keep what it means to: a cancelled submitter and a cherry-pick that
  fails while bisecting.
\<close>

section \<open>What every step of the queue keeps\<close>

definition grows :: "'w mq \<Rightarrow> 'w mq \<Rightarrow> bool" where
  "grows s s' \<longleftrightarrow> (\<forall>f x. dget (mq_futures s) f = Some x \<longrightarrow> dget (mq_futures s') f = Some x) \<and>
     set (mq_queue s) \<subseteq> set (mq_queue s') \<and> mq_next_future s' = mq_next_future s \<and> mq_stopped s' = mq_stopped s"

named_theorems grow_intros

lemma grows_order [simp]: "reflp grows" "transp grows"
  by (auto simp: grows_def reflp_def transp_def)

lemma grows_done: "grows s s' \<Longrightarrow> is_done s f \<Longrightarrow> is_done s' f"
  by (auto simp: grows_def is_done_def)

lemma grows_steps [grow_intros]:
  "keeps grows (ret a)" "keeps grows (throw e)" "keeps grows (on_world m)" "keeps grows (getsE g)"
  "keeps grows (set_result f r)" "keeps grows (put rq)"
  by (auto simp: keeps_def grows_def ret_def throw_def on_world_def getsE_def set_result_def is_done_def put_def
      modifyE_def split: prod.split)

lemma grows_compose [grow_intros]:
  "keeps grows m \<Longrightarrow> (\<And>a. keeps grows (g a)) \<Longrightarrow> keeps grows (bindE m g)"
  "keeps grows m \<Longrightarrow> keeps grows n \<Longrightarrow> keeps grows (seqE m n)"
  "keeps grows m \<Longrightarrow> (\<And>e. keeps grows (h e)) \<Longrightarrow> keeps grows (catchE m h)"
  "keeps grows m \<Longrightarrow> keeps grows fin \<Longrightarrow> keeps grows (finallyE m fin)"
  "(\<And>x. keeps grows (k x)) \<Longrightarrow> keeps grows (forE xs k)"
  "keeps grows u \<Longrightarrow> keeps grows (whenE b u)"
  by (simp_all add: keeps_bindE keeps_seqE keeps_catchE keeps_finallyE keeps_forE keeps_whenE)

lemma grows_cases [grow_intros]:
  "(\<And>a b. keeps grows (p a b)) \<Longrightarrow> keeps grows (case_prod p x)"
  "keeps grows n \<Longrightarrow> (\<And>a. keeps grows (q a)) \<Longrightarrow> keeps grows (case_option n q y)"
  "(b \<Longrightarrow> keeps grows t) \<Longrightarrow> (\<not> b \<Longrightarrow> keeps grows u) \<Longrightarrow> keeps grows (if b then t else u)"
  by (simp_all split: prod.split option.split)

lemma grows_note_step [grow_intros]: "keeps grows (note_step env a b c d)"
  unfolding note_step_def by (intro grow_intros)

lemma grows_resolve_all [grow_intros]: "keeps grows (resolve_all rqs r)"
  unfolding resolve_all_def by (intro grow_intros)

lemma grows_rebase_all [grow_intros]: "keeps grows (rebase_all_onto_main env rqs)"
  by (induction rqs) (simp_all del: not_None_eq, (intro grow_intros | assumption)+)

lemma grows_stage_all [grow_intros]: "keeps grows (stage_all env rqs staging ref)"
  by (induction rqs) (simp_all del: not_None_eq, (intro grow_intros | assumption)+)

lemma grows_land_batch [grow_intros]: "keeps grows (land_batch env staged staging pre)"
  unfolding land_batch_def by (intro grow_intros)

lemma grows_rebuild [grow_intros]: "keeps grows (rebuild_staging_and_test env staging subs ref)"
  unfolding rebuild_staging_and_test_def build_def by (intro grow_intros)

lemma grows_current_main [grow_intros]: "keeps grows (current_main env ref)"
  unfolding current_main_def by (intro grow_intros)

lemma bisect_subset_unfold:
  "length subs \<noteq> 1 \<Longrightarrow> bisect_subset (Suc depth) env subs main_ref build_error =
     bindE (on_world (create_staging env main_ref)) (\<lambda>staging.
       finallyE
         (let mid = length subs div 2; right = drop mid subs
          in bindE (rebuild_staging_and_test env staging (take mid subs) main_ref) (\<lambda>(left_ok, left).
             if left_ok
             then bindE (land_batch env left staging main_ref) (\<lambda>ids.
                  bindE (current_main env main_ref) (\<lambda>new_main.
                  bindE (bisect_subset depth env right new_main build_error) (\<lambda>ids'. ret (ids @ ids'))))
             else seqE (forE right put) (bisect_subset depth env left main_ref build_error)))
         (on_world (cleanup_worktree (ev_os env) staging (ev_repo_root env))))"
  by (auto split: list.split)

lemma bisect_and_land_unfold:
  "length subs \<noteq> 1 \<Longrightarrow> bisect_and_land depth env subs staging main_ref build_error =
     (let mid = length subs div 2; right = drop mid subs
      in bindE (rebuild_staging_and_test env staging (take mid subs) main_ref) (\<lambda>(left_ok, left).
         if left_ok
         then bindE (land_batch env left staging main_ref) (\<lambda>ids.
              bindE (current_main env main_ref) (\<lambda>new_main.
              bindE (bisect_subset depth env right new_main build_error) (\<lambda>ids'. ret (ids @ ids'))))
         else seqE (forE right put) (bisect_subset depth env left main_ref build_error)))"
  by (auto simp: bisect_and_land_def split: list.split)

lemma bisect_single:
  "bisect_subset (Suc depth) env [rq] main_ref build_error =
     seqE (set_result (rq_future rq) (rejected (''Build failed (identified by bisect):'' @ [nl] @ build_error))) (ret [])"
  "bisect_and_land depth env [rq] staging main_ref build_error =
     seqE (set_result (rq_future rq) (rejected (''Build failed:'' @ [nl] @ build_error))) (ret [])"
  by (simp_all add: bisect_and_land_def)

lemma grows_bisect_subset [grow_intros]: "keeps grows (bisect_subset depth env subs ref err)"
proof (induction depth arbitrary: subs ref)
  case 0 then show ?case by (simp add: grow_intros)
next
  case (Suc depth)
  show ?case
  proof (cases "length subs = 1")
    case True
    then obtain rq where "subs = [rq]" by (auto simp: length_Suc_conv)
    then show ?thesis by (simp only: bisect_single) (intro grow_intros)
  next
    case False
    show ?thesis unfolding bisect_subset_unfold [OF False] Let_def by (intro grow_intros Suc.IH)
  qed
qed

lemma grows_bisect_and_land [grow_intros]: "keeps grows (bisect_and_land depth env subs staging ref err)"
proof (cases "length subs = 1")
  case True
  then obtain rq where "subs = [rq]" by (auto simp: length_Suc_conv)
  then show ?thesis by (simp only: bisect_single) (intro grow_intros)
next
  case False
  show ?thesis unfolding bisect_and_land_unfold [OF False] Let_def by (intro grow_intros)
qed

lemma grows_process_batch [grow_intros]: "keeps grows (process_batch depth env batch)"
  unfolding process_batch_def main_head_def save_trace_def stage_and_land_def build_and_land_def build_def
    fire_callback_def by (intro grow_intros)

lemma grows_reject_undone [grow_intros]: "keeps grows (reject_undone batch)"
  unfolding reject_undone_def
  by (intro grow_intros) (auto simp: keeps_def grows_def set_result_def is_done_def)

lemma grows_handle_batch [grow_intros]: "keeps grows (handle_batch depth env batch)"
  unfolding handle_batch_def by (intro grow_intros)

section \<open>No request is lost\<close>

definition accounted :: "'w mq \<Rightarrow> merge_request \<Rightarrow> bool" where
  "accounted s rq \<longleftrightarrow> is_done s (rq_future rq) \<or> rq \<in> set (mq_queue s)"

lemma grows_accounted: "grows s s' \<Longrightarrow> accounted s rq \<Longrightarrow> accounted s' rq"
  by (auto simp: accounted_def grows_def is_done_def)

lemma set_result_Inr: "set_result f r s = (Inr u, s') \<Longrightarrow> is_done s' f"
  by (auto simp: set_result_def is_done_def split: if_splits)

lemma put_Inr: "put rq s = (x, s') \<Longrightarrow> rq \<in> set (mq_queue s')"
  by (auto simp: put_def modifyE_def)

lemma forE_reaches:
  assumes "\<And>x s u s'. k x s = (Inr u, s') \<Longrightarrow> P x s'" and "\<And>x s s'. P x s \<Longrightarrow> grows s s' \<Longrightarrow> P x s'"
    and "\<And>x. keeps grows (k x)"
  shows "forE xs k s = (Inr u, s') \<Longrightarrow> x \<in> set xs \<Longrightarrow> P x s'"
proof (induction xs arbitrary: s)
  case (Cons y ys)
  then obtain u1 s1 where 1: "k y s = (Inr u1, s1)" and 2: "forE ys k s1 = (Inr u, s')"
    by (auto simp: seqE_Inr_iff)
  have "grows s1 s'" by (rule keepsD [OF grows_compose(5) [OF assms(3)] 2])
  then show ?case using Cons.IH [OF 2] Cons.prems(2) assms(1) [OF 1] assms(2) by auto
qed simp

lemma resolve_all_done: "resolve_all rqs r s = (Inr u, s') \<Longrightarrow> rq \<in> set rqs \<Longrightarrow> is_done s' (rq_future rq)"
  unfolding resolve_all_def
  by (rule forE_reaches [where P = "\<lambda>rq s. is_done s (rq_future rq)"])
     (auto intro: set_result_Inr grows_done grow_intros)

lemma put_all_queued: "forE rqs put s = (Inr u, s') \<Longrightarrow> rq \<in> set rqs \<Longrightarrow> rq \<in> set (mq_queue s')"
  by (rule forE_reaches [where P = "\<lambda>rq s. rq \<in> set (mq_queue s)"])
     (auto intro: put_Inr grow_intros simp: grows_def)

lemma rebase_all_accounts:
  "rebase_all_onto_main env rqs s = (Inr reb, s') \<Longrightarrow> rq \<in> set rqs \<Longrightarrow> rq \<in> set reb \<or> is_done s' (rq_future rq)"
proof (induction rqs arbitrary: s reb)
  case (Cons r rqs)
  then obtain ok err s1 u s2 where "note_step env ''rebase'' (rq_agent r) ok (Some err) s1 = (Inr u, s2)"
    and rest: "(if ok then bindE (rebase_all_onto_main env rqs) (\<lambda>rebased. ret (r # rebased))
       else seqE (set_result (rq_future r) (rejected (''Rebase onto main failed:'' @ [nl] @ err)))
              (rebase_all_onto_main env rqs)) s2 = (Inr reb, s')"
    by (auto simp: bindE_Inr_iff seqE_Inr_iff simp del: append.simps)
  show ?case
  proof (cases ok)
    case True
    then show ?thesis using rest Cons.IH Cons.prems(2) by (auto simp: bindE_Inr_iff ret_def)
  next
    case False
    then obtain u s3 where 3: "set_result (rq_future r) (rejected (''Rebase onto main failed:'' @ [nl] @ err)) s2 = (Inr u, s3)"
      and 4: "rebase_all_onto_main env rqs s3 = (Inr reb, s')"
      using rest by (auto simp: seqE_Inr_iff simp del: append.simps)
    have "is_done s' (rq_future r)"
      by (rule grows_done [OF keepsD [OF grows_rebase_all 4] set_result_Inr [OF 3]])
    then show ?thesis using Cons.IH [OF 4] Cons.prems(2) by auto
  qed
qed simp

lemma stage_all_accounts:
  "stage_all env rqs staging ref s = (Inr staged, s') \<Longrightarrow> rq \<in> set rqs \<Longrightarrow> rq \<in> set staged \<or> rq \<in> set (mq_queue s')"
proof (induction rqs arbitrary: s staged)
  case (Cons r rqs)
  then obtain ok err s1 where
    rest: "(if ok
       then seqE (note_step env ''stage'' (rq_agent r) True None)
              (bindE (stage_all env rqs staging ref) (\<lambda>staged. ret (r # staged)))
       else seqE (note_step env ''stage_deferred'' (rq_agent r) False (Some err))
              (seqE (put r) (stage_all env rqs staging ref))) s1 = (Inr staged, s')"
    by (auto simp: bindE_Inr_iff)
  show ?case
  proof (cases ok)
    case True
    then show ?thesis using rest Cons.IH Cons.prems(2) by (auto simp: bindE_Inr_iff seqE_Inr_iff ret_def)
  next
    case False
    then obtain s2 u s3 where 3: "put r s2 = (Inr u, s3)" and 4: "stage_all env rqs staging ref s3 = (Inr staged, s')"
      using rest by (auto simp: seqE_Inr_iff)
    have "r \<in> set (mq_queue s')"
      using put_Inr [OF 3] keepsD [OF grows_stage_all 4] by (auto simp: grows_def)
    then show ?thesis using Cons.IH [OF 4] Cons.prems(2) by auto
  qed
qed simp

lemma land_batch_done: "land_batch env staged staging pre s = (Inr ids, s') \<Longrightarrow> rq \<in> set staged \<Longrightarrow> is_done s' (rq_future rq)"
  by (auto simp: land_batch_def bindE_Inr_iff seqE_Inr_iff ret_def split: if_splits dest: resolve_all_done)

lemma rebuild_accounts:
  assumes "rebuild_staging_and_test env staging subs ref s = (Inr (ok, left), s')"
  shows "rq \<in> set subs \<Longrightarrow> rq \<in> set left \<or> is_done s' (rq_future rq)"
proof -
  assume rq: "rq \<in> set subs"
  obtain bad s1 where "(case bad of
        Some (r, err) \<Rightarrow>
          seqE (set_result (rq_future r) (rejected (''Cherry-pick failed during bisect:'' @ [nl] @ err)))
            (ret (False, remove1 r subs))
      | None \<Rightarrow> bindE (build env staging) (\<lambda>(ok, _). ret (ok, subs))) s1 = (Inr (ok, left), s')"
    using assms unfolding rebuild_staging_and_test_def by (auto simp: bindE_Inr_iff seqE_Inr_iff simp del: append.simps)
  then show ?thesis
    using rq
    by (cases "rq \<in> set left")
      (auto simp: bindE_Inr_iff seqE_Inr_iff ret_def dest!: set_result_Inr split: option.splits, metis in_set_remove1)
qed

text \<open>The common part of the two bisecting functions, after the staging worktree is there.\<close>

lemma halves_account:
  assumes run: "bindE (rebuild_staging_and_test env staging (take mid subs) ref) (\<lambda>(left_ok, left).
             if left_ok
             then bindE (land_batch env left staging ref) (\<lambda>ids.
                  bindE (current_main env ref) (\<lambda>new_main.
                  bindE (bisect_subset depth env (drop mid subs) new_main err) (\<lambda>ids'. ret (ids @ ids'))))
             else seqE (forE (drop mid subs) put) (bisect_subset depth env left ref err)) s = (Inr ids, s')"
    and IH: "\<And>subs ref s ids s' rq. bisect_subset depth env subs ref err s = (Inr ids, s') \<Longrightarrow> rq \<in> set subs \<Longrightarrow> accounted s' rq"
    and rq: "rq \<in> set subs"
  shows "accounted s' rq"
proof -
  obtain left_ok left s1 where 1: "rebuild_staging_and_test env staging (take mid subs) ref s = (Inr (left_ok, left), s1)"
    and res: "(if left_ok
             then bindE (land_batch env left staging ref) (\<lambda>ids.
                  bindE (current_main env ref) (\<lambda>new_main.
                  bindE (bisect_subset depth env (drop mid subs) new_main err) (\<lambda>ids'. ret (ids @ ids'))))
             else seqE (forE (drop mid subs) put) (bisect_subset depth env left ref err)) s1 = (Inr ids, s')"
    using run by (auto simp: bindE_Inr_iff)
  have "set subs = set (take mid subs) \<union> set (drop mid subs)" by (metis append_take_drop_id set_append)
  with rq have "rq \<in> set (take mid subs) \<or> rq \<in> set (drop mid subs)" by blast
  then have "rq \<in> set left \<or> rq \<in> set (drop mid subs) \<or> accounted s1 rq"
    using rebuild_accounts [OF 1] by (auto simp: accounted_def)
  moreover have "keeps grows (if left_ok
             then bindE (land_batch env left staging ref) (\<lambda>ids.
                  bindE (current_main env ref) (\<lambda>new_main.
                  bindE (bisect_subset depth env (drop mid subs) new_main err) (\<lambda>ids'. ret (ids @ ids'))))
             else seqE (forE (drop mid subs) put) (bisect_subset depth env left ref err))"
    by (intro grow_intros)
  then have "grows s1 s'" using res by (rule keepsD)
  ultimately consider "accounted s' rq" | "rq \<in> set left" | "rq \<in> set (drop mid subs)"
    using grows_accounted by blast
  then show ?thesis
  proof cases
    case 2
    show ?thesis
    proof (cases left_ok)
      case True
      then obtain ids1 s2 ids2 s3 where l: "land_batch env left staging ref s1 = (Inr ids1, s2)"
        and r: "bindE (current_main env ref) (\<lambda>new_main.
                  bindE (bisect_subset depth env (drop mid subs) new_main err) (\<lambda>ids'. ret (ids1 @ ids'))) s2 = (Inr ids, s')"
        using res by (auto simp: bindE_Inr_iff)
      have "keeps grows (bindE (current_main env ref) (\<lambda>new_main.
                  bindE (bisect_subset depth env (drop mid subs) new_main err) (\<lambda>ids'. ret (ids1 @ ids'))))"
        by (intro grow_intros)
      then have "grows s2 s'" using r by (rule keepsD)
      then show ?thesis using land_batch_done [OF l 2] grows_done by (auto simp: accounted_def)
    next
      case False
      then show ?thesis using res IH 2
        by (auto simp: seqE_Inr_iff)
    qed
  next
    case 3
    show ?thesis
    proof (cases left_ok)
      case True
      then show ?thesis using res IH 3
        by (auto simp: bindE_Inr_iff ret_def)
    next
      case False
      then obtain u s2 where p: "forE (drop mid subs) put s1 = (Inr u, s2)"
        and b: "bisect_subset depth env left ref err s2 = (Inr ids, s')"
        using res by (auto simp: seqE_Inr_iff)
      show ?thesis using put_all_queued [OF p 3] keepsD [OF grows_bisect_subset b]
        by (auto simp: accounted_def grows_def)
    qed
  qed simp
qed

lemma bisect_subset_accounts:
  "bisect_subset depth env subs ref err s = (Inr ids, s') \<Longrightarrow> rq \<in> set subs \<Longrightarrow> accounted s' rq"
proof (induction depth arbitrary: subs ref s ids s' rq)
  case (Suc depth)
  show ?case
  proof (cases "length subs = 1")
    case True
    then obtain r where "subs = [r]" by (auto simp: length_Suc_conv)
    then show ?thesis using Suc.prems unfolding \<open>subs = [r]\<close> bisect_single
      by (auto simp: seqE_Inr_iff ret_def accounted_def dest: set_result_Inr)
  next
    case False
    obtain staging s1 where run: "finallyE
         (bindE (rebuild_staging_and_test env staging (take (length subs div 2) subs) ref) (\<lambda>(left_ok, left).
             if left_ok
             then bindE (land_batch env left staging ref) (\<lambda>ids.
                  bindE (current_main env ref) (\<lambda>new_main.
                  bindE (bisect_subset depth env (drop (length subs div 2) subs) new_main err) (\<lambda>ids'. ret (ids @ ids'))))
             else seqE (forE (drop (length subs div 2) subs) put) (bisect_subset depth env left ref err)))
         (on_world (cleanup_worktree (ev_os env) staging (ev_repo_root env))) s1 = (Inr ids, s')"
      using Suc.prems(1) unfolding bisect_subset_unfold [OF False] Let_def by (auto simp: bindE_Inr_iff)
    obtain s2 u where 1: "bindE (rebuild_staging_and_test env staging (take (length subs div 2) subs) ref) (\<lambda>(left_ok, left).
             if left_ok
             then bindE (land_batch env left staging ref) (\<lambda>ids.
                  bindE (current_main env ref) (\<lambda>new_main.
                  bindE (bisect_subset depth env (drop (length subs div 2) subs) new_main err) (\<lambda>ids'. ret (ids @ ids'))))
             else seqE (forE (drop (length subs div 2) subs) put) (bisect_subset depth env left ref err)) s1 = (Inr ids, s2)"
      and 2: "on_world (cleanup_worktree (ev_os env) staging (ev_repo_root env)) s2 = (Inr u, s')"
      using finallyE_Inr [OF run] by blast
    have "accounted s2 rq" by (rule halves_account [OF 1 Suc.IH Suc.prems(2)])
    then show ?thesis by (rule grows_accounted [OF keepsD [OF grows_steps(3) 2]])
  qed
qed (simp add: throw_def)

lemma bisect_and_land_accounts:
  assumes "bisect_and_land depth env subs staging ref err s = (Inr ids, s')" and "rq \<in> set subs"
  shows "accounted s' rq"
proof (cases "length subs = 1")
  case True
  then obtain r where "subs = [r]" by (auto simp: length_Suc_conv)
  then show ?thesis using assms unfolding \<open>subs = [r]\<close> bisect_single
    by (auto simp: seqE_Inr_iff ret_def accounted_def dest: set_result_Inr)
next
  case False
  show ?thesis
    by (rule halves_account [OF assms(1) [unfolded bisect_and_land_unfold [OF False] Let_def] bisect_subset_accounts assms(2)])
qed

lemma whenE_unit: "whenE b m s = (Inr u, s') \<Longrightarrow> (b \<and> m s = (Inr u, s')) \<or> (\<not> b \<and> s' = s)"
  by (auto simp: whenE_def ret_def split: if_splits)

lemma fire_callback_grows: "fire_callback env pre ids s = (r, s') \<Longrightarrow> grows s s'"
  by (rule keepsD [where R = grows and m = "fire_callback env pre ids"])
     (auto simp: fire_callback_def intro!: grow_intros)

lemma build_and_land_accounts:
  assumes "build_and_land depth env staged staging ref s = (Inr u, s')" and rq: "rq \<in> set staged"
  shows "accounted s' rq"
proof -
  obtain ok err ids s1 s2 where 1: "(if ok then land_batch env staged staging ref
        else bisect_and_land depth env staged staging ref err) s1 = (Inr ids, s2)"
    and 2: "fire_callback env ref ids s2 = (Inr u, s')"
    using assms(1) unfolding build_and_land_def by (auto simp: bindE_Inr_iff)
  have "accounted s2 rq"
    using 1 rq by (auto simp: accounted_def dest: land_batch_done bisect_and_land_accounts split: if_splits)
  then show ?thesis by (rule grows_accounted [OF fire_callback_grows [OF 2]])
qed

lemma stage_and_land_accounts:
  assumes "stage_and_land depth env rebased ref s = (Inr u, s')" and rq: "rq \<in> set rebased"
  shows "accounted s' rq"
proof -
  obtain staging s1 s2 v where 1: "bindE (stage_all env rebased staging ref) (\<lambda>staged.
            whenE (staged \<noteq> []) (build_and_land depth env staged staging ref)) s1 = (Inr u, s2)"
    and 2: "on_world (cleanup_worktree (ev_os env) staging (ev_repo_root env)) s2 = (Inr v, s')"
    using assms(1) unfolding stage_and_land_def by (auto simp: bindE_Inr_iff dest!: finallyE_Inr)
  obtain staged s3 where 3: "stage_all env rebased staging ref s1 = (Inr staged, s3)"
    and 4: "whenE (staged \<noteq> []) (build_and_land depth env staged staging ref) s3 = (Inr u, s2)"
    using 1 by (auto simp: bindE_Inr_iff)
  have "keeps grows (whenE (staged \<noteq> []) (build_and_land depth env staged staging ref))"
    unfolding build_and_land_def build_def fire_callback_def by (intro grow_intros)
  then have g: "grows s3 s2" using 4 by (rule keepsD)
  have "accounted s2 rq"
  proof (cases "rq \<in> set staged")
    case True
    then show ?thesis using whenE_unit [OF 4] build_and_land_accounts by fastforce
  next
    case False
    then have "accounted s3 rq" using stage_all_accounts [OF 3 rq] by (simp add: accounted_def)
    then show ?thesis by (rule grows_accounted [OF g])
  qed
  then show ?thesis by (rule grows_accounted [OF keepsD [OF grows_steps(3) 2]])
qed

lemma process_batch_accounts:
  assumes "process_batch depth env batch s = (Inr u, s')" and rq: "rq \<in> set batch"
  shows "accounted s' rq"
proof -
  obtain head s1 where 1: "(case head of
       None \<Rightarrow> resolve_all batch (rejected ''Cannot resolve main HEAD'')
     | Some main_ref \<Rightarrow> finallyE (bindE (rebase_all_onto_main env batch) (\<lambda>rebased.
              whenE (rebased \<noteq> []) (stage_and_land depth env rebased main_ref)))
           (save_trace env main_ref)) s1 = (Inr u, s')"
    using assms(1) unfolding process_batch_def by (auto simp: bindE_Inr_iff simp del: append.simps)
  show ?thesis
  proof (cases head)
    case None
    then show ?thesis using 1 rq resolve_all_done by (fastforce simp: accounted_def)
  next
    case (Some main_ref)
    then obtain s2 v where 2: "bindE (rebase_all_onto_main env batch) (\<lambda>rebased.
              whenE (rebased \<noteq> []) (stage_and_land depth env rebased main_ref)) s1 = (Inr u, s2)"
      and 3: "save_trace env main_ref s2 = (Inr v, s')"
      using 1 by (auto dest!: finallyE_Inr)
    obtain rebased s3 where 4: "rebase_all_onto_main env batch s1 = (Inr rebased, s3)"
      and 5: "whenE (rebased \<noteq> []) (stage_and_land depth env rebased main_ref) s3 = (Inr u, s2)"
      using 2 by (auto simp: bindE_Inr_iff)
    have "keeps grows (whenE (rebased \<noteq> []) (stage_and_land depth env rebased main_ref))"
      unfolding stage_and_land_def build_and_land_def build_def fire_callback_def by (intro grow_intros)
    then have g: "grows s3 s2" using 5 by (rule keepsD)
    have "accounted s2 rq"
    proof (cases "rq \<in> set rebased")
      case True
      then show ?thesis using whenE_unit [OF 5] stage_and_land_accounts by fastforce
    next
      case False
      then have "accounted s3 rq" using rebase_all_accounts [OF 4 rq] by (simp add: accounted_def)
      then show ?thesis by (rule grows_accounted [OF g])
    qed
    moreover have "keeps grows (save_trace env main_ref)"
      unfolding save_trace_def by (intro grow_intros)
    then have "grows s2 s'" using 3 by (rule keepsD)
    ultimately show ?thesis using grows_accounted by blast
  qed
qed

lemma reject_undone_done:
  "rq \<in> set batch \<Longrightarrow> is_done (snd (reject_undone batch s)) (rq_future rq)"
proof -
  let ?k = "\<lambda>rq s. if is_done s (rq_future rq) then (Inr (), s)
     else set_result (rq_future rq) (rejected ''Internal merge queue error'') s"
  have "\<exists>s'. forE batch ?k s = (Inr (), s')"
    by (induction batch arbitrary: s) (auto simp: eff_simps set_result_def is_done_def split: prod.splits)
  then obtain s' where s': "forE batch ?k s = (Inr (), s')" by blast
  assume "rq \<in> set batch"
  have "is_done s' (rq_future rq)"
    by (rule forE_reaches [where P = "\<lambda>rq s. is_done s (rq_future rq)", OF _ _ _ s' \<open>rq \<in> set batch\<close>])
       (auto simp: keeps_def grows_def set_result_def is_done_def split: if_splits)
  then show ?thesis using s' by (simp add: reject_undone_def del: append.simps)
qed

lemma handle_batch_accounts: "rq \<in> set batch \<Longrightarrow> accounted (snd (handle_batch depth env batch s)) rq"
  unfolding handle_batch_def catchE_def
  using process_batch_accounts [of depth env batch s] reject_undone_done
  by (auto simp: accounted_def split: prod.split sum.split)

text \<open>Every issued future is done, or its request waits in the queue or in the batch at hand.\<close>

definition tracked :: "merge_request list \<Rightarrow> 'w mq \<Rightarrow> bool" where
  "tracked batch s \<longleftrightarrow> (\<forall>f < mq_next_future s.
     is_done s f \<or> (\<exists>rq \<in> set (mq_queue s) \<union> set batch. rq_future rq = f))"

lemma tracked_submit: "tracked b s \<Longrightarrow> tracked b (snd (submit a wt s))"
  by (auto simp: tracked_def submit_def is_done_def less_Suc_eq)

lemma tracked_submits: "tracked b s \<Longrightarrow> tracked b (submits xs s)"
  unfolding submits_def by (induction xs arbitrary: s) (auto intro: tracked_submit)

lemma tracked_get:
  assumes "tracked b s" "queue_get s = (x, s')"
  shows "case x of None \<Rightarrow> tracked b s' | Some rq \<Rightarrow> tracked (b @ [rq]) s'"
  using assms by (auto simp: tracked_def queue_get_def is_done_def split: list.splits)

lemma tracked_collect_more:
  "tracked b s \<Longrightarrow> collect_more env ws b s = (b', s') \<Longrightarrow> tracked b' s'"
proof (induction env ws b s rule: collect_more.induct)
  case (3 env xs ws batch s)
  then show ?case
    using tracked_get [OF tracked_submits [OF 3(2)]]
    by (auto split: if_splits prod.splits option.splits) (metis option.simps(4,5))+
qed auto

lemma tracked_collect:
  assumes "tracked [] s" "collect_batch env first ws s = (b, s')" shows "tracked b s'"
proof -
  obtain x s1 where g: "queue_get (submits first s) = (x, s1)" by fastforce
  note t = tracked_get [OF tracked_submits [OF assms(1)] g]
  show ?thesis using assms(2) g t
    by (cases x) (auto simp: collect_batch_def intro: tracked_collect_more)
qed

lemma tracked_cancel: "tracked b s \<Longrightarrow> tracked b (foldl (\<lambda>s f. cancel f s) s fs)"
  by (induction fs arbitrary: s) (auto simp: tracked_def cancel_def is_done_def)

lemma tracked_handle:
  assumes "tracked b s" shows "tracked [] (snd (handle_batch depth env b s))"
proof -
  obtain r s' where h: "handle_batch depth env b s = (r, s')" by fastforce
  have g: "grows s s'" by (rule keepsD [OF grows_handle_batch h])
  have a: "accounted s' rq" if "rq \<in> set b" for rq using handle_batch_accounts [OF that] h by (metis snd_conv)
  show ?thesis unfolding tracked_def
  proof (intro allI impI)
    fix f assume "f < mq_next_future (snd (handle_batch depth env b s))"
    then have "f < mq_next_future s" using g h by (simp add: grows_def)
    then consider "is_done s f" | rq where "rq \<in> set (mq_queue s)" "rq_future rq = f" | rq where "rq \<in> set b" "rq_future rq = f"
      using assms by (auto simp: tracked_def)
    then show "is_done (snd (handle_batch depth env b s)) f \<or>
        (\<exists>rq\<in>set (mq_queue (snd (handle_batch depth env b s))) \<union> set []. rq_future rq = f)"
      using g a h by cases (fastforce simp: grows_done accounted_def, fastforce simp: grows_def,
        fastforce simp: accounted_def)
  qed
qed

lemma tracked_run: "tracked [] s \<Longrightarrow> tracked [] (run depth env turns s)"
proof (induction depth env turns s rule: run.induct)
  case (2 depth env tn turns s)
  show ?case
  proof (cases "mq_stopped s")
    case False
    obtain b s1 where c: "collect_batch env (tn_first tn) (tn_waits tn) s = (b, s1)" by fastforce
    let ?s2 = "foldl (\<lambda>s f. cancel f s) s1 (tn_cancels tn)"
    have "tracked b ?s2" by (rule tracked_cancel [OF tracked_collect [OF "2.prems" c]])
    then have "tracked [] (if b = [] then ?s2 else snd (handle_batch depth env b ?s2))"
      by (auto intro: tracked_handle)
    then have "tracked [] (if tn_stop tn then stop (if b = [] then ?s2 else snd (handle_batch depth env b ?s2))
        else (if b = [] then ?s2 else snd (handle_batch depth env b ?s2)))"
      by (simp add: tracked_def stop_def is_done_def)
    then show ?thesis using "2.IH" [OF False _ refl refl] c False by (simp add: Let_def)
  qed (use 2 in simp)
qed simp

text \<open>C4: Whatever git, the build function and the hooks do or raise, and however submissions, cancellations
  and batches interleave: after any number of turns of the merge queue every submission is resolved,
  or cancelled, or its request is still in the queue. None is dropped.\<close>

theorem no_request_lost:
  "s = run depth env turns (new_queue w) \<Longrightarrow> f < mq_next_future s \<Longrightarrow>
     dget (mq_futures s) f \<noteq> None \<or> (\<exists>rq \<in> set (mq_queue s). rq_future rq = f)"
  using tracked_run [of "new_queue w" depth env turns] by (auto simp: tracked_def new_queue_def is_done_def)

section \<open>Nothing is merged without a build that passed\<close>

text \<open>Between worlds: \<open>I\<close> is kept. Between queues: \<open>I\<close> is kept and no future becomes merged.\<close>

definition wkeeps :: "('w \<Rightarrow> bool) \<Rightarrow> 'w \<Rightarrow> 'w \<Rightarrow> bool" where
  "wkeeps I w w' \<longleftrightarrow> (I w \<longrightarrow> I w')"

definition is_merged :: "future_state \<Rightarrow> bool" where
  "is_merged x = (case x of Resolved r \<Rightarrow> mr_status r = MERGED | Cancelled \<Rightarrow> False)"

definition none_merged :: "'w mq \<Rightarrow> bool" where
  "none_merged s \<longleftrightarrow> (\<forall>f x. dget (mq_futures s) f = Some x \<longrightarrow> \<not> is_merged x)"

definition calm :: "('w \<Rightarrow> bool) \<Rightarrow> 'w mq \<Rightarrow> 'w mq \<Rightarrow> bool" where
  "calm I s s' \<longleftrightarrow> (I (mq_world s) \<longrightarrow> I (mq_world s')) \<and> (none_merged s \<longrightarrow> none_merged s')"

lemma none_merged_same: "mq_futures s' = mq_futures s \<Longrightarrow> none_merged s' = none_merged s"
  by (simp add: none_merged_def)

text \<open>An environment in which no build passes and only \<open>git merge\<close> can break \<open>I\<close>.\<close>

definition never_builds :: "('w \<Rightarrow> bool) \<Rightarrow> 'w mq_env \<Rightarrow> bool" where
  "never_builds I env \<longleftrightarrow>
     (\<forall>w c. \<not> is_merge c \<longrightarrow> I w \<longrightarrow> I (snd (ev_os env w c))) \<and>
     (\<forall>w p. I w \<longrightarrow> I (snd (ev_build_fn env p w))) \<and>
     (\<forall>w p err. fst (ev_build_fn env p w) \<noteq> Inr (True, err)) \<and>
     (\<forall>f w step agent ok err. ev_on_step env = Some f \<longrightarrow> I w \<longrightarrow> I (snd (f step agent ok err w))) \<and>
     (\<forall>f w name. ev_trace_save env = Some f \<longrightarrow> I w \<longrightarrow> I (snd (f name w)))"

lemma never_builds_os: "never_builds I env \<Longrightarrow> os_keeps no_merge (wkeeps I) (ev_os env)"
  by (auto simp: never_builds_def os_keeps_def wkeeps_def reflp_def transp_def)

named_theorems calm_intros

lemma calm_order [simp]: "reflp (calm I)" "transp (calm I)"
  by (auto simp: calm_def reflp_def transp_def)

lemma calm_on_world [calm_intros]:
  fixes m :: "('w, 'a) eff"
  assumes "keeps (wkeeps I) m" shows "keeps (calm I) (on_world m)"
  unfolding keeps_def
proof
  fix s :: "'w mq"
  obtain r w where m: "m (mq_world s) = (r, w)" by fastforce
  have "wkeeps I (mq_world s) w" by (rule keepsD [OF assms m])
  then show "calm I s (snd (on_world m s))"
    using m by (simp add: calm_def on_world_def none_merged_def wkeeps_def)
qed

lemma calm_steps [calm_intros]:
  "keeps (calm I) (ret a)" "keeps (calm I) (throw e)" "keeps (calm I) (getsE g)"
  "keeps (calm I) (set_result f (rejected err))" "keeps (calm I) (put rq)"
  by (auto simp: keeps_def calm_def ret_def throw_def getsE_def set_result_def is_done_def put_def modifyE_def
      none_merged_def is_merged_def rejected_def)

lemma calm_compose [calm_intros]:
  "keeps (calm I) m \<Longrightarrow> (\<And>a. keeps (calm I) (g a)) \<Longrightarrow> keeps (calm I) (bindE m g)"
  "keeps (calm I) m \<Longrightarrow> keeps (calm I) n \<Longrightarrow> keeps (calm I) (seqE m n)"
  "keeps (calm I) m \<Longrightarrow> (\<And>e. keeps (calm I) (h e)) \<Longrightarrow> keeps (calm I) (catchE m h)"
  "keeps (calm I) m \<Longrightarrow> keeps (calm I) fin \<Longrightarrow> keeps (calm I) (finallyE m fin)"
  "(\<And>x. keeps (calm I) (k x)) \<Longrightarrow> keeps (calm I) (forE xs k)"
  "keeps (calm I) u \<Longrightarrow> keeps (calm I) (whenE b u)"
  by (simp_all add: keeps_bindE keeps_seqE keeps_catchE keeps_finallyE keeps_forE keeps_whenE)

lemma calm_cases [calm_intros]:
  "(\<And>a b. keeps (calm I) (p a b)) \<Longrightarrow> keeps (calm I) (case_prod p x)"
  "keeps (calm I) n \<Longrightarrow> (\<And>a. keeps (calm I) (q a)) \<Longrightarrow> keeps (calm I) (case_option n q y)"
  "keeps (calm I) t \<Longrightarrow> keeps (calm I) u \<Longrightarrow> keeps (calm I) (if b then t else u)"
  by (simp_all split: prod.split option.split)

lemmas calm_bind_value = keeps_bind_value [OF calm_order(2)]

lemma calm_resolve_all [calm_intros]: "keeps (calm I) (resolve_all rqs (rejected e))"
  unfolding resolve_all_def by (intro calm_intros)

lemma rev_parse_calls [call_intros]: "os_keeps no_merge R (ev_os env) \<Longrightarrow> keeps R (rev_parse env p r)"
  unfolding rev_parse_def by (intro call_intros | assumption | simp)+

lemma cherry_pick_calls [call_intros]: "os_keeps no_merge R (ev_os env) \<Longrightarrow> keeps R (cherry_pick_range env a b c)"
  unfolding cherry_pick_range_def Let_def by (intro call_intros | assumption | simp)+

lemma pick_each_calls [call_intros]: "os_keeps no_merge R (ev_os env) \<Longrightarrow> keeps R (pick_each env rqs a b)"
  by (induction rqs) (simp_all, (intro call_intros | assumption)+)

lemma create_staging_calls [call_intros]: "os_keeps no_merge R (ev_os env) \<Longrightarrow> keeps R (create_staging env ref)"
  unfolding create_staging_def Let_def by (intro call_intros | assumption | simp)+

text \<open>Everything the queue does in such an environment.\<close>

lemma calm_note_step [calm_intros]: "never_builds I env \<Longrightarrow> keeps (calm I) (note_step env a b c d)"
  unfolding note_step_def
  by (cases "ev_on_step env")
     (simp_all, rule calm_steps, rule calm_on_world, simp add: never_builds_def keeps_def wkeeps_def)

lemma calm_build [calm_intros]: "never_builds I env \<Longrightarrow> keeps (calm I) (build env st)"
  unfolding build_def by (rule calm_on_world) (simp add: never_builds_def keeps_def wkeeps_def)

lemma build_fails: "never_builds I env \<Longrightarrow> build env st s = (Inr (ok, err), s') \<Longrightarrow> \<not> ok"
  by (cases ok) (auto simp: build_def on_world_def never_builds_def split: prod.splits, metis fst_conv)

lemma calm_calls [calm_intros]:
  assumes "never_builds I env"
  shows "keeps (calm I) (on_world (cherry_pick_range env a b c))"
    "keeps (calm I) (on_world (pick_each env rqs a b))"
    "keeps (calm I) (on_world (create_staging env ref))"
    "keeps (calm I) (on_world (rev_parse env p r))"
    "keeps (calm I) (on_world (cleanup_worktree (ev_os env) st repo))"
    "keeps (calm I) (on_world (rebase_onto_main (ev_os env) wt repo n))"
    "keeps (calm I) (on_world (git (ev_os env) (Some st) [''reset'', ''--hard'', ref] (Some LOCAL_TIMEOUT) False))"
proof -
  note os = never_builds_os [OF assms]
  show "keeps (calm I) (on_world (cherry_pick_range env a b c))"
    "keeps (calm I) (on_world (pick_each env rqs a b))"
    "keeps (calm I) (on_world (create_staging env ref))"
    "keeps (calm I) (on_world (rev_parse env p r))"
    "keeps (calm I) (on_world (cleanup_worktree (ev_os env) st repo))"
    "keeps (calm I) (on_world (rebase_onto_main (ev_os env) wt repo n))"
    by (rule calm_on_world, rule call_intros, rule os)+
  show "keeps (calm I) (on_world (git (ev_os env) (Some st) [''reset'', ''--hard'', ref] (Some LOCAL_TIMEOUT) False))"
    by (rule calm_on_world, rule calls_git [OF os]) simp
qed

lemma calm_rebase_all [calm_intros]: "never_builds I env \<Longrightarrow> keeps (calm I) (rebase_all_onto_main env rqs)"
  by (induction rqs) (simp_all del: append.simps, (intro calm_intros | assumption)+)

lemma calm_stage_all [calm_intros]: "never_builds I env \<Longrightarrow> keeps (calm I) (stage_all env rqs st ref)"
  by (induction rqs) (simp_all, (intro calm_intros | assumption)+)

lemma calm_rebuild [calm_intros]: "never_builds I env \<Longrightarrow> keeps (calm I) (rebuild_staging_and_test env st subs ref)"
  unfolding rebuild_staging_and_test_def by (intro calm_intros | assumption)+

lemma rebuild_fails:
  "never_builds I env \<Longrightarrow> rebuild_staging_and_test env st subs ref s = (Inr (ok, left), s') \<Longrightarrow> \<not> ok"
  unfolding rebuild_staging_and_test_def
  by (auto simp: bindE_Inr_iff seqE_Inr_iff split: option.splits dest: build_fails simp del: append.simps)

lemma calm_halves:
  assumes "never_builds I env" "\<And>left. keeps (calm I) (bisect_subset depth env left ref err)"
  shows "keeps (calm I) (bindE (rebuild_staging_and_test env staging half ref) (\<lambda>(left_ok, left).
             if left_ok then k left else seqE (forE right put) (bisect_subset depth env left ref err)))"
proof (rule calm_bind_value)
  fix s a s'
  assume "rebuild_staging_and_test env staging half ref s = (Inr a, s')"
  then obtain left where "a = (False, left)"
    using rebuild_fails [OF assms(1)] by (metis (full_types) surj_pair)
  then show "keeps (calm I) (case a of (left_ok, left) \<Rightarrow>
       if left_ok then k left else seqE (forE right put) (bisect_subset depth env left ref err))"
    by simp (intro calm_intros assms)
qed (rule calm_rebuild [OF assms(1)])

lemma calm_bisect_subset [calm_intros]: "never_builds I env \<Longrightarrow> keeps (calm I) (bisect_subset depth env subs ref err)"
proof (induction depth arbitrary: subs ref)
  case 0 then show ?case by (simp add: calm_intros)
next
  case (Suc depth)
  show ?case
  proof (cases "length subs = 1")
    case True
    then obtain rq where "subs = [rq]" by (auto simp: length_Suc_conv)
    then show ?thesis by (simp only: bisect_single) (intro calm_intros)
  next
    case False
    show ?thesis unfolding bisect_subset_unfold [OF False] Let_def
      by (intro calm_intros calm_halves Suc)
  qed
qed

lemma calm_bisect_and_land [calm_intros]:
  assumes "never_builds I env" shows "keeps (calm I) (bisect_and_land depth env subs st ref err)"
proof (cases "length subs = 1")
  case True
  then obtain rq where "subs = [rq]" by (auto simp: length_Suc_conv)
  then show ?thesis by (simp only: bisect_single) (intro calm_intros)
next
  case False
  show ?thesis unfolding bisect_and_land_unfold [OF False] Let_def
    by (intro calm_intros calm_halves assms)
qed

lemma halves_merge_none:
  assumes "never_builds I env"
    and "bindE (rebuild_staging_and_test env staging half ref) (\<lambda>(left_ok, left).
             if left_ok then k left else seqE (forE right put) (bisect_subset depth env left ref err)) s = (Inr ids, s')"
    and "\<And>left s. bisect_subset depth env left ref err s = (Inr ids, s') \<Longrightarrow> ids = []"
  shows "ids = []"
  using assms(2) by (auto simp: bindE_Inr_iff seqE_Inr_iff dest: rebuild_fails [OF assms(1)] assms(3) split: if_splits)

lemma bisect_subset_merges_none:
  "never_builds I env \<Longrightarrow> bisect_subset depth env subs ref err s = (Inr ids, s') \<Longrightarrow> ids = []"
proof (induction depth arbitrary: subs ref s ids s')
  case (Suc depth)
  show ?case
  proof (cases "length subs = 1")
    case True
    then obtain rq where "subs = [rq]" by (auto simp: length_Suc_conv)
    then show ?thesis using Suc.prems(2) unfolding \<open>subs = [rq]\<close> bisect_single by (auto simp: seqE_Inr_iff)
  next
    case False
    show ?thesis using Suc.prems(2) unfolding bisect_subset_unfold [OF False] Let_def
      by (auto simp: bindE_Inr_iff [where m = "on_world _"] dest!: finallyE_Inr
          intro: halves_merge_none [OF Suc.prems(1)] Suc.IH [OF Suc.prems(1)])
  qed
qed simp

lemma bisect_and_land_merges_none:
  assumes "never_builds I env" "bisect_and_land depth env subs st ref err s = (Inr ids, s')" shows "ids = []"
proof (cases "length subs = 1")
  case True
  then obtain rq where "subs = [rq]" by (auto simp: length_Suc_conv)
  then show ?thesis using assms(2) unfolding \<open>subs = [rq]\<close> bisect_single by (auto simp: seqE_Inr_iff)
next
  case False
  show ?thesis
    by (rule halves_merge_none [OF assms(1) assms(2) [unfolded bisect_and_land_unfold [OF False] Let_def]
      bisect_subset_merges_none [OF assms(1)]])
qed

lemma calm_build_and_land [calm_intros]:
  assumes "never_builds I env" shows "keeps (calm I) (build_and_land depth env staged st ref)"
  unfolding build_and_land_def
proof (rule calm_bind_value [OF calm_build [OF assms]])
  fix s a s' assume "build env st s = (Inr a, s')"
  then obtain err where a: "a = (False, err)" using build_fails [OF assms] by (metis (full_types) surj_pair)
  have "keeps (calm I) (bindE (bisect_and_land depth env staged st ref err) (\<lambda>ids. fire_callback env ref ids))"
  proof (rule calm_bind_value [OF calm_bisect_and_land [OF assms]])
    fix s ids s' assume "bisect_and_land depth env staged st ref err s = (Inr ids, s')"
    then have "ids = []" by (rule bisect_and_land_merges_none [OF assms])
    then have "fire_callback env ref ids = ret ()" by (simp add: fire_callback_def whenE_def split: option.split)
    then show "keeps (calm I) (fire_callback env ref ids)" by (simp add: calm_intros)
  qed
  then show "keeps (calm I) (case a of (ok, err) \<Rightarrow> bindE (if ok then land_batch env staged st ref
      else bisect_and_land depth env staged st ref err) (\<lambda>ids. fire_callback env ref ids))"
    by (simp add: a)
qed

lemma calm_save_trace [calm_intros]:
  assumes "never_builds I env" shows "keeps (calm I) (save_trace env ref)"
proof (cases "ev_trace_save env")
  case None
  then show ?thesis unfolding save_trace_def by (simp) (intro calm_intros assms)
next
  case (Some f)
  have f: "keeps (wkeeps I) (f name)" for name
    using assms Some by (simp add: never_builds_def keeps_def wkeeps_def)
  show ?thesis unfolding save_trace_def Some option.case by (intro calm_intros assms f)
qed

lemma calm_handle_batch [calm_intros]:
  assumes "never_builds I env" shows "keeps (calm I) (handle_batch depth env batch)"
proof -
  have "keeps (calm I) (stage_and_land depth env rebased ref)" for rebased ref
    unfolding stage_and_land_def by (intro calm_intros assms)
  then have "keeps (calm I) (process_batch depth env batch)"
    unfolding process_batch_def main_head_def by (intro calm_intros assms)
  moreover have "keeps (calm I) (reject_undone batch)"
    unfolding reject_undone_def
    by (intro calm_intros) (auto simp: keeps_def calm_def set_result_def is_done_def none_merged_def is_merged_def rejected_def)
  ultimately show ?thesis unfolding handle_batch_def by (intro calm_intros)
qed

lemma calm_others:
  "none_merged (snd (submit a wt s)) = none_merged s" "mq_world (snd (submit a wt s)) = mq_world s"
  "queue_get s = (x, s') \<Longrightarrow> none_merged s' = none_merged s \<and> mq_world s' = mq_world s"
  by (auto simp: none_merged_def submit_def queue_get_def split: list.splits)

lemma calm_submits: "none_merged (submits xs s) = none_merged s \<and> mq_world (submits xs s) = mq_world s"
  unfolding submits_def by (induction xs arbitrary: s) (simp_all add: calm_others(1,2) split_beta)

lemma calm_collect_more:
  "collect_more env ws b s = (b', s') \<Longrightarrow> none_merged s' = none_merged s \<and> mq_world s' = mq_world s"
proof (induction env ws b s rule: collect_more.induct)
  case (3 env xs ws b s)
  then show ?case using calm_submits [of xs s] calm_others(3) [of "submits xs s"]
    by (auto split: if_splits prod.splits option.splits)
qed auto

lemma calm_collect:
  "collect_batch env first ws s = (b, s') \<Longrightarrow> none_merged s' = none_merged s \<and> mq_world s' = mq_world s"
proof -
  assume c: "collect_batch env first ws s = (b, s')"
  obtain x s1 where g: "queue_get (submits first s) = (x, s1)" by fastforce
  have 1: "none_merged s1 = none_merged s \<and> mq_world s1 = mq_world s"
    using calm_others(3) [OF g] calm_submits [of first s] by simp
  show ?thesis
  proof (cases x)
    case None then show ?thesis using c g 1 by (simp add: collect_batch_def)
  next
    case (Some rq)
    then have "collect_more env ws [rq] s1 = (b, s')" using c g by (simp add: collect_batch_def)
    then show ?thesis using calm_collect_more 1 by metis
  qed
qed

lemma calm_cancels:
  "none_merged s \<Longrightarrow> none_merged (foldl (\<lambda>s f. cancel f s) s fs)"
  "mq_world (foldl (\<lambda>s f. cancel f s) s fs) = mq_world s"
proof -
  have "none_merged s \<Longrightarrow> none_merged (cancel f s) \<and> mq_world (cancel f s) = mq_world s" for f s
    by (auto simp: none_merged_def cancel_def is_done_def is_merged_def)
  then show "none_merged s \<Longrightarrow> none_merged (foldl (\<lambda>s f. cancel f s) s fs)"
    by (induction fs arbitrary: s) auto
  show "mq_world (foldl (\<lambda>s f. cancel f s) s fs) = mq_world s"
    by (induction fs arbitrary: s) (simp_all add: cancel_def)
qed

lemma calm_run:
  assumes "never_builds I env"
  shows "none_merged s \<and> I (mq_world s) \<Longrightarrow> none_merged (run depth env turns s) \<and> I (mq_world (run depth env turns s))"
proof (induction turns arbitrary: s)
  case (Cons tn turns)
  show ?case
  proof (cases "mq_stopped s")
    case False
    obtain b s1 where c: "collect_batch env (tn_first tn) (tn_waits tn) s = (b, s1)" by fastforce
    let ?s2 = "foldl (\<lambda>s f. cancel f s) s1 (tn_cancels tn)"
    let ?s3 = "if b = [] then ?s2 else snd (handle_batch depth env b ?s2)"
    have "none_merged ?s2 \<and> I (mq_world ?s2)"
      using calm_collect [OF c] Cons.prems by (simp add: calm_cancels)
    moreover have "calm I ?s2 (snd (handle_batch depth env b ?s2))"
      using calm_handle_batch [OF assms] by (simp add: keeps_def)
    ultimately have "none_merged ?s3 \<and> I (mq_world ?s3)" by (simp add: calm_def)
    then have "none_merged (if tn_stop tn then stop ?s3 else ?s3) \<and> I (mq_world (if tn_stop tn then stop ?s3 else ?s3))"
      by (simp add: none_merged_def stop_def)
    then show ?thesis using Cons.IH c False by (simp add: Let_def)
  qed (use Cons.prems in simp)
qed simp

text \<open>C5: If the build function never passes, the queue never merges: whatever is kept by every command other
  than \<open>git merge\<close> (and by the build and the hooks) still holds after any number of turns, in
  particular the main branch is where it was, and no submission is answered as merged.\<close>

theorem no_merge_without_build:
  assumes "never_builds I env" "I w" "s = run depth env turns (new_queue w)"
  shows "I (mq_world s) \<and> (\<forall>f r. dget (mq_futures s) f = Some (Resolved r) \<longrightarrow> mr_status r = REJECTED)"
proof -
  have "none_merged (new_queue w)" by (simp add: none_merged_def new_queue_def)
  then have "none_merged s \<and> I (mq_world s)"
    using calm_run [OF assms(1)] assms(2,3) by (metis new_queue_def mq.select_convs(1))
  then show ?thesis by (auto simp: none_merged_def is_merged_def split: future_state.splits) (metis merge_status.exhaust)
qed

section \<open>A batch without trouble is merged as a whole\<close>

text \<open>A computation that returns whatever the world is, touching nothing of the queue but the world.\<close>

definition always :: "('a \<Rightarrow> bool) \<Rightarrow> ('w, 'a) eff \<Rightarrow> bool" where
  "always Q m \<longleftrightarrow> (\<forall>w. \<exists>a w'. m w = (Inr a, w') \<and> Q a)"

definition quietly :: "('a \<Rightarrow> bool) \<Rightarrow> ('w mq, 'a) eff \<Rightarrow> bool" where
  "quietly Q m \<longleftrightarrow> (\<forall>s. \<exists>a w. m s = (Inr a, s\<lparr>mq_world := w\<rparr>) \<and> Q a)"

lemma always_ret: "Q a \<Longrightarrow> always Q (ret a)"
  by (simp add: always_def)

lemma always_bind: "always Q m \<Longrightarrow> (\<And>a. Q a \<Longrightarrow> always P (g a)) \<Longrightarrow> always P (bindE m g)"
  unfolding always_def bindE_Inr_iff by metis

lemma always_seq: "always Q m \<Longrightarrow> always P n \<Longrightarrow> always P (seqE m n)"
  unfolding seqE_def by (rule always_bind)

lemma always_catch: "always Q m \<Longrightarrow> always Q (catchE m h)"
  unfolding always_def catchE_Inr_iff by metis

lemma finallyE_InrI: "m s = (Inr a, s') \<Longrightarrow> fin s' = (Inr u, s'') \<Longrightarrow> finallyE m fin s = (Inr a, s'')"
  by (simp add: finallyE_def)

lemma always_finally: "always Q m \<Longrightarrow> always P fin \<Longrightarrow> always Q (finallyE m fin)"
  unfolding always_def by (metis finallyE_InrI)

lemma always_mono: "always Q m \<Longrightarrow> (\<And>a. Q a \<Longrightarrow> P a) \<Longrightarrow> always P m"
  unfolding always_def by blast

lemma quietly_on_world: "always Q m \<Longrightarrow> quietly Q (on_world m)"
  unfolding always_def quietly_def on_world_def by (metis (no_types, lifting) old.prod.case)

lemma quietly_ret: "Q a \<Longrightarrow> quietly Q (ret a)"
  unfolding quietly_def ret_def by (metis mq.surjective mq.update_convs(1))

lemma quietly_bind: "quietly Q m \<Longrightarrow> (\<And>a. Q a \<Longrightarrow> quietly P (g a)) \<Longrightarrow> quietly P (bindE m g)"
  unfolding quietly_def bindE_def
proof
  fix s
  assume m: "\<forall>s. \<exists>a w. m s = (Inr a, s\<lparr>mq_world := w\<rparr>) \<and> Q a"
    and g: "\<And>a. Q a \<Longrightarrow> \<forall>s. \<exists>b w. g a s = (Inr b, s\<lparr>mq_world := w\<rparr>) \<and> P b"
  obtain a w where 1: "m s = (Inr a, s\<lparr>mq_world := w\<rparr>)" "Q a" using m by blast
  obtain b w' where 2: "g a (s\<lparr>mq_world := w\<rparr>) = (Inr b, s\<lparr>mq_world := w\<rparr>\<lparr>mq_world := w'\<rparr>)" "P b" using g [OF 1(2)] by blast
  then show "\<exists>b w. (case m s of (Inl e, s') \<Rightarrow> (Inl e, s') | (Inr a, s') \<Rightarrow> g a s') = (Inr b, s\<lparr>mq_world := w\<rparr>) \<and> P b"
    using 1 by auto
qed

text \<open>An environment in which every command succeeds, every path exists and the build passes.\<close>

definition friendly :: "'w mq_env \<Rightarrow> bool" where
  "friendly env \<longleftrightarrow>
     (\<forall>w cwd args tmo e. \<exists>out err w'. ev_os env w (Git cwd args tmo e) = (Completed 0 out err, w') \<and> strip out \<noteq> []) \<and>
     (\<forall>w p. \<exists>w'. ev_os env w (PathExists p) = (Answer True, w')) \<and>
     (\<forall>w p. \<exists>w'. ev_os env w (LockFile p) = (Done, w')) \<and>
     (\<forall>w p. \<exists>w' msg. ev_build_fn env p w = (Inr (True, msg), w')) \<and>
     ev_on_step env = None \<and> ev_on_batch_merged env = None \<and> ev_trace_save env = None"

lemma git_Completed: "os w (Git cwd args tmo e) = (Completed rc out err, w') \<Longrightarrow>
    git os cwd args tmo e w = (Inr \<lparr>returncode = rc, stdout = out, stderr = err\<rparr>, w')"
  by (simp add: git_def)

lemma friendly_git:
  assumes "friendly env"
  shows "always (\<lambda>p. git_ok p \<and> strip (stdout p) \<noteq> []) (git (ev_os env) cwd args tmo e)"
  unfolding always_def
proof
  fix w
  obtain out err w' where "ev_os env w (Git cwd args tmo e) = (Completed 0 out err, w')" "strip out \<noteq> []"
    using assms unfolding friendly_def by blast
  then show "\<exists>a w'. git (ev_os env) cwd args tmo e w = (Inr a, w') \<and> git_ok a \<and> strip (stdout a) \<noteq> []"
    using git_Completed [of "ev_os env" w cwd args tmo e 0 out err w'] by (auto simp: git_ok_def)
qed

lemma friendly_exists: "friendly env \<Longrightarrow> always (\<lambda>b. b) (ask (ev_os env) (PathExists p))"
  unfolding always_def
proof
  fix w assume "friendly env"
  then obtain w' where "ev_os env w (PathExists p) = (Answer True, w')" unfolding friendly_def by blast
  then show "\<exists>a w'. ask (ev_os env) (PathExists p) w = (Inr a, w') \<and> a" by (auto simp: ask_def)
qed

lemma friendly_lock:
  "friendly env \<Longrightarrow> always (\<lambda>_. True) (act (ev_os env) (LockFile p))"
  "always (\<lambda>_. True) (act_ignore os c)"
proof -
  assume f: "friendly env"
  show "always (\<lambda>_. True) (act (ev_os env) (LockFile p))" unfolding always_def
  proof
    fix w
    obtain w' where "ev_os env w (LockFile p) = (Done, w')" using f unfolding friendly_def by blast
    then show "\<exists>a w'. act (ev_os env) (LockFile p) w = (Inr a, w') \<and> True" by (auto simp: act_def)
  qed
qed (simp add: always_def act_ignore_def)

text \<open>The pieces of a batch there.\<close>

lemma friendly_cleanup: "friendly env \<Longrightarrow> always (\<lambda>_. True) (cleanup_worktree (ev_os env) wt repo)"
  unfolding cleanup_worktree_def
  by (rule always_bind [where Q = "\<lambda>r. \<exists>p. r = Some p \<and> git_ok p"])
     (auto intro!: always_catch always_bind [OF friendly_git] always_ret)

lemma friendly_create: "friendly env \<Longrightarrow> always (\<lambda>_. True) (create_staging env ref)"
  unfolding create_staging_def create_worktree_def Let_def
  by (auto intro!: always_seq [OF friendly_lock(1)] always_finally [OF _ friendly_lock(2)] always_seq [OF friendly_git]
      always_bind [OF friendly_exists] always_bind [OF friendly_git] always_ret)

lemma friendly_rebase: "friendly env \<Longrightarrow> always (\<lambda>(ok, err). ok) (rebase_onto_main (ev_os env) wt repo n)"
  unfolding rebase_onto_main_def
  by (rule always_bind [where Q = "\<lambda>r. \<exists>p. r = Inr p \<and> git_ok p"])
     (auto intro!: always_catch always_bind [OF friendly_git] always_ret)

lemma friendly_pick: "friendly env \<Longrightarrow> always (\<lambda>(ok, err). ok) (cherry_pick_range env a b c)"
  unfolding cherry_pick_range_def Let_def
  by (auto intro!: always_bind [OF friendly_git] always_ret)

lemma friendly_rev_parse: "friendly env \<Longrightarrow> always (\<lambda>h. \<exists>x. h = Some x \<and> x \<noteq> []) (rev_parse env p r)"
  unfolding rev_parse_def by (auto intro!: always_bind [OF friendly_git] always_ret)

lemma friendly_merge: "friendly env \<Longrightarrow> always (\<lambda>(ok, err). ok) (merge_to_main (ev_os env) wt repo ff n False)"
  unfolding merge_to_main_def merge_to_main_locked_def reset_repo_def Let_def
  by (auto intro!: always_seq [OF friendly_lock(1)] always_finally [OF _ friendly_lock(2)]
      always_seq [OF always_seq [OF friendly_git always_bind [OF friendly_git always_ret]]] always_ret
      always_bind [where Q = "\<lambda>r. \<exists>p. r = Inr p \<and> git_ok p"] always_catch
      always_bind [OF friendly_git])

lemma friendly_note_step: "friendly env \<Longrightarrow> quietly (\<lambda>_. True) (note_step env a b c d)"
  by (simp add: note_step_def friendly_def quietly_ret)

lemma quietly_seq: "quietly Q m \<Longrightarrow> quietly P n \<Longrightarrow> quietly P (seqE m n)"
  unfolding seqE_def by (rule quietly_bind)

lemma friendly_rebase_all: "friendly env \<Longrightarrow> quietly (\<lambda>reb. reb = rqs) (rebase_all_onto_main env rqs)"
proof (induction rqs)
  case (Cons rq rqs)
  then show ?case
    by (auto intro!: quietly_bind [OF quietly_on_world [OF friendly_rebase]] quietly_seq [OF friendly_note_step]
        quietly_bind [OF Cons.IH] quietly_ret simp del: append.simps)
qed (simp add: quietly_ret)

lemma friendly_stage_all: "friendly env \<Longrightarrow> quietly (\<lambda>st. st = rqs) (stage_all env rqs staging ref)"
proof (induction rqs)
  case (Cons rq rqs)
  then show ?case
    by (auto intro!: quietly_bind [OF quietly_on_world [OF friendly_pick]] quietly_seq [OF friendly_note_step]
        quietly_bind [OF Cons.IH] quietly_ret)
qed (simp add: quietly_ret)

text \<open>Resolving a whole batch with one merged result.\<close>

definition all_resolved :: "merge_request list \<Rightarrow> 'w mq \<Rightarrow> 'w mq \<Rightarrow> bool" where
  "all_resolved batch s s' \<longleftrightarrow> (\<exists>pre post. pre \<noteq> [] \<and> post \<noteq> [] \<and>
     (\<forall>f. dget (mq_futures s') f = (if f \<in> rq_future ` set batch then Some (Resolved (merged pre (Some post)))
        else dget (mq_futures s) f)) \<and> mq_queue s' = mq_queue s)"

definition lands :: "merge_request list \<Rightarrow> ('w mq, 'a) eff \<Rightarrow> bool" where
  "lands batch m \<longleftrightarrow> (\<forall>s. (\<forall>rq \<in> set batch. \<not> is_done s (rq_future rq)) \<longrightarrow>
     (\<exists>a s'. m s = (Inr a, s') \<and> all_resolved batch s s'))"

lemma all_resolved_world [simp]:
  "all_resolved batch (s\<lparr>mq_world := w\<rparr>) s' = all_resolved batch s s'"
  "all_resolved batch s (s'\<lparr>mq_world := w\<rparr>) = all_resolved batch s s'"
  by (simp_all add: all_resolved_def)

lemma lands_after:
  fixes m :: "('w mq, 'a) eff"
  shows "quietly Q m \<Longrightarrow> (\<And>a. Q a \<Longrightarrow> lands batch (g a)) \<Longrightarrow> lands batch (bindE m g)"
  unfolding lands_def
proof (intro allI impI)
  fix s :: "'w mq"
  assume m: "quietly Q m" and g: "\<And>a. Q a \<Longrightarrow> \<forall>s. (\<forall>rq \<in> set batch. \<not> is_done s (rq_future rq)) \<longrightarrow>
     (\<exists>b s'. g a s = (Inr b, s') \<and> all_resolved batch s s')" and s: "\<forall>rq\<in>set batch. \<not> is_done s (rq_future rq)"
  obtain a w where 1: "m s = (Inr a, s\<lparr>mq_world := w\<rparr>)" "Q a" using m unfolding quietly_def by blast
  have "\<forall>rq\<in>set batch. \<not> is_done (s\<lparr>mq_world := w\<rparr>) (rq_future rq)" using s by (simp add: is_done_def)
  then obtain b s' where "g a (s\<lparr>mq_world := w\<rparr>) = (Inr b, s')" "all_resolved batch (s\<lparr>mq_world := w\<rparr>) s'"
    using g [OF 1(2)] by blast
  then show "\<exists>b s'. bindE m g s = (Inr b, s') \<and> all_resolved batch s s'"
    using 1 by (auto simp: bindE_def)
qed

lemma lands_then:
  fixes m :: "('w mq, 'a) eff"
  shows "lands batch m \<Longrightarrow> (\<And>a. quietly Q (g a)) \<Longrightarrow> lands batch (bindE m g)"
  unfolding lands_def
proof (intro allI impI)
  fix s :: "'w mq"
  assume m: "\<forall>s. (\<forall>rq \<in> set batch. \<not> is_done s (rq_future rq)) \<longrightarrow>
     (\<exists>b s'. m s = (Inr b, s') \<and> all_resolved batch s s')" and g: "\<And>a. quietly Q (g a)"
    and s: "\<forall>rq\<in>set batch. \<not> is_done s (rq_future rq)"
  obtain a s1 where 1: "m s = (Inr a, s1)" "all_resolved batch s s1" using m s by blast
  obtain b w where "g a s1 = (Inr b, s1\<lparr>mq_world := w\<rparr>)" using g unfolding quietly_def by blast
  then show "\<exists>b s'. bindE m g s = (Inr b, s') \<and> all_resolved batch s s'"
    using 1 by (auto simp: bindE_def)
qed

lemma lands_finally:
  fixes m :: "('w mq, 'a) eff"
  shows "lands batch m \<Longrightarrow> quietly Q fin \<Longrightarrow> lands batch (finallyE m fin)"
  unfolding lands_def
proof (intro allI impI)
  fix s :: "'w mq"
  assume m: "\<forall>s. (\<forall>rq \<in> set batch. \<not> is_done s (rq_future rq)) \<longrightarrow>
     (\<exists>b s'. m s = (Inr b, s') \<and> all_resolved batch s s')" and g: "quietly Q fin"
    and s: "\<forall>rq\<in>set batch. \<not> is_done s (rq_future rq)"
  obtain a s1 where 1: "m s = (Inr a, s1)" "all_resolved batch s s1" using m s by blast
  obtain b w where "fin s1 = (Inr b, s1\<lparr>mq_world := w\<rparr>)" using g unfolding quietly_def by blast
  then show "\<exists>b s'. finallyE m fin s = (Inr b, s') \<and> all_resolved batch s s'"
    using 1 by (auto simp: finallyE_InrI)
qed

lemma resolve_all_exact:
  "distinct (map rq_future rqs) \<Longrightarrow> (\<forall>rq \<in> set rqs. \<not> is_done s (rq_future rq)) \<Longrightarrow>
   \<exists>s'. resolve_all rqs r s = (Inr (), s') \<and> mq_queue s' = mq_queue s \<and> mq_world s' = mq_world s \<and>
     (\<forall>f. dget (mq_futures s') f = (if f \<in> rq_future ` set rqs then Some (Resolved r) else dget (mq_futures s) f))"
proof (induction rqs arbitrary: s)
  case (Cons rq rqs)
  let ?s1 = "s\<lparr>mq_futures := dset (mq_futures s) (rq_future rq) (Resolved r)\<rparr>"
  have 1: "set_result (rq_future rq) r s = (Inr (), ?s1)" using Cons.prems by (simp add: set_result_def)
  have "\<forall>rq' \<in> set rqs. \<not> is_done ?s1 (rq_future rq')"
  proof
    fix rq' assume r: "rq' \<in> set rqs"
    then have "rq_future rq' \<noteq> rq_future rq" using Cons.prems(1) by (metis distinct.simps(2) image_eqI list.set_map list.simps(9))
    then show "\<not> is_done ?s1 (rq_future rq')" using Cons.prems(2) r by (simp add: is_done_def)
  qed
  then obtain s' where s': "resolve_all rqs r ?s1 = (Inr (), s')" "mq_queue s' = mq_queue s" "mq_world s' = mq_world s"
    "\<forall>f. dget (mq_futures s') f = (if f \<in> rq_future ` set rqs then Some (Resolved r) else dget (mq_futures ?s1) f)"
    using Cons.IH [of ?s1] Cons.prems by auto
  have "resolve_all (rq # rqs) r s = (Inr (), s')"
    using 1 s'(1) by (simp add: resolve_all_def eff_simps)
  then show ?case using s' by auto
qed (simp add: resolve_all_def ret_def)

lemma lands_resolve_all: "distinct (map rq_future rqs) \<Longrightarrow> pre \<noteq> [] \<Longrightarrow> post \<noteq> [] \<Longrightarrow>
    lands rqs (resolve_all rqs (merged pre (Some post)))"
  unfolding lands_def all_resolved_def by (metis resolve_all_exact)

lemma quietly_cleanup: "friendly env \<Longrightarrow> quietly (\<lambda>_. True) (on_world (cleanup_worktree (ev_os env) st repo))"
  by (rule quietly_on_world [OF friendly_cleanup])

lemma friendly_save_trace: "friendly env \<Longrightarrow> quietly (\<lambda>_. True) (save_trace env ref)"
  unfolding save_trace_def
  by (rule quietly_bind [OF quietly_on_world [OF friendly_rev_parse]]) (auto simp: friendly_def quietly_ret)

lemma friendly_land: 
  assumes "friendly env" "distinct (map rq_future batch)" "ref \<noteq> []"
  shows "lands batch (land_batch env batch st ref)"
  unfolding land_batch_def
proof (rule lands_after [OF quietly_on_world [OF friendly_merge [OF assms(1)]]])
  fix a :: "bool \<times> string" assume "case a of (ok, err) \<Rightarrow> ok"
  then obtain err where a: "a = (True, err)" by (cases a) auto
  show "lands batch (case a of (ok, err) \<Rightarrow> bindE (on_world (rev_parse env (ev_repo_root env) ''HEAD'')) (\<lambda>post_hash.
       if ok then seqE (resolve_all batch (merged ref post_hash)) (ret (map rq_agent batch))
       else seqE (resolve_all batch (rejected (''Merge to main failed: '' @ err))) (ret [])))"
    unfolding a prod.case if_True seqE_def
    by (rule lands_after [OF quietly_on_world [OF friendly_rev_parse [OF assms(1)]]])
       (auto intro!: lands_then lands_resolve_all quietly_ret assms)
qed

lemma friendly_build_and_land:
  assumes "friendly env" "distinct (map rq_future batch)" "ref \<noteq> []"
  shows "lands batch (build_and_land depth env batch st ref)"
proof -
  have b: "quietly (\<lambda>(ok, err). ok) (build env st)"
    unfolding build_def
  proof (rule quietly_on_world, unfold always_def, rule)
    fix w obtain w' msg where "ev_build_fn env st w = (Inr (True, msg), w')"
      using assms(1) unfolding friendly_def by blast
    then show "\<exists>a w'. ev_build_fn env st w = (Inr a, w') \<and> (case a of (ok, err) \<Rightarrow> ok)" by auto
  qed
  have c: "fire_callback env ref ids = ret ()" for ids
    using assms(1) by (simp add: fire_callback_def friendly_def)
  show ?thesis unfolding build_and_land_def c
    by (rule lands_after [OF b]) (auto intro!: lands_then friendly_land quietly_ret assms)
qed

text \<open>When every git command succeeds, every path exists, the build passes and there are no hooks, a batch
  of distinct, still waiting requests is merged as a whole: each of its submitters is answered as
  merged with the same hashes before and after, the futures of others are untouched and nothing is
  deferred.\<close>

theorem good_batch_merges:
  assumes "friendly env" "distinct (map rq_future batch)" "batch \<noteq> []"
    and "\<forall>rq \<in> set batch. dget (mq_futures s) (rq_future rq) = None"
  shows "\<exists>s' pre post. handle_batch depth env batch s = (Inr (), s') \<and> mq_queue s' = mq_queue s \<and>
    (\<forall>f. dget (mq_futures s') f =
      (if f \<in> rq_future ` set batch then Some (Resolved (merged pre (Some post))) else dget (mq_futures s) f))"
proof -
  have stage: "lands batch (stage_and_land depth env batch ref)" if "ref \<noteq> []" for ref
    unfolding stage_and_land_def
  proof (rule lands_after [OF quietly_on_world [OF friendly_create [OF assms(1)]]],
      rule lands_finally [OF _ quietly_cleanup [OF assms(1)]],
      rule lands_after [OF friendly_stage_all [OF assms(1)]])
    fix st staged assume "staged = batch"
    then show "lands batch (whenE (staged \<noteq> []) (build_and_land depth env staged st ref))"
      using friendly_build_and_land [OF assms(1,2) that] assms(3) by (simp add: whenE_def)
  qed
  have head: "quietly (\<lambda>h. \<exists>x. h = Some x \<and> x \<noteq> []) (main_head env)"
    unfolding main_head_def
    by (rule quietly_bind [OF quietly_on_world [OF friendly_rev_parse [OF assms(1)]]]) (auto intro: quietly_ret)
  have "lands batch (process_batch depth env batch)"
    unfolding process_batch_def
  proof (rule lands_after [OF head])
    fix h :: "string option"
    assume "\<exists>x. h = Some x \<and> x \<noteq> []"
    then obtain ref where h: "h = Some ref" "ref \<noteq> []" by blast
    have "lands batch (bindE (rebase_all_onto_main env batch) (\<lambda>rebased.
              whenE (rebased \<noteq> []) (stage_and_land depth env rebased ref)))"
      by (rule lands_after [OF friendly_rebase_all [OF assms(1)]])
         (simp add: whenE_def assms(3) stage [OF h(2)])
    then show "lands batch (case h of None \<Rightarrow> resolve_all batch (rejected ''Cannot resolve main HEAD'')
       | Some main_ref \<Rightarrow> finallyE (bindE (rebase_all_onto_main env batch) (\<lambda>rebased.
              whenE (rebased \<noteq> []) (stage_and_land depth env rebased main_ref))) (save_trace env main_ref))"
      unfolding h option.case by (rule lands_finally [OF _ friendly_save_trace [OF assms(1)]])
  qed
  then obtain s' where "process_batch depth env batch s = (Inr (), s')" "all_resolved batch s s'"
    using assms(4) unfolding lands_def is_done_def by force
  then obtain pre post where r: "process_batch depth env batch s = (Inr (), s')" "mq_queue s' = mq_queue s"
    "\<forall>f. dget (mq_futures s') f = (if f \<in> rq_future ` set batch then Some (Resolved (merged pre (Some post)))
        else dget (mq_futures s) f)"
    unfolding all_resolved_def by blast
  then have "handle_batch depth env batch s = (Inr (), s')" by (simp add: handle_batch_def catchE_def)
  then show ?thesis using r by blast
qed

section \<open>Where the queue does not do what it means to\<close>

subsection \<open>A cherry-pick that fails while bisecting\<close>

definition same_answers :: "'w mq \<Rightarrow> 'w mq \<Rightarrow> bool" where
  "same_answers s s' \<longleftrightarrow> mq_futures s' = mq_futures s \<and> mq_queue s' = mq_queue s"

lemma same_answers_order [simp]: "reflp same_answers" "transp same_answers"
  by (auto simp: same_answers_def reflp_def transp_def)

lemma same_answers_on_world: "keeps same_answers (on_world m)"
  by (auto simp: keeps_def same_answers_def on_world_def split: prod.split)

lemma on_world_ret: "on_world (ret a) = ret a"
  by (rule ext) (simp add: on_world_def ret_def)

lemma bindE_ret: "bindE (ret a) f = f a"
  by (rule ext) (simp add: bindE_def ret_def)

lemma rebuild_none_unfold: "rebuild_staging_and_test env st [] ref =
    seqE (on_world (git (ev_os env) (Some st) [''reset'', ''--hard'', ref] (Some LOCAL_TIMEOUT) False))
     (bindE (build env st) (\<lambda>(ok, _). ret (ok, [])))"
  by (simp add: rebuild_staging_and_test_def on_world_ret bindE_ret)

lemma rebuild_none:
  "keeps same_answers (rebuild_staging_and_test env st [] ref)"
  "rebuild_staging_and_test env st [] ref s = (Inr (ok, left), s') \<Longrightarrow> left = []"
  unfolding rebuild_none_unfold build_def
  by (auto simp: bindE_Inr_iff seqE_Inr_iff intro!: keeps_seqE keeps_bindE same_answers_on_world keeps_ret)

lemma land_none: "keeps same_answers (land_batch env [] st pre)"
  unfolding land_batch_def
  by (auto simp: resolve_all_def intro!: keeps_bindE keeps_seqE same_answers_on_world keeps_ret split: prod.splits)

text \<open>Once a subset is empty, bisecting calls itself until Python gives up.\<close>

lemma bisect_nothing_raises: "bisect_subset depth env [] ref err s \<noteq> (Inr ids, s')"
proof (induction depth arbitrary: ref s ids s')
  case (Suc depth)
  show ?case
  proof
    assume "bisect_subset (Suc depth) env [] ref err s = (Inr ids, s')"
    then obtain st s1 s2 where "bindE (rebuild_staging_and_test env st [] ref) (\<lambda>(left_ok, left).
             if left_ok
             then bindE (land_batch env left st ref) (\<lambda>ids.
                  bindE (current_main env ref) (\<lambda>new_main.
                  bindE (bisect_subset depth env [] new_main err) (\<lambda>ids'. ret (ids @ ids'))))
             else seqE (forE [] put) (bisect_subset depth env left ref err)) s1 = (Inr ids, s2)"
      using bisect_subset_unfold [of "[]" depth env ref err]
      by (auto simp: bindE_Inr_iff [where m = "on_world _"] Let_def simp del: forE.simps dest!: finallyE_Inr)
    then show False
      using Suc.IH by (auto simp: bindE_Inr_iff seqE_Inr_iff split: if_splits dest!: rebuild_none(2))
  qed
qed (simp add: throw_def)

lemma bisect_nothing_answers: "keeps same_answers (bisect_subset depth env [] ref err)"
proof (induction depth arbitrary: ref)
  case (Suc depth)
  have body: "keeps same_answers (bindE (rebuild_staging_and_test env st [] ref) (\<lambda>(left_ok, left).
             if left_ok
             then bindE (land_batch env left st ref) (\<lambda>ids.
                  bindE (current_main env ref) (\<lambda>new_main.
                  bindE (bisect_subset depth env [] new_main err) (\<lambda>ids'. ret (ids @ ids'))))
             else seqE (forE [] put) (bisect_subset depth env left ref err)))" for st
  proof (rule keeps_bind_value [OF same_answers_order(2) rebuild_none(1)])
    fix s a s' assume "rebuild_staging_and_test env st [] ref s = (Inr a, s')"
    then obtain ok where "a = (ok, [])" using rebuild_none(2) by (metis surj_pair)
    then show "keeps same_answers (case a of (left_ok, left) \<Rightarrow>
        if left_ok
        then bindE (land_batch env left st ref) (\<lambda>ids.
             bindE (current_main env ref) (\<lambda>new_main.
             bindE (bisect_subset depth env [] new_main err) (\<lambda>ids'. ret (ids @ ids'))))
        else seqE (forE [] put) (bisect_subset depth env left ref err))"
      by (auto simp: current_main_def intro!: keeps_bindE keeps_seqE land_none same_answers_on_world keeps_ret Suc.IH
          split: option.splits)
  qed
  have "length ([] :: merge_request list) \<noteq> 1" by simp
  note unf = bisect_subset_unfold [OF this, of depth env ref err, unfolded Let_def, simplified drop_Nil take_Nil]
  show ?case unfolding unf
    by (rule keeps_bindE [OF same_answers_order(2) same_answers_on_world])
       (rule keeps_finallyE [OF same_answers_order(2) body same_answers_on_world])
qed (simp add: keeps_throw)


text \<open>When, while bisecting four requests, the second one no longer cherry-picks onto the first, the first
  one is rejected as the culprit of the failed build although nothing is built any more: the world is
  the one the failed cherry-pick left.\<close>

theorem bisect_blames_without_build:
  assumes "rebuild_staging_and_test env st [a, b] ref s = (Inr (False, [a]), s1)" "\<not> is_done s1 (rq_future a)"
  shows "\<exists>s'. bisect_and_land (Suc depth) env [a, b, c, d] st ref err s = (Inr [], s') \<and> mq_world s' = mq_world s1 \<and>
    dget (mq_futures s') (rq_future a) =
      Some (Resolved (rejected (''Build failed (identified by bisect):'' @ [nl] @ err)))"
proof -
  have "length [a, b, c, d] \<noteq> 1" by simp
  note unf = bisect_and_land_unfold [OF this, of "Suc depth" env st ref err]
  have mid: "length [a, b, c, d] div 2 = 2" by simp
  have tk: "take 2 [a, b, c, d] = [a, b]" "drop 2 [a, b, c, d] = [c, d]"
    by (simp_all add: numeral_2_eq_2)
  show ?thesis using assms unfolding unf Let_def mid tk
    by (simp add: eff_simps put_def set_result_def is_done_def)
qed

subsection \<open>A submitter that was cancelled\<close>

text \<open>When a request of a batch has a cancelled submitter and the batch was merged into main, answering
  the cancelled one raises, and the handler answers all requests after it as rejected although
  their commits are on main.\<close>

theorem cancelled_submitter_misreports:
  assumes "merge_to_main (ev_os env) st (ev_repo_root env) False DEFAULT_DIFF_TRUNCATION False (mq_world s) = (Inr (True, []), w1)"
    and "rev_parse env (ev_repo_root env) ''HEAD'' w1 = (Inr post, w2)"
    and "dget (mq_futures s) (rq_future a) = Some Cancelled" and "dget (mq_futures s) (rq_future b) = None"
  shows "land_batch env [a, b] st pre s = (Inl InvalidStateError, s\<lparr>mq_world := w2\<rparr>) \<and>
    dget (mq_futures (snd (reject_undone [a, b] (s\<lparr>mq_world := w2\<rparr>)))) (rq_future b) =
      Some (Resolved (rejected ''Internal merge queue error''))"
  using assms
  by (simp add: land_batch_def eff_simps on_world_def resolve_all_def reject_undone_def set_result_def is_done_def)

section \<open>Concrete runs\<close>

definition demo_env :: "string list \<Rightarrow> bool \<Rightarrow> os_call list mq_env" where
  "demo_env failing ok = \<lparr>ev_os = demo_os failing, ev_repo_root = ''/r'',
     ev_build_fn = (\<lambda>p w. (Inr (ok, ''log''), w)), ev_batch_size = 10, ev_on_batch_merged = None,
     ev_on_step = None, ev_trace_save = None, ev_now = (\<lambda>w. 0)\<rparr>"

definition demo_rq :: "nat \<Rightarrow> merge_request" where
  "demo_rq n = \<lparr>rq_agent = ''a'' @ str_nat n, rq_worktree = ''/w'' @ str_nat n, rq_future = n\<rparr>"

definition demo_turn :: turn where
  "demo_turn = \<lparr>tn_first = [(''a'', ''/a''), (''b'', ''/b'')], tn_waits = [Waited []], tn_cancels = [], tn_stop = True\<rparr>"

theorem no_request_lost_witness:
  "is_done (run 9 (demo_env [''cherry-pick''] True) [demo_turn] (new_queue [])) 1 \<or>
   (\<exists>rq \<in> set (mq_queue (run 9 (demo_env [''cherry-pick''] True) [demo_turn] (new_queue []))). rq_future rq = 1)"
proof -
  have "1 < mq_next_future (run 9 (demo_env [''cherry-pick''] True) [demo_turn] (new_queue []))" by code_simp
  then show ?thesis unfolding is_done_def by (rule no_request_lost [OF refl])
qed

theorem no_merge_without_build_witness:
  "list_all (\<lambda>c. \<not> is_merge c) (mq_world (run 9 (demo_env [] False) [demo_turn] (new_queue []))) \<and>
   none_merged (run 9 (demo_env [] False) [demo_turn] (new_queue []))"
proof -
  have "never_builds (list_all (\<lambda>c. \<not> is_merge c)) (demo_env [] False)"
    by (simp add: never_builds_def demo_env_def demo_os_def)
  from no_merge_without_build [OF this _ refl, of "[]" 9 "[demo_turn]"] show ?thesis
    by (auto simp: none_merged_def is_merged_def split: future_state.split)
qed

definition fine_env :: "os_call list mq_env" where
  "fine_env = (demo_env [] True)\<lparr>ev_os := (\<lambda>w c.
     (case c of PathExists p \<Rightarrow> Answer True | LockFile p \<Rightarrow> Done | _ \<Rightarrow> Completed 0 ''abc'' [], w @ [c]))\<rparr>"

theorem good_batch_merges_witness:
  "\<exists>s' pre post. handle_batch 9 fine_env [demo_rq 0, demo_rq 1] (new_queue []) = (Inr (), s') \<and> mq_queue s' = [] \<and>
    (\<forall>f. dget (mq_futures s') f =
      (if f \<in> {0, 1} then Some (Resolved (merged pre (Some post)))
       else dget (mq_futures (new_queue [] :: os_call list mq)) f))"
proof -
  have "strip ''abc'' \<noteq> []" by code_simp
  then have "friendly fine_env" by (simp add: friendly_def fine_env_def demo_env_def)
  moreover have "rq_future (demo_rq n) = n" for n by (simp add: demo_rq_def)
  moreover have "mq_queue (new_queue [] :: os_call list mq) = []" "mq_futures (new_queue [] :: os_call list mq) = []"
    by (simp_all add: new_queue_def)
  ultimately show ?thesis
    using good_batch_merges [of fine_env "[demo_rq 0, demo_rq 1]" "new_queue []" 9] by simp
qed



text \<open>Here the worktree of the second request cannot be fetched.\<close>

definition stuck_env :: "os_call list mq_env" where
  "stuck_env = (demo_env [] False)\<lparr>ev_os := (\<lambda>w c.
     (case c of Git cwd args tmo e \<Rightarrow>
        (if ''/w1'' \<in> set args then (Completed 1 [] ''gone'', w @ [c]) else demo_os [] w c)
      | _ \<Rightarrow> demo_os [] w c))\<rparr>"

theorem bisect_blames_without_build_witness:
  "\<exists>s'. bisect_and_land 9 stuck_env [demo_rq 0, demo_rq 1, demo_rq 2, demo_rq 3] ''/st'' ''m'' ''bad'' (new_queue []) =
      (Inr [], s') \<and>
    mq_world s' = mq_world (snd (rebuild_staging_and_test stuck_env ''/st'' [demo_rq 0, demo_rq 1] ''m'' (new_queue []))) \<and>
    dget (mq_futures s') (rq_future (demo_rq 0)) =
      Some (Resolved (rejected (''Build failed (identified by bisect):'' @ [nl] @ ''bad'')))"
proof -
  let ?r = "rebuild_staging_and_test stuck_env ''/st'' [demo_rq 0, demo_rq 1] ''m'' (new_queue [])"
  have "fst ?r = Inr (False, [demo_rq 0])" by code_simp
  then have r: "?r = (Inr (False, [demo_rq 0]), snd ?r)" by (metis surjective_pairing)
  have "\<not> is_done (snd ?r) (rq_future (demo_rq 0))" by code_simp
  then show ?thesis using bisect_blames_without_build [OF r, of 8] by simp
qed

theorem cancelled_submitter_misreports_witness:
  "\<exists>w2. let s = cancel 0 (snd (submit ''a1'' ''/w1'' (snd (submit ''a0'' ''/w0'' (new_queue []))))) in
    land_batch (demo_env [] True) [demo_rq 0, demo_rq 1] ''/st'' ''m'' s = (Inl InvalidStateError, s\<lparr>mq_world := w2\<rparr>) \<and>
    dget (mq_futures (snd (reject_undone [demo_rq 0, demo_rq 1] (s\<lparr>mq_world := w2\<rparr>)))) (rq_future (demo_rq 1)) =
      Some (Resolved (rejected ''Internal merge queue error''))"
proof -
  let ?s = "cancel 0 (snd (submit ''a1'' ''/w1'' (snd (submit ''a0'' ''/w0'' (new_queue [])))))"
  let ?m = "merge_to_main (ev_os (demo_env [] True)) ''/st'' (ev_repo_root (demo_env [] True)) False DEFAULT_DIFF_TRUNCATION False (mq_world ?s)"
  let ?p = "rev_parse (demo_env [] True) (ev_repo_root (demo_env [] True)) ''HEAD'' (snd ?m)"
  have "fst ?m = Inr (True, [])" by code_simp
  then have m: "?m = (Inr (True, []), snd ?m)" by (metis surjective_pairing)
  have "fst ?p = Inr (Some ''abc'')" by code_simp
  then have p: "?p = (Inr (Some ''abc''), snd ?p)" by (metis surjective_pairing)
  have "dget (mq_futures ?s) (rq_future (demo_rq 0)) = Some Cancelled" "dget (mq_futures ?s) (rq_future (demo_rq 1)) = None"
    by (simp_all add: cancel_def submit_def new_queue_def demo_rq_def is_done_def)
  then show ?thesis using cancelled_submitter_misreports [OF m p] by (simp add: Let_def) blast
qed

end
