(* ===== verification/Merge_Client_Correct.thy ===== *)
theory Merge_Client_Correct
  imports Merge_Queue
begin

text \<open>
  The worker's end of the merge bridge: which future a response of the coordinator resolves.
\<close>

text \<open>The steps of a running client; only a future that was handed out can be cancelled.\<close>

datatype client_op = COSubmit string string | COReceive merge_response | COCancel nat

fun run_client_op :: "merge_client \<Rightarrow> client_op \<Rightarrow> merge_client" where
  "run_client_op c (COSubmit agent wt) = snd (client_submit c agent wt)"
| "run_client_op c (COReceive m) = snd (client_receive c m)"
| "run_client_op c (COCancel f) = (if f < mc_next_future c then client_cancel f c else c)"

definition client_inv :: "merge_client \<Rightarrow> bool" where
  "client_inv c \<longleftrightarrow>
     (\<forall>k f. dget (mc_pending c) k = Some f \<longrightarrow> f < mc_next_future c \<and> (\<exists>a n. k = request_id a n \<and> n \<le> mc_counter c)) \<and>
     (\<forall>f x. dget (mc_futures c) f = Some x \<longrightarrow> f < mc_next_future c)"

lemma request_id_number: "request_id a m = request_id b n \<Longrightarrow> m = n"
proof -
  have tw: "takeWhile (\<lambda>c. c \<noteq> CHR ''-'') (rev (request_id x k)) = rev (str_nat k)" for x k
  proof -
    have "c \<noteq> CHR ''-''" if "c \<in> set (str_nat k)" for c
      using isdigit_str_nat [of k] that by (auto simp: isdigit_def list_all_iff is_digit_char_def)
    then show ?thesis by (simp add: request_id_def, subst takeWhile_append2) auto
  qed
  assume "request_id a m = request_id b n"
  then have "rev (str_nat m) = rev (str_nat n)" using tw by metis
  then show ?thesis by simp
qed

lemma client_inv_submit: "client_inv c \<Longrightarrow> client_inv (snd (client_submit c a wt))"
  unfolding client_inv_def client_submit_def Let_def
  by (auto simp: less_Suc_eq) (metis le_SucI order_refl)+

lemma client_inv_receive: "client_inv c \<Longrightarrow> client_inv (snd (client_receive c m))"
  unfolding client_inv_def client_receive_def Let_def
  by (auto simp: delete_conv split: option.splits sum.splits if_splits)

lemma client_inv_cancel: "client_inv c \<Longrightarrow> f < mc_next_future c \<Longrightarrow> client_inv (client_cancel f c)"
  by (auto simp: client_inv_def client_cancel_def)

lemma client_inv_run: "client_inv (foldl run_client_op (new_client rank) ops)"
proof -
  have "client_inv c \<Longrightarrow> client_inv (foldl run_client_op c ops)" for c
  proof (induction ops arbitrary: c)
    case (Cons op ops)
    then show ?case
      by (cases op) (auto intro: client_inv_submit client_inv_receive client_inv_cancel)
  qed simp
  moreover have "client_inv (new_client rank)" by (simp add: client_inv_def new_client_def)
  ultimately show ?thesis by blast
qed

lemma client_inv_fresh: "client_inv c \<Longrightarrow> dget (mc_pending c) (request_id a (mc_counter c + 1)) = None"
proof (rule ccontr)
  assume i: "client_inv c" and "dget (mc_pending c) (request_id a (mc_counter c + 1)) \<noteq> None"
  then obtain b n where "request_id a (mc_counter c + 1) = request_id b n" "n \<le> mc_counter c"
    unfolding client_inv_def by blast
  then show False using request_id_number by fastforce
qed

text \<open>After any history of the worker's client, a submission is registered under an id that is not in
  use, whatever the agents are called, without disturbing the waiting ones; and the response that
  carries this id resolves exactly the new submission's future and takes only its entry away.\<close>

theorem client_routes_response:
  assumes "c = foldl run_client_op (new_client rank) ops" "client_submit c agent wt = (f, c')"
    and "rid = request_id agent (mc_counter c + 1)" "client_receive c' (response_of rid r) = (res, c'')"
  shows "dget (mc_pending c) rid = None \<and> res = Inr () \<and>
    (\<forall>k. dget (mc_pending c'') k = dget (mc_pending c) k) \<and>
    (\<forall>g. dget (mc_futures c'') g = (if g = f then Some (Resolved r) else dget (mc_futures c) g))"
proof -
  have i: "client_inv c" unfolding assms(1) by (rule client_inv_run)
  have fresh: "dget (mc_pending c) rid = None" unfolding assms(3) by (rule client_inv_fresh [OF i])
  have c': "f = mc_next_future c" "mc_pending c' = dset (mc_pending c) rid f" "mc_futures c' = mc_futures c"
    using assms(2,3) by (auto simp: client_submit_def Let_def)
  have "dget (mc_futures c) f = None"
    using i c'(1) unfolding client_inv_def by (metis less_irrefl option.exhaust)
  moreover have "result_of_response (response_of rid r) = Inr r"
    by (cases "mr_status r") (simp_all add: result_of_response_def response_of_def merge_status_of_def)
  ultimately have "res = Inr ()" "mc_pending c'' = ddel (mc_pending c') rid"
    "mc_futures c'' = dset (mc_futures c) f (Resolved r)"
    using assms(4) c' by (auto simp: client_receive_def response_of_def Let_def)
  then show ?thesis using fresh c' by (auto simp: delete_conv)
qed

theorem client_routes_response_witness:
  "let c = foldl run_client_op (new_client 1) [COSubmit ''x-1'' ''/x'', COCancel 0]; s = client_submit c ''x'' ''/y'';
       rid = request_id ''x'' (mc_counter c + 1); t = client_receive (snd s) (response_of rid (rejected ''no''))
   in dget (mc_pending c) rid = None \<and> dget (mc_futures (snd t)) (fst s) = Some (Resolved (rejected ''no''))"
proof -
  let ?c = "foldl run_client_op (new_client 1) [COSubmit ''x-1'' ''/x'', COCancel 0]"
  obtain f c' where s: "client_submit ?c ''x'' ''/y'' = (f, c')" by fastforce
  obtain res c'' where t: "client_receive c' (response_of (request_id ''x'' (mc_counter ?c + 1)) (rejected ''no'')) = (res, c'')"
    by fastforce
  show ?thesis using client_routes_response [OF refl s refl t] s t by (simp only: Let_def fst_conv snd_conv simp_thms if_True)
qed

end
