(* ===== verification/Concurrent_Agents.thy ===== *)
theory Concurrent_Agents
  imports Worktree Executor_Interface
begin

text \<open>
  \<open>core/coordination/concurrent_agents.py\<close>: the workflow that takes an agent's work from its first
  answer through rebase, build and review into main, and the race of several agents on a task.
  The agents and reviewers (language models behind \<open>call\<close>), the build and the trace store are
  functions of the environment; \<open>asyncio.Lock\<close> serialises \<open>_attempt_merge\<close>, which here is one step.
\<close>

section \<open>State and environment\<close>

definition NO_COMMITS_FEEDBACK :: string where
  "NO_COMMITS_FEEDBACK = ''You haven'' @ [CHR 0x27] @ ''t made any commits yet. Please make your changes and commit them using the git tools.''"

text \<open>A worktree is \<open>None\<close> when the agent has no such attribute.\<close>

record agent =
  ag_id :: string
  ag_worktree :: "string option"

record task =
  ts_id :: string
  ts_description :: string

text \<open>
  \<open>ca_call\<close> takes an agent's id and a prompt and answers \<open>None\<close> when the turn limit is reached;
  \<open>ca_save_trace\<close> takes the agent's id, the final status and the error.
\<close>

record 'w ca =
  ca_os :: "'w os"
  ca_repo_root :: "string option"
  ca_max_review_cycles :: nat
  ca_build :: "agent \<Rightarrow> task \<Rightarrow> ('w, bool \<times> string) eff"
  ca_call :: "string \<Rightarrow> string \<Rightarrow> ('w, string option) eff"
  ca_reset :: "string \<Rightarrow> ('w, unit) eff"
  ca_save_trace :: "(string \<Rightarrow> string \<Rightarrow> string option \<Rightarrow> ('w, unit) eff) option"

text \<open>The worktree and the repository when both are given (an empty path counts as none).\<close>

definition places :: "'w ca \<Rightarrow> agent \<Rightarrow> (string \<times> string) option" where
  "places ca ag =
     (case (ag_worktree ag, ca_repo_root ca) of
        (Some wt, Some repo) \<Rightarrow> (if wt = [] then None else Some (wt, repo))
      | _ \<Rightarrow> None)"

section \<open>The checks\<close>

text \<open>The base class's \<open>build\<close>.\<close>

definition base_build :: "agent \<Rightarrow> task \<Rightarrow> ('w, bool \<times> string) eff" where
  "base_build ag task = ret (True, [])"

definition build_review_prompt :: "agent \<Rightarrow> task \<Rightarrow> string" where
  "build_review_prompt ag task =
     ''Review the changes in: '' @ (case ag_worktree ag of None \<Rightarrow> ''unknown'' | Some wt \<Rightarrow> wt) @ [nl] @
     ''Task: '' @ ts_description task @ [nl] @
     ''Check that the code is correct and complete.'' @ nlnl @
     ''Respond with APPROVED or REJECTED with feedback.''"

definition approves :: "string \<Rightarrow> bool" where
  "approves answer = contains (upper answer) ''APPROVED''"

definition no_answer :: "string option \<Rightarrow> bool" where
  "no_answer r = (r = None \<or> r = Some [])"

definition review :: "'w ca \<Rightarrow> agent \<Rightarrow> agent option \<Rightarrow> task \<Rightarrow> ('w, bool \<times> string) eff" where
  "review ca ag reviewer task =
     (case reviewer of
        None \<Rightarrow> ret (True, [])
      | Some rv \<Rightarrow>
          bindE (ca_call ca (ag_id rv) (build_review_prompt ag task)) (\<lambda>r.
            ret (if no_answer r then (False, ''Review timed out (max turns reached)'')
                 else (approves (the r), the r))))"

definition ca_rebase :: "'w ca \<Rightarrow> agent \<Rightarrow> ('w, bool \<times> string) eff" where
  "ca_rebase ca ag =
     (case places ca ag of
        None \<Rightarrow> ret (True, [])
      | Some (wt, repo) \<Rightarrow> rebase_onto_main (ca_os ca) wt repo DEFAULT_DIFF_TRUNCATION)"

definition ca_merge :: "'w ca \<Rightarrow> agent \<Rightarrow> bool \<Rightarrow> ('w, bool \<times> string) eff" where
  "ca_merge ca ag lock_held =
     (case places ca ag of
        None \<Rightarrow> ret (True, [])
      | Some (wt, repo) \<Rightarrow> merge_to_main (ca_os ca) wt repo True DEFAULT_DIFF_TRUNCATION lock_held)"

definition ca_has_commits :: "'w ca \<Rightarrow> agent \<Rightarrow> ('w, bool) eff" where
  "ca_has_commits ca ag =
     (case places ca ag of None \<Rightarrow> ret True | Some (wt, repo) \<Rightarrow> has_commits (ca_os ca) wt repo)"

definition is_worktree_clean :: "'w ca \<Rightarrow> agent \<Rightarrow> ('w, bool) eff" where
  "is_worktree_clean ca ag =
     (case ag_worktree ag of
        None \<Rightarrow> ret True
      | Some wt \<Rightarrow>
          if wt = [] then ret True
          else bindE (git (ca_os ca) (Some wt) [''status'', ''--porcelain''] None False) (\<lambda>p.
            ret (strip (stdout p) = [])))"

definition ca_rev_parse :: "'w ca \<Rightarrow> string \<Rightarrow> string \<Rightarrow> ('w, string option) eff" where
  "ca_rev_parse ca path rv =
     bindE (git (ca_os ca) (Some path) [''rev-parse'', rv] None False) (\<lambda>p.
       ret (if git_ok p then Some (strip (stdout p)) else None))"

definition sync_agent :: "'w ca \<Rightarrow> agent \<Rightarrow> ('w, bool) eff" where
  "sync_agent ca ag =
     (case places ca ag of
        None \<Rightarrow> ret True
      | Some (wt, repo) \<Rightarrow>
          catchE (seqE (sync_to_main (ca_os ca) wt repo) (ret True))
            (\<lambda>e. case e of RuntimeError _ \<Rightarrow> ret False | _ \<Rightarrow> throw e))"

section \<open>Merging under the lock\<close>

record merge_attempt =
  at_landed :: bool
  at_pre_hash :: "string option"
  at_post_hash :: "string option"
  at_failure :: "string option"

definition not_landed :: "string \<Rightarrow> merge_attempt" where
  "not_landed msg = \<lparr>at_landed = False, at_pre_hash = None, at_post_hash = None, at_failure = Some msg\<rparr>"

definition head_of_repo :: "'w ca \<Rightarrow> ('w, string option) eff" where
  "head_of_repo ca = (case ca_repo_root ca of None \<Rightarrow> ret None | Some repo \<Rightarrow> ca_rev_parse ca repo ''HEAD'')"

text \<open>The hash after the merge: without a repository, \<open>Path("")\<close> of an agent without worktree is \<open>.\<close>.\<close>

definition landed :: "'w ca \<Rightarrow> agent \<Rightarrow> string option \<Rightarrow> ('w, merge_attempt) eff" where
  "landed ca ag pre_hash =
     bindE (case ca_repo_root ca of
              Some repo \<Rightarrow> ca_rev_parse ca repo ''HEAD''
            | None \<Rightarrow> ca_rev_parse ca (case ag_worktree ag of None \<Rightarrow> ''.'' | Some wt \<Rightarrow> if wt = [] then ''.'' else wt) ''HEAD'')
       (\<lambda>post_hash. ret \<lparr>at_landed = True, at_pre_hash = pre_hash, at_post_hash = post_hash, at_failure = None\<rparr>)"

definition merge_or_rebase :: "'w ca \<Rightarrow> agent \<Rightarrow> bool \<Rightarrow> ('w, merge_attempt) eff" where
  "merge_or_rebase ca ag lock_held =
     bindE (head_of_repo ca) (\<lambda>pre.
     bindE (ca_merge ca ag lock_held) (\<lambda>(merge_ok, _).
       if merge_ok then landed ca ag pre
       else bindE (ca_rebase ca ag) (\<lambda>(rebase_ok, rebase_error).
         if \<not> rebase_ok
         then ret (not_landed (''Merge failed, and rebase onto updated main also failed:'' @ [nl] @ rebase_error @ nlnl @
                ''Please fix the conflicts and commit.''))
         else bindE (head_of_repo ca) (\<lambda>pre2.
              bindE (ca_merge ca ag lock_held) (\<lambda>(merge_ok2, merge_error).
                if \<not> merge_ok2 then ret (not_landed (''Merge failed unexpectedly:'' @ [nl] @ merge_error))
                else landed ca ag pre2)))))"

definition do_merge :: "'w ca \<Rightarrow> agent \<Rightarrow> ('w, merge_attempt) eff" where
  "do_merge ca ag =
     (case ca_repo_root ca of
        None \<Rightarrow> merge_or_rebase ca ag False
      | Some repo \<Rightarrow>
          let lock = path_join repo ''.merge_lock''
          in seqE (act (ca_os ca) (Touch lock))
             (seqE (act (ca_os ca) (LockFile lock))
               (finallyE
                 (seqE (act (ca_os ca) (WriteFile lock (ag_id ag))) (merge_or_rebase ca ag True))
                 (act_ignore (ca_os ca) (UnlockFile lock)))))"

section \<open>The workflow of one agent\<close>

text \<open>What a turn of the loop comes to: another turn (with the review cycles so far), or its end.\<close>

datatype turn_outcome = Again nat | GaveUp | Landed "string option" "string option"

definition save_agent_trace :: "'w ca \<Rightarrow> agent \<Rightarrow> string \<Rightarrow> string option \<Rightarrow> ('w, unit) eff" where
  "save_agent_trace ca ag status err =
     (case ca_save_trace ca of None \<Rightarrow> ret () | Some f \<Rightarrow> f (ag_id ag) status err)"

definition finalize :: "'w ca \<Rightarrow> agent \<Rightarrow> agent option \<Rightarrow> string \<Rightarrow> string \<Rightarrow> string option \<Rightarrow> ('w, unit) eff" where
  "finalize ca ag reviewer status reviewer_status err =
     seqE (save_agent_trace ca ag status err)
       (case reviewer of None \<Rightarrow> ret () | Some rv \<Rightarrow> save_agent_trace ca rv reviewer_status None)"

definition finalize_failed :: "'w ca \<Rightarrow> agent \<Rightarrow> agent option \<Rightarrow> string \<Rightarrow> ('w, unit) eff" where
  "finalize_failed ca ag reviewer err = finalize ca ag reviewer ''failed'' ''not_invoked'' (Some err)"

text \<open>\<open>_ask_to_fix\<close> and what its callers make of it.\<close>

definition ask_to_fix :: "'w ca \<Rightarrow> agent \<Rightarrow> agent option \<Rightarrow> nat \<Rightarrow> string \<Rightarrow> string \<Rightarrow> ('w, turn_outcome) eff" where
  "ask_to_fix ca ag reviewer cycles prompt err =
     bindE (ca_call ca (ag_id ag) prompt) (\<lambda>r.
       if no_answer r then seqE (finalize_failed ca ag reviewer err) (ret GaveUp)
       else ret (Again cycles))"

definition TURN_LIMIT :: string where "TURN_LIMIT = ''Turn limit reached''"

definition ask_to_commit :: "'w ca \<Rightarrow> agent \<Rightarrow> agent option \<Rightarrow> nat \<Rightarrow> ('w, turn_outcome) eff" where
  "ask_to_commit ca ag reviewer cycles =
     bindE (is_worktree_clean ca ag) (\<lambda>clean.
       if clean
       then ask_to_fix ca ag reviewer cycles
              (''You haven'' @ [CHR 0x27] @ ''t written any files or made any commits. '' @
               ''Write your solution to a .lean file and commit it with git_add + git_commit.'')
              (''No commits and no changes '' @ em_dash @ '' agent produced nothing'')
       else ask_to_fix ca ag reviewer cycles NO_COMMITS_FEEDBACK ''Turn limit reached without commits'')"

definition review_failed :: "'w ca \<Rightarrow> agent \<Rightarrow> agent option \<Rightarrow> nat \<Rightarrow> string \<Rightarrow> ('w, turn_outcome) eff" where
  "review_failed ca ag reviewer cycles feedback =
     (if ca_max_review_cycles ca \<noteq> 0 \<and> cycles + 1 \<ge> ca_max_review_cycles ca
      then seqE (finalize_failed ca ag reviewer (''Max review cycles ('' @ str_nat (ca_max_review_cycles ca) @ '') reached''))
             (ret GaveUp)
      else ask_to_fix ca ag reviewer (cycles + 1)
             (''Review failed:'' @ [nl] @ feedback @ nlnl @ ''Please fix and commit.'') TURN_LIMIT)"

definition reset_reviewer :: "'w ca \<Rightarrow> agent option \<Rightarrow> ('w, unit) eff" where
  "reset_reviewer ca reviewer = (case reviewer of None \<Rightarrow> ret () | Some rv \<Rightarrow> ca_reset ca (ag_id rv))"

definition workflow_turn :: "'w ca \<Rightarrow> task \<Rightarrow> agent \<Rightarrow> agent option \<Rightarrow> nat \<Rightarrow> ('w, turn_outcome) eff" where
  "workflow_turn ca task ag reviewer cycles =
     bindE (ca_has_commits ca ag) (\<lambda>commits.
     if \<not> commits then ask_to_commit ca ag reviewer cycles
     else bindE (ca_rebase ca ag) (\<lambda>(rebase_ok, rebase_error).
     if \<not> rebase_ok
     then ask_to_fix ca ag reviewer cycles
            (''Rebase onto main failed (conflicts):'' @ [nl] @ rebase_error @ nlnl @ ''Please fix the conflicts and commit.'') TURN_LIMIT
     else bindE (ca_build ca ag task) (\<lambda>(build_ok, build_feedback).
     if \<not> build_ok
     then ask_to_fix ca ag reviewer cycles
            (''Build failed:'' @ [nl] @ build_feedback @ nlnl @ ''Please fix the errors and commit.'') TURN_LIMIT
     else seqE (reset_reviewer ca reviewer)
       (bindE (review ca ag reviewer task) (\<lambda>(review_ok, review_feedback).
     if \<not> review_ok then review_failed ca ag reviewer cycles review_feedback
     else bindE (do_merge ca ag) (\<lambda>att.
     if \<not> at_landed att
     then (case at_failure att of
             Some msg \<Rightarrow> (if msg = [] then ret (Again cycles) else ask_to_fix ca ag reviewer cycles msg TURN_LIMIT)
           | None \<Rightarrow> ret (Again cycles))
     else ret (Landed (at_pre_hash att) (at_post_hash att))))))))"

text \<open>The loop, looked at for a number of turns: \<open>None\<close> when it is still running after them.\<close>

record workflow_result =
  wr_agent :: string
  wr_success :: bool
  wr_pre_hash :: "string option"
  wr_post_hash :: "string option"

definition lost :: "agent \<Rightarrow> workflow_result" where
  "lost ag = \<lparr>wr_agent = ag_id ag, wr_success = False, wr_pre_hash = None, wr_post_hash = None\<rparr>"

definition won :: "agent \<Rightarrow> string option \<Rightarrow> string option \<Rightarrow> workflow_result" where
  "won ag pre post = \<lparr>wr_agent = ag_id ag, wr_success = True, wr_pre_hash = pre, wr_post_hash = post\<rparr>"

fun workflow_loop :: "nat \<Rightarrow> 'w ca \<Rightarrow> task \<Rightarrow> agent \<Rightarrow> agent option \<Rightarrow> nat \<Rightarrow> ('w, workflow_result option) eff" where
  "workflow_loop 0 ca task ag reviewer cycles = ret None"
| "workflow_loop (Suc n) ca task ag reviewer cycles =
     bindE (workflow_turn ca task ag reviewer cycles) (\<lambda>out. case out of
       Again cycles' \<Rightarrow> workflow_loop n ca task ag reviewer cycles'
     | GaveUp \<Rightarrow> ret (Some (lost ag))
     | Landed pre post \<Rightarrow> seqE (finalize ca ag reviewer ''success'' ''completed'' None) (ret (Some (won ag pre post))))"

definition agent_workflow :: "nat \<Rightarrow> 'w ca \<Rightarrow> task \<Rightarrow> agent \<Rightarrow> agent option \<Rightarrow> ('w, workflow_result option) eff" where
  "agent_workflow n ca task ag reviewer =
     bindE (sync_agent ca ag) (\<lambda>synced.
       if \<not> synced then ret (Some (lost ag))
       else seqE (ca_reset ca (ag_id ag)) (seqE (reset_reviewer ca reviewer)
         (catchE
           (bindE (ca_call ca (ag_id ag) (''[Task: '' @ ts_id task @ '']'' @ nlnl @ ts_description task)) (\<lambda>r.
              if no_answer r
              then seqE (finalize_failed ca ag reviewer ''Agent produced no response on initial call'') (ret (Some (lost ag)))
              else workflow_loop n ca task ag reviewer 0))
           (\<lambda>e. seqE (finalize_failed ca ag reviewer (err_text e)) (ret (Some (lost ag)))))))"

text \<open>A workflow that is cancelled because another agent won saves its traces and ends.\<close>

definition cancel_workflow :: "'w ca \<Rightarrow> agent \<Rightarrow> agent option \<Rightarrow> ('w, unit) eff" where
  "cancel_workflow ca ag reviewer = finalize ca ag reviewer ''cancelled'' ''cancelled'' None"

section \<open>The race\<close>

text \<open>The workflows in the order they end: the first one that succeeded wins, the rest are cancelled; an
  exception that left a workflow before any success ends the task.\<close>

fun first_success :: "workflow_result result list \<Rightarrow> workflow_result option result" where
  "first_success [] = Inr None"
| "first_success (Inl e # rest) = Inl e"
| "first_success (Inr r # rest) = (if wr_success r then Inr (Some r) else first_success rest)"

definition task_result :: "workflow_result option \<Rightarrow> concurrent_result" where
  "task_result winner = (case winner of
       None \<Rightarrow> failed_result ''All agents failed'' (Some CauseTask)
     | Some r \<Rightarrow> \<lparr>cr_success = True, cr_winner_id = Some (wr_agent r), cr_error = None, cr_failure_cause = None,
         cr_pre_merge_hash = wr_pre_hash r, cr_post_merge_hash = wr_post_hash r\<rparr>)"

definition run_task :: "workflow_result result list \<Rightarrow> concurrent_result result" where
  "run_task ended = rbind (first_success ended) (\<lambda>winner. Inr (task_result winner))"

end
