(* ===== verification/Concurrent_Agents_Correct.thy ===== *)
theory Concurrent_Agents_Correct
  imports Concurrent_Agents Worktree_Correct
begin

text \<open>
  A task is only won through every gate of the workflow, the workflow ends when the agent's turns
  do, and how a reviewer's answer is read.
\<close>

section \<open>The gates\<close>

text \<open>A turn of the loop that got the work into main, with the worlds between its checks.\<close>

definition passed_gates :: "'w ca \<Rightarrow> task \<Rightarrow> agent \<Rightarrow> agent option \<Rightarrow> workflow_result \<Rightarrow> bool" where
  "passed_gates ca task ag reviewer r \<longleftrightarrow> (\<exists>w1 w2 w3 w4 w5 w6 w7 e1 e2 e3 att.
     ca_has_commits ca ag w1 = (Inr True, w2) \<and>
     ca_rebase ca ag w2 = (Inr (True, e1), w3) \<and>
     ca_build ca ag task w3 = (Inr (True, e2), w4) \<and>
     reset_reviewer ca reviewer w4 = (Inr (), w5) \<and>
     review ca ag reviewer task w5 = (Inr (True, e3), w6) \<and>
     do_merge ca ag w6 = (Inr att, w7) \<and> at_landed att \<and>
     r = won ag (at_pre_hash att) (at_post_hash att))"

lemma ask_to_fix_Inr: "ask_to_fix ca ag reviewer c p e w = (Inr out, w') \<Longrightarrow> out = Again c \<or> out = GaveUp"
  by (auto simp: ask_to_fix_def bindE_Inr_iff seqE_Inr_iff split: if_splits)

lemma ask_to_commit_Inr: "ask_to_commit ca ag reviewer c w = (Inr out, w') \<Longrightarrow> out = Again c \<or> out = GaveUp"
  by (auto simp: ask_to_commit_def bindE_Inr_iff split: if_splits dest: ask_to_fix_Inr simp del: append.simps)

lemma review_failed_Inr: "review_failed ca ag reviewer c f w = (Inr out, w') \<Longrightarrow> out = Again (c + 1) \<or> out = GaveUp"
  by (auto simp: review_failed_def bindE_Inr_iff seqE_Inr_iff split: if_splits dest: ask_to_fix_Inr simp del: append.simps)

lemma turn_landed:
  assumes "workflow_turn ca task ag reviewer c w = (Inr (Landed pre post), w')"
  shows "passed_gates ca task ag reviewer (won ag pre post)"
proof -
  obtain commits w2 where 1: "ca_has_commits ca ag w = (Inr commits, w2)" and commits
    using assms unfolding workflow_turn_def
    by (auto simp: bindE_Inr_iff [where m = "ca_has_commits _ _"] split: if_splits dest: ask_to_commit_Inr)
  then obtain ok e w3 where 2: "ca_rebase ca ag w2 = (Inr (ok, e), w3)" and ok
    using assms unfolding workflow_turn_def
    by (auto simp: bindE_Inr_iff [where m = "ca_has_commits _ _"] bindE_Inr_iff [where m = "ca_rebase _ _"]
        split: if_splits dest: ask_to_fix_Inr simp del: append.simps)
  then obtain ok2 e2 w4 where 3: "ca_build ca ag task w3 = (Inr (ok2, e2), w4)" and ok2
    using assms 1 \<open>commits\<close> unfolding workflow_turn_def
    by (auto simp: bindE_Inr_iff [where m = "ca_has_commits _ _"] bindE_Inr_iff [where m = "ca_rebase _ _"]
        bindE_Inr_iff [where m = "ca_build _ _ _"] split: if_splits dest: ask_to_fix_Inr simp del: append.simps)
  have rest: "seqE (reset_reviewer ca reviewer) (bindE (review ca ag reviewer task) (\<lambda>(review_ok, review_feedback).
     if \<not> review_ok then review_failed ca ag reviewer c review_feedback
     else bindE (do_merge ca ag) (\<lambda>att.
     if \<not> at_landed att
     then (case at_failure att of
             Some msg \<Rightarrow> (if msg = [] then ret (Again c) else ask_to_fix ca ag reviewer c msg TURN_LIMIT)
           | None \<Rightarrow> ret (Again c))
     else ret (Landed (at_pre_hash att) (at_post_hash att))))) w4 = (Inr (Landed pre post), w')"
    using assms 1 2 3 \<open>commits\<close> \<open>ok\<close> \<open>ok2\<close> unfolding workflow_turn_def by (simp add: bindE_def)
  then obtain w5 ok3 e3 w6 where 4: "reset_reviewer ca reviewer w4 = (Inr (), w5)"
    and 5: "review ca ag reviewer task w5 = (Inr (ok3, e3), w6)"
    and mm: "(if \<not> ok3 then review_failed ca ag reviewer c e3
     else bindE (do_merge ca ag) (\<lambda>att.
     if \<not> at_landed att
     then (case at_failure att of
             Some msg \<Rightarrow> (if msg = [] then ret (Again c) else ask_to_fix ca ag reviewer c msg TURN_LIMIT)
           | None \<Rightarrow> ret (Again c))
     else ret (Landed (at_pre_hash att) (at_post_hash att)))) w6 = (Inr (Landed pre post), w')"
    by (auto simp: seqE_Inr_iff bindE_Inr_iff [where m = "review _ _ _ _"])
  have ok3 using mm review_failed_Inr by fastforce
  with mm obtain att w7 where "do_merge ca ag w6 = (Inr att, w7)" "at_landed att"
    "pre = at_pre_hash att" "post = at_post_hash att"
    by (auto simp: bindE_Inr_iff split: if_splits option.splits dest: ask_to_fix_Inr)
  moreover have "ca_has_commits ca ag w = (Inr True, w2)" "ca_rebase ca ag w2 = (Inr (True, e), w3)"
    "ca_build ca ag task w3 = (Inr (True, e2), w4)" "review ca ag reviewer task w5 = (Inr (True, e3), w6)"
    using 1 2 3 5 \<open>commits\<close> \<open>ok\<close> \<open>ok2\<close> \<open>ok3\<close> by simp_all
  ultimately show ?thesis unfolding passed_gates_def using 4 by blast
qed

lemma loop_landed:
  "workflow_loop n ca task ag reviewer c w = (Inr (Some r), w') \<Longrightarrow> wr_success r \<Longrightarrow> passed_gates ca task ag reviewer r"
proof (induction n arbitrary: c w)
  case (Suc n)
  obtain out w1 where 1: "workflow_turn ca task ag reviewer c w = (Inr out, w1)"
    and 2: "(case out of Again c' \<Rightarrow> workflow_loop n ca task ag reviewer c' | GaveUp \<Rightarrow> ret (Some (lost ag))
       | Landed pre post \<Rightarrow> seqE (finalize ca ag reviewer ''success'' ''completed'' None) (ret (Some (won ag pre post)))) w1
         = (Inr (Some r), w')"
    using Suc.prems(1) by (auto simp: bindE_Inr_iff)
  show ?case
  proof (cases out)
    case (Again c')
    then show ?thesis using 2 Suc.IH Suc.prems(2) by simp
  next
    case GaveUp
    then show ?thesis using 2 Suc.prems(2) by (simp add: lost_def)
  next
    case (Landed pre post)
    then have "r = won ag pre post" using 2 by (auto simp: seqE_Inr_iff)
    then show ?thesis using turn_landed [OF 1 [unfolded Landed]] by simp
  qed
qed simp

text \<open>C6: When the workflow of an agent reports success, its last turn found commits, rebased without conflict
  onto main, built, was approved by the reviewer (if there is one) and was merged under the lock, in
  this order with nothing in between, and the hashes it reports are those of that merge.\<close>

theorem winner_passed_gates:
  assumes "agent_workflow n ca task ag reviewer w = (Inr (Some r), w')" "wr_success r"
  shows "passed_gates ca task ag reviewer r"
  using assms
  by (auto simp: agent_workflow_def bindE_Inr_iff seqE_Inr_iff catchE_Inr_iff lost_def split: if_splits
      dest: loop_landed simp del: append.simps)

section \<open>The workflow ends with the agent's turns\<close>

text \<open>A measure that no operation raises and that every answered call lowers, such as the turns left.\<close>

definition turns_run_out :: "('w \<Rightarrow> nat) \<Rightarrow> 'w ca \<Rightarrow> bool" where
  "turns_run_out mu ca \<longleftrightarrow>
     (\<forall>w c. mu (snd (ca_os ca w c)) \<le> mu w) \<and>
     (\<forall>w ag task. mu (snd (ca_build ca ag task w)) \<le> mu w) \<and>
     (\<forall>w id. mu (snd (ca_reset ca id w)) \<le> mu w) \<and>
     (\<forall>w f id st err. ca_save_trace ca = Some f \<longrightarrow> mu (snd (f id st err w)) \<le> mu w) \<and>
     (\<forall>w id p. mu (snd (ca_call ca id p w)) \<le> mu w) \<and>
     (\<forall>w w' id p a. ca_call ca id p w = (Inr (Some a), w') \<longrightarrow> a \<noteq> [] \<longrightarrow> mu w' < mu w)"

definition falls :: "('w \<Rightarrow> nat) \<Rightarrow> 'w \<Rightarrow> 'w \<Rightarrow> bool" where
  "falls mu w w' \<longleftrightarrow> mu w' \<le> mu w"

definition drops :: "('w \<Rightarrow> nat) \<Rightarrow> ('w, turn_outcome) eff \<Rightarrow> bool" where
  "drops mu m \<longleftrightarrow> (\<forall>w c w'. m w = (Inr (Again c), w') \<longrightarrow> mu w' < mu w)"

lemma falls_os: "turns_run_out mu ca \<Longrightarrow> os_keeps (\<lambda>_. True) (falls mu) (ca_os ca)"
  by (auto simp: turns_run_out_def os_keeps_def falls_def reflp_def transp_def intro: order_trans)

lemma os_keeps_weaken: "os_keeps (\<lambda>_. True) R os \<Longrightarrow> os_keeps P R os"
  by (simp add: os_keeps_def)

lemma falls_order [simp]: "reflp (falls mu)" "transp (falls mu)"
  by (auto simp: falls_def reflp_def transp_def)

lemma drops_after:
  assumes "keeps (falls mu) m" "\<And>w a w'. m w = (Inr a, w') \<Longrightarrow> drops mu (f a)" shows "drops mu (bindE m f)"
  unfolding drops_def
proof (intro allI impI)
  fix w c w' assume "bindE m f w = (Inr (Again c), w')"
  then obtain a w1 where 1: "m w = (Inr a, w1)" "f a w1 = (Inr (Again c), w')" by (auto simp: bindE_Inr_iff)
  have "falls mu w w1" by (rule keepsD [OF assms(1) 1(1)])
  moreover have "mu w' < mu w1" using assms(2) [OF 1(1)] 1(2) by (auto simp: drops_def)
  ultimately show "mu w' < mu w" by (simp add: falls_def)
qed

lemma drops_ret: "(\<And>c. out \<noteq> Again c) \<Longrightarrow> drops mu (ret out)"
  by (auto simp: drops_def)

lemma falls_save: "turns_run_out mu ca \<Longrightarrow> keeps (falls mu) (save_agent_trace ca ag st err)"
  by (cases "ca_save_trace ca")
     (auto simp: save_agent_trace_def turns_run_out_def keeps_def falls_def ret_def)

lemma falls_finalize: "turns_run_out mu ca \<Longrightarrow> keeps (falls mu) (finalize ca ag rv st st' err)"
  unfolding finalize_def by (auto intro!: keeps_seqE falls_save keeps_ret split: option.split)

lemma drops_ask:
  assumes "turns_run_out mu ca" shows "drops mu (ask_to_fix ca ag rv c p err)"
  unfolding drops_def
proof (intro allI impI)
  fix w c' w' assume "ask_to_fix ca ag rv c p err w = (Inr (Again c'), w')"
  then obtain a where "ca_call ca (ag_id ag) p w = (Inr (Some a), w')" "a \<noteq> []"
    by (auto simp: ask_to_fix_def bindE_Inr_iff seqE_Inr_iff no_answer_def split: if_splits)
  then show "mu w' < mu w" using assms unfolding turns_run_out_def by blast
qed

lemma falls_git: "turns_run_out mu ca \<Longrightarrow> keeps (falls mu) (git (ca_os ca) cwd args tmo e)"
  by (rule calls_git [OF falls_os]) simp_all

lemma falls_checks:
  assumes t: "turns_run_out mu ca"
  shows "keeps (falls mu) (ca_has_commits ca ag)" "keeps (falls mu) (ca_rebase ca ag)"
    "keeps (falls mu) (is_worktree_clean ca ag)" "keeps (falls mu) (review ca ag rv task)"
    "keeps (falls mu) (reset_reviewer ca rv)" "keeps (falls mu) (ca_build ca ag task)"
proof -
  note os = os_keeps_weaken [OF falls_os [OF t]]
  have call: "keeps (falls mu) (ca_call ca i p)" for i p
    using t by (simp add: turns_run_out_def keeps_def falls_def)
  show "keeps (falls mu) (ca_has_commits ca ag)" unfolding ca_has_commits_def has_commits_def Let_def
    by (auto intro!: keeps_bindE falls_git t keeps_ret split: option.split)
  show "keeps (falls mu) (ca_rebase ca ag)" unfolding ca_rebase_def
    by (auto intro!: rebase_calls os keeps_ret split: option.split)
  show "keeps (falls mu) (is_worktree_clean ca ag)" unfolding is_worktree_clean_def
    by (auto intro!: keeps_bindE falls_git t keeps_ret split: option.split)
  show "keeps (falls mu) (review ca ag rv task)" unfolding review_def
    by (auto intro!: keeps_bindE call keeps_ret split: option.split)
  show "keeps (falls mu) (reset_reviewer ca rv)" unfolding reset_reviewer_def
    using t by (auto simp: turns_run_out_def keeps_def falls_def ret_def split: option.split)
  show "keeps (falls mu) (ca_build ca ag task)"
    using t by (simp add: turns_run_out_def keeps_def falls_def)
qed

lemma falls_merge:
  assumes t: "turns_run_out mu ca" shows "keeps (falls mu) (do_merge ca ag)"
proof -
  note os = falls_os [OF t]
  have m: "keeps (falls mu) (ca_merge ca ag b)" for b
    unfolding ca_merge_def by (auto intro!: merge_calls [OF os] keeps_ret split: option.split)
  have h: "keeps (falls mu) (head_of_repo ca)" "keeps (falls mu) (landed ca ag pre)" for pre
    unfolding head_of_repo_def landed_def ca_rev_parse_def
    by (auto intro!: keeps_bindE falls_git t keeps_ret split: option.split)
  have "keeps (falls mu) (merge_or_rebase ca ag b)" for b
    unfolding merge_or_rebase_def
    by (intro calls_compose [OF os] calls_cases m h falls_checks t)
  then show ?thesis unfolding do_merge_def Let_def
    by (auto intro!: calls_compose [OF os] calls_act [OF os] split: option.split)
qed

lemma merge_failure_has_message:
  "do_merge ca ag w = (Inr att, w') \<Longrightarrow> \<not> at_landed att \<Longrightarrow> \<exists>msg. at_failure att = Some msg \<and> msg \<noteq> []"
proof -
  have mr: "merge_or_rebase ca ag b w = (Inr att, w') \<Longrightarrow> \<not> at_landed att \<Longrightarrow> \<exists>msg. at_failure att = Some msg \<and> msg \<noteq> []"
    for b w w'
    unfolding merge_or_rebase_def landed_def not_landed_def
    by (auto simp: bindE_Inr_iff split: if_splits)
  assume "do_merge ca ag w = (Inr att, w')" "\<not> at_landed att"
  then show ?thesis unfolding do_merge_def Let_def
    by (auto simp: seqE_Inr_iff split: option.splits dest!: finallyE_Inr dest: mr)
qed

lemma turn_drops:
  assumes t: "turns_run_out mu ca" shows "drops mu (workflow_turn ca task ag rv c)"
proof -
  have gave: "drops mu (seqE (finalize_failed ca ag rv e) (ret GaveUp))" for e
    unfolding seqE_def finalize_failed_def by (rule drops_after [OF falls_finalize [OF t]]) (simp add: drops_ret)
  have rf: "drops mu (review_failed ca ag rv c f)" for f
    unfolding review_failed_def using gave drops_ask [OF t] by simp
  have ac: "drops mu (ask_to_commit ca ag rv c)"
    unfolding ask_to_commit_def using drops_ask [OF t] by (auto intro!: drops_after falls_checks t)
  have mg: "drops mu (bindE (do_merge ca ag) (\<lambda>att.
     if \<not> at_landed att
     then (case at_failure att of
             Some msg \<Rightarrow> (if msg = [] then ret (Again c) else ask_to_fix ca ag rv c msg TURN_LIMIT)
           | None \<Rightarrow> ret (Again c))
     else ret (Landed (at_pre_hash att) (at_post_hash att))))"
    by (rule drops_after [OF falls_merge [OF t]])
       (auto dest!: merge_failure_has_message intro: drops_ask [OF t] drops_ret)
  show ?thesis unfolding workflow_turn_def seqE_def
    by (rule drops_after [OF falls_checks(1) [OF t]])
       (auto intro!: drops_after falls_checks t drops_ask ac rf mg)
qed

lemma loop_ends:
  assumes "turns_run_out mu ca"
  shows "mu w < n \<Longrightarrow> fst (workflow_loop n ca task ag rv c w) \<noteq> Inr None"
proof (induction n arbitrary: c w)
  case (Suc n)
  obtain r w1 where 1: "workflow_turn ca task ag rv c w = (r, w1)" by fastforce
  show ?case
  proof (cases "\<exists>c'. r = Inr (Again c')")
    case True
    then obtain c' where r: "r = Inr (Again c')" by blast
    then have "mu w1 < mu w" using turn_drops [OF assms] 1 unfolding drops_def by blast
    then show ?thesis using Suc 1 r by (simp add: bindE_def)
  next
    case False
    then show ?thesis using 1 by (auto simp: bindE_def seqE_def ret_def split: sum.splits turn_outcome.splits prod.splits)
  qed
qed simp

text \<open>If the agent can answer only finitely often and nothing gives it new turns, its workflow ends: looked at
  for as many turns of the loop as the agent has answers left, it has reported a result or raised, and
  is not still running.\<close>

theorem workflow_ends:
  assumes t: "turns_run_out mu ca" and n: "mu w \<le> n"
  shows "fst (agent_workflow n ca task ag rv w) \<noteq> Inr None"
proof
  assume "fst (agent_workflow n ca task ag rv w) = Inr None"
  then obtain w' where run: "agent_workflow n ca task ag rv w = (Inr None, w')" by (metis surjective_pairing)
  let ?start = "bindE (ca_call ca (ag_id ag) (''[Task: '' @ ts_id task @ '']'' @ nlnl @ ts_description task)) (\<lambda>r.
              if no_answer r
              then seqE (finalize_failed ca ag rv ''Agent produced no response on initial call'') (ret (Some (lost ag)))
              else workflow_loop n ca task ag rv 0)"
  obtain w1 w2 w3 u v where 1: "sync_agent ca ag w = (Inr True, w1)" and 2: "ca_reset ca (ag_id ag) w1 = (Inr u, w2)"
    and 3: "reset_reviewer ca rv w2 = (Inr v, w3)" and 4: "?start w3 = (Inr None, w')"
    using run unfolding agent_workflow_def
    by (auto simp: bindE_Inr_iff [where m = "sync_agent _ _"] seqE_Inr_iff catchE_Inr_iff split: if_splits
        simp del: append.simps)
  have sync: "keeps (falls mu) (sync_agent ca ag)" unfolding sync_agent_def
    by (auto intro!: keeps_catchE keeps_seqE sync_calls [OF falls_os [OF t]] keeps_ret keeps_throw
        split: option.split py_error.split)
  have reset: "keeps (falls mu) (ca_reset ca (ag_id ag))"
    using t by (simp add: turns_run_out_def keeps_def falls_def)
  have "falls mu w w1" "falls mu w1 w2" "falls mu w2 w3"
    by (rule keepsD [OF sync 1], rule keepsD [OF reset 2], rule keepsD [OF falls_checks(5) [OF t] 3])
  then have le: "mu w3 \<le> mu w" by (simp add: falls_def)
  obtain a w4 where 5: "ca_call ca (ag_id ag) (''[Task: '' @ ts_id task @ '']'' @ nlnl @ ts_description task) w3 = (Inr (Some a), w4)"
    and 6: "a \<noteq> []" and 7: "workflow_loop n ca task ag rv 0 w4 = (Inr None, w')"
    using 4 by (auto simp: bindE_Inr_iff seqE_Inr_iff no_answer_def split: if_splits simp del: append.simps)
  have "mu w4 < mu w3" using t 5 6 unfolding turns_run_out_def by blast
  then have "fst (workflow_loop n ca task ag rv 0 w4) \<noteq> Inr None" using loop_ends [OF t] le n by simp
  then show False using 7 by simp
qed

section \<open>How a review is read\<close>

text \<open>A review counts as an approval as soon as the letters of \<open>approved\<close>, in any case, occur anywhere in
  the reviewer's answer, so also when the answer says that the work is not approved.\<close>

theorem review_accepts_any_mention:
  assumes "ca_call ca (ag_id rv) (build_review_prompt ag task) w = (Inr (Some answer), w')"
    and "upper answer = before @ ''APPROVED'' @ after"
  shows "review ca ag (Some rv) task w = (Inr (True, answer), w')"
proof -
  have "approves answer" unfolding approves_def contains_iff using assms(2) by blast
  moreover have "answer \<noteq> []" using assms(2) by (auto simp: upper_def)
  ultimately show ?thesis using assms(1) by (simp add: review_def bindE_def ret_def no_answer_def)
qed

section \<open>Concrete runs\<close>

text \<open>The world is the number of answers left.\<close>

definition demo_ca :: "string \<Rightarrow> string \<Rightarrow> nat ca" where
  "demo_ca answer git_output = \<lparr>ca_os = (\<lambda>w c. (Completed 0 git_output [], w)), ca_repo_root = Some ''/r'',
     ca_max_review_cycles = 0, ca_build = base_build,
     ca_call = (\<lambda>id p w. if w = 0 then (Inr None, 0) else (Inr (Some answer), w - 1)),
     ca_reset = (\<lambda>id. ret ()), ca_save_trace = None\<rparr>"

definition demo_agent :: agent where "demo_agent = \<lparr>ag_id = ''a'', ag_worktree = Some ''/w''\<rparr>"
definition demo_task :: task where "demo_task = \<lparr>ts_id = ''1'', ts_description = ''prove it''\<rparr>"

theorem winner_passed_gates_witness:
  "passed_gates (demo_ca ''approved'' ''abc'') demo_task demo_agent (Some demo_agent) (won demo_agent (Some ''abc'') (Some ''abc''))"
proof -
  let ?run = "agent_workflow 3 (demo_ca ''approved'' ''abc'') demo_task demo_agent (Some demo_agent) 5"
  have "fst ?run = Inr (Some (won demo_agent (Some ''abc'') (Some ''abc'')))" by code_simp
  then have "?run = (Inr (Some (won demo_agent (Some ''abc'') (Some ''abc''))), snd ?run)" by (metis surjective_pairing)
  then show ?thesis by (rule winner_passed_gates) (simp add: won_def)
qed

theorem workflow_ends_witness:
  "fst (agent_workflow 4 (demo_ca ''hm'' []) demo_task demo_agent None 4) \<noteq> Inr None"
proof (rule workflow_ends [where mu = id])
  show "turns_run_out id (demo_ca ''hm'' [])"
    by (auto simp: turns_run_out_def demo_ca_def base_build_def ret_def split: if_splits)
qed simp

theorem review_accepts_any_mention_witness:
  "review (demo_ca ''Rejected: disapproved'' []) demo_agent (Some demo_agent) demo_task 1 =
     (Inr (True, ''Rejected: disapproved''), 0)"
  by (rule review_accepts_any_mention [where before = "''REJECTED: DIS''" and after = "[]"])
     (simp add: demo_ca_def, code_simp)

end
