(* ===== verification/Dep_Graph.thy ===== *)
theory Dep_Graph
  imports Py_Float
begin

text \<open>
  \<open>autoform/eval/dependency_graph\<close>: the graph of a Lean project's declarations. Parsing what the Lean
  script prints (\<open>builder.py\<close>), the graph-level tags (\<open>tagger.py\<close>), the memoised transitive closure
  and the JSON file (\<open>__init__.py\<close>), and the support cone of one declaration (\<open>cone.py\<close>).

  Python bounds the depth of calls. The recursive functions take the number of nested calls that
  are left, and running out of them raises \<open>RecursionError\<close>.
\<close>

section \<open>Nodes\<close>

definition AUTO_GENERATED_SUFFIXES :: "string list" where
  "AUTO_GENERATED_SUFFIXES = [''.mk'', ''.mk.inj'', ''.rec'', ''.recOn'', ''.casesOn'', ''.noConfusion'',
     ''.noConfusionType'', ''.brecOn'', ''.below'', ''.ibelow'', ''.binductionOn'', ''.injEq'',
     ''.sizeOf_spec'', ''.ctorIdx'', ''.match_1'', ''.match_2'']"

record graph_node =
  gn_name :: string
  gn_kind :: string
  gn_is_class :: bool
  gn_is_auto_generated :: bool
  gn_has_sorry :: bool
  gn_is_unproved :: bool
  gn_instance_count :: int
  gn_type_head :: string
  gn_deps :: "string list"
  gn_field_deps :: "string list"
  gn_tags :: "string list"
  gn_all_deps :: "string list"
  gn_transitive_axioms :: "string list"
  gn_cone_alerts :: "string list"

type_synonym nodes = "(string, graph_node) dict"

definition node_of :: "string \<Rightarrow> string \<Rightarrow> string list \<Rightarrow> graph_node" where
  "node_of name kind deps = \<lparr>gn_name = name, gn_kind = kind, gn_is_class = False,
     gn_is_auto_generated = False, gn_has_sorry = False, gn_is_unproved = False, gn_instance_count = 0,
     gn_type_head = [], gn_deps = deps, gn_field_deps = [], gn_tags = [], gn_all_deps = [],
     gn_transitive_axioms = [], gn_cone_alerts = []\<rparr>"

section \<open>Parsing the output of the Lean script\<close>

record raw_node =
  rw_name :: string
  rw_kind :: string
  rw_is_class :: bool
  rw_type_head :: string
  rw_has_sorry :: bool
  rw_body_tags :: "string list"
  rw_deps_str :: string
  rw_field_deps_str :: string
  rw_is_unproved :: bool

definition pieces :: "char \<Rightarrow> string \<Rightarrow> string list" where
  "pieces c s = filter (\<lambda>t. t \<noteq> []) (map strip (split_char c s))"

definition parse_line :: "string \<Rightarrow> raw_node option" where
  "parse_line line0 =
     (let line = strip line0; parts = split_char (CHR ''|'') line
      in if CHR ''|'' \<notin> set line \<or> length parts < 7 then None
         else Some \<lparr>rw_name = parts ! 0, rw_kind = parts ! 1, rw_is_class = (parts ! 2 = ''true''),
           rw_type_head = parts ! 3, rw_has_sorry = (parts ! 4 = ''true''),
           rw_body_tags = pieces (CHR '';'') (parts ! 5), rw_deps_str = parts ! 6,
           rw_field_deps_str = (if length parts > 7 then parts ! 7 else []),
           rw_is_unproved = (if length parts > 8 then parts ! 8 = ''true'' else False)\<rparr>)"

definition parse_lines :: "string \<Rightarrow> raw_node list" where
  "parse_lines output =
     concat (map (\<lambda>l. case parse_line l of None \<Rightarrow> [] | Some r \<Rightarrow> [r]) (splitlines output))"

definition auto_generated :: "string \<Rightarrow> bool" where
  "auto_generated name = list_ex (endswith name) AUTO_GENERATED_SUFFIXES"

definition class_names :: "raw_node list \<Rightarrow> string list" where
  "class_names raw = map rw_name (filter rw_is_class raw)"

text \<open>\<open>instance_counts.get(name, 0)\<close>.\<close>

definition instance_count :: "raw_node list \<Rightarrow> string \<Rightarrow> nat" where
  "instance_count raw name =
     (if name \<in> set (class_names raw)
      then length (filter (\<lambda>r. rw_type_head r = name \<and> \<not> auto_generated (rw_name r)) raw)
      else 0)"

definition node_of_raw :: "raw_node list \<Rightarrow> raw_node \<Rightarrow> graph_node" where
  "node_of_raw raw r = \<lparr>gn_name = rw_name r, gn_kind = rw_kind r, gn_is_class = rw_is_class r,
     gn_is_auto_generated = auto_generated (rw_name r), gn_has_sorry = rw_has_sorry r,
     gn_is_unproved = rw_is_unproved r, gn_instance_count = int (instance_count raw (rw_name r)),
     gn_type_head = rw_type_head r, gn_deps = pieces (CHR '','') (rw_deps_str r),
     gn_field_deps = pieces (CHR '','') (rw_field_deps_str r), gn_tags = rw_body_tags r,
     gn_all_deps = [], gn_transitive_axioms = [], gn_cone_alerts = []\<rparr>"

definition parse_output :: "string \<Rightarrow> nodes" where
  "parse_output output =
     (let raw = parse_lines output
      in foldl (\<lambda>nodes r. dset nodes (rw_name r) (node_of_raw raw r)) [] raw)"

text \<open>\<open>name.rsplit(".", 1)[-1] if "." in name else name\<close>.\<close>

definition short_name :: "string \<Rightarrow> string" where
  "short_name name = rev (takeWhile (\<lambda>c. c \<noteq> CHR ''.'') (rev name))"

definition mark_unproved_node :: "string list \<Rightarrow> string \<Rightarrow> graph_node \<Rightarrow> graph_node" where
  "mark_unproved_node unproved_names name node =
     (if gn_is_unproved node \<or> gn_kind node \<noteq> ''axiom'' then node
      else if name \<in> set unproved_names \<or> short_name name \<in> set unproved_names
      then node\<lparr>gn_is_unproved := True, gn_all_deps := [], gn_transitive_axioms := [], gn_cone_alerts := []\<rparr>
      else node)"

definition mark_unproved :: "nodes \<Rightarrow> string list \<Rightarrow> nodes" where
  "mark_unproved nodes unproved_names =
     map (\<lambda>(name, node). (name, mark_unproved_node unproved_names name node)) nodes"

text \<open>\<open>build_raw_graph\<close> once the Lean process has ended with a return code, its output and its errors.\<close>

definition raw_graph :: "int \<Rightarrow> string \<Rightarrow> string \<Rightarrow> string list \<Rightarrow> nodes result" where
  "raw_graph rc out err unproved_names =
     (let output = strip out; nodes = parse_output output
      in if rc \<noteq> 0 \<and> nodes = []
         then Inl (RuntimeError (''Dependency graph failed (rc='' @ str_int rc @ ''):'' @ [nl] @ strip err @ [nl] @
                take 1000 output))
         else Inr (mark_unproved nodes unproved_names))"

section \<open>Graph-level tags\<close>

definition SUSPICIOUS_BODY_TAGS :: "string list" where
  "SUSPICIOUS_BODY_TAGS = [''vacuous_body'', ''ignores_params'', ''proof_by_exfalso'',
     ''proof_by_subsingleton'', ''returns_assumption'', ''trivial_constructor'']"

definition graph_tags :: "string list \<Rightarrow> graph_node \<Rightarrow> string list" where
  "graph_tags classes node =
     gn_tags node @
     (if gn_is_class node \<and> gn_instance_count node = 0 then [''orphan_class''] else []) @
     (if list_ex (\<lambda>t. t \<in> set SUSPICIOUS_BODY_TAGS) (gn_tags node) \<and> gn_type_head node \<in> set classes \<and>
         \<not> gn_is_auto_generated node
      then [''trivial_instance''] else [])"

definition apply_graph_tags :: "nodes \<Rightarrow> nodes" where
  "apply_graph_tags nodes =
     (let classes = map gn_name (filter gn_is_class (dvals nodes))
      in map (\<lambda>(name, node). (name, node\<lparr>gn_tags := graph_tags classes node, gn_transitive_axioms := [],
                gn_cone_alerts := []\<rparr>)) nodes)"

section \<open>The support cone\<close>

definition recursion_exceeded :: py_error where
  "recursion_exceeded = RuntimeError ''maximum recursion depth exceeded''"

fun foldM :: "('x \<Rightarrow> 's \<Rightarrow> 's result) \<Rightarrow> 'x list \<Rightarrow> 's \<Rightarrow> 's result" where
  "foldM f [] s = Inr s"
| "foldM f (x # xs) s = rbind (f x s) (foldM f xs)"

lemma foldM_cong [fundef_cong]:
  "xs = ys \<Longrightarrow> s = t \<Longrightarrow> (\<And>x u. x \<in> set ys \<Longrightarrow> f x u = g x u) \<Longrightarrow> foldM f xs s = foldM g ys t"
proof (induction xs arbitrary: ys s t)
  case (Cons x xs)
  then show ?case by (cases "f x s") auto
qed auto

fun collect_cone :: "nat \<Rightarrow> string \<Rightarrow> nodes \<Rightarrow> nodes \<Rightarrow> nodes result" where
  "collect_cone 0 name all_nodes cone = Inl recursion_exceeded"
| "collect_cone (Suc depth) name all_nodes cone =
     (if has_key cone name then Inr cone
      else case dget all_nodes name of
             None \<Rightarrow> Inr cone
           | Some node \<Rightarrow>
               foldM (\<lambda>dep c. collect_cone depth dep all_nodes c) (gn_deps node) (dset cone name node))"

text \<open>The alerts of a collection of nodes: by tags, and by their kind and state.\<close>

definition has_tag :: "nodes \<Rightarrow> string \<Rightarrow> bool" where
  "has_tag nodes t = list_ex (\<lambda>n. t \<in> set (gn_tags n)) (dvals nodes)"

definition only_if :: "bool \<Rightarrow> string \<Rightarrow> string list" where
  "only_if b s = (if b then [s] else [])"

definition alerts_of :: "nodes \<Rightarrow> string list" where
  "alerts_of deps =
     only_if (has_tag deps ''vacuous_body'') ''depends_on_vacuous_definition'' @
     only_if (has_tag deps ''orphan_class'') ''depends_on_orphan_class_field'' @
     only_if (has_tag deps ''trivial_instance'') ''depends_on_trivial_instance'' @
     only_if (has_tag deps ''proof_by_exfalso'') ''support_cone_contains_exfalso'' @
     only_if (has_tag deps ''proof_by_subsingleton'') ''support_cone_contains_subsingleton'' @
     only_if (list_ex (\<lambda>n. gn_has_sorry n \<and> \<not> gn_is_auto_generated n) (dvals deps)) ''depends_on_sorry_definition'' @
     only_if (list_ex (\<lambda>n. gn_kind n = ''opaque'') (dvals deps)) ''support_cone_contains_opaque'' @
     only_if (list_ex gn_is_unproved (dvals deps)) ''has_unproved_dependencies''"

definition derive_alerts :: "nodes \<Rightarrow> string \<Rightarrow> string list" where
  "derive_alerts cone target = alerts_of (filter (\<lambda>(name, node). name \<noteq> target) cone)"

section \<open>The transitive closure\<close>

text \<open>Python sets of names are lists without duplicates; only their sorted form is ever looked at.\<close>

definition set_union :: "string list \<Rightarrow> string list \<Rightarrow> string list" where
  "set_union xs ys = xs @ filter (\<lambda>y. y \<notin> set xs) ys"

record closure_state =
  cl_cache :: "(string, string list) dict"
  cl_stack :: "string list"

text \<open>The inner function of \<open>_compute_transitive_deps\<close>: it changes the cache and the stack, which all calls share.\<close>

fun all_deps :: "nat \<Rightarrow> nodes \<Rightarrow> string \<Rightarrow> closure_state \<Rightarrow> (string list \<times> closure_state) result" where
  "all_deps 0 nodes name s = Inl recursion_exceeded"
| "all_deps (Suc depth) nodes name s =
     (case dget (cl_cache s) name of
        Some ds \<Rightarrow> Inr (ds, s)
      | None \<Rightarrow>
          if name \<in> set (cl_stack s) then Inr ([], s)
          else
            let s1 = s\<lparr>cl_stack := name # cl_stack s\<rparr>
            in case dget nodes name of
                 None \<Rightarrow> Inr ([], s1\<lparr>cl_cache := dset (cl_cache s1) name []\<rparr>)
               | Some node \<Rightarrow>
                   rbind (foldM (\<lambda>dep (res, u). rbind (all_deps depth nodes dep u) (\<lambda>(r, u'). Inr (set_union res r, u')))
                            (gn_deps node) (remdups (gn_deps node), s1))
                     (\<lambda>(res, s2). Inr (res, s2\<lparr>cl_stack := removeAll name (cl_stack s2),
                        cl_cache := dset (cl_cache s2) name res\<rparr>)))"

definition sorted_set :: "string list \<Rightarrow> string list" where
  "sorted_set xs = sort (remdups xs)"

text \<open>The closure of one node, from its name, itself and the sorted names of its dependencies.\<close>

definition present :: "nodes \<Rightarrow> string list \<Rightarrow> nodes" where
  "present nodes names = concat (map (\<lambda>n. case dget nodes n of None \<Rightarrow> [] | Some d \<Rightarrow> [(n, d)]) names)"

definition transitive_axioms_of :: "nodes \<Rightarrow> string \<Rightarrow> graph_node \<Rightarrow> string list \<Rightarrow> string list" where
  "transitive_axioms_of nodes name node deps =
     sorted_set (only_if (gn_kind node = ''axiom'') name @ only_if (gn_has_sorry node) ''sorryAx'' @
       concat (map (\<lambda>(n, d). only_if (gn_kind d = ''axiom'') n @ only_if (gn_has_sorry d) ''sorryAx'') (present nodes deps)))"

definition closed_node :: "nodes \<Rightarrow> string \<Rightarrow> graph_node \<Rightarrow> string list \<Rightarrow> graph_node" where
  "closed_node nodes name node deps =
     node\<lparr>gn_all_deps := deps, gn_transitive_axioms := transitive_axioms_of nodes name node deps,
       gn_cone_alerts := alerts_of (present nodes deps)\<rparr>"

definition close_one :: "nat \<Rightarrow> nodes \<Rightarrow> string \<times> graph_node \<Rightarrow> nodes \<times> (string, string list) dict \<Rightarrow>
    (nodes \<times> (string, string list) dict) result" where
  "close_one depth nodes = (\<lambda>(name, node) (updated, cache).
     rbind (all_deps depth nodes name \<lparr>cl_cache = cache, cl_stack = []\<rparr>) (\<lambda>(ds, s).
       Inr (dset updated name (closed_node nodes name node (sorted_set ds)), cl_cache s)))"

definition compute_transitive_deps :: "nat \<Rightarrow> nodes \<Rightarrow> nodes result" where
  "compute_transitive_deps depth nodes =
     rbind (foldM (close_one depth nodes) nodes ([], [])) (\<lambda>(updated, cache). Inr updated)"

text \<open>\<open>build_dependency_graph\<close> on the ended Lean process.\<close>

definition build_dependency_graph :: "nat \<Rightarrow> int \<Rightarrow> string \<Rightarrow> string \<Rightarrow> string list \<Rightarrow> nodes result" where
  "build_dependency_graph depth rc out err unproved_names =
     rbind (raw_graph rc out err unproved_names) (\<lambda>nodes. compute_transitive_deps depth (apply_graph_tags nodes))"

section \<open>The JSON file\<close>

text \<open>\<open>DependencyGraph.save\<close> and \<open>load\<close>, on the JSON value of the file.\<close>

definition strs_json :: "string list \<Rightarrow> json" where
  "strs_json xs = JArr (map JStr xs)"

definition node_json :: "graph_node \<Rightarrow> json" where
  "node_json n = JObj
     [(''name'', JStr (gn_name n)), (''kind'', JStr (gn_kind n)), (''is_class'', JBool (gn_is_class n)),
      (''is_auto_generated'', JBool (gn_is_auto_generated n)), (''has_sorry'', JBool (gn_has_sorry n)),
      (''is_unproved'', JBool (gn_is_unproved n)), (''instance_count'', JInt (gn_instance_count n)),
      (''type_head'', JStr (gn_type_head n)), (''deps'', strs_json (gn_deps n)),
      (''field_deps'', strs_json (gn_field_deps n)), (''tags'', strs_json (gn_tags n)),
      (''all_deps'', strs_json (gn_all_deps n)), (''transitive_axioms'', strs_json (gn_transitive_axioms n)),
      (''cone_alerts'', strs_json (gn_cone_alerts n))]"

definition save_graph :: "nodes \<Rightarrow> json" where
  "save_graph nodes = JObj (map (\<lambda>(name, node). (name, node_json node)) nodes)"

definition get_or :: "(json \<Rightarrow> 'a result) \<Rightarrow> 'a \<Rightarrow> (string, json) dict \<Rightarrow> string \<Rightarrow> 'a result" where
  "get_or read dflt d k = (case dget d k of None \<Rightarrow> Inr dflt | Some v \<Rightarrow> read v)"

definition load_node :: "(string, json) dict \<Rightarrow> graph_node result" where
  "load_node d =
     rbind (rbind (field d ''name'') as_str) (\<lambda>name.
     rbind (rbind (field d ''kind'') as_str) (\<lambda>kind.
     rbind (get_or as_bool False d ''is_class'') (\<lambda>is_class.
     rbind (get_or as_bool False d ''is_auto_generated'') (\<lambda>auto.
     rbind (get_or as_bool False d ''has_sorry'') (\<lambda>has_sorry.
     rbind (get_or as_bool False d ''is_unproved'') (\<lambda>is_unproved.
     rbind (get_or as_int 0 d ''instance_count'') (\<lambda>count.
     rbind (get_or as_str [] d ''type_head'') (\<lambda>type_head.
     rbind (get_or as_raw_strs [] d ''deps'') (\<lambda>deps.
     rbind (get_or as_raw_strs [] d ''field_deps'') (\<lambda>field_deps.
     rbind (get_or as_raw_strs [] d ''tags'') (\<lambda>tags.
     rbind (get_or as_raw_strs [] d ''all_deps'') (\<lambda>alls.
     rbind (get_or as_raw_strs [] d ''transitive_axioms'') (\<lambda>axs.
     rbind (get_or as_raw_strs [] d ''cone_alerts'') (\<lambda>alerts.
     Inr \<lparr>gn_name = name, gn_kind = kind, gn_is_class = is_class, gn_is_auto_generated = auto,
       gn_has_sorry = has_sorry, gn_is_unproved = is_unproved, gn_instance_count = count,
       gn_type_head = type_head, gn_deps = deps, gn_field_deps = field_deps, gn_tags = tags,
       gn_all_deps = alls, gn_transitive_axioms = axs, gn_cone_alerts = alerts\<rparr>))))))))))))))"

definition load_graph :: "json \<Rightarrow> nodes result" where
  "load_graph raw =
     rbind (as_obj raw) (mapM (\<lambda>(name, v). rbind (rbind (as_obj v) load_node) (\<lambda>node. Inr (name, node))))"

end
