(* ===== verification/Dep_Graph_Correct.thy ===== *)
theory Dep_Graph_Correct
  imports Dep_Graph
begin

text \<open>
  The support cone is what is reachable, on any graph; the memoised closure is the transitive closure
  on a graph without cycles, and is not on one with a cycle; and a saved graph loads back.
\<close>

section \<open>The support cone is what can be reached\<close>

definition dep_edge :: "nodes \<Rightarrow> string \<Rightarrow> string \<Rightarrow> bool" where
  "dep_edge nodes a b \<longleftrightarrow> (\<exists>n. dget nodes a = Some n \<and> b \<in> set (gn_deps n))"

text \<open>What a call of \<open>_collect_cone\<close> adds for the names in \<open>from\<close>: everything new is reachable from them and
  brings its own dependencies along.\<close>

definition cone_grows :: "nodes \<Rightarrow> string set \<Rightarrow> nodes \<Rightarrow> nodes \<Rightarrow> bool" where
  "cone_grows nodes from cone cone' \<longleftrightarrow>
     map_of cone \<subseteq>\<^sub>m map_of cone' \<and> map_of cone' \<subseteq>\<^sub>m map_of nodes \<and>
     (wf_dict cone \<longrightarrow> wf_dict cone') \<and>
     (\<forall>a \<in> from. dget nodes a \<noteq> None \<longrightarrow> dget cone' a \<noteq> None) \<and>
     (\<forall>x. dget cone' x \<noteq> None \<longrightarrow> dget cone x = None \<longrightarrow>
        (\<exists>a \<in> from. (dep_edge nodes)\<^sup>*\<^sup>* a x) \<and>
        (\<forall>y. dep_edge nodes x y \<longrightarrow> dget nodes y \<noteq> None \<longrightarrow> dget cone' y \<noteq> None))"

definition unseen :: "nodes \<Rightarrow> nodes \<Rightarrow> nat" where
  "unseen nodes cone = card (dom (map_of nodes) - dom (map_of cone))"

lemma unseen_mono: "map_of cone \<subseteq>\<^sub>m map_of cone' \<Longrightarrow> unseen nodes cone' \<le> unseen nodes cone"
  unfolding unseen_def by (rule card_mono) (auto simp: finite_dom_map_of dest: map_le_implies_dom_le)

lemma cone_grows_refl: "map_of cone \<subseteq>\<^sub>m map_of nodes \<Longrightarrow> cone_grows nodes {} cone cone"
  by (auto simp: cone_grows_def)

lemma cone_grows_trans:
  assumes "cone_grows nodes A c c'" "cone_grows nodes B c' c''" shows "cone_grows nodes (A \<union> B) c c''"
proof -
  have mono: "dget c' x \<noteq> None \<Longrightarrow> dget c'' x \<noteq> None" for x
    using assms(2) unfolding cone_grows_def map_le_def by (metis domIff)
  have "map_of c \<subseteq>\<^sub>m map_of c''" using assms unfolding cone_grows_def by (blast intro: map_le_trans)
  then show ?thesis using assms mono unfolding cone_grows_def by (metis UnE UnI1 UnI2)
qed

lemma collect_fold:
  assumes step: "\<And>d c. map_of c \<subseteq>\<^sub>m map_of nodes \<Longrightarrow> unseen nodes c < depth \<Longrightarrow>
      \<exists>c'. collect_cone depth d nodes c = Inr c' \<and> cone_grows nodes {d} c c'"
  shows "map_of c \<subseteq>\<^sub>m map_of nodes \<Longrightarrow> unseen nodes c < depth \<Longrightarrow>
      \<exists>c'. foldM (\<lambda>d c. collect_cone depth d nodes c) ds c = Inr c' \<and> cone_grows nodes (set ds) c c'"
proof (induction ds arbitrary: c)
  case Nil
  then show ?case using cone_grows_refl by simp
next
  case (Cons d ds)
  obtain c1 where c1: "collect_cone depth d nodes c = Inr c1" "cone_grows nodes {d} c c1"
    using step Cons.prems by blast
  have "map_of c1 \<subseteq>\<^sub>m map_of nodes" "map_of c \<subseteq>\<^sub>m map_of c1" using c1(2) by (auto simp: cone_grows_def)
  moreover have "unseen nodes c1 < depth" using unseen_mono [OF calculation(2), of nodes] Cons.prems(2) by simp
  ultimately obtain c2 where "foldM (\<lambda>d c. collect_cone depth d nodes c) ds c1 = Inr c2" "cone_grows nodes (set ds) c1 c2"
    using Cons.IH by blast
  then show ?case using c1 cone_grows_trans [OF c1(2)] by auto
qed

lemma collect_cone_grows:
  "map_of cone \<subseteq>\<^sub>m map_of nodes \<Longrightarrow> unseen nodes cone < depth \<Longrightarrow>
     \<exists>c'. collect_cone depth name nodes cone = Inr c' \<and> cone_grows nodes {name} cone c'"
proof (induction depth arbitrary: name cone)
  case (Suc depth)
  show ?case
  proof (cases "has_key cone name \<or> dget nodes name = None")
    case True
    then have "collect_cone (Suc depth) name nodes cone = Inr cone" by auto
    moreover have "cone_grows nodes {name} cone cone"
      using True Suc.prems(1) by (auto simp: cone_grows_def has_key_def)
    ultimately show ?thesis by blast
  next
    case False
    then obtain node where node: "dget nodes name = Some node" and new: "dget cone name = None"
      by (auto simp: has_key_def)
    let ?c = "dset cone name node"
    have le: "map_of ?c \<subseteq>\<^sub>m map_of nodes" using Suc.prems(1) node by (auto simp: map_le_def)
    have "unseen nodes ?c < unseen nodes cone"
      unfolding unseen_def using node new
      by (intro psubset_card_mono) (auto simp: finite_dom_map_of)
    then have "unseen nodes ?c < depth" using Suc.prems(2) by simp
    with collect_fold [OF Suc.IH le] obtain c' where
      run: "foldM (\<lambda>d c. collect_cone depth d nodes c) (gn_deps node) ?c = Inr c'"
      and g: "cone_grows nodes (set (gn_deps node)) ?c c'" by blast
    have edge: "dep_edge nodes name y \<longleftrightarrow> y \<in> set (gn_deps node)" for y
      using node by (simp add: dep_edge_def)
    have "cone_grows nodes {name} cone c'"
      unfolding cone_grows_def
    proof (intro conjI allI impI ballI)
      have "map_of cone \<subseteq>\<^sub>m map_of ?c" using new by (auto simp: map_le_def)
      then show "map_of cone \<subseteq>\<^sub>m map_of c'"
        using g unfolding cone_grows_def by (blast intro: map_le_trans)
      show "map_of c' \<subseteq>\<^sub>m map_of nodes" using g by (simp add: cone_grows_def)
      show "wf_dict cone \<Longrightarrow> wf_dict c'" using g by (simp add: cone_grows_def)
      have "dget c' name = Some node" using g unfolding cone_grows_def map_le_def by force
      then show "\<And>a. a \<in> {name} \<Longrightarrow> dget nodes a \<noteq> None \<Longrightarrow> dget c' a \<noteq> None" by simp
    next
      fix x assume x: "dget c' x \<noteq> None" "dget cone x = None"
      show "\<exists>a\<in>{name}. (dep_edge nodes)\<^sup>*\<^sup>* a x"
      proof (cases "x = name")
        case False
        then have "dget ?c x = None" using x(2) by simp
        then obtain a where "a \<in> set (gn_deps node)" "(dep_edge nodes)\<^sup>*\<^sup>* a x"
          using g x(1) unfolding cone_grows_def by blast
        then have "(dep_edge nodes)\<^sup>*\<^sup>* name x" using edge by (blast intro: converse_rtranclp_into_rtranclp)
        then show ?thesis by simp
      qed simp
      fix y assume y: "dep_edge nodes x y" "dget nodes y \<noteq> None"
      show "dget c' y \<noteq> None"
      proof (cases "x = name")
        case True
        then show ?thesis using y edge g unfolding cone_grows_def by blast
      next
        case False
        then have "dget ?c x = None" using x(2) by simp
        then show ?thesis using g x(1) y unfolding cone_grows_def by blast
      qed
    qed
    then show ?thesis using run node new by (auto simp: has_key_def)
  qed
qed simp

lemma wf_dict_size: "wf_dict nodes \<Longrightarrow> unseen nodes [] = length nodes"
  by (simp add: unseen_def wf_dict_def dom_map_of_conv_image_fst distinct_card [of "map fst nodes", simplified])

lemma collected_cone:
  assumes "length nodes < depth"
  shows "\<exists>cone. collect_cone depth target nodes [] = Inr cone \<and> wf_dict cone \<and>
    (\<forall>x. dget cone x = (if (dep_edge nodes)\<^sup>*\<^sup>* target x then dget nodes x else None))"
proof -
  have "unseen nodes [] \<le> length nodes"
    unfolding unseen_def by (simp add: dom_map_of_conv_image_fst card_length [of "map fst nodes", simplified])
  then obtain cone where run: "collect_cone depth target nodes [] = Inr cone" and g: "cone_grows nodes {target} [] cone"
    using collect_cone_grows [of "[]" nodes depth target] assms by auto
  have sub: "dget cone x = dget nodes x" if "dget cone x \<noteq> None" for x
    using g that unfolding cone_grows_def map_le_def by auto
  have "dget cone x \<noteq> None" if "(dep_edge nodes)\<^sup>*\<^sup>* target x" "dget nodes x \<noteq> None" for x
    using that
  proof (induction rule: rtranclp_induct)
    case base
    then show ?case using g by (simp add: cone_grows_def)
  next
    case (step y z)
    have "dget nodes y \<noteq> None" using step(2) by (auto simp: dep_edge_def)
    then show ?case using step g unfolding cone_grows_def by auto
  qed
  moreover have "(dep_edge nodes)\<^sup>*\<^sup>* target x" if "dget cone x \<noteq> None" for x
    using g that unfolding cone_grows_def by auto
  moreover have "wf_dict cone" using g by (simp add: cone_grows_def)
  ultimately show ?thesis using run sub by (metis (no_types, lifting))
qed

text \<open>Given as many nested calls as there are declarations and one more, collecting the cone of a target
  returns, on any graph, cycles and unknown names included, and the cone holds exactly the declarations of
  the graph that can be reached from the target along dependencies, the target too if it is one.\<close>

theorem cone_is_reachable:
  assumes "length nodes < depth"
  shows "\<exists>cone. collect_cone depth target nodes [] = Inr cone \<and> wf_dict cone \<and>
    (\<forall>x. dget cone x = (if (dep_edge nodes)\<^sup>*\<^sup>* target x then dget nodes x else None))"
  using assms by (rule collected_cone)

section \<open>The memoised closure on a graph without cycles\<close>

definition acyclic_deps :: "nodes \<Rightarrow> bool" where
  "acyclic_deps nodes \<longleftrightarrow> (\<forall>x. \<not> (dep_edge nodes)\<^sup>+\<^sup>+ x x)"

definition below :: "nodes \<Rightarrow> string \<Rightarrow> string set" where
  "below nodes x = {y. (dep_edge nodes)\<^sup>+\<^sup>+ x y}"

definition cache_ok :: "nodes \<Rightarrow> closure_state \<Rightarrow> bool" where
  "cache_ok nodes s \<longleftrightarrow> (\<forall>k ds. dget (cl_cache s) k = Some ds \<longrightarrow> set ds = below nodes k)"

text \<open>No node of the stack whose closure is still open can be reached from the name.\<close>

definition clear_path :: "nodes \<Rightarrow> string \<Rightarrow> closure_state \<Rightarrow> bool" where
  "clear_path nodes name s \<longleftrightarrow>
     (\<forall>x \<in> set (cl_stack s). dget (cl_cache s) x = None \<longrightarrow> \<not> (dep_edge nodes)\<^sup>*\<^sup>* name x)"

definition closure_step :: "nodes \<Rightarrow> closure_state \<Rightarrow> closure_state \<Rightarrow> bool" where
  "closure_step nodes s s' \<longleftrightarrow> cache_ok nodes s' \<and> set (cl_stack s) \<subseteq> set (cl_stack s') \<and>
     (\<forall>x \<in> set (cl_stack s') - set (cl_stack s). dget (cl_cache s') x \<noteq> None) \<and>
     (\<forall>x. dget (cl_cache s) x \<noteq> None \<longrightarrow> dget (cl_cache s') x \<noteq> None)"

definition open_calls :: "nodes \<Rightarrow> closure_state \<Rightarrow> nat" where
  "open_calls nodes s = card (dom (map_of nodes) - set (cl_stack s))"

lemma closure_step_refl: "cache_ok nodes s \<Longrightarrow> closure_step nodes s s"
  by (simp add: closure_step_def)

lemma closure_step_trans: "closure_step nodes s t \<Longrightarrow> closure_step nodes t u \<Longrightarrow> closure_step nodes s u"
  unfolding closure_step_def by blast

lemma closure_step_calls: "closure_step nodes s t \<Longrightarrow> open_calls nodes t \<le> open_calls nodes s"
  unfolding open_calls_def closure_step_def by (intro card_mono) (auto simp: finite_dom_map_of)

lemma closure_step_clear: "closure_step nodes s t \<Longrightarrow> clear_path nodes name s \<Longrightarrow> clear_path nodes name t"
  unfolding closure_step_def clear_path_def by blast

lemma below_unfold: "dget nodes x = Some n \<Longrightarrow> below nodes x = set (gn_deps n) \<union> (\<Union>d \<in> set (gn_deps n). below nodes d)"
proof -
  assume n: "dget nodes x = Some n"
  have e: "dep_edge nodes x y \<longleftrightarrow> y \<in> set (gn_deps n)" for y using n by (simp add: dep_edge_def)
  have "(dep_edge nodes)\<^sup>+\<^sup>+ x y \<longleftrightarrow> y \<in> set (gn_deps n) \<or> (\<exists>d \<in> set (gn_deps n). (dep_edge nodes)\<^sup>+\<^sup>+ d y)" for y
    using e by (metis tranclp.simps tranclp_into_tranclp2 tranclpD rtranclp_into_tranclp2 rtranclpD)
  then show ?thesis by (auto simp: below_def)
qed

lemma below_missing: "dget nodes x = None \<Longrightarrow> below nodes x = {}"
  by (auto simp: below_def dep_edge_def dest: tranclpD)

lemma set_set_union [simp]: "set (set_union xs ys) = set xs \<union> set ys"
  by (auto simp: set_union_def)

lemma all_deps_fold:
  assumes step: "\<And>d u. d \<in> set ds \<Longrightarrow> cache_ok nodes u \<Longrightarrow> clear_path nodes d u \<Longrightarrow> open_calls nodes u < depth \<Longrightarrow>
      \<exists>r u'. all_deps depth nodes d u = Inr (r, u') \<and> set r = below nodes d \<and> closure_step nodes u u'"
    and "cache_ok nodes u" "\<forall>d \<in> set ds. clear_path nodes d u" "open_calls nodes u < depth"
  shows "\<exists>res' u'. foldM (\<lambda>dep (res, u). rbind (all_deps depth nodes dep u) (\<lambda>(r, u'). Inr (set_union res r, u')))
      ds (res, u) = Inr (res', u') \<and> set res' = set res \<union> (\<Union>d \<in> set ds. below nodes d) \<and> closure_step nodes u u'"
  using assms
proof (induction ds arbitrary: res u)
  case Nil
  then show ?case by (simp add: closure_step_refl)
next
  case (Cons d ds)
  obtain r u1 where 1: "all_deps depth nodes d u = Inr (r, u1)" "set r = below nodes d" "closure_step nodes u u1"
    using Cons.prems(1) [of d u] Cons.prems(2-4) by auto
  have c1: "cache_ok nodes u1" using 1(3) by (simp add: closure_step_def)
  have p1: "\<forall>d \<in> set ds. clear_path nodes d u1" using Cons.prems(3) closure_step_clear [OF 1(3)] by simp
  have o1: "open_calls nodes u1 < depth" using closure_step_calls [OF 1(3)] Cons.prems(4) by simp
  have step': "\<And>d u. d \<in> set ds \<Longrightarrow> cache_ok nodes u \<Longrightarrow> clear_path nodes d u \<Longrightarrow> open_calls nodes u < depth \<Longrightarrow>
      \<exists>r u'. all_deps depth nodes d u = Inr (r, u') \<and> set r = below nodes d \<and> closure_step nodes u u'"
    using Cons.prems(1) by simp
  obtain res' u' where 2: "foldM (\<lambda>dep (res, u). rbind (all_deps depth nodes dep u) (\<lambda>(r, u'). Inr (set_union res r, u')))
      ds (set_union res r, u1) = Inr (res', u')" "set res' = set (set_union res r) \<union> (\<Union>d \<in> set ds. below nodes d)"
      "closure_step nodes u1 u'"
    using Cons.IH [OF step' c1 p1 o1] by blast
  show ?case using 1 2 closure_step_trans [OF 1(3) 2(3)] by auto
qed

lemma all_deps_exact:
  assumes ac: "acyclic_deps nodes"
  shows "cache_ok nodes s \<Longrightarrow> clear_path nodes name s \<Longrightarrow> open_calls nodes s < depth \<Longrightarrow>
    \<exists>ds s'. all_deps depth nodes name s = Inr (ds, s') \<and> set ds = below nodes name \<and> closure_step nodes s s'"
proof (induction depth arbitrary: name s)
  case (Suc depth)
  show ?case
  proof (cases "dget (cl_cache s) name")
    case (Some ds)
    then show ?thesis using Suc.prems(1) closure_step_refl by (auto simp: cache_ok_def)
  next
    case fresh: None
    then have out: "name \<notin> set (cl_stack s)" using Suc.prems(2) by (auto simp: clear_path_def)
    let ?s1 = "s\<lparr>cl_stack := name # cl_stack s\<rparr>"
    show ?thesis
    proof (cases "dget nodes name")
      case None
      then show ?thesis using fresh out Suc.prems(1) below_missing [OF None]
        by (auto simp: closure_step_def cache_ok_def)
    next
      case (Some node)
      have edge: "dep_edge nodes name d" if "d \<in> set (gn_deps node)" for d
        using Some that by (simp add: dep_edge_def)
      have clear: "\<forall>d \<in> set (gn_deps node). clear_path nodes d ?s1"
        unfolding clear_path_def
      proof (intro ballI impI notI)
        fix d x assume d: "d \<in> set (gn_deps node)" and x: "x \<in> set (cl_stack ?s1)" "dget (cl_cache ?s1) x = None"
          and r: "(dep_edge nodes)\<^sup>*\<^sup>* d x"
        have "(dep_edge nodes)\<^sup>+\<^sup>+ name x" using edge [OF d] r by (rule rtranclp_into_tranclp2)
        then show False using ac Suc.prems(2) x by (auto simp: acyclic_deps_def clear_path_def dest: tranclp_into_rtranclp)
      qed
      have "open_calls nodes ?s1 < open_calls nodes s" unfolding open_calls_def
        using Some out by (intro psubset_card_mono) (auto simp: finite_dom_map_of)
      then have calls: "open_calls nodes ?s1 < depth" using Suc.prems(3) by simp
      have cok: "cache_ok nodes ?s1" using Suc.prems(1) by (simp add: cache_ok_def)
      obtain res s2 where f: "foldM (\<lambda>dep (res, u). rbind (all_deps depth nodes dep u) (\<lambda>(r, u'). Inr (set_union res r, u')))
          (gn_deps node) (remdups (gn_deps node), ?s1) = Inr (res, s2)"
        and res: "set res = set (gn_deps node) \<union> (\<Union>d \<in> set (gn_deps node). below nodes d)"
        and st: "closure_step nodes ?s1 s2"
        using all_deps_fold [OF Suc.IH cok clear calls, of "remdups (gn_deps node)"] by auto
      let ?s3 = "s2\<lparr>cl_stack := removeAll name (cl_stack s2), cl_cache := dset (cl_cache s2) name res\<rparr>"
      have "all_deps (Suc depth) nodes name s = Inr (res, ?s3)"
        using fresh out Some f by simp
      moreover have exact: "set res = below nodes name" using res below_unfold [OF Some] by simp
      moreover have "closure_step nodes s ?s3"
        using st exact out unfolding closure_step_def cache_ok_def by auto
      ultimately show ?thesis by blast
    qed
  qed
qed simp

text \<open>The loop over all nodes: each one gets the closure of its name, the cache staying right.\<close>

definition sorted_below :: "nodes \<Rightarrow> string \<Rightarrow> string list" where
  "sorted_below nodes name = sorted_list_of_set (below nodes name)"

lemma close_all:
  assumes ac: "acyclic_deps nodes" and depth: "length nodes < depth"
  shows "distinct (map fst todo) \<Longrightarrow> (\<forall>(name, node) \<in> set todo. dget updated name = None) \<Longrightarrow>
    cache_ok nodes \<lparr>cl_cache = cache, cl_stack = []\<rparr> \<Longrightarrow>
    \<exists>cache'. foldM (close_one depth nodes) todo (updated, cache) =
      Inr (updated @ map (\<lambda>(name, node). (name, closed_node nodes name node (sorted_below nodes name))) todo, cache')"
proof (induction todo arbitrary: updated cache)
  case (Cons p todo)
  obtain name node where p: "p = (name, node)" by fastforce
  let ?s = "\<lparr>cl_cache = cache, cl_stack = []\<rparr>"
  have "open_calls nodes ?s \<le> length nodes"
    unfolding open_calls_def by (simp add: dom_map_of_conv_image_fst card_length [of "map fst nodes", simplified])
  then have calls: "open_calls nodes ?s < depth" using depth by simp
  have "clear_path nodes name ?s" by (simp add: clear_path_def)
  then obtain ds s' where 1: "all_deps depth nodes name ?s = Inr (ds, s')" "set ds = below nodes name"
    "closure_step nodes ?s s'"
    using all_deps_exact [OF ac Cons.prems(3) _ calls] by blast
  have srt: "sorted_set ds = sorted_below nodes name"
    unfolding sorted_set_def sorted_below_def 1(2) [symmetric] by (rule sorted_list_of_set_sort_remdups [symmetric])
  have c': "cache_ok nodes \<lparr>cl_cache = cl_cache s', cl_stack = []\<rparr>"
    using 1(3) by (simp add: closure_step_def cache_ok_def)
  let ?u = "updated @ [(name, closed_node nodes name node (sorted_below nodes name))]"
  have "dset updated name (closed_node nodes name node (sorted_below nodes name)) = ?u"
    using Cons.prems(2) p by (simp add: dset_fresh)
  then have one: "close_one depth nodes p (updated, cache) = Inr (?u, cl_cache s')"
    using 1(1) srt by (simp add: close_one_def p)
  have fresh: "\<forall>(name', node') \<in> set todo. dget ?u name' = None"
    using Cons.prems(1,2) p by (force simp: map_add_def)
  have d: "distinct (map fst todo)" using Cons.prems(1) by simp
  obtain cache' where "foldM (close_one depth nodes) todo (?u, cl_cache s') =
      Inr (?u @ map (\<lambda>(name, node). (name, closed_node nodes name node (sorted_below nodes name))) todo, cache')"
    using Cons.IH [OF d fresh c'] by blast
  then show ?case using one p by auto
qed simp

lemma compute_exact:
  assumes "acyclic_deps nodes" "wf_dict nodes" "length nodes < depth"
  shows "compute_transitive_deps depth nodes =
    Inr (map (\<lambda>(name, node). (name, closed_node nodes name node (sorted_below nodes name))) nodes)"
proof -
  have "cache_ok nodes \<lparr>cl_cache = [], cl_stack = []\<rparr>" by (simp add: cache_ok_def)
  then show ?thesis
    using close_all [OF assms(1,3), of nodes "[]" "[]"] assms(2) by (auto simp: compute_transitive_deps_def wf_dict_def)
qed

text \<open>C18: On a graph without dependency cycles, with a call depth above the number of declarations, the memoised
  closure returns, and every declaration gets as \<open>all_deps\<close> exactly the sorted names that can be reached
  from it in one or more steps, and the axioms and alerts computed from those.\<close>

theorem transitive_deps_exact:
  assumes "acyclic_deps nodes" "wf_dict nodes" "length nodes < depth"
  shows "\<exists>updated. compute_transitive_deps depth nodes = Inr updated \<and>
    (\<forall>name. dget updated name = map_option (\<lambda>node. closed_node nodes name node
       (sorted_list_of_set {y. (dep_edge nodes)\<^sup>+\<^sup>+ name y})) (dget nodes name))"
proof -
  let ?u = "map (\<lambda>(name, node). (name, closed_node nodes name node (sorted_below nodes name))) nodes"
  have "dget ?u name = map_option (\<lambda>node. closed_node nodes name node (sorted_below nodes name)) (dget nodes name)" for name
    by (rule map_of_map_values)
  then show ?thesis using compute_exact [OF assms] by (simp add: sorted_below_def below_def)
qed

section \<open>The two ways to compute alerts\<close>

lemma alerts_of_cong: "set (dvals a) = set (dvals b) \<Longrightarrow> alerts_of a = alerts_of b"
  by (simp add: alerts_of_def has_tag_def list_ex_iff del: set_map)

lemma set_present: "set (present nodes names) = {(n, d). n \<in> set names \<and> dget nodes n = Some d}"
  by (auto simp: present_def split: option.splits)

lemma finite_below: "finite (below nodes x)"
proof (rule finite_subset)
  show "below nodes x \<subseteq> (\<Union>n \<in> ran (map_of nodes). set (gn_deps n))"
  proof
    fix y assume "y \<in> below nodes x"
    then have "\<exists>z. dep_edge nodes z y" unfolding below_def by (metis mem_Collect_eq tranclp.cases)
    then obtain z n where "dget nodes z = Some n" "y \<in> set (gn_deps n)" unfolding dep_edge_def by blast
    then show "y \<in> (\<Union>n \<in> ran (map_of nodes). set (gn_deps n))" by (metis UN_I ranI)
  qed
  show "finite (\<Union>n \<in> ran (map_of nodes). set (gn_deps n))"
    by (auto simp: finite_ran finite_dom_map_of)
qed

text \<open>On a graph without dependency cycles the alerts that the memoised closure stores with a declaration are
  the alerts derived from its support cone.\<close>

theorem stored_alerts_are_cone_alerts:
  assumes "acyclic_deps nodes" "wf_dict nodes" "length nodes < depth"
    and "dget nodes target = Some node"
  shows "\<exists>updated cone. compute_transitive_deps depth nodes = Inr updated \<and>
    collect_cone depth target nodes [] = Inr cone \<and>
    map_option gn_cone_alerts (dget updated target) = Some (derive_alerts cone target)"
proof -
  obtain cone where cone: "collect_cone depth target nodes [] = Inr cone" "wf_dict cone"
    "\<forall>x. dget cone x = (if (dep_edge nodes)\<^sup>*\<^sup>* target x then dget nodes x else None)"
    using collected_cone [OF assms(3)] by blast
  let ?rest = "filter (\<lambda>(name, n). name \<noteq> target) cone"
  have mem: "(x, n) \<in> set cone \<longleftrightarrow> (dep_edge nodes)\<^sup>*\<^sup>* target x \<and> dget nodes x = Some n" for x n
    using cone(2,3) map_of_eq_Some_iff [of cone x n] unfolding wf_dict_def by (metis option.distinct(1))
  have strict: "(dep_edge nodes)\<^sup>*\<^sup>* target x \<and> x \<noteq> target \<longleftrightarrow> x \<in> below nodes target" for x
    using assms(1) unfolding below_def acyclic_deps_def by (metis mem_Collect_eq rtranclpD tranclp_into_rtranclp)
  have "set ?rest = set (present nodes (sorted_below nodes target))"
    using mem strict by (auto simp: set_present sorted_below_def finite_below)
  then have "derive_alerts cone target = alerts_of (present nodes (sorted_below nodes target))"
    unfolding derive_alerts_def by (intro alerts_of_cong) simp
  moreover have "dget (map (\<lambda>(name, n). (name, closed_node nodes name n (sorted_below nodes name))) nodes) target =
      Some (closed_node nodes target node (sorted_below nodes target))"
    using assms(4) map_of_map_values [of "\<lambda>name n. closed_node nodes name n (sorted_below nodes name)" nodes target] by simp
  ultimately show ?thesis using compute_exact [OF assms(1-3)] cone(1) by (simp add: closed_node_def)
qed

section \<open>A graph with a cycle\<close>

text \<open>\<open>a\<close> and \<open>b\<close> depend on each other, and \<open>a\<close> also on \<open>c\<close>, which is not proved.\<close>

definition cyclic_nodes :: nodes where
  "cyclic_nodes = [(''a'', node_of ''a'' ''def'' [''b'', ''c'']), (''b'', node_of ''b'' ''def'' [''a'']),
     (''c'', (node_of ''c'' ''theorem'' [])\<lparr>gn_has_sorry := True\<rparr>)]"

text \<open>On a graph with a dependency cycle the memoised closure is not transitive: for \<open>a -> b, c\<close> and
  \<open>b -> a\<close> it stores for \<open>b\<close> the dependency \<open>a\<close> only and no alert, while the support cone of \<open>b\<close>
  contains the unproved \<open>c\<close> and raises one.\<close>

theorem closure_misses_on_cycle:
  "map_sum id (\<lambda>u. map_option (\<lambda>n. (gn_all_deps n, gn_cone_alerts n)) (dget u ''b'')) (compute_transitive_deps 9 cyclic_nodes)
     = Inr (Some ([''a''], [])) \<and>
   map_sum id (\<lambda>cone. derive_alerts cone ''b'') (collect_cone 9 ''b'' cyclic_nodes []) = Inr [''depends_on_sorry_definition'']"
  by code_simp

section \<open>Concrete graphs\<close>

definition chain_nodes :: nodes where
  "chain_nodes = [(''a'', node_of ''a'' ''def'' [''b'']), (''b'', (node_of ''b'' ''opaque'' [])\<lparr>gn_tags := [''vacuous_body'']\<rparr>)]"

lemma chain_acyclic: "acyclic_deps chain_nodes"
proof -
  have e: "dep_edge chain_nodes x y \<Longrightarrow> x = ''a'' \<and> y = ''b''" for x y
    by (auto simp: dep_edge_def chain_nodes_def node_of_def split: if_splits)
  have "(dep_edge chain_nodes)\<^sup>+\<^sup>+ x y \<Longrightarrow> x = ''a'' \<and> y = ''b''" for x y
    by (induction rule: tranclp_induct) (auto dest: e)
  then show ?thesis by (fastforce simp: acyclic_deps_def)
qed

theorem cone_is_reachable_witness:
  "\<exists>cone. collect_cone 4 ''b'' cyclic_nodes [] = Inr cone \<and> wf_dict cone \<and>
    (\<forall>x. dget cone x = (if (dep_edge cyclic_nodes)\<^sup>*\<^sup>* ''b'' x then dget cyclic_nodes x else None))"
  by (rule cone_is_reachable) (simp add: cyclic_nodes_def)

theorem transitive_deps_exact_witness:
  "\<exists>updated. compute_transitive_deps 3 chain_nodes = Inr updated \<and>
    (\<forall>name. dget updated name = map_option (\<lambda>node. closed_node chain_nodes name node
       (sorted_list_of_set {y. (dep_edge chain_nodes)\<^sup>+\<^sup>+ name y})) (dget chain_nodes name))"
  by (rule transitive_deps_exact [OF chain_acyclic]) (simp_all add: chain_nodes_def wf_dict_def)

theorem stored_alerts_are_cone_alerts_witness:
  "\<exists>updated cone. compute_transitive_deps 3 chain_nodes = Inr updated \<and>
    collect_cone 3 ''a'' chain_nodes [] = Inr cone \<and>
    map_option gn_cone_alerts (dget updated ''a'') = Some (derive_alerts cone ''a'')"
  by (rule stored_alerts_are_cone_alerts [OF chain_acyclic, where node = "node_of ''a'' ''def'' [''b'']"])
     (simp_all add: chain_nodes_def wf_dict_def)

section \<open>The JSON file\<close>

lemma read_strs [simp]: "as_raw_strs (strs_json xs) = Inr xs"
proof -
  have "mapM as_str (map JStr xs) = Inr xs" by (induction xs) auto
  then show ?thesis by (simp add: strs_json_def)
qed

lemma load_node_json: "rbind (as_obj (node_json n)) load_node = Inr n"
  by (cases n) (simp add: node_json_def load_node_def field_def get_or_def)

text \<open>A dependency graph that was saved and loaded is the same graph: every field of every node comes back,
  and the order of the nodes.\<close>

theorem graph_load_save: "load_graph (save_graph nodes) = Inr nodes"
proof -
  have "mapM (\<lambda>(name, v). rbind (rbind (as_obj v) load_node) (\<lambda>node. Inr (name, node)))
      (map (\<lambda>(name, node). (name, node_json node)) nodes) = Inr nodes"
    by (induction nodes) (auto simp: load_node_json)
  then show ?thesis by (simp add: load_graph_def save_graph_def)
qed

end
