(* ===== verification/Dep_Graph_Queries.thy ===== *)
theory Dep_Graph_Queries
  imports Dep_Graph
begin

text \<open>
  The questions judges ask of the dependency graph: the support cone with its summary
  (\<open>dependency_graph/cone.py\<close>), and the answers of \<open>DepGraphOps\<close> (\<open>tools/dep_graph/core.py\<close>). The text
  of an answer is the joined list of its lines.
\<close>

section \<open>Counters\<close>

text \<open>\<open>collections.Counter\<close>: a dict of counts; \<open>most_common\<close> is the stable sort by falling count.\<close>

type_synonym counter = "(string, nat) dict"

definition count_one :: "counter \<Rightarrow> string \<Rightarrow> counter" where
  "count_one c x = dset c x (dget_or c x 0 + 1)"

definition counter_of :: "string list \<Rightarrow> counter" where
  "counter_of xs = foldl count_one [] xs"

definition most_common :: "counter \<Rightarrow> counter" where
  "most_common c = sort_key (\<lambda>(x, n). - int n) c"

section \<open>The support cone of a declaration\<close>

text \<open>The first five names, and how many more.\<close>

definition name_list :: "string \<Rightarrow> string \<Rightarrow> string list \<Rightarrow> string list" where
  "name_list short long names =
     (if names = [] then []
      else if length names \<le> 5 then [short @ '': '' @ join '', '' names @ ''.'']
      else [long @ '': '' @ join '', '' (take 5 names) @ '', and '' @ str_nat (length names - 5) @ '' more.''])"

definition cone_deps :: "nodes \<Rightarrow> string \<Rightarrow> nodes" where
  "cone_deps cone target = filter (\<lambda>(name, n). name \<noteq> target \<and> \<not> gn_is_auto_generated n) cone"

definition names_where :: "nodes \<Rightarrow> (graph_node \<Rightarrow> bool) \<Rightarrow> string list" where
  "names_where nodes P = map fst (filter (\<lambda>(name, n). P n) nodes)"

definition build_summary :: "nodes \<Rightarrow> string \<Rightarrow> string result" where
  "build_summary cone target =
     (let deps = cone_deps cone target; total = length deps;
          sorry_count = length (filter gn_has_sorry (dvals deps));
          unproved_count = length (filter gn_is_unproved (dvals deps));
          kinds = most_common (counter_of (map gn_kind (dvals deps)));
          tag_counts = most_common (counter_of (concat (map gn_tags (dvals deps))));
          clean = length (filter (\<lambda>n. \<not> gn_has_sorry n \<and> gn_tags n = []) (dvals deps));
          orphans = names_where deps (\<lambda>n. ''orphan_class'' \<in> set (gn_tags n));
          of_total = (\<lambda>k. str_nat k @ ''/'' @ str_nat total)
      in if deps = [] then Inr ''No project dependencies.''
         else rbind (if sorry_count = 0 then Inr []
                     else rbind (percent sorry_count total) (\<lambda>p. Inr [of_total sorry_count @ '' dependencies use sorry ('' @ p @ '').'']))
           (\<lambda>sorry_part. Inr (join '' ''
             ([''Support cone: '' @ str_nat total @ '' dependencies.'',
               ''By kind: '' @ join '', '' (map (\<lambda>(k, c). str_nat c @ '' '' @ k @ ''s'') kinds) @ ''.''] @
              sorry_part @
              only_if (unproved_count \<noteq> 0) (of_total unproved_count @ '' are intentionally unproved (book does not provide proof).'') @
              only_if (clean \<noteq> 0) (of_total clean @ '' are fully clean (no sorry, no flags).'') @
              only_if (tag_counts \<noteq> []) (''Flags: '' @ join '', '' (map (\<lambda>(t, c). str_nat c @ '' with '' @ t) tag_counts) @ ''.'') @
              only_if (orphans \<noteq> []) (''Depends on orphan classes (no instances): '' @ join '', '' orphans @ ''.'') @
              name_list ''Unproved declarations (book omits proof)'' ''Unproved declarations'' (names_where deps gn_is_unproved) @
              name_list (''Sorry'' @ [CHR 0x27] @ ''d theorems in chain'') (''Sorry'' @ [CHR 0x27] @ ''d theorems in chain'')
                (names_where deps (\<lambda>n. gn_has_sorry n \<and> gn_kind n = ''theorem'')) @
              name_list ''Stub definitions (ignore parameters)'' ''Stub definitions (ignore parameters)''
                (names_where deps (\<lambda>n. ''ignores_params'' \<in> set (gn_tags n) \<and> gn_kind n = ''def''))))))"

record support_cone =
  sc_target :: string
  sc_nodes :: nodes
  sc_alerts :: "string list"
  sc_flagged :: "string list"
  sc_summary :: string

definition flagged_of :: "nodes \<Rightarrow> string \<Rightarrow> string list" where
  "flagged_of cone target = names_where (cone_deps cone target) (\<lambda>n. gn_tags n \<noteq> [])"

definition support_cone_of :: "nat \<Rightarrow> string \<Rightarrow> nodes \<Rightarrow> support_cone result" where
  "support_cone_of depth target nodes =
     rbind (collect_cone depth target nodes []) (\<lambda>cone.
     rbind (build_summary cone target) (\<lambda>summary.
       Inr \<lparr>sc_target = target, sc_nodes = cone, sc_alerts = derive_alerts cone target,
         sc_flagged = flagged_of cone target, sc_summary = summary\<rparr>))"

section \<open>Lines of an answer\<close>

definition quoted :: "string \<Rightarrow> string" where
  "quoted s = [CHR 0x27] @ s @ [CHR 0x27]"

definition answer :: "string list \<Rightarrow> string" where
  "answer ls = join [nl] ls"

definition not_found :: "string \<Rightarrow> string" where
  "not_found name = ''Declaration '' @ quoted name @ '' not found in the graph.''"

definition bool_text :: "bool \<Rightarrow> string" where
  "bool_text b = (if b then ''True'' else ''False'')"

definition status_parts :: "graph_node \<Rightarrow> string list" where
  "status_parts n = [gn_kind n] @ only_if (gn_has_sorry n) ''sorry'' @ only_if (gn_is_unproved n) ''unproved'' @ gn_tags n"

definition dash_line :: "string \<Rightarrow> string \<Rightarrow> string" where
  "dash_line name status = ''- '' @ name @ '' ('' @ status @ '')''"

definition format_node :: "graph_node \<Rightarrow> string" where
  "format_node n = answer
     ([''Name: '' @ gn_name n, ''Kind: '' @ gn_kind n, ''Has sorry: '' @ bool_text (gn_has_sorry n)] @
      only_if (gn_is_unproved n) ''Unproved: yes (book does not provide proof)'' @
      only_if (gn_is_class n) (''Is class: yes (instances: '' @ str_int (gn_instance_count n) @ '')'') @
      only_if (gn_type_head n \<noteq> []) (''Type head: '' @ gn_type_head n) @
      only_if (gn_tags n \<noteq> []) (''Tags: '' @ join '', '' (gn_tags n)) @
      only_if (gn_deps n \<noteq> []) (''Direct deps ('' @ str_nat (length (gn_deps n)) @ ''): '' @ join '', '' (sort (gn_deps n))) @
      only_if (gn_field_deps n \<noteq> []) (''Field deps: '' @ join '', '' (sort (gn_field_deps n))) @
      only_if (gn_all_deps n \<noteq> []) (''Transitive deps: '' @ str_nat (length (gn_all_deps n))))"

section \<open>Searching\<close>

definition search_hit :: "string \<Rightarrow> graph_node \<Rightarrow> bool" where
  "search_hit query n = (\<not> gn_is_auto_generated n \<and> contains (lower (gn_name n)) (lower query))"

text \<open>The loop over the nodes, which stops after the match that fills the list.\<close>

fun search_loop :: "string \<Rightarrow> int \<Rightarrow> graph_node list \<Rightarrow> graph_node list \<Rightarrow> graph_node list" where
  "search_loop query max_results matches [] = matches"
| "search_loop query max_results matches (n # ns) =
     (if search_hit query n
      then if max_results \<le> int (length (matches @ [n])) then matches @ [n]
           else search_loop query max_results (matches @ [n]) ns
      else search_loop query max_results matches ns)"

definition search_node :: "nodes \<Rightarrow> string \<Rightarrow> int \<Rightarrow> string" where
  "search_node nodes query max_results =
     (let matches = search_loop query max_results [] (dvals nodes)
      in if matches = [] then ''No declarations matching '' @ quoted query @ ''.''
         else answer
           ([''Found '' @ str_nat (length matches) @ '' declaration(s) matching '' @ quoted query @ '':'', []] @
            map (\<lambda>n. dash_line (gn_name n) (join '', '' (status_parts n))) (sort_key gn_name matches) @
            only_if (max_results \<le> int (length matches)) (''(showing first '' @ str_int max_results @ '' results)'')))"

definition get_node :: "nodes \<Rightarrow> string \<Rightarrow> string" where
  "get_node nodes name = (case dget nodes name of None \<Rightarrow> not_found name | Some n \<Rightarrow> format_node n)"

section \<open>Dependencies of a declaration\<close>

definition get_dependency_health :: "nat \<Rightarrow> nodes \<Rightarrow> string \<Rightarrow> string result" where
  "get_dependency_health depth nodes name =
     (case dget nodes name of
        None \<Rightarrow> Inr (not_found name)
      | Some n \<Rightarrow> rbind (support_cone_of depth name nodes) (\<lambda>cone. Inr (answer
          ([''Target: '' @ name, ''Cone size: '' @ str_int (int (length (sc_nodes cone)) - 1) @ '' dependencies'',
            ''Alerts: '' @ (if gn_cone_alerts n = [] then ''none'' else join '', '' (gn_cone_alerts n))] @
           only_if (sc_flagged cone \<noteq> []) (''Flagged nodes: '' @ join '', '' (sc_flagged cone)) @
           [[], sc_summary cone]))))"

definition dependency_line :: "nodes \<Rightarrow> string \<Rightarrow> string list" where
  "dependency_line nodes dep =
     (case dget nodes dep of
        None \<Rightarrow> [''- '' @ dep @ '' (not in graph)'']
      | Some n \<Rightarrow> only_if (\<not> gn_is_auto_generated n) (dash_line dep (join '', '' (status_parts n))))"

definition list_dependencies :: "nodes \<Rightarrow> string \<Rightarrow> bool \<Rightarrow> string" where
  "list_dependencies nodes name transitive =
     (case dget nodes name of
        None \<Rightarrow> not_found name
      | Some n \<Rightarrow>
          let deps = (if transitive then gn_all_deps n else gn_deps n)
          in if deps = [] then quoted name @ '' has no '' @ (if transitive then ''transitive '' else []) @ ''project dependencies.''
             else answer
               ([str_nat (length deps) @ '' '' @ (if transitive then ''transitive'' else ''direct'') @
                 '' dependencies of '' @ name @ '':'', []] @
                concat (map (dependency_line nodes) (sort deps))))"

definition flagged_lines :: "nodes \<Rightarrow> string \<Rightarrow> string list" where
  "flagged_lines nodes flagged =
     (case dget nodes flagged of
        None \<Rightarrow> []
      | Some n \<Rightarrow> [dash_line flagged (gn_kind n), ''  Tags: '' @ join '', '' (gn_tags n)] @
          only_if (gn_has_sorry n) ''  Has sorry: yes'' @
          only_if (gn_is_unproved n) ''  Unproved: yes (book does not provide proof)'')"

definition list_suspicious_dependencies :: "nat \<Rightarrow> nodes \<Rightarrow> string \<Rightarrow> string result" where
  "list_suspicious_dependencies depth nodes name =
     (case dget nodes name of
        None \<Rightarrow> Inr (not_found name)
      | Some n \<Rightarrow> rbind (support_cone_of depth name nodes) (\<lambda>cone.
          if sc_flagged cone = [] then Inr (''No flagged nodes in the support cone of '' @ quoted name @ ''.'')
          else Inr (answer ([''Flagged nodes in cone of '' @ name @ '':'', []] @
                 concat (map (flagged_lines nodes) (sc_flagged cone))))))"

section \<open>Sorries\<close>

text \<open>The names in the cone that are unproved, that the declaration uses with a sorry, and the other ones with a sorry.\<close>

record sorry_chain =
  sr_direct :: "string list"
  sr_transitive :: "string list"
  sr_unproved :: "string list"

definition sorry_chain_of :: "nodes \<Rightarrow> string \<Rightarrow> string list \<Rightarrow> sorry_chain" where
  "sorry_chain_of cone name direct_deps =
     (let deps = cone_deps cone name
      in \<lparr>sr_direct = map fst (filter (\<lambda>(d, n). \<not> gn_is_unproved n \<and> gn_has_sorry n \<and> d \<in> set direct_deps) deps),
          sr_transitive = map fst (filter (\<lambda>(d, n). \<not> gn_is_unproved n \<and> gn_has_sorry n \<and> d \<notin> set direct_deps) deps),
          sr_unproved = names_where deps gn_is_unproved\<rparr>)"

definition sorry_lines :: "nodes \<Rightarrow> string \<Rightarrow> string list \<Rightarrow> string list" where
  "sorry_lines nodes header names =
     (if names = [] then []
      else (header @ '' ('' @ str_nat (length names) @ ''):'') #
        map (\<lambda>s. ''  '' @ dash_line s (case dget nodes s of None \<Rightarrow> ''?'' | Some n \<Rightarrow> gn_kind n)) (sort names))"

definition trace_sorry_dependencies :: "nat \<Rightarrow> nodes \<Rightarrow> string \<Rightarrow> string result" where
  "trace_sorry_dependencies depth nodes name =
     (case dget nodes name of
        None \<Rightarrow> Inr (not_found name)
      | Some n \<Rightarrow> rbind (support_cone_of depth name nodes) (\<lambda>cone.
          let ch = sorry_chain_of (sc_nodes cone) name (gn_deps n);
              total = int (length (sc_nodes cone)) - 1;
              sorry_count = length (sr_direct ch) + length (sr_transitive ch)
          in if sr_direct ch = [] \<and> sr_transitive ch = [] \<and> sr_unproved ch = []
             then Inr (''No sorry or unproved in the dependency chain of '' @ quoted name @ ''. Target itself has sorry: '' @
                    (if gn_has_sorry n then ''yes'' else ''no'') @ ''.'')
             else rbind (if 0 < total \<and> 0 < sorry_count
                         then rbind (percent sorry_count (nat total)) (\<lambda>p. Inr [[],
                           ''Sorry coverage: '' @ str_nat sorry_count @ ''/'' @ str_int total @ '' dependencies ('' @ p @ '')''])
                         else Inr [])
               (\<lambda>coverage. Inr (answer
                 ([''Sorry/unproved chain for '' @ name @ '' (target has sorry: '' @ bool_text (gn_has_sorry n) @ ''):'', []] @
                  sorry_lines nodes ''Direct dependencies with sorry'' (sr_direct ch) @
                  sorry_lines nodes ''Transitive dependencies with sorry'' (sr_transitive ch) @
                  (if sr_unproved ch = [] then []
                   else (''Intentionally unproved '' @ em_dash @ '' book does not provide proof ('' @
                          str_nat (length (sr_unproved ch)) @ ''):'') #
                        map (\<lambda>u. ''  '' @ dash_line u ''axiom'') (sort (sr_unproved ch))) @
                  coverage)))))"

section \<open>Dependents and the overview\<close>

definition dependents :: "nodes \<Rightarrow> string \<Rightarrow> string list" where
  "dependents nodes name = names_where nodes (\<lambda>n. \<not> gn_is_auto_generated n \<and> name \<in> set (gn_deps n))"

definition find_dependents :: "nodes \<Rightarrow> string \<Rightarrow> string" where
  "find_dependents nodes name =
     (if \<not> has_key nodes name then not_found name
      else if dependents nodes name = []
      then ''No declarations depend on '' @ quoted name @ '' (potential dead code).''
      else answer
        ([str_nat (length (dependents nodes name)) @ '' declarations directly depend on '' @ name @ '':'', []] @
         concat (map (\<lambda>d. case dget nodes d of None \<Rightarrow> [] | Some n \<Rightarrow> [dash_line d (gn_kind n)])
           (sort (dependents nodes name)))))"

definition own_nodes :: "nodes \<Rightarrow> graph_node list" where
  "own_nodes nodes = filter (\<lambda>n. \<not> gn_is_auto_generated n) (dvals nodes)"

definition overview :: "nodes \<Rightarrow> string result" where
  "overview nodes =
     (let ns = own_nodes nodes; total = length ns;
          count = (\<lambda>P. length (filter P ns));
          sorry_count = count gn_has_sorry; unproved_count = count gn_is_unproved;
          tagged_count = count (\<lambda>n. gn_tags n \<noteq> []);
          tag_counts = counter_of (concat (map gn_tags ns));
          no_dependents = filter (\<lambda>n. gn_name n \<notin> set (concat (map gn_deps ns))) ns;
          of_total = (\<lambda>k. str_nat k @ ''/'' @ str_nat total);
          counts = map (\<lambda>(k, c). ''  '' @ k @ '': '' @ str_nat c)
      in rbind (percent sorry_count total) (\<lambda>sorry_share.
         rbind (percent tagged_count total) (\<lambda>tagged_share.
         Inr (answer
           ([''Project graph: '' @ str_nat total @ '' declarations'', [], ''By kind:''] @
            counts (most_common (counter_of (map gn_kind ns))) @
            [[], ''Sorry: '' @ of_total sorry_count @ '' ('' @ sorry_share @ '')''] @
            only_if (unproved_count \<noteq> 0) (''Unproved (book omits proof): '' @ of_total unproved_count) @
            [''Flagged: '' @ of_total tagged_count @ '' ('' @ tagged_share @ '')''] @
            (if tag_counts = [] then [] else [[], ''Tag breakdown:''] @ counts (most_common tag_counts)) @
            (if no_dependents = [] then []
             else [[], ''Potential dead code (no dependents): '' @ str_nat (length no_dependents)]))))))"

end
