(* ===== verification/Dep_Graph_Queries_Correct.thy ===== *)
theory Dep_Graph_Queries_Correct
  imports Dep_Graph_Queries Dep_Graph_Correct
begin

text \<open>
  What the answers about the dependency graph show: the support cone is always computed, the search
  finds the first matches, the sorry chain is exactly what can be reached, and the overview of a
  project without declarations of its own fails.
\<close>

section \<open>Counters\<close>

text \<open>A counter holds the number of occurrences, once for every value that occurs.\<close>

lemma count_one_get: "dget_or (count_one c x) y 0 = dget_or c y 0 + (if x = y then 1 else 0)"
  by (simp add: count_one_def dget_or_def)

lemma counter_of_count: "dget_or (counter_of xs) x 0 = count_list xs x"
proof -
  have "dget_or (foldl count_one c xs) x 0 = dget_or c x 0 + count_list xs x" for c
    by (induction xs arbitrary: c) (auto simp: count_one_get)
  then show ?thesis by (simp add: counter_of_def dget_or_def)
qed

section \<open>The cone is computed\<close>

lemma percent_defined: "0 < b \<Longrightarrow> \<exists>p. percent a b = Inr p"
  by (simp add: percent_def py_div_def)

lemma build_summary_returns: "\<exists>s. build_summary cone target = Inr s"
proof (cases "cone_deps cone target")
  case (Cons p ps)
  then have "\<exists>q. percent k (length (cone_deps cone target)) = Inr q" for k by (simp add: percent_defined)
  then show ?thesis using Cons unfolding build_summary_def Let_def by (simp only: rbind_Inr_iff if_distrib) simp
qed (simp add: build_summary_def)

lemma support_cone_collects:
  assumes "collect_cone depth target nodes [] = Inr cone"
  shows "\<exists>s. support_cone_of depth target nodes = Inr \<lparr>sc_target = target, sc_nodes = cone,
    sc_alerts = derive_alerts cone target, sc_flagged = flagged_of cone target, sc_summary = s\<rparr>"
  using assms build_summary_returns [of cone target] by (auto simp: support_cone_of_def)

section \<open>The sorry chain\<close>

lemma in_cone_iff: "wf_dict cone \<Longrightarrow> (x, n) \<in> set cone \<longleftrightarrow> dget cone x = Some n"
  by (simp add: wf_dict_def)

lemma in_cone_deps: "(x, n) \<in> set (cone_deps cone t) \<longleftrightarrow> (x, n) \<in> set cone \<and> x \<noteq> t \<and> \<not> gn_is_auto_generated n"
  by (auto simp: cone_deps_def)

text \<open>The declarations other than \<open>name\<close> that it depends on, in one or more steps, and that Lean did not generate.\<close>

definition support_of :: "nodes \<Rightarrow> string \<Rightarrow> (string \<times> graph_node) set" where
  "support_of nodes name = {(x, n). (dep_edge nodes)\<^sup>*\<^sup>* name x \<and> dget nodes x = Some n \<and> x \<noteq> name \<and> \<not> gn_is_auto_generated n}"

lemma cone_deps_support:
  assumes "length nodes < depth"
  shows "\<exists>cone. collect_cone depth name nodes [] = Inr cone \<and> set (cone_deps cone name) = support_of nodes name"
proof -
  obtain cone where 1: "collect_cone depth name nodes [] = Inr cone" "wf_dict cone"
    "\<forall>x. dget cone x = (if (dep_edge nodes)\<^sup>*\<^sup>* name x then dget nodes x else None)"
    using collected_cone [OF assms] by blast
  have "(x, n) \<in> set (cone_deps cone name) \<longleftrightarrow> (x, n) \<in> support_of nodes name" for x n
    using 1(3) by (simp add: in_cone_deps in_cone_iff [OF 1(2)] support_of_def)
  then have "set (cone_deps cone name) = support_of nodes name" by auto
  then show ?thesis using 1(1) by blast
qed

text \<open>The sorry trace of a declaration classifies exactly what it depends on: with a call depth above the
  number of declarations the cone is computed, a declaration is listed as unproved iff it can be reached, is not
  the target, not generated by Lean and marked unproved, and every other one with a sorry is listed either as
  direct or as transitive, by whether the target names it as a dependency.\<close>

theorem sorry_chain_exact:
  assumes "length nodes < depth"
  shows "\<exists>cone. support_cone_of depth name nodes = Inr cone \<and>
    set (sr_unproved (sorry_chain_of (sc_nodes cone) name deps)) = {x. \<exists>n. (x, n) \<in> support_of nodes name \<and> gn_is_unproved n} \<and>
    set (sr_direct (sorry_chain_of (sc_nodes cone) name deps)) =
      {x \<in> set deps. \<exists>n. (x, n) \<in> support_of nodes name \<and> gn_has_sorry n \<and> \<not> gn_is_unproved n} \<and>
    set (sr_transitive (sorry_chain_of (sc_nodes cone) name deps)) =
      {x \<in> - set deps. \<exists>n. (x, n) \<in> support_of nodes name \<and> gn_has_sorry n \<and> \<not> gn_is_unproved n}"
proof -
  obtain cone where 1: "collect_cone depth name nodes [] = Inr cone" "set (cone_deps cone name) = support_of nodes name"
    using cone_deps_support [OF assms] by blast
  obtain s where "support_cone_of depth name nodes = Inr \<lparr>sc_target = name, sc_nodes = cone,
      sc_alerts = derive_alerts cone name, sc_flagged = flagged_of cone name, sc_summary = s\<rparr>"
    using support_cone_collects [OF 1(1)] by blast
  moreover have "set (map fst (filter (\<lambda>(x, n). P x n) (cone_deps cone name))) = {x. \<exists>n. (x, n) \<in> support_of nodes name \<and> P x n}" for P
    using 1(2) by force
  ultimately show ?thesis by (auto simp: sorry_chain_of_def names_where_def Let_def simp del: set_map set_filter)
qed

section \<open>The search\<close>

lemma search_loop_take:
  "search_loop query k ms ns = (let hits = filter (search_hit query) ns in
     ms @ (if int (length ms) < k then take (nat k - length ms) hits else take 1 hits))"
proof (induction query k ms ns rule: search_loop.induct)
  case (2 query k ms n ns)
  show ?case
  proof (cases "search_hit query n \<and> int (length ms) + 1 < k")
    case True
    then have "nat k - length ms = Suc (nat k - Suc (length ms))" by linarith
    then show ?thesis using 2 True by (simp add: Let_def)
  next
    case False
    then show ?thesis using 2 by (auto simp: Let_def not_less take_Cons')
  qed
qed simp

text \<open>The search returns the first matches in the order of the graph, as many as asked for: the declarations
  Lean did not generate whose name contains the query, upper and lower case alike. Asked for none, it returns one.\<close>

theorem search_finds_first:
  "search_loop query max_results [] (dvals nodes) =
     take (max 1 (nat max_results)) (filter (\<lambda>n. \<not> gn_is_auto_generated n \<and>
       contains (lower (gn_name n)) (lower query)) (dvals nodes))"
proof -
  have "filter (search_hit query) (dvals nodes) =
      filter (\<lambda>n. \<not> gn_is_auto_generated n \<and> contains (lower (gn_name n)) (lower query)) (dvals nodes)"
    by (intro filter_cong) (simp_all add: search_hit_def)
  moreover have "0 < max_results \<Longrightarrow> max 1 (nat max_results) = nat max_results" by linarith
  ultimately show ?thesis by (simp add: search_loop_take Let_def)
qed

section \<open>The overview\<close>

lemma percent_zero: "percent a 0 = Inl ZeroDivisionError"
  by (simp add: percent_def py_div_def)

text \<open>The overview divides by the number of declarations that Lean did not generate: it raises
  \<open>ZeroDivisionError\<close> exactly when there is none, an empty graph included, and no other exception.\<close>

theorem overview_fails_iff:
  "(if own_nodes nodes = [] then overview nodes = Inl ZeroDivisionError else \<exists>text. overview nodes = Inr text)"
proof (cases "own_nodes nodes")
  case (Cons n ns)
  then obtain p q where
    "percent (length (filter gn_has_sorry (own_nodes nodes))) (length (own_nodes nodes)) = Inr p"
    "percent (length (filter (\<lambda>n. gn_tags n \<noteq> []) (own_nodes nodes))) (length (own_nodes nodes)) = Inr q"
    using percent_defined by (metis length_greater_0_conv list.distinct(1))
  then show ?thesis using Cons by (simp only: overview_def Let_def rbind.simps) simp
qed (simp add: overview_def percent_zero Let_def)

section \<open>Concrete inputs\<close>

theorem sorry_chain_exact_witness:
  "\<exists>cone. support_cone_of 4 ''b'' cyclic_nodes = Inr cone \<and>
    set (sr_unproved (sorry_chain_of (sc_nodes cone) ''b'' [''a''])) = {x. \<exists>n. (x, n) \<in> support_of cyclic_nodes ''b'' \<and> gn_is_unproved n} \<and>
    set (sr_direct (sorry_chain_of (sc_nodes cone) ''b'' [''a''])) =
      {x \<in> set [''a'']. \<exists>n. (x, n) \<in> support_of cyclic_nodes ''b'' \<and> gn_has_sorry n \<and> \<not> gn_is_unproved n} \<and>
    set (sr_transitive (sorry_chain_of (sc_nodes cone) ''b'' [''a''])) =
      {x \<in> - set [''a'']. \<exists>n. (x, n) \<in> support_of cyclic_nodes ''b'' \<and> gn_has_sorry n \<and> \<not> gn_is_unproved n}"
  by (rule sorry_chain_exact) (simp add: cyclic_nodes_def)

end
