(* ===== verification/Py_Regex.thy ===== *)
theory Py_Regex
  imports Py_Strings
begin

text \<open>
  Python's \<open>re\<close>, for the constructs the modelled code uses, on ASCII text. A pattern is matched by
  backtracking: \<open>run\<close> lists the ways to match at a position in the order Python tries them, and the
  first one is the match. The body of a repetition never matches the empty string in the modelled
  patterns, and no pattern given to \<open>finditer\<close> or \<open>sub\<close> does.
\<close>

section \<open>Patterns\<close>

datatype re =
    Empty
  | Cls "char \<Rightarrow> bool"
  | Cat re re
  | Alt re re
  | Star bool re
  | Grp nat re
  | WordB
  | NotAhead re
  | Behind "char \<Rightarrow> bool"
  | Bol

definition is_word_char :: "char \<Rightarrow> bool" where
  "is_word_char c = (let n = of_char c :: nat in
     (48 \<le> n \<and> n \<le> 57) \<or> (65 \<le> n \<and> n \<le> 90) \<or> (97 \<le> n \<and> n \<le> 122) \<or> n = 95)"

definition chr :: "char \<Rightarrow> re" where "chr c = Cls (\<lambda>d. d = c)"

definition one_of :: "string \<Rightarrow> re" where "one_of cs = Cls (\<lambda>d. d \<in> set cs)"

definition none_of :: "string \<Rightarrow> re" where "none_of cs = Cls (\<lambda>d. d \<notin> set cs)"

definition any_char :: re where "any_char = Cls (\<lambda>_. True)"

definition space :: re where "space = Cls is_space"

definition non_space :: re where "non_space = Cls (\<lambda>c. \<not> is_space c)"

definition word_char :: re where "word_char = Cls is_word_char"

definition digit :: re where "digit = Cls is_digit_char"

definition many :: "re \<Rightarrow> re" where "many r = Star True r"

definition many_lazy :: "re \<Rightarrow> re" where "many_lazy r = Star False r"

definition some :: "re \<Rightarrow> re" where "some r = Cat r (Star True r)"

definition some_lazy :: "re \<Rightarrow> re" where "some_lazy r = Cat r (Star False r)"

definition opt :: "re \<Rightarrow> re" where "opt r = Alt r Empty"

fun cat :: "re list \<Rightarrow> re" where
  "cat [] = Empty"
| "cat [r] = r"
| "cat (r # s # rs) = Cat r (cat (s # rs))"

fun alts :: "re list \<Rightarrow> re" where
  "alts [] = Cls (\<lambda>_. False)"
| "alts [r] = r"
| "alts (r # s # rs) = Alt r (alts (s # rs))"

fun lit :: "string \<Rightarrow> re" where
  "lit [] = Empty"
| "lit (c # cs) = Cat (chr c) (lit cs)"

text \<open>A literal whose letters are compared without case.\<close>

fun lit_nocase :: "string \<Rightarrow> re" where
  "lit_nocase [] = Empty"
| "lit_nocase (c # cs) = Cat (Cls (\<lambda>d. lower_char d = lower_char c)) (lit_nocase cs)"

text \<open>\<open>$\<close>: at the end of the text, or before a newline that ends it.\<close>

definition eol :: re where
  "eol = NotAhead (NotAhead (Cat (opt (chr nl)) (NotAhead any_char)))"

section \<open>Matching\<close>

text \<open>A position in the text, with the text before it reversed, and the groups captured so far.\<close>

record position =
  before :: string
  after :: string
  caps :: "(nat, string) dict"

definition word_next :: "string \<Rightarrow> bool" where
  "word_next s = (s \<noteq> [] \<and> is_word_char (hd s))"

function run :: "re \<Rightarrow> position \<Rightarrow> position list" where
  "run Empty p = [p]"
| "run (Cls q) p = (case after p of [] \<Rightarrow> [] | c # cs \<Rightarrow>
     if q c then [p\<lparr>before := c # before p, after := cs\<rparr>] else [])"
| "run (Cat r s) p = concat (map (run s) (run r p))"
| "run (Alt r s) p = run r p @ run s p"
| "run (Star greedy r) p =
     (let more = concat (map (\<lambda>t. if length (after t) < length (after p) then run (Star greedy r) t else []) (run r p))
      in if greedy then more @ [p] else p # more)"
| "run (Grp k r) p =
     map (\<lambda>t. t\<lparr>caps := dset (caps t) k (take (length (after p) - length (after t)) (after p))\<rparr>) (run r p)"
| "run WordB p = (if word_next (before p) \<noteq> word_next (after p) then [p] else [])"
| "run (NotAhead r) p = (if run r p = [] then [p] else [])"
| "run (Behind q) p = (if before p \<noteq> [] \<and> q (hd (before p)) then [p] else [])"
| "run Bol p = (if before p = [] \<or> hd (before p) = nl then [p] else [])"
  by pat_completeness auto

termination by (relation "measures [\<lambda>(r, p). size r, \<lambda>(r, p). length (after p)]") auto

section \<open>Searching\<close>

text \<open>A match: what is before it (reversed), its text, its groups, and what is after it.\<close>

record re_match =
  mt_before :: string
  mt_text :: string
  mt_groups :: "(nat, string) dict"
  mt_rest :: string

definition match_at :: "re \<Rightarrow> string \<Rightarrow> string \<Rightarrow> re_match option" where
  "match_at r bef aft =
     (case run r \<lparr>before = bef, after = aft, caps = []\<rparr> of
        [] \<Rightarrow> None
      | t # _ \<Rightarrow> Some \<lparr>mt_before = bef, mt_text = take (length aft - length (after t)) aft,
          mt_groups = caps t, mt_rest = after t\<rparr>)"

fun search_from :: "re \<Rightarrow> string \<Rightarrow> string \<Rightarrow> re_match option" where
  "search_from r bef [] = match_at r bef []"
| "search_from r bef (c # cs) =
     (case match_at r bef (c # cs) of Some m \<Rightarrow> Some m | None \<Rightarrow> search_from r (c # bef) cs)"

definition re_search :: "re \<Rightarrow> string \<Rightarrow> re_match option" where
  "re_search r s = search_from r [] s"

definition re_match_start :: "re \<Rightarrow> string \<Rightarrow> re_match option" where
  "re_match_start r s = match_at r [] s"

definition group :: "re_match \<Rightarrow> nat \<Rightarrow> string" where
  "group m k = dget_or (mt_groups m) k []"

text \<open>All matches, each search going on behind the last match.\<close>

function find_from :: "re \<Rightarrow> string \<Rightarrow> string \<Rightarrow> re_match list" where
  "find_from r bef aft =
     (case search_from r bef aft of
        None \<Rightarrow> []
      | Some m \<Rightarrow> m # (if length (mt_rest m) < length aft then find_from r (rev (mt_text m) @ mt_before m) (mt_rest m) else []))"
  by auto

termination by (relation "measure (\<lambda>(r, bef, aft). length aft)") auto

declare find_from.simps [simp del]

definition finditer :: "re \<Rightarrow> string \<Rightarrow> re_match list" where
  "finditer r s = find_from r [] s"

text \<open>\<open>re.sub\<close> with a function of the match: the text between the matches stays.\<close>

fun sub_pieces :: "(re_match \<Rightarrow> string) \<Rightarrow> nat \<Rightarrow> re_match list \<Rightarrow> string \<Rightarrow> string" where
  "sub_pieces f pos [] s = drop pos s"
| "sub_pieces f pos (m # ms) s =
     drop pos (take (length (mt_before m)) s) @ f m @ sub_pieces f (length (mt_before m) + length (mt_text m)) ms s"

definition re_sub :: "re \<Rightarrow> (re_match \<Rightarrow> string) \<Rightarrow> string \<Rightarrow> string" where
  "re_sub r f s = sub_pieces f 0 (finditer r s) s"

section \<open>Where a match stands\<close>

lemma set_run_Star:
  "set (run (Star greedy r) p) =
     insert p (\<Union>t\<in>{t \<in> set (run r p). length (after t) < length (after p)}. set (run (Star greedy r) t))"
  by (subst run.simps(5)) (auto simp: Let_def simp del: run.simps)

text \<open>Every way to match consumes a piece of the text that follows.\<close>

lemma run_consumes:
  "t \<in> set (run r p) \<Longrightarrow> \<exists>u. after p = u @ after t \<and> before t = rev u @ before p"
proof (induction r p arbitrary: t rule: run.induct)
  case (2 q p)
  then show ?case by (cases "after p") (auto split: if_splits)
next
  case (3 r s p)
  then obtain t' where t: "t' \<in> set (run r p)" "t \<in> set (run s t')" by auto
  with 3 obtain u v where "after p = u @ after t'" "before t' = rev u @ before p"
    "after t' = v @ after t" "before t = rev v @ before t'" by meson
  then show ?case by (intro exI [of _ "u @ v"]) simp
next
  case (5 greedy r p)
  show ?case
  proof (cases "t = p")
    case True
    then show ?thesis by simp
  next
    case False
    then obtain t' where t: "t' \<in> set (run r p)" "length (after t') < length (after p)" "t \<in> set (run (Star greedy r) t')"
      using 5(3) unfolding set_run_Star [of greedy r p] by blast
    obtain u where u: "after p = u @ after t'" "before t' = rev u @ before p" using 5(1) [OF t(1)] by blast
    obtain v where "after t' = v @ after t" "before t = rev v @ before t'" using 5(2) [OF t] by blast
    with u show ?thesis by (intro exI [of _ "u @ v"]) simp
  qed
next
  case (6 k r p)
  then obtain t' where "t' \<in> set (run r p)" "after t = after t'" "before t = before t'" by auto
  with 6 show ?case by metis
qed (auto split: if_splits)

lemma match_at_text:
  assumes "match_at r bef aft = Some m"
  shows "mt_before m = bef \<and> aft = mt_text m @ mt_rest m"
proof -
  obtain t ts where "run r \<lparr>before = bef, after = aft, caps = []\<rparr> = t # ts"
    "m = \<lparr>mt_before = bef, mt_text = take (length aft - length (after t)) aft, mt_groups = caps t, mt_rest = after t\<rparr>"
    using assms by (auto simp: match_at_def split: list.splits)
  then show ?thesis using run_consumes [of t r "\<lparr>before = bef, after = aft, caps = []\<rparr>"] by auto
qed

lemma search_from_text:
  "search_from r bef aft = Some m \<Longrightarrow> \<exists>u. mt_before m = rev u @ bef \<and> aft = u @ mt_text m @ mt_rest m"
proof (induction r bef aft rule: search_from.induct)
  case (1 r bef)
  then show ?case using match_at_text [of r bef "[]" m] by simp
next
  case (2 r bef c cs)
  show ?case
  proof (cases "match_at r bef (c # cs)")
    case None
    with 2 obtain u where "mt_before m = rev u @ c # bef" "cs = u @ mt_text m @ mt_rest m" by auto
    then show ?thesis by (intro exI [of _ "c # u"]) simp
  next
    case (Some m')
    with 2(2) have "m' = m" by simp
    with match_at_text [OF Some] show ?thesis by (intro exI [of _ "[]"]) simp
  qed
qed

text \<open>\<open>re.sub\<close> goes through the text from the left, and keeps what no match covers.\<close>

definition sub_from :: "re \<Rightarrow> (re_match \<Rightarrow> string) \<Rightarrow> string \<Rightarrow> string \<Rightarrow> string" where
  "sub_from r f bef aft = sub_pieces f (length bef) (find_from r bef aft) (rev bef @ aft)"

lemma re_sub_from: "re_sub r f s = sub_from r f [] s"
  by (simp add: re_sub_def sub_from_def finditer_def)

lemma sub_from_None: "search_from r bef aft = None \<Longrightarrow> sub_from r f bef aft = aft"
  by (simp add: sub_from_def find_from.simps)

lemma sub_from_Some:
  assumes "search_from r bef aft = Some m" "mt_text m \<noteq> []" "mt_before m = rev u @ bef"
  shows "sub_from r f bef aft = u @ f m @ sub_from r f (rev (mt_text m) @ mt_before m) (mt_rest m)"
proof -
  have "aft = u @ mt_text m @ mt_rest m" using search_from_text [OF assms(1)] assms(3) by auto
  moreover have "find_from r bef aft = m # find_from r (rev (mt_text m) @ mt_before m) (mt_rest m)"
    using assms calculation by (subst find_from.simps) simp
  ultimately show ?thesis using assms(3) by (simp add: sub_from_def add_ac)
qed

section \<open>Repetitions of a class of characters\<close>

lemma run_many_Cls_hd:
  "\<exists>ts. run (many (Cls q)) p = p\<lparr>before := rev (takeWhile q (after p)) @ before p, after := dropWhile q (after p)\<rparr> # ts"
proof (induction "length (after p)" arbitrary: p rule: less_induct)
  case less
  show ?case
  proof (cases "after p")
    case Nil
    then show ?thesis by (simp add: many_def Let_def)
  next
    case (Cons c cs)
    show ?thesis
    proof (cases "q c")
      case True
      obtain ts where "run (many (Cls q)) (p\<lparr>before := c # before p, after := cs\<rparr>) =
          p\<lparr>before := rev (takeWhile q cs) @ c # before p, after := dropWhile q cs\<rparr> # ts"
        using less [of "p\<lparr>before := c # before p, after := cs\<rparr>"] Cons by auto
      with Cons True show ?thesis by (simp add: many_def Let_def)
    next
      case False
      with Cons show ?thesis by (simp add: many_def Let_def)
    qed
  qed
qed

lemma run_many_Cls:
  "t \<in> set (run (many (Cls q)) p) \<Longrightarrow> \<exists>u. list_all q u \<and> after p = u @ after t \<and> before t = rev u @ before p"
proof (induction "length (after p)" arbitrary: p rule: less_induct)
  case less
  show ?case
  proof (cases "t = p")
    case True
    then show ?thesis by (intro exI [of _ "[]"]) simp
  next
    case False
    then obtain c cs where c: "after p = c # cs" "q c" "t \<in> set (run (many (Cls q)) (p\<lparr>before := c # before p, after := cs\<rparr>))"
      using less(2) unfolding many_def set_run_Star [of _ _ p] by (cases "after p") (auto simp del: run.simps(5) split: if_splits)
    then obtain u where "list_all q u" "cs = u @ after t" "before t = rev u @ c # before p"
      using less(1) [of "p\<lparr>before := c # before p, after := cs\<rparr>"] by auto
    with c show ?thesis by (intro exI [of _ "c # u"]) simp
  qed
qed

lemma run_many_ClsI:
  "list_all q u \<Longrightarrow> after p = u @ v \<Longrightarrow> p\<lparr>before := rev u @ before p, after := v\<rparr> \<in> set (run (many (Cls q)) p)"
proof (induction u arbitrary: p)
  case Nil
  then show ?case unfolding many_def set_run_Star [of _ _ p] by (simp del: run.simps)
next
  case (Cons c u)
  then show ?case using Cons.IH [of "p\<lparr>before := c # before p, after := u @ v\<rparr>"]
    unfolding many_def set_run_Star [of _ _ p] by (auto simp del: run.simps(5))
qed

lemma run_some_Cls_hd:
  "after p = c # cs \<Longrightarrow> q c \<Longrightarrow>
   \<exists>ts. run (some (Cls q)) p = p\<lparr>before := rev (takeWhile q cs) @ c # before p, after := dropWhile q cs\<rparr> # ts"
  using run_many_Cls_hd [of q "p\<lparr>before := c # before p, after := cs\<rparr>"] by (auto simp: some_def many_def)

lemma run_some_Cls_Nil: "after p = [] \<or> \<not> q (hd (after p)) \<Longrightarrow> run (some (Cls q)) p = []"
  by (cases "after p") (auto simp: some_def)

lemma search_some_Cls:
  "search_from (some (Cls q)) bef aft =
     (let u = takeWhile (\<lambda>c. \<not> q c) aft; v = dropWhile (\<lambda>c. \<not> q c) aft
      in if v = [] then None
         else Some \<lparr>mt_before = rev u @ bef, mt_text = takeWhile q v, mt_groups = [], mt_rest = dropWhile q v\<rparr>)"
proof (induction aft arbitrary: bef)
  case Nil
  then show ?case by (simp add: match_at_def run_some_Cls_Nil)
next
  case (Cons c cs)
  show ?case
  proof (cases "q c")
    case True
    obtain ts where "run (some (Cls q)) \<lparr>before = bef, after = c # cs, caps = []\<rparr> =
        \<lparr>before = rev (takeWhile q cs) @ c # bef, after = dropWhile q cs, caps = []\<rparr> # ts"
      using run_some_Cls_hd [of "\<lparr>before = bef, after = c # cs, caps = []\<rparr>" c cs q] True by auto
    moreover have "length (takeWhile q cs) + length (dropWhile q cs) = length cs"
      by (metis length_append takeWhile_dropWhile_id)
    then have "take (Suc (length cs) - length (dropWhile q cs)) (c # cs) = c # takeWhile q cs"
      by (metis Suc_diff_le add_diff_cancel_right' append_eq_conv_conj le_add2 takeWhile_dropWhile_id take_Suc_Cons)
    ultimately show ?thesis using True by (simp add: match_at_def)
  next
    case False
    then have "match_at (some (Cls q)) bef (c # cs) = None" by (simp add: match_at_def run_some_Cls_Nil)
    with Cons False show ?thesis by (simp add: Let_def)
  qed
qed

text \<open>Putting one text for every run of characters of a class.\<close>

function squeeze :: "(char \<Rightarrow> bool) \<Rightarrow> string \<Rightarrow> string \<Rightarrow> string" where
  "squeeze q r [] = []"
| "squeeze q r (c # cs) = (if q c then r @ squeeze q r (dropWhile q cs) else c # squeeze q r cs)"
  by pat_completeness auto

termination
  by (relation "measure (\<lambda>(q, r, s). length s)") (auto simp: less_Suc_eq_le length_dropWhile_le)

lemma squeeze_append: "\<forall>c\<in>set u. \<not> q c \<Longrightarrow> squeeze q r (u @ v) = u @ squeeze q r v"
  by (induction u) auto

lemma sub_from_some_Cls: "sub_from (some (Cls q)) (\<lambda>_. r) bef aft = squeeze q r aft"
proof (induction "length aft" arbitrary: bef aft rule: less_induct)
  case less
  let ?u = "takeWhile (\<lambda>c. \<not> q c) aft" and ?v = "dropWhile (\<lambda>c. \<not> q c) aft"
  have sq: "squeeze q r aft = ?u @ squeeze q r ?v"
    using squeeze_append [of ?u q r ?v] by (metis takeWhile_dropWhile_id set_takeWhileD)
  show ?case
  proof (cases ?v)
    case Nil
    then have "search_from (some (Cls q)) bef aft = None" by (simp add: search_some_Cls Let_def)
    moreover have "?u = aft" using Nil by (simp add: takeWhile_eq_all_conv)
    ultimately show ?thesis using sq Nil by (simp only: sub_from_None squeeze.simps append_Nil2)
  next
    case (Cons c cs)
    then have qc: "q c" by (metis hd_dropWhile list.distinct(1) list.sel(1))
    let ?m = "\<lparr>mt_before = rev ?u @ bef, mt_text = takeWhile q ?v, mt_groups = [], mt_rest = dropWhile q ?v\<rparr>"
    have "search_from (some (Cls q)) bef aft = Some ?m" using Cons by (simp add: search_some_Cls Let_def)
    then have "sub_from (some (Cls q)) (\<lambda>_. r) bef aft =
        ?u @ r @ sub_from (some (Cls q)) (\<lambda>_. r) (rev (mt_text ?m) @ mt_before ?m) (mt_rest ?m)"
      by (rule sub_from_Some) (use Cons qc in simp_all)
    moreover have "length (mt_rest ?m) < length aft"
      using Cons qc length_dropWhile_le [of q cs] length_dropWhile_le [of "\<lambda>c. \<not> q c" aft] by simp
    ultimately show ?thesis using less sq Cons qc by simp
  qed
qed

text \<open>\<open>re.sub(r'\s+', ' ', s)\<close> puts one space for every run of blanks.\<close>

lemma re_sub_spaces: "re_sub (some space) (\<lambda>_. r) s = squeeze is_space r s"
  by (simp add: re_sub_from space_def sub_from_some_Cls)

section \<open>Literals and whole words\<close>

lemma run_eol: "run eol p = (if after p = [] \<or> after p = [nl] then [p] else [])"
  by (cases "after p"; cases "tl (after p)") (auto simp: eol_def opt_def chr_def any_char_def)

lemma run_lit_nocase:
  "run (lit_nocase s) p = (if lower (take (length s) (after p)) = lower s
     then [p\<lparr>before := rev (take (length s) (after p)) @ before p, after := drop (length s) (after p)\<rparr>] else [])"
proof (induction s arbitrary: p)
  case Nil
  then show ?case by (simp add: lower_def)
next
  case (Cons c s)
  then show ?case by (cases "after p") (auto simp: lower_def)
qed

lemma run_lit:
  "run (lit s) p = (if startswith (after p) s
     then [p\<lparr>before := rev s @ before p, after := drop (length s) (after p)\<rparr>] else [])"
proof (induction s arbitrary: p)
  case (Cons c s)
  then show ?case by (cases "after p") (auto simp: chr_def startswith_def)
qed simp

lemma search_from_iff:
  "(\<exists>m. search_from r bef aft = Some m) \<longleftrightarrow>
     (\<exists>u v. aft = u @ v \<and> run r \<lparr>before = rev u @ bef, after = v, caps = []\<rparr> \<noteq> [])"
proof (induction r bef aft rule: search_from.induct)
  case (1 r bef)
  then show ?case by (auto simp: match_at_def split: list.splits)
next
  case (2 r bef c cs)
  show ?case
  proof (cases "match_at r bef (c # cs)")
    case None
    then have n: "run r \<lparr>before = bef, after = c # cs, caps = []\<rparr> = []" by (simp add: match_at_def split: list.splits)
    have "(\<exists>u v. c # cs = u @ v \<and> run r \<lparr>before = rev u @ bef, after = v, caps = []\<rparr> \<noteq> []) \<longleftrightarrow>
        (\<exists>u v. cs = u @ v \<and> run r \<lparr>before = rev u @ c # bef, after = v, caps = []\<rparr> \<noteq> [])" (is "?l = ?r")
    proof
      assume ?l
      then obtain u v where u: "c # cs = u @ v" "run r \<lparr>before = rev u @ bef, after = v, caps = []\<rparr> \<noteq> []" by blast
      then show ?r using n by (cases u) auto
    next
      assume ?r
      then obtain u v where "cs = u @ v" "run r \<lparr>before = rev u @ c # bef, after = v, caps = []\<rparr> \<noteq> []" by blast
      then show ?l by (intro exI [of _ "c # u"] exI [of _ v]) simp
    qed
    then show ?thesis using 2 [OF None] None by simp
  next
    case (Some m)
    then have "run r \<lparr>before = rev [] @ bef, after = c # cs, caps = []\<rparr> \<noteq> []" by (auto simp: match_at_def split: list.splits)
    then show ?thesis using Some by (metis append_Nil option.simps(5) search_from.simps(2))
  qed
qed

lemma re_search_None_iff:
  "re_search r s = None \<longleftrightarrow> (\<forall>u v. s = u @ v \<longrightarrow> run r \<lparr>before = rev u, after = v, caps = []\<rparr> = [])"
  using search_from_iff [of r "[]" s] by (auto simp: re_search_def)

lemma re_sub_no_match: "re_search r s = None \<Longrightarrow> re_sub r f s = s"
  by (simp add: re_sub_from sub_from_None re_search_def)

lemma search_from_skip:
  "(\<And>u v. pre = u @ v \<Longrightarrow> v \<noteq> [] \<Longrightarrow> run r \<lparr>before = rev u @ bef, after = v @ s, caps = []\<rparr> = []) \<Longrightarrow>
   search_from r bef (pre @ s) = search_from r (rev pre @ bef) s"
proof (induction pre arbitrary: bef)
  case (Cons c pre)
  from Cons.prems [of "[]" "c # pre"] have "match_at r bef (c # pre @ s) = None" by (simp add: match_at_def)
  moreover have "search_from r (c # bef) (pre @ s) = search_from r (rev pre @ c # bef) s"
  proof (rule Cons.IH)
    fix u v
    assume "pre = u @ v" "v \<noteq> []"
    then show "run r \<lparr>before = rev u @ c # bef, after = v @ s, caps = []\<rparr> = []"
      using Cons.prems [of "c # u" v] by simp
  qed
  ultimately show ?case by simp
qed simp

lemma search_from_here:
  "match_at r bef s = Some m \<Longrightarrow> search_from r bef s = Some m"
  by (cases s) simp_all

text \<open>\<open>\b kw \b\<close> for a word finds exactly the occurrences with no word character on either side.\<close>

definition whole_word :: "string \<Rightarrow> re" where
  "whole_word kw = cat [WordB, lit kw, WordB]"

definition has_word :: "string \<Rightarrow> string \<Rightarrow> bool" where
  "has_word s kw \<longleftrightarrow> (\<exists>u v. s = u @ kw @ v \<and> \<not> word_next (rev u) \<and> \<not> word_next v)"

lemma whole_word_iff:
  assumes "kw \<noteq> []" "list_all is_word_char kw"
  shows "(\<exists>m. re_search (whole_word kw) s = Some m) \<longleftrightarrow> has_word s kw"
proof -
  have w: "word_next (kw @ v)" "word_next (rev kw @ v)" for v
    using assms by (auto simp: word_next_def list_all_iff hd_append) (metis hd_in_set rev_is_Nil_conv set_rev)
  have run_word: "run (whole_word kw) \<lparr>before = rev u, after = v, caps = []\<rparr> \<noteq> [] \<longleftrightarrow>
      (\<exists>v'. v = kw @ v' \<and> \<not> word_next (rev u) \<and> \<not> word_next v')" for u v
    by (auto simp: whole_word_def run_lit startswith_iff w)
  show ?thesis unfolding re_search_def search_from_iff has_word_def using run_word by (metis append.right_neutral)
qed

end
