(* ===== verification/Py_Json.thy ===== *)
theory Py_Json
  imports Py_Strings
begin

text \<open>
  \<open>json.loads\<close> and \<open>json.dumps\<close> on ASCII text. Numbers with a fraction or an exponent, the constants
  \<open>NaN\<close> and \<open>Infinity\<close>, and escapes beyond ASCII are outside the model. The wording of a
  \<open>JSONDecodeError\<close> is a parameter \<open>msg\<close>, the text for the document that does not parse.
  Every call of the parser consumes a character, so the length of the document bounds its depth.
\<close>

section \<open>Parsing\<close>

datatype parse_error = Malformed | Unsupported string

type_synonym 'a parsed = "parse_error + ('a \<times> string)"

fun pbind :: "'a parsed \<Rightarrow> ('a \<Rightarrow> string \<Rightarrow> 'b parsed) \<Rightarrow> 'b parsed" where
  "pbind (Inl e) f = Inl e"
| "pbind (Inr (a, s)) f = f a s"

definition json_ws :: "string \<Rightarrow> string" where
  "json_ws s = dropWhile (\<lambda>c. c \<in> {CHR '' '', CHR 0x09, CHR 0x0A, CHR 0x0D}) s"

fun hex_val :: "char \<Rightarrow> nat option" where
  "hex_val c = (let n = of_char c :: nat in
     if 48 \<le> n \<and> n \<le> 57 then Some (n - 48)
     else if 97 \<le> n \<and> n \<le> 102 then Some (n - 87)
     else if 65 \<le> n \<and> n \<le> 70 then Some (n - 55) else None)"

text \<open>The body of a string up to the closing quote.\<close>

function parse_chars :: "string \<Rightarrow> string parsed" where
  "parse_chars [] = Inl Malformed"
| "parse_chars (c # cs) =
     (if c = CHR 0x22 then Inr ([], cs)
      else if of_char c < (32::nat) then Inl Malformed
      else if c \<noteq> CHR 0x5C then pbind (parse_chars cs) (\<lambda>t r. Inr (c # t, r))
      else case cs of
        [] \<Rightarrow> Inl Malformed
      | e # es \<Rightarrow>
          (if e = CHR ''u'' then
             (case es of
                a # b # x # y # rest \<Rightarrow>
                  (case (hex_val a, hex_val b, hex_val x, hex_val y) of
                     (Some p, Some q, Some m, Some n) \<Rightarrow>
                       (if p = 0 \<and> q = 0 \<and> m < 8 then pbind (parse_chars rest) (\<lambda>t r. Inr (char_of (16 * m + n) # t, r))
                        else Inl (Unsupported ''an escape beyond ASCII''))
                   | _ \<Rightarrow> Inl Malformed)
              | _ \<Rightarrow> Inl Malformed)
           else case map_of [(CHR 0x22, CHR 0x22), (CHR 0x5C, CHR 0x5C), (CHR ''/'', CHR ''/''), (CHR ''b'', CHR 0x08),
                       (CHR ''f'', CHR 0x0C), (CHR ''n'', CHR 0x0A), (CHR ''r'', CHR 0x0D), (CHR ''t'', CHR 0x09)] e of
             None \<Rightarrow> Inl Malformed
           | Some d \<Rightarrow> pbind (parse_chars es) (\<lambda>t r. Inr (d # t, r))))"
  by pat_completeness auto

termination by (relation "measure length") auto

definition parse_digits :: "string \<Rightarrow> string \<times> string" where
  "parse_digits s = (takeWhile is_digit_char s, dropWhile is_digit_char s)"

text \<open>A number: an optional sign, and one zero or digits that do not begin with one.\<close>

definition parse_number :: "string \<Rightarrow> json parsed" where
  "parse_number s =
     (let neg = startswith s ''-''; s1 = (if neg then tl s else s); (ds, rest) = parse_digits s1;
          (ds, rest) = (if startswith ds ''0'' then (''0'', tl s1) else (ds, rest));
          frac = (case rest of c # d # _ \<Rightarrow> c = CHR ''.'' \<and> is_digit_char d | _ \<Rightarrow> False);
          expo = (case rest of c # d # r \<Rightarrow> c \<in> set ''eE'' \<and>
                    (is_digit_char d \<or> (d \<in> set ''+-'' \<and> r \<noteq> [] \<and> is_digit_char (hd r))) | _ \<Rightarrow> False)
      in if ds = [] then (if startswith s1 ''Infinity'' \<and> neg then Inl (Unsupported ''a number that is not finite'') else Inl Malformed)
         else if frac \<or> expo then Inl (Unsupported ''a number with a fraction or an exponent'')
         else Inr (JInt ((if neg then -1 else 1) * int (nat_of_digits ds)), rest))"

fun parse_value :: "nat \<Rightarrow> string \<Rightarrow> json parsed"
  and parse_elements :: "nat \<Rightarrow> string \<Rightarrow> json list parsed"
  and parse_members :: "nat \<Rightarrow> (string, json) dict \<Rightarrow> string \<Rightarrow> (string, json) dict parsed" where
  "parse_value 0 s = Inl Malformed"
| "parse_value (Suc k) s =
     (case s of
        [] \<Rightarrow> Inl Malformed
      | c # cs \<Rightarrow>
          if c = CHR 0x22 then pbind (parse_chars cs) (\<lambda>t r. Inr (JStr t, r))
          else if c = CHR ''{'' then
            (let r = json_ws cs
             in if startswith r ''}'' then Inr (JObj [], tl r)
                else pbind (parse_members k [] r) (\<lambda>d r'. Inr (JObj d, r')))
          else if c = CHR ''['' then
            (let r = json_ws cs
             in if startswith r '']'' then Inr (JArr [], tl r)
                else pbind (parse_elements k r) (\<lambda>xs r'. Inr (JArr xs, r')))
          else if startswith s ''null'' then Inr (JNull, drop 4 s)
          else if startswith s ''true'' then Inr (JBool True, drop 4 s)
          else if startswith s ''false'' then Inr (JBool False, drop 5 s)
          else if startswith s ''NaN'' \<or> startswith s ''Infinity'' then Inl (Unsupported ''a number that is not finite'')
          else parse_number s)"
| "parse_elements 0 s = Inl Malformed"
| "parse_elements (Suc k) s =
     pbind (parse_value k s) (\<lambda>v r0.
       let r = json_ws r0
       in if startswith r '','' then pbind (parse_elements k (json_ws (tl r))) (\<lambda>vs r'. Inr (v # vs, r'))
          else if startswith r '']'' then Inr ([v], tl r)
          else Inl Malformed)"
| "parse_members 0 d s = Inl Malformed"
| "parse_members (Suc k) d s =
     (if \<not> startswith s [CHR 0x22] then Inl Malformed
      else pbind (parse_chars (tl s)) (\<lambda>key r0.
        let r = json_ws r0
        in if \<not> startswith r '':'' then Inl Malformed
           else pbind (parse_value k (json_ws (tl r))) (\<lambda>v r1.
             let r2 = json_ws r1; d' = dset d key v
             in if startswith r2 '','' then parse_members k d' (json_ws (tl r2))
                else if startswith r2 ''}'' then Inr (d', tl r2)
                else Inl Malformed)))"

definition loads :: "(string \<Rightarrow> string) \<Rightarrow> string \<Rightarrow> json result" where
  "loads msg s =
     (case parse_value (2 * length s + 1) (json_ws s) of
        Inl Malformed \<Rightarrow> Inl (JSONDecodeError (msg s))
      | Inl (Unsupported e) \<Rightarrow> Inl (OutsideModel e)
      | Inr (v, r) \<Rightarrow> if json_ws r = [] then Inr v else Inl (JSONDecodeError (msg s)))"

section \<open>Printing\<close>

definition dump_char :: "char \<Rightarrow> string" where
  "dump_char c = (let n = of_char c :: nat in
     if c = CHR 0x22 then [CHR 0x5C, CHR 0x22]
     else if c = CHR 0x5C then [CHR 0x5C, CHR 0x5C]
     else if n = 10 then [CHR 0x5C, CHR ''n'']
     else if n = 13 then [CHR 0x5C, CHR ''r'']
     else if n = 9 then [CHR 0x5C, CHR ''t'']
     else if n = 8 then [CHR 0x5C, CHR ''b'']
     else if n = 12 then [CHR 0x5C, CHR ''f'']
     else if n < 32 \<or> n = 127 then [CHR 0x5C, CHR ''u'', CHR ''0'', CHR ''0'', hex_digit (n div 16), hex_digit (n mod 16)]
     else [c])"

definition dump_str :: "string \<Rightarrow> string" where
  "dump_str s = [CHR 0x22] @ concat (map dump_char s) @ [CHR 0x22]"

fun dumps :: "json \<Rightarrow> string" where
  "dumps JNull = ''null''"
| "dumps (JBool b) = (if b then ''true'' else ''false'')"
| "dumps (JInt i) = str_int i"
| "dumps (JStr s) = dump_str s"
| "dumps (JArr xs) = ''['' @ join '', '' (map dumps xs) @ '']''"
| "dumps (JObj kvs) = ''{'' @ join '', '' (map (\<lambda>(k, v). dump_str k @ '': '' @ dumps v) kvs) @ ''}''"

end
