(* ===== verification/Lean_Source.thy ===== *)
theory Lean_Source
  imports Py_Regex
begin

text \<open>
  \<open>tools/execution/lean/parsing.py\<close> and \<open>constant.py\<close>: Lean source text without its comments, the
  declarations in it, the code appended to check that a proof is faithful, and the imports and
  \<open>open\<close> directives at its top.
\<close>

section \<open>Constants\<close>

text \<open>The sets of words. No word of a set is the beginning of another, so the order in an alternative does not matter.\<close>

definition DECL_KINDS :: "string list" where
  "DECL_KINDS = [''theorem'', ''lemma'', ''def'', ''abbrev'', ''instance'', ''example'', ''opaque'']"

definition SORRY_PROOFS :: "string list" where
  "SORRY_PROOFS = [''sorry'']"

definition NONCOMPUTABLE_SUBSUMES :: "string list" where
  "NONCOMPUTABLE_SUBSUMES = [''theorem'', ''lemma'']"

definition STANDARD_AXIOMS :: "string list" where
  "STANDARD_AXIOMS = [''propext'', ''Classical.choice'', ''Quot.sound'']"

definition FORBIDDEN_KEYWORDS :: "string list" where
  "FORBIDDEN_KEYWORDS = [''elab'', ''macro'', ''syntax'']"

section \<open>Code outside comments\<close>

text \<open>One line at a comment depth: the depth behind it, and its characters outside comments.\<close>

fun scan_line :: "nat \<Rightarrow> string \<Rightarrow> nat \<times> string" where
  "scan_line d [] = (d, [])"
| "scan_line d [c] = (d, if 0 < d then [] else [c])"
| "scan_line d (a # b # cs) =
     (if 0 < d then
        if a = CHR ''/'' \<and> b = CHR ''-'' then scan_line (d + 1) cs
        else if a = CHR ''-'' \<and> b = CHR ''/'' then scan_line (d - 1) cs
        else scan_line d (b # cs)
      else if a = CHR ''-'' \<and> b = CHR ''-'' then (d, [])
      else if a = CHR ''/'' \<and> b = CHR ''-'' then scan_line 1 cs
      else (let (d', out) = scan_line d (b # cs) in (d', a # out)))"

fun iter_code_from :: "nat \<Rightarrow> nat \<Rightarrow> string list \<Rightarrow> (nat \<times> string) list" where
  "iter_code_from i d [] = []"
| "iter_code_from i d (l # ls) =
     (let (d', out) = scan_line d l; stripped = strip out
      in (if stripped = [] then [] else [(i, stripped)]) @ iter_code_from (i + 1) d' ls)"

definition iter_code_lines :: "string list \<Rightarrow> (nat \<times> string) list" where
  "iter_code_lines ls = iter_code_from 0 0 ls"

section \<open>Declarations\<close>

record lean_decl =
  dc_kind :: string
  dc_name :: string
  dc_signature :: string
  dc_namespace :: string

definition kind_word :: re where
  "kind_word = alts (map lit DECL_KINDS)"

definition DECL_RE :: re where
  "DECL_RE = cat [Grp 1 (Cat (opt (Cat (lit ''noncomputable'') (some space))) kind_word), some space,
     Grp 2 (some non_space), Grp 3 (many_lazy (Cat (NotAhead (cat [WordB, kind_word, WordB])) any_char)), lit '':='']"

definition SORRY_DECL_RE :: re where
  "SORRY_DECL_RE = cat [DECL_RE, many space, opt (Cat (lit ''by'') (some space)), alts (map lit SORRY_PROOFS)]"

text \<open>The namespace of every code line. A line that opens a namespace is still outside it, one that ends it still inside.\<close>

fun namespace_lines :: "string list \<Rightarrow> (nat \<times> string) list \<Rightarrow> (nat, string) dict" where
  "namespace_lines stack [] = []"
| "namespace_lines stack ((idx, stripped) # rest) =
     (idx, join ''.'' stack) #
     (case re_match_start (cat [lit ''namespace'', some space, Grp 1 (some non_space)]) stripped of
        Some m \<Rightarrow> namespace_lines (stack @ [group m 1]) rest
      | None \<Rightarrow>
          (if re_match_start (Cat (lit ''end'') WordB) stripped \<noteq> None \<and> stack \<noteq> []
           then namespace_lines (butlast stack) rest else namespace_lines stack rest))"

definition build_namespace_map :: "string \<Rightarrow> (nat, string) dict" where
  "build_namespace_map code = namespace_lines [] (iter_code_lines (split_char nl code))"

definition declaration_of :: "(nat, string) dict \<Rightarrow> re_match \<Rightarrow> lean_decl" where
  "declaration_of ns_map m = \<lparr>dc_kind = group m 1, dc_name = group m 2, dc_signature = group m 3,
     dc_namespace = dget_or ns_map (length (filter (\<lambda>c. c = nl) (mt_before m))) []\<rparr>"

definition extract_all_sorry_declarations :: "string \<Rightarrow> lean_decl list" where
  "extract_all_sorry_declarations code = map (declaration_of (build_namespace_map code)) (finditer SORRY_DECL_RE code)"

definition extract_all_declarations :: "string \<Rightarrow> bool \<Rightarrow> lean_decl list" where
  "extract_all_declarations code sorry_only =
     (if sorry_only then extract_all_sorry_declarations code
      else map (declaration_of (build_namespace_map code)) (finditer DECL_RE code))"

section \<open>Explicit arguments\<close>

text \<open>
  The text behind an opening bracket: what the loop passes, with the bracket that closes it, and the
  rest. Without a closing bracket it passes everything.
\<close>

fun skip_bracket :: "char \<Rightarrow> char \<Rightarrow> nat \<Rightarrow> string \<Rightarrow> string \<times> string" where
  "skip_bracket op cl depth [] = ([], [])"
| "skip_bracket op cl depth (c # cs) =
     (let depth' = (if c = op then depth + 1 else if c = cl then depth - 1 else depth)
      in if depth' = 0 then ([c], cs)
         else (let (passed, rest) = skip_bracket op cl depth' cs in (c # passed, rest)))"

lemma skip_bracket_shorter: "length (snd (skip_bracket op cl depth s)) \<le> length s"
  by (induction op cl depth s rule: skip_bracket.induct) (auto simp: Let_def split: prod.splits)

fun before_colon :: "int \<Rightarrow> string \<Rightarrow> string" where
  "before_colon depth [] = []"
| "before_colon depth (c # cs) =
     (if c \<in> set ''({['' then c # before_colon (depth + 1) cs
      else if c \<in> set '')}]'' then c # before_colon (depth - 1) cs
      else if c = CHR '':'' \<and> depth = 0 then []
      else c # before_colon depth cs)"

definition names_before_colon :: "string \<Rightarrow> string" where
  "names_before_colon content = strip (before_colon 0 content)"

text \<open>\<open>s.split()\<close>.\<close>

definition split_ws :: "string \<Rightarrow> string list" where
  "split_ws s = filter (\<lambda>w. w \<noteq> []) (split_char (CHR '' '') (map (\<lambda>c. if is_space c then CHR '' '' else c) s))"

function explicit_args :: "string \<Rightarrow> string list" where
  "explicit_args [] = []"
| "explicit_args (c # cs) =
     (if c = CHR '':'' then []
      else if c = CHR ''{'' then explicit_args (snd (skip_bracket c (CHR ''}'') 1 cs))
      else if c = CHR ''['' then explicit_args (snd (skip_bracket c (CHR '']'') 1 cs))
      else if c = CHR ''('' then
        (let (passed, rest) = skip_bracket c (CHR '')'') 1 cs
         in split_ws (names_before_colon (butlast passed)) @ explicit_args rest)
      else explicit_args cs)"
  by pat_completeness auto

termination
proof (relation "measure length")
  fix c :: char and cs :: string and x passed rest
  assume "x = skip_bracket c (CHR '')'') 1 cs" "(passed, rest) = x"
  then show "(rest, c # cs) \<in> measure length" using skip_bracket_shorter [of c "CHR '')''" 1 cs] by (auto simp: less_Suc_eq_le dest: sym)
qed (auto intro: le_less_trans [OF skip_bracket_shorter])

definition extract_explicit_args :: "string \<Rightarrow> string list" where
  "extract_explicit_args signature = explicit_args (join '' '' (map snd (iter_code_lines (split_char nl signature))))"

section \<open>Generated checks\<close>

definition qualified_name :: "lean_decl \<Rightarrow> string" where
  "qualified_name d = (if dc_namespace d = [] then dc_name d else dc_namespace d @ ''.'' @ dc_name d)"

definition faithfulness_line :: "lean_decl \<Rightarrow> string" where
  "faithfulness_line d =
     (let base_kind = last (split_ws (dc_kind d));
          prefix = (if base_kind \<in> set NONCOMPUTABLE_SUBSUMES then base_kind else ''noncomputable '' @ base_kind);
          arg_str = join '' '' (extract_explicit_args (dc_signature d));
          rhs = (if arg_str = [] then qualified_name d else qualified_name d @ '' '' @ arg_str)
      in prefix @ '' '' @ dc_name d @ ''_original'' @ dc_signature d @ '':= '' @ rhs)"

definition build_faithfulness_suffix :: "lean_decl list \<Rightarrow> string" where
  "build_faithfulness_suffix ds = (if ds = [] then [] else join [nl] (map faithfulness_line ds) @ [nl])"

definition build_axiom_check_snippet :: "lean_decl list \<Rightarrow> string" where
  "build_axiom_check_snippet ds =
     (if ds = [] then [] else join [nl] (map (\<lambda>d. ''#print axioms '' @ qualified_name d) ds) @ [nl])"

section \<open>Imports and open directives\<close>

fun import_lines :: "string list \<Rightarrow> string list" where
  "import_lines [] = []"
| "import_lines (l # ls) =
     (let stripped = strip l
      in if startswith stripped ''import '' then stripped # import_lines ls
         else if stripped \<noteq> [] \<and> \<not> startswith stripped ''--'' \<and> \<not> startswith stripped ''/-'' then []
         else import_lines ls)"

definition get_imports :: "string \<Rightarrow> string list" where
  "get_imports code = import_lines (splitlines code)"

text \<open>With \<open>root_only\<close>: the set of the first components.\<close>

definition get_import_roots :: "string \<Rightarrow> string list" where
  "get_import_roots code = remdups (map (\<lambda>stmt. hd (split_char (CHR ''.'') (strip (drop 7 stmt)))) (get_imports code))"

fun leading_imports :: "(nat \<times> string) list \<Rightarrow> nat \<Rightarrow> string list \<times> nat" where
  "leading_imports [] end_line = ([], end_line)"
| "leading_imports ((i, stripped) # rest) end_line =
     (if startswith stripped ''import ''
      then (let (imports, start) = leading_imports rest end_line in (strip (drop 7 stripped) # imports, start))
      else ([], i))"

definition split_imports_and_body :: "string \<Rightarrow> string list \<times> string \<times> nat" where
  "split_imports_and_body code =
     (let code_lines = splitlines code;
          (imports, body_start) = leading_imports (iter_code_lines code_lines) (length code_lines)
      in (sort (remdups imports), dropWhile (\<lambda>c. c = nl) (join [nl] (drop body_start code_lines)), body_start))"

definition open_directives :: "string \<Rightarrow> string list" where
  "open_directives code =
     filter (\<lambda>l. startswith l ''open '' \<and> \<not> endswith (rstrip l) '' in'') (map snd (iter_code_lines (splitlines code)))"

text \<open>Each directive once, where it is first seen.\<close>

fun first_seen :: "string list \<Rightarrow> string list \<Rightarrow> string list" where
  "first_seen seen [] = []"
| "first_seen seen (x # xs) = (if x \<in> set seen then first_seen seen xs else x # first_seen (x # seen) xs)"

definition get_open_directives :: "string list \<Rightarrow> string list" where
  "get_open_directives codes = first_seen [] (concat (map open_directives codes))"

end
