(* ===== verification/Lean_Checks.thy ===== *)
theory Lean_Checks
  imports Lean_Source
begin

text \<open>
  \<open>autoform/eval/lean_checks.py\<close> and the readers of \<open>#print axioms\<close> output in
  \<open>tools/execution/lean/proof_checker.py\<close>: the repository-level checks that gate an evaluation. The
  \<open>lake\<close> process is the outcome it has, and the source tree the list of its \<open>.lean\<close> files.
\<close>

section \<open>Processes\<close>

text \<open>A process that could not be started, one that did not end in time, and one that ended with its output.\<close>

datatype process_outcome =
    Not_Started string
  | Timed_Out
  | Exited int string string

section \<open>Compilation\<close>

definition process_output :: "string \<Rightarrow> string \<Rightarrow> string" where
  "process_output out err = strip (out @ [nl] @ err)"

definition compile_command :: "string option \<Rightarrow> string list" where
  "compile_command target = [''lake'', ''build''] @ (case target of None \<Rightarrow> [] | Some t \<Rightarrow> (if t = [] then [] else [t]))"

text \<open>\<open>CompilationChecker.check\<close>; the text of the timeout is the one \<open>str\<close> gives.\<close>

fun compilation_check :: "string \<Rightarrow> process_outcome \<Rightarrow> bool \<times> string" where
  "compilation_check timeout (Not_Started e) = (False, ''lake not found '' @ em_dash @ '' is Lean installed? ('' @ e @ '')'')"
| "compilation_check timeout Timed_Out = (False, ''Compilation timed out after '' @ timeout @ ''s'')"
| "compilation_check timeout (Exited rc out err) = (rc = 0, process_output out err)"

section \<open>Forbidden keywords\<close>

datatype file_text = Text string | Unreadable | Not_Utf8 string

record source_file =
  sf_rel :: string
  sf_parts :: "string list"
  sf_name :: string
  sf_text :: file_text

definition IGNORED_FILES :: "string list" where
  "IGNORED_FILES = [''Unproved.lean'']"

definition scanned :: "source_file \<Rightarrow> bool" where
  "scanned f = (''.lake'' \<notin> set (sf_parts f) \<and> sf_name f \<notin> set IGNORED_FILES)"

definition code_without_comments :: "string \<Rightarrow> string" where
  "code_without_comments code = join [nl] (map snd (iter_code_lines (splitlines code)))"

text \<open>The keywords are a set in the source; their order in the answer is one of the possible ones.\<close>

definition keywords_in :: "string \<Rightarrow> string list" where
  "keywords_in code = filter (\<lambda>kw. re_search (whole_word kw) (code_without_comments code) \<noteq> None) FORBIDDEN_KEYWORDS"

definition file_violations :: "source_file \<Rightarrow> (string \<times> string) list result" where
  "file_violations f =
     (if \<not> scanned f then Inr []
      else case sf_text f of
        Unreadable \<Rightarrow> Inr []
      | Not_Utf8 e \<Rightarrow> Inl (ValueError e)
      | Text code \<Rightarrow> Inr (map (\<lambda>kw. (sf_rel f, kw)) (keywords_in code)))"

definition forbidden_check :: "source_file list \<Rightarrow> (string \<times> string) list result" where
  "forbidden_check files = rbind (mapM file_violations files) (\<lambda>vs. Inr (concat vs))"

section \<open>Reading the output of \<open>#print axioms\<close>\<close>

definition quote :: char where "quote = CHR 0x27"

definition axioms_list_re :: re where
  "axioms_list_re = cat [lit ''depends on axioms:'', many space, lit ''['', Grp 2 (many (none_of '']'')), lit '']'']"

definition axiom_names :: "string \<Rightarrow> string list" where
  "axiom_names s = filter (\<lambda>a. a \<noteq> []) (map strip (split_char (CHR '','') s))"

definition parse_axioms_from_output :: "string \<Rightarrow> string list" where
  "parse_axioms_from_output out = remdups (concat (map (\<lambda>m. axiom_names (group m 2)) (finditer axioms_list_re out)))"

definition decl_name_re :: re where
  "decl_name_re = cat [chr quote, Grp 1 (some_lazy (none_of [nl])), chr quote]"

definition depends_re :: re where
  "depends_re = cat [decl_name_re, lit '' '', axioms_list_re]"

definition no_axioms_re :: re where
  "no_axioms_re = Cat decl_name_re (lit '' does not depend on any axioms'')"

type_synonym axiom_map = "(string, string list) dict"

definition parse_axioms_per_decl :: "string \<Rightarrow> axiom_map" where
  "parse_axioms_per_decl out =
     (let found = foldl (\<lambda>d m. dset d (group m 1) (remdups (axiom_names (group m 2)))) [] (finditer depends_re out)
      in foldl (\<lambda>d m. if has_key d (group m 1) then d else dset d (group m 1) []) found (finditer no_axioms_re out))"

section \<open>The axioms of declarations\<close>

definition removesuffix :: "string \<Rightarrow> string \<Rightarrow> string" where
  "removesuffix s p = (if p \<noteq> [] \<and> endswith s p then take (length s - length p) s else s)"

definition lean_file_to_import :: "string \<Rightarrow> string" where
  "lean_file_to_import f = map (\<lambda>c. if c = CHR ''/'' then CHR ''.'' else c) (removesuffix f ''.lean'')"

definition axiom_check_imports :: "string list \<Rightarrow> string list \<Rightarrow> string list" where
  "axiom_check_imports decl_names lean_files =
     sort (remdups (if lean_files \<noteq> [] then map lean_file_to_import lean_files
       else map (\<lambda>n. join ''.'' (butlast (split_char (CHR ''.'') n))) (filter (\<lambda>n. CHR ''.'' \<in> set n) decl_names)))"

definition axiom_check_script :: "string list \<Rightarrow> string list \<Rightarrow> string" where
  "axiom_check_script decl_names lean_files =
     join [nl] (map (\<lambda>i. ''import '' @ i) (axiom_check_imports decl_names lean_files) @ [[]] @
       map (\<lambda>n. ''#print axioms '' @ n) decl_names @ [[]])"

definition unknown_re :: re where
  "unknown_re = cat [lit ''Unknown constant '', one_of [CHR 0x60, quote], Grp 1 (some (none_of [CHR 0x60, quote])), one_of [CHR 0x60, quote]]"

definition unknown_constants :: "string \<Rightarrow> string list" where
  "unknown_constants out = map (\<lambda>m. group m 1) (finditer unknown_re out)"

definition disallowed_axioms :: "string list \<Rightarrow> string list \<Rightarrow> string list" where
  "disallowed_axioms allowed axs = filter (\<lambda>a. a \<notin> set allowed) axs"

record axiom_verdicts =
  av_all :: axiom_map
  av_violations :: axiom_map
  av_not_found :: "string list"

definition judge_decl :: "string list \<Rightarrow> string list \<Rightarrow> axiom_map \<Rightarrow> axiom_verdicts \<Rightarrow> string \<Rightarrow> axiom_verdicts" where
  "judge_decl allowed unknown by_decl v name =
     (if name \<in> set unknown
      then v\<lparr>av_not_found := av_not_found v @ [''Unknown constant '' @ [quote] @ name @ [quote]]\<rparr>
      else case dget by_decl name of
        None \<Rightarrow> v\<lparr>av_not_found := av_not_found v @ [''No axiom output for '' @ [quote] @ name @ [quote] @ '' '' @ em_dash @
             '' declaration may not exist or .olean missing'']\<rparr>
      | Some axs \<Rightarrow>
          (let v' = v\<lparr>av_all := dset (av_all v) name axs\<rparr>; bad = disallowed_axioms allowed axs
           in if bad = [] then v' else v'\<lparr>av_violations := dset (av_violations v') name bad\<rparr>))"

text \<open>\<open>AxiomsChecker.check\<close>: all axioms and the violations, by declaration.\<close>

definition axioms_check :: "string list \<Rightarrow> string \<Rightarrow> string list \<Rightarrow> process_outcome \<Rightarrow> (axiom_map \<times> axiom_map) result" where
  "axioms_check allowed_axioms timeout decl_names outcome =
     (if decl_names = [] then Inl (AxiomCheckError ''No declaration names provided'')
      else case outcome of
        Not_Started e \<Rightarrow> Inl (AxiomCheckError (''lake/lean binary not found '' @ em_dash @ '' is Lean installed?''))
      | Timed_Out \<Rightarrow> Inl (AxiomCheckError (''Axiom check timed out after '' @ timeout @ ''s for '' @ repr_strs decl_names))
      | Exited rc out err \<Rightarrow>
          (let output = process_output out err;
               v = foldl (judge_decl (STANDARD_AXIOMS @ allowed_axioms) (unknown_constants output) (parse_axioms_per_decl output))
                 \<lparr>av_all = [], av_violations = [], av_not_found = []\<rparr> decl_names
           in if av_not_found v \<noteq> [] then Inl (DeclarationNotFoundError (join ''; '' (av_not_found v)))
              else Inr (av_all v, av_violations v)))"

end
