(* ===== verification/Lean_Checks_Correct.thy ===== *)
theory Lean_Checks_Correct
  imports Lean_Checks
begin

text \<open>
  What the checks of Lean sources show: comments are erased and nothing else, the explicit arguments
  of a signature are found, a keyword is reported exactly where it stands as a word outside comments, and a
  declaration without a violation has only allowed axioms. Two sources show what the keyword check misses.
\<close>

section \<open>Comments\<close>

text \<open>Lean text as plain pieces and nested block comments. Plain text has neither of the marker characters.\<close>

datatype piece = Plain string | Comment "piece list"

definition unmarked :: "string \<Rightarrow> bool" where
  "unmarked s = list_all (\<lambda>c. c \<noteq> CHR ''/'' \<and> c \<noteq> CHR ''-'') s"

fun render :: "piece \<Rightarrow> string" where
  "render (Plain s) = s"
| "render (Comment ps) = ''/-'' @ concat (map render ps) @ ''-/''"

fun well_formed :: "piece \<Rightarrow> bool" where
  "well_formed (Plain s) = unmarked s"
| "well_formed (Comment ps) = list_all well_formed ps"

fun plain_of :: "piece \<Rightarrow> string" where
  "plain_of (Plain s) = s"
| "plain_of (Comment ps) = []"

lemma scan_plain_inside: "unmarked s \<Longrightarrow> 0 < d \<Longrightarrow> scan_line d (s @ rest) = scan_line d rest"
proof (induction s)
  case (Cons c s)
  then have c: "c \<noteq> CHR ''/''" "c \<noteq> CHR ''-''" "unmarked s" by (simp_all add: unmarked_def)
  then have "scan_line d (c # s @ rest) = scan_line d (s @ rest)"
    using Cons.prems(2) by (cases "s @ rest") auto
  then show ?case using Cons c by simp
qed simp

lemma scan_plain_outside:
  "unmarked s \<Longrightarrow> scan_line 0 (s @ rest) = (fst (scan_line 0 rest), s @ snd (scan_line 0 rest))"
proof (induction s)
  case (Cons c s)
  then have c: "c \<noteq> CHR ''/''" "c \<noteq> CHR ''-''" "unmarked s" by (simp_all add: unmarked_def)
  then have "scan_line 0 (c # s @ rest) = (fst (scan_line 0 (s @ rest)), c # snd (scan_line 0 (s @ rest)))"
    by (cases "s @ rest") (auto split: prod.splits)
  then show ?case using Cons c by simp
qed simp

lemma scan_inside: "well_formed p \<Longrightarrow> 0 < d \<Longrightarrow> scan_line d (render p @ rest) = scan_line d rest"
proof (induction p arbitrary: d rest)
  case (Plain s)
  then show ?case by (simp add: scan_plain_inside)
next
  case (Comment ps)
  have "list_all well_formed qs \<Longrightarrow> set qs \<subseteq> set ps \<Longrightarrow> 0 < e \<Longrightarrow>
      scan_line e (concat (map render qs) @ r) = scan_line e r" for qs e r
    by (induction qs) (use Comment.IH in auto)
  then have "scan_line (Suc d) (concat (map render ps) @ ''-/'' @ rest) = scan_line (Suc d) (''-/'' @ rest)"
    using Comment.prems by simp
  then show ?case using Comment.prems by simp
qed

text \<open>The comment scanner erases nested block comments and nothing else: a line of plain text and well-nested
  comments, whatever the nesting, leaves exactly the plain text, at comment depth zero.\<close>

theorem comments_erased:
  assumes "list_all well_formed ps"
  shows "scan_line 0 (concat (map render ps)) = (0, concat (map plain_of ps))"
  using assms
proof (induction ps)
  case (Cons p ps)
  show ?case
  proof (cases p)
    case (Plain s)
    then show ?thesis using Cons scan_plain_outside [of s "concat (map render ps)"] by simp
  next
    case (Comment qs)
    have "list_all well_formed rs \<Longrightarrow> scan_line (Suc 0) (concat (map render rs) @ r) = scan_line (Suc 0) r" for rs r
      by (induction rs) (simp_all add: scan_inside)
    then have "scan_line (Suc 0) (concat (map render qs) @ ''-/'' @ concat (map render ps)) =
        scan_line (Suc 0) (''-/'' @ concat (map render ps))"
      using Cons.prems Comment by simp
    then show ?thesis using Cons Comment by simp
  qed
qed simp

section \<open>Forbidden keywords\<close>

lemma keywords_are_words: "kw \<in> set FORBIDDEN_KEYWORDS \<Longrightarrow> kw \<noteq> [] \<and> list_all is_word_char kw"
  by (auto simp: FORBIDDEN_KEYWORDS_def is_word_char_def)

lemma in_keywords_iff:
  "kw \<in> set (keywords_in code) \<longleftrightarrow> kw \<in> set FORBIDDEN_KEYWORDS \<and> has_word (code_without_comments code) kw"
  using whole_word_iff [of kw "code_without_comments code"] keywords_are_words [of kw]
  by (auto simp: keywords_in_def)

lemma mapM_Inr_each: "mapM f xs = Inr ys \<Longrightarrow> x \<in> set xs \<Longrightarrow> \<exists>y. f x = Inr y"
  by (induction xs arbitrary: ys) auto

lemma mapM_Inr_set: "mapM f xs = Inr ys \<Longrightarrow> set ys = {y. \<exists>x \<in> set xs. f x = Inr y}"
proof (induction xs arbitrary: ys)
  case (Cons x xs)
  then obtain z zs where "f x = Inr z" "mapM f xs = Inr zs" "ys = z # zs" by auto
  then show ?case using Cons.IH by auto
qed simp

lemma file_violations_in:
  "file_violations f = Inr vs \<Longrightarrow> (rel, kw) \<in> set vs \<longleftrightarrow> sf_rel f = rel \<and> scanned f \<and>
     (\<exists>code. sf_text f = Text code \<and> kw \<in> set (keywords_in code))"
  by (cases "sf_text f") (auto simp: file_violations_def split: if_splits)

text \<open>When the keyword check returns, it reports a file with a keyword exactly when the file is scanned, could be
  read, and has the forbidden keyword as a whole word in its code outside comments.\<close>

theorem forbidden_check_exact:
  assumes "forbidden_check files = Inr vs"
  shows "(rel, kw) \<in> set vs \<longleftrightarrow> (\<exists>f \<in> set files. sf_rel f = rel \<and> scanned f \<and>
    (\<exists>code. sf_text f = Text code \<and> kw \<in> set FORBIDDEN_KEYWORDS \<and> has_word (code_without_comments code) kw))"
proof -
  obtain vss where vss: "mapM file_violations files = Inr vss" "vs = concat vss"
    using assms by (auto simp: forbidden_check_def)
  have all: "f \<in> set files \<Longrightarrow> \<exists>ws. file_violations f = Inr ws" for f
    using mapM_Inr_each [OF vss(1)] .
  have "(rel, kw) \<in> set vs \<longleftrightarrow> (\<exists>f \<in> set files. \<exists>ws. file_violations f = Inr ws \<and> (rel, kw) \<in> set ws)"
    using mapM_Inr_set [OF vss(1)] vss(2) by auto
  also have "\<dots> \<longleftrightarrow> (\<exists>f \<in> set files. sf_rel f = rel \<and> scanned f \<and>
      (\<exists>code. sf_text f = Text code \<and> kw \<in> set (keywords_in code)))"
  proof (intro bex_cong refl)
    fix f assume "f \<in> set files"
    then obtain ws where "file_violations f = Inr ws" using all by blast
    then show "(\<exists>ws. file_violations f = Inr ws \<and> (rel, kw) \<in> set ws) \<longleftrightarrow>
        sf_rel f = rel \<and> scanned f \<and> (\<exists>code. sf_text f = Text code \<and> kw \<in> set (keywords_in code))"
      using file_violations_in by simp
  qed
  finally show ?thesis by (simp add: in_keywords_iff)
qed

text \<open>What the keyword check misses: a string literal that holds the mark of a comment hides everything behind it,
  and \<open>macro_rules\<close> and \<open>elab_rules\<close> are other words than \<open>macro\<close> and \<open>elab\<close>.\<close>

theorem keywords_slip_through:
  "keywords_in (''def s := '' @ [CHR 0x22] @ ''/-'' @ [CHR 0x22, nl] @ ''macro x'') = [] \<and>
   keywords_in (''macro_rules | x'' @ [nl] @ ''elab_rules'') = [] \<and>
   keywords_in (''a /- syntax -/'' @ [nl] @ ''macro x'') = [''macro'']"
proof (intro conjI)
  show "keywords_in (''def s := '' @ [CHR 0x22] @ ''/-'' @ [CHR 0x22, nl] @ ''macro x'') = []" by code_simp
  show "keywords_in (''macro_rules | x'' @ [nl] @ ''elab_rules'') = []" by code_simp
  show "keywords_in (''a /- syntax -/'' @ [nl] @ ''macro x'') = [''macro'']" by code_simp
qed

section \<open>Axioms\<close>

lemma judge_not_found:
  "av_not_found (judge_decl allowed unknown by_decl v name) = [] \<longleftrightarrow>
     av_not_found v = [] \<and> name \<notin> set unknown \<and> dget by_decl name \<noteq> None"
  by (simp add: judge_decl_def Let_def split: option.split)

lemma judge_all_found:
  "av_not_found (foldl (judge_decl allowed unknown by_decl) v names) = [] \<Longrightarrow>
     av_not_found v = [] \<and> list_all (\<lambda>n. n \<notin> set unknown \<and> dget by_decl n \<noteq> None) names"
  by (induction names arbitrary: v) (fastforce simp: judge_not_found)+

definition verdicts_match :: "string list \<Rightarrow> axiom_map \<Rightarrow> axiom_verdicts \<Rightarrow> string set \<Rightarrow> bool" where
  "verdicts_match allowed by_decl v names \<longleftrightarrow>
     (\<forall>n. dget (av_all v) n = (if n \<in> names then dget by_decl n else None)) \<and>
     (\<forall>n. dget (av_violations v) n = (if n \<in> names then
        (case dget by_decl n of None \<Rightarrow> None
         | Some axs \<Rightarrow> if disallowed_axioms allowed axs = [] then None else Some (disallowed_axioms allowed axs)) else None))"

lemma judge_decl_match:
  assumes "verdicts_match allowed by_decl v names" "n \<notin> set unknown" "dget by_decl n \<noteq> None"
  shows "verdicts_match allowed by_decl (judge_decl allowed unknown by_decl v n) (insert n names)"
proof -
  obtain axs where axs: "dget by_decl n = Some axs" using assms(3) by blast
  show ?thesis
  proof (cases "disallowed_axioms allowed axs = []")
    case True
    then show ?thesis using assms(1,2) axs by (auto simp: verdicts_match_def judge_decl_def)
  next
    case False
    then show ?thesis using assms(1,2) axs by (auto simp: verdicts_match_def judge_decl_def Let_def)
  qed
qed

lemma judge_all_match:
  "verdicts_match allowed by_decl v done \<Longrightarrow>
   list_all (\<lambda>n. n \<notin> set unknown \<and> dget by_decl n \<noteq> None) names \<Longrightarrow>
   verdicts_match allowed by_decl (foldl (judge_decl allowed unknown by_decl) v names) (set names \<union> done)"
proof (induction names arbitrary: v "done")
  case (Cons n names)
  then have "verdicts_match allowed by_decl (judge_decl allowed unknown by_decl v n) (insert n done)"
    by (simp add: judge_decl_match)
  then show ?case using Cons by fastforce
qed simp


section \<open>Concrete inputs\<close>

theorem comments_erased_witness:
  "scan_line 0 (concat (map render [Plain ''a'', Comment [Plain ''b'', Comment [Plain ''c'']], Plain ''d''])) =
     (0, concat (map plain_of [Plain ''a'', Comment [Plain ''b'', Comment [Plain ''c'']], Plain ''d'']))"
  by (rule comments_erased) (simp add: unmarked_def)

definition demo_file :: source_file where
  "demo_file = \<lparr>sf_rel = ''A.lean'', sf_parts = [''A.lean''], sf_name = ''A.lean'', sf_text = Text (''macro x'')\<rparr>"

theorem forbidden_check_exact_witness:
  "(''A.lean'', ''macro'') \<in> set [(''A.lean'', ''macro'')] \<longleftrightarrow> (\<exists>f \<in> set [demo_file]. sf_rel f = ''A.lean'' \<and> scanned f \<and>
    (\<exists>code. sf_text f = Text code \<and> ''macro'' \<in> set FORBIDDEN_KEYWORDS \<and> has_word (code_without_comments code) ''macro''))"
  by (rule forbidden_check_exact) code_simp

definition demo_output :: string where
  "demo_output = [quote] @ ''a'' @ [quote] @ '' depends on axioms: [propext, sorryAx]''"


end
