(* ===== verification/Lean_Repl.thy ===== *)
theory Lean_Repl
  imports Lean_Checks Py_Json Py_Float Effects
begin

text \<open>
  \<open>tools/execution/lean/repl/core.py\<close>: the session with a Lean REPL process, its retries and restarts,
  the chaining of snippets, the formatting of responses, and the proof checker that uses it
  (\<open>proof_checker.py\<close>). The process is a parameter: starting and killing it, what arrives on its pipes after
  a command until the time is up, its memory and exit code. Waiting between retries, the
  memory monitor thread (a process it kills ends its output) and the lock are left out. An environment
  id is a JSON value, with null for \<open>None\<close>, and a timeout is its text.
\<close>

section \<open>Configuration and process\<close>

record repl_config =
  cf_request_timeout :: string
  cf_startup_timeout :: string
  cf_mem_limit_gb :: int
  cf_max_retries :: nat
  cf_allowed_imports :: "string list"
  cf_warmup_imports :: "string list"
  cf_max_buffer :: nat
  cf_mem_restart_ratio :: rat
  cf_validate_imports :: bool

text \<open>What \<open>select\<close> and \<open>os.read\<close> bring: a chunk of output, the end of the output, a chunk of the error stream.\<close>

datatype repl_event = Out string | Out_End | Err string

record 'w repl_os =
  ro_spawn :: "'w \<Rightarrow> unit result \<times> 'w"
  ro_alive :: "'w \<Rightarrow> bool"
  ro_exchange :: "string \<Rightarrow> 'w \<Rightarrow> repl_event list result \<times> 'w"
  ro_kill :: "'w \<Rightarrow> 'w"
  ro_memory :: "'w \<Rightarrow> rat result"
  ro_exceeded :: "'w \<Rightarrow> bool"
  ro_returncode :: "'w \<Rightarrow> string"

record 'w repl =
  rp_process :: bool
  rp_base_env :: json
  rp_world :: 'w

type_synonym response = "(string, json) dict"

section \<open>Messages\<close>

definition get_json :: "response \<Rightarrow> string \<Rightarrow> json \<Rightarrow> json" where
  "get_json d k v = dget_or d k v"

text \<open>Messages and sorries of a response; the ones that are not objects are skipped.\<close>

definition objects_of :: "json \<Rightarrow> response list result" where
  "objects_of v = rbind (as_list v) (\<lambda>xs. Inr (concat (map (\<lambda>x. case x of JObj d \<Rightarrow> [d] | _ \<Rightarrow> []) xs)))"

definition messages_of :: "response \<Rightarrow> response list result" where
  "messages_of resp = objects_of (get_json resp ''messages'' (JArr []))"

definition is_error :: "response \<Rightarrow> bool" where
  "is_error m = (dget m ''severity'' = Some (JStr ''error''))"

definition shift_pos :: "int \<Rightarrow> json option \<Rightarrow> json option result" where
  "shift_pos offset p =
     (case p of
        Some (JObj d) \<Rightarrow>
          (case dget d ''line'' of
             None \<Rightarrow> Inr p
           | Some (JInt l) \<Rightarrow> Inr (Some (JObj (dset d ''line'' (JInt (l + offset)))))
           | Some _ \<Rightarrow> Inl (OutsideModel ''a line that is not a number''))
      | _ \<Rightarrow> Inr p)"

definition set_opt :: "response \<Rightarrow> string \<Rightarrow> json option \<Rightarrow> response" where
  "set_opt d k v = (case v of None \<Rightarrow> d | Some x \<Rightarrow> dset d k x)"

definition shift_item :: "int \<Rightarrow> json \<Rightarrow> json result" where
  "shift_item offset item =
     (case item of
        JObj d \<Rightarrow>
          rbind (shift_pos offset (dget d ''pos'')) (\<lambda>p.
          rbind (shift_pos offset (dget d ''endPos'')) (\<lambda>e.
            Inr (JObj (set_opt (set_opt d ''pos'' p) ''endPos'' e))))
      | _ \<Rightarrow> Inl (OutsideModel ''a message that is not an object''))"

definition shift_items :: "int \<Rightarrow> string \<Rightarrow> response \<Rightarrow> response result" where
  "shift_items offset k resp =
     (case dget resp k of
        None \<Rightarrow> Inr resp
      | Some v \<Rightarrow> rbind (as_list v) (\<lambda>xs. rbind (mapM (shift_item offset) xs) (\<lambda>ys. Inr (dset resp k (JArr ys)))))"

definition adjust_line_numbers :: "response \<Rightarrow> nat \<Rightarrow> response result" where
  "adjust_line_numbers resp offset =
     (if offset = 0 then Inr resp
      else rbind (shift_items (int offset) ''messages'' resp) (shift_items (int offset) ''sorries''))"

definition format_message :: "response \<Rightarrow> string" where
  "format_message m =
     (let severity = str_json (get_json m ''severity'' (JStr ''info'')); text = str_json (get_json m ''data'' (JStr []));
          plain = severity @ '': '' @ text
      in case dget m ''pos'' of
           Some (JObj p) \<Rightarrow>
             (case get_json p ''line'' JNull of
                JNull \<Rightarrow> plain
              | l \<Rightarrow> (case get_json p ''column'' JNull of
                       JNull \<Rightarrow> str_json l @ '': '' @ plain
                     | c \<Rightarrow> str_json l @ '':'' @ str_json c @ '': '' @ plain))
         | _ \<Rightarrow> plain)"

definition DEFAULT_MAX_DIAGNOSTICS :: nat where "DEFAULT_MAX_DIAGNOSTICS = 10"

definition item_lines :: "string list \<Rightarrow> string list" where
  "item_lines xs = map (\<lambda>x. ''  - '' @ x) xs"

definition diagnostics :: "string \<Rightarrow> string list \<Rightarrow> string list" where
  "diagnostics title xs =
     [''Compiles successfully'', [nl] @ title @ '' ('' @ str_nat (length xs) @ '')''] @
     item_lines (take DEFAULT_MAX_DIAGNOSTICS xs) @
     (if DEFAULT_MAX_DIAGNOSTICS < length xs
      then [''  ... and '' @ str_nat (length xs - DEFAULT_MAX_DIAGNOSTICS) @ '' more''] else [])"

definition sorry_line :: "response \<Rightarrow> string" where
  "sorry_line s =
     ''Line '' @ str_json (case get_json s ''pos'' (JObj []) of JObj p \<Rightarrow> get_json p ''line'' (JInt 0) | _ \<Rightarrow> JInt 0) @
     '': '' @ str_json (get_json s ''goal'' (JStr []))"

definition format_repl_response :: "response \<Rightarrow> string result" where
  "format_repl_response resp =
     (if get_json resp ''repl_error'' JNull \<noteq> JNull then Inr (''REPL error: '' @ str_json (get_json resp ''repl_error'' JNull))
      else
        rbind (messages_of resp) (\<lambda>ms.
        rbind (objects_of (get_json resp ''sorries'' (JArr []))) (\<lambda>sorries.
          let texts = (\<lambda>sev. map format_message (filter (\<lambda>m. get_json m ''severity'' (JStr []) = JStr sev) ms));
              errors = texts ''error''; warnings = texts ''warning''; infos = texts ''info''
          in Inr (join [nl]
            ((if errors \<noteq> [] then (''Compilation Errors ('' @ str_nat (length errors) @ '')'') # item_lines errors
              else if warnings \<noteq> [] then diagnostics ''Warnings'' warnings
              else if infos \<noteq> [] then diagnostics ''Output'' infos
              else [''Compiles successfully'']) @
             (if sorries = [] then []
              else ([nl] @ ''Sorries ('' @ str_nat (length sorries) @ '')'') # item_lines (map sorry_line sorries)))))))"

section \<open>One command\<close>

text \<open>The text up to the first blank line, if one has arrived.\<close>

fun up_to_blank :: "string \<Rightarrow> string option" where
  "up_to_blank [] = None"
| "up_to_blank [c] = None"
| "up_to_blank (c # d # s) = (if c = nl \<and> d = nl then Some [] else map_option ((#) c) (up_to_blank (d # s)))"

fun read_response :: "(string \<Rightarrow> py_error) \<Rightarrow> nat \<Rightarrow> string \<Rightarrow> string \<Rightarrow> string \<Rightarrow> repl_event list \<Rightarrow> string result" where
  "read_response exited limit tmo buf err [] = Inl (TimeoutError (''REPL command timed out after '' @ tmo @ '' seconds''))"
| "read_response exited limit tmo buf err (Out_End # es) = Inl (exited err)"
| "read_response exited limit tmo buf err (Out chunk # es) =
     (let buf' = buf @ chunk
      in if limit < length buf'
         then Inl (RuntimeError (''REPL response exceeded '' @ str_nat limit @ '' bytes without producing valid JSON. Tail: '' @
                repr_str (drop (length buf' - 200) buf')))
         else case up_to_blank buf' of
                Some text \<Rightarrow> Inr (strip text)
              | None \<Rightarrow> read_response exited limit tmo buf' err es)"
| "read_response exited limit tmo buf err (Err chunk # es) = read_response exited limit tmo buf (err @ chunk) es"

definition process_termination_error :: "'w repl_os \<Rightarrow> repl_config \<Rightarrow> 'w repl \<Rightarrow> string \<Rightarrow> py_error" where
  "process_termination_error os cfg s err =
     ReplProcessExited
       ((if ro_exceeded os (rp_world s) then ''Lean REPL killed for exceeding memory limit ('' @ str_int (cf_mem_limit_gb cfg) @ ''GB).''
         else ''Lean REPL process terminated unexpectedly.'') @
        '' Exit code: '' @ (if rp_process s then ro_returncode os (rp_world s) else ''None'') @ '', stderr: '' @ err)"

definition is_alive :: "'w repl_os \<Rightarrow> 'w repl \<Rightarrow> bool" where
  "is_alive os s = (rp_process s \<and> ro_alive os (rp_world s))"

definition command_text :: "string \<Rightarrow> json \<Rightarrow> string" where
  "command_text code env = dumps (JObj ([(''cmd'', JStr code)] @ (if env = JNull then [] else [(''env'', env)]))) @ [nl, nl]"

definition run_raw :: "'w repl_os \<Rightarrow> (string \<Rightarrow> string) \<Rightarrow> repl_config \<Rightarrow> string \<Rightarrow> json \<Rightarrow> string \<Rightarrow> ('w repl, response) eff" where
  "run_raw os msg cfg code env tmo = (\<lambda>s.
     if \<not> is_alive os s then (Inl (process_termination_error os cfg s []), s)
     else case ro_exchange os (command_text code env) (rp_world s) of (r, w) \<Rightarrow>
       (let s' = s\<lparr>rp_world := w\<rparr>
        in (rbind r (\<lambda>es. rbind (read_response (process_termination_error os cfg s') (cf_max_buffer cfg) tmo [] [] es)
             (\<lambda>text. rbind (loads msg text) as_obj)), s')))"

section \<open>Starting and stopping\<close>

definition close :: "'w repl_os \<Rightarrow> ('w repl, unit) eff" where
  "close os = (\<lambda>s. (Inr (), s\<lparr>rp_process := False, rp_base_env := JNull,
     rp_world := (if is_alive os s then ro_kill os (rp_world s) else rp_world s)\<rparr>))"

definition error_details :: "string \<Rightarrow> response list \<Rightarrow> string result" where
  "error_details sep ms = rbind (mapM (\<lambda>m. as_str (get_json m ''data'' (JStr (repr_json (JObj m))))) ms) (\<lambda>ds. Inr (join sep ds))"

definition lift :: "'a result \<Rightarrow> ('s, 'a) eff" where
  "lift r = (\<lambda>s. (r, s))"

text \<open>The errors among the messages of a response fail the start.\<close>

definition no_errors :: "string \<Rightarrow> (string \<Rightarrow> string) \<Rightarrow> response \<Rightarrow> ('s, unit) eff" where
  "no_errors sep text resp =
     bindE (lift (messages_of resp)) (\<lambda>ms.
       let errors = filter is_error ms
       in if errors = [] then ret () else bindE (lift (error_details sep errors)) (\<lambda>d. throw (RuntimeError (text d))))"

definition preload :: "'w repl_os \<Rightarrow> (string \<Rightarrow> string) \<Rightarrow> repl_config \<Rightarrow> ('w repl, unit) eff" where
  "preload os msg cfg =
     (if cf_warmup_imports cfg = [] then ret ()
      else
        bindE (run_raw os msg cfg (join [nl] (map (\<lambda>r. ''import '' @ r) (cf_warmup_imports cfg))) JNull (cf_startup_timeout cfg)) (\<lambda>resp.
        case dget resp ''env'' of
          None \<Rightarrow> throw (RuntimeError (''Failed to preload imports: '' @ repr_json (JObj resp)))
        | Some env \<Rightarrow>
            seqE (no_errors [nl] (\<lambda>d. ''Import preloading failed:'' @ [nl] @ d) resp)
            (seqE (modifyE (\<lambda>s. s\<lparr>rp_base_env := env\<rparr>))
            (bindE (run_raw os msg cfg ''#check Nat'' env ''10'') (\<lambda>smoke.
               no_errors ''; '' (\<lambda>d. ''REPL environment smoke test failed '' @ em_dash @
                 '' imports loaded but standard library is not available. This usually means LEAN_PATH is misconfigured or '' @
                 ''the project'' @ [quote] @ ''s .lake cache is stale. Errors: '' @ d) smoke)))))"

definition start :: "'w repl_os \<Rightarrow> (string \<Rightarrow> string) \<Rightarrow> repl_config \<Rightarrow> ('w repl, unit) eff" where
  "start os msg cfg =
     seqE (\<lambda>s. case ro_spawn os (rp_world s) of
             (Inl e, w) \<Rightarrow> (Inl e, s\<lparr>rp_world := w\<rparr>)
           | (Inr _, w) \<Rightarrow> (Inr (), s\<lparr>rp_process := True, rp_world := w\<rparr>))
       (catchE (preload os msg cfg) (\<lambda>e. seqE (close os) (throw e)))"

definition restart :: "'w repl_os \<Rightarrow> (string \<Rightarrow> string) \<Rightarrow> repl_config \<Rightarrow> ('w repl, unit) eff" where
  "restart os msg cfg = seqE (close os) (start os msg cfg)"

definition check_memory :: "'w repl_os \<Rightarrow> (string \<Rightarrow> string) \<Rightarrow> repl_config \<Rightarrow> ('w repl, unit) eff" where
  "check_memory os msg cfg =
     (if cf_mem_limit_gb cfg \<le> 0 \<or> cf_mem_restart_ratio cfg \<le> 0 then ret ()
      else catchE
        (bindE (getsE (\<lambda>s. ro_memory os (rp_world s))) (\<lambda>r. bindE (lift r) (\<lambda>usage.
           whenE (py_mul (of_int (cf_mem_limit_gb cfg)) (cf_mem_restart_ratio cfg) \<le> usage) (restart os msg cfg))))
        (\<lambda>_. ret ()))"

section \<open>Running code\<close>

fun retryable :: "py_error \<Rightarrow> bool" where
  "retryable (ReplProcessExited e) = True"
| "retryable (ReplProcessRestarted e) = True"
| "retryable (TimeoutError e) = True"
| "retryable (RuntimeError e) = True"
| "retryable (JSONDecodeError e) = True"
| "retryable e = False"

definition repl_error :: "string \<Rightarrow> response" where
  "repl_error text = [(''repl_error'', JStr text)]"

fun attempts :: "nat \<Rightarrow> 'w repl_os \<Rightarrow> (string \<Rightarrow> string) \<Rightarrow> repl_config \<Rightarrow> string \<Rightarrow> json \<Rightarrow> string \<Rightarrow> bool \<Rightarrow> nat \<Rightarrow>
    string \<Rightarrow> ('w repl, response) eff" where
  "attempts 0 os msg cfg code env tmo from_env offset last_text = ret (repl_error last_text)"
| "attempts (Suc n) os msg cfg code env tmo from_env offset last_text =
     catchE (bindE (run_raw os msg cfg code env tmo) (\<lambda>resp. lift (adjust_line_numbers resp offset)))
       (\<lambda>e. if \<not> retryable e then throw e
            else seqE (restart os msg cfg)
              (if from_env then throw (ReplProcessRestarted (err_text e))
               else attempts n os msg cfg code env tmo from_env offset (err_text e)))"

definition import_roots :: "string list \<Rightarrow> string list" where
  "import_roots imports = remdups (map (\<lambda>i. hd (split_char (CHR ''.'') i)) imports)"

definition disallowed_imports :: "repl_config \<Rightarrow> string list \<Rightarrow> string list" where
  "disallowed_imports cfg imports =
     (if cf_validate_imports cfg \<and> cf_allowed_imports cfg \<noteq> []
      then filter (\<lambda>r. r \<notin> set (cf_allowed_imports cfg)) (import_roots imports) else [])"

definition run_repl :: "'w repl_os \<Rightarrow> (string \<Rightarrow> string) \<Rightarrow> repl_config \<Rightarrow> string \<Rightarrow> json \<Rightarrow> string option \<Rightarrow> ('w repl, response) eff" where
  "run_repl os msg cfg code env timeout =
     (let tmo = (case timeout of None \<Rightarrow> cf_request_timeout cfg | Some t \<Rightarrow> t)
      in if env \<noteq> JNull
         then seqE (check_memory os msg cfg) (attempts 1 os msg cfg code env tmo True 0 ''None'')
         else (let (imports, body, header) = split_imports_and_body code; bad = disallowed_imports cfg imports
               in if bad \<noteq> []
                  then ret (repl_error (''Disallowed imports: '' @ join '', '' (sort bad) @ ''. Allowed roots: '' @
                         join '', '' (sort (remdups (cf_allowed_imports cfg))) @ ''.''))
                  else bindE (getsE rp_base_env) (\<lambda>base.
                    seqE (check_memory os msg cfg)
                      (attempts (cf_max_retries cfg + 1) os msg cfg body base tmo False header ''None''))))"

fun run_steps_from :: "'w repl_os \<Rightarrow> (string \<Rightarrow> string) \<Rightarrow> repl_config \<Rightarrow> string option \<Rightarrow> json \<Rightarrow> string list \<Rightarrow> ('w repl, response list) eff" where
  "run_steps_from os msg cfg timeout env [] = ret []"
| "run_steps_from os msg cfg timeout env (snippet # rest) =
     (if strip snippet = [] then run_steps_from os msg cfg timeout env rest
      else bindE (run_repl os msg cfg snippet env timeout) (\<lambda>resp.
        if truthy (get_json resp ''repl_error'' JNull) then ret [resp]
        else bindE (lift (messages_of resp)) (\<lambda>ms.
          if list_ex is_error ms then ret [resp]
          else bindE (run_steps_from os msg cfg timeout (get_json resp ''env'' env) rest) (\<lambda>rs. ret (resp # rs)))))"

definition run_steps :: "'w repl_os \<Rightarrow> (string \<Rightarrow> string) \<Rightarrow> repl_config \<Rightarrow> string list \<Rightarrow> string option \<Rightarrow> ('w repl, response list) eff" where
  "run_steps os msg cfg snippets timeout = run_steps_from os msg cfg timeout JNull snippets"

section \<open>The proof checker\<close>

record proof_check_result =
  pc_valid :: bool
  pc_reason :: string
  pc_exit_code :: int
  pc_compiler_output :: string

definition format_messages :: "response list \<Rightarrow> string" where
  "format_messages ms = join [nl] (map format_message ms)"

definition proof_result :: "bool \<Rightarrow> string \<Rightarrow> int \<Rightarrow> string \<Rightarrow> proof_check_result" where
  "proof_result valid reason code out = \<lparr>pc_valid = valid, pc_reason = reason, pc_exit_code = code, pc_compiler_output = out\<rparr>"

text \<open>The loop over the responses: the verdict that ends it, or all messages.\<close>

fun collect_messages :: "response list \<Rightarrow> json list \<Rightarrow> (proof_check_result + json list) result" where
  "collect_messages [] acc = Inr (Inr acc)"
| "collect_messages (r # rs) acc =
     (case dget r ''repl_error'' of
        Some e \<Rightarrow> Inr (Inl (proof_result False (''REPL error: '' @ str_json e) 1 (repr_json (JObj r))))
      | None \<Rightarrow>
          rbind (as_list (get_json r ''messages'' (JArr []))) (\<lambda>raw.
          rbind (objects_of (JArr raw)) (\<lambda>ms.
            if list_ex is_error ms then Inr (Inl (proof_result False ''Compilation error'' 1 (format_messages ms)))
            else collect_messages rs (acc @ raw))))"

definition verdict_of :: "bool \<Rightarrow> string list \<Rightarrow> response list \<Rightarrow> proof_check_result result" where
  "verdict_of check_axioms allowed results =
     (if results = [] then Inr (proof_result True ''No snippets to check'' 0 [])
      else rbind (collect_messages results []) (\<lambda>v. case v of
        Inl bad \<Rightarrow> Inr bad
      | Inr raw \<Rightarrow> rbind (objects_of (JArr raw)) (\<lambda>ms.
          let out = format_messages ms; disallowed = disallowed_axioms allowed (parse_axioms_from_output out)
          in if check_axioms \<and> raw \<noteq> [] \<and> disallowed \<noteq> []
             then Inr (proof_result False (''Disallowed axioms: '' @ join '', '' (sort disallowed)) 0 out)
             else Inr (proof_result True ''Proof is valid'' 0 out))))"

definition check_snippets :: "'w repl_os \<Rightarrow> (string \<Rightarrow> string) \<Rightarrow> repl_config \<Rightarrow> bool \<Rightarrow> string list \<Rightarrow> string list \<Rightarrow>
    string option \<Rightarrow> ('w repl, proof_check_result) eff" where
  "check_snippets os msg cfg check_axioms allowed snippets timeout =
     catchE (bindE (run_steps os msg cfg snippets timeout) (\<lambda>rs. lift (verdict_of check_axioms allowed rs)))
       (\<lambda>e. ret (proof_result False (''Execution failed: '' @ err_text e) 1 (err_text e)))"

end
