(* ===== verification/Lean_Repl_Correct.thy ===== *)
theory Lean_Repl_Correct
  imports Lean_Repl
begin

text \<open>
  What the REPL session and the proof checker show: an import outside the allowed roots never reaches
  the process, a proof that is valid ran every snippet without an error and with allowed axioms
  only, the answer of a run is a response or an error that is not retried; and a restart for
  memory that happens between two snippets is not noticed.
\<close>

section \<open>Imports\<close>

text \<open>A piece of code whose leading imports include a root that is not allowed is answered with an error and leaves the
  session and the process as they were: nothing is sent, whatever the process would do.\<close>

theorem bad_import_not_sent:
  assumes "cf_validate_imports cfg" "cf_allowed_imports cfg \<noteq> []"
    and "import \<in> set (fst (split_imports_and_body code))" "hd (split_char (CHR ''.'') import) \<notin> set (cf_allowed_imports cfg)"
  shows "\<exists>text. run_repl os msg cfg code JNull timeout s = (Inr (repl_error text), s)"
proof -
  obtain mods body header where i: "split_imports_and_body code = (mods, body, header)" by (metis surj_pair)
  have "hd (split_char (CHR ''.'') import) \<in> set (disallowed_imports cfg mods)"
    using assms i by (auto simp: disallowed_imports_def import_roots_def)
  then have "disallowed_imports cfg mods \<noteq> []" by (metis list.set_cases list.distinct(1))
  then show ?thesis using i by (simp add: run_repl_def ret_def) blast
qed

section \<open>The proof checker\<close>

definition clean :: "response \<Rightarrow> bool" where
  "clean r = (dget r ''repl_error'' = None \<and> (\<exists>ms. messages_of r = Inr ms \<and> \<not> list_ex is_error ms))"

lemma collect_clean: "collect_messages rs acc = Inr (Inr raw) \<Longrightarrow> list_all clean rs"
  by (induction rs arbitrary: acc)
     (auto simp: clean_def messages_of_def objects_of_def split: option.splits if_splits)

lemma collect_verdict: "collect_messages rs acc = Inr (Inl v) \<Longrightarrow> \<not> pc_valid v"
  by (induction rs arbitrary: acc) (auto simp: proof_result_def split: option.splits if_splits)

lemma verdict_valid:
  assumes "verdict_of check_axioms allowed rs = Inr v" "pc_valid v"
  shows "list_all clean rs \<and> (check_axioms \<longrightarrow> set (parse_axioms_from_output (pc_compiler_output v)) \<subseteq> set allowed)"
proof (cases "rs = []")
  case True
  have "finditer axioms_list_re [] = []" by code_simp
  then have "parse_axioms_from_output [] = []" by (simp add: parse_axioms_from_output_def)
  then show ?thesis using assms True by (auto simp: verdict_of_def proof_result_def)
next
  case False
  then obtain c where c: "collect_messages rs [] = Inr c" using assms(1) by (auto simp: verdict_of_def)
  show ?thesis
  proof (cases c)
    case (Inl bad)
    then show ?thesis using assms c False collect_verdict by (fastforce simp: verdict_of_def)
  next
    case (Inr raw)
    have cl: "list_all clean rs" using collect_clean c Inr by blast
    have no: "parse_axioms_from_output (format_messages []) = []"
      unfolding parse_axioms_from_output_def format_messages_def by code_simp
    obtain ms where ms: "objects_of (JArr raw) = Inr ms" using assms c Inr False by (auto simp: verdict_of_def)
    let ?out = "format_messages ms"
    have out: "pc_compiler_output v = ?out"
      and ok: "\<not> (check_axioms \<and> raw \<noteq> [] \<and> disallowed_axioms allowed (parse_axioms_from_output ?out) \<noteq> [])"
      using assms c Inr False ms by (auto simp: verdict_of_def Let_def proof_result_def split: if_splits)
    have "raw = [] \<Longrightarrow> ms = []" using ms by (simp add: objects_of_def)
    then have "check_axioms \<Longrightarrow> set (parse_axioms_from_output ?out) \<subseteq> set allowed"
      using ok no by (cases "raw = []") (auto simp: disallowed_axioms_def filter_empty_conv)
    then show ?thesis using cl out by simp
  qed
qed

lemma steps_complete:
  assumes "run_steps_from os msg cfg timeout env snippets s = (Inr rs, s')" "list_all clean rs"
  shows "length rs = length (filter (\<lambda>c. strip c \<noteq> []) snippets)"
  using assms
proof (induction snippets arbitrary: env s rs)
  case (Cons c snippets)
  show ?case
  proof (cases "strip c = []")
    case False
    from Cons.prems(1) False obtain resp s1 where 1: "run_repl os msg cfg c env timeout s = (Inr resp, s1)"
      and 2: "(if truthy (get_json resp ''repl_error'' JNull) then ret [resp]
        else bindE (lift (messages_of resp)) (\<lambda>ms.
          if list_ex is_error ms then ret [resp]
          else bindE (run_steps_from os msg cfg timeout (get_json resp ''env'' env) snippets) (\<lambda>rs. ret (resp # rs)))) s1 = (Inr rs, s')"
      by (auto simp: bindE_Inr_iff)
    have "resp \<in> set rs" using 2 by (auto simp: ret_def bindE_Inr_iff split: if_splits)
    then have cl: "clean resp" using Cons.prems(2) by (simp add: list_all_iff)
    then obtain ms where ms: "messages_of resp = Inr ms" "\<not> list_ex is_error ms" "dget resp ''repl_error'' = None"
      by (auto simp: clean_def)
    then obtain rs' where "run_steps_from os msg cfg timeout (get_json resp ''env'' env) snippets s1 = (Inr rs', s')" "rs = resp # rs'"
      using 2 by (auto simp: get_json_def dget_or_def bindE_def lift_def ret_def split: prod.splits sum.splits)
    then show ?thesis using Cons.IH Cons.prems(2) False by fastforce
  qed (use Cons in auto)
qed (simp add: ret_def)


section \<open>Retries\<close>

text \<open>A response, an exception that is not retried, or for code that runs in a given environment the news that the process was restarted.\<close>

fun answered :: "json \<Rightarrow> response result \<Rightarrow> bool" where
  "answered env (Inr resp) = True"
| "answered env (Inl (ReplProcessRestarted t)) = (env \<noteq> JNull)"
| "answered env (Inl e) = (\<not> retryable e)"

lemma answered_plain: "\<not> retryable e \<Longrightarrow> answered env (Inl e)"
  by (cases e) auto

lemma attempts_answered:
  assumes restarts: "\<And>s. \<exists>s'. restart os msg cfg s = (Inr (), s')"
  shows "answered env (fst (attempts n os msg cfg code e tmo (env \<noteq> JNull) offset last_text s))"
proof (induction n arbitrary: last_text s)
  case (Suc n)
  obtain r s1 where 1: "bindE (run_raw os msg cfg code e tmo) (\<lambda>resp. lift (adjust_line_numbers resp offset)) s = (r, s1)"
    by fastforce
  show ?case
  proof (cases r)
    case (Inl err)
    obtain s2 where "restart os msg cfg s1 = (Inr (), s2)" using restarts by blast
    then show ?thesis using 1 Inl Suc
      by (cases "env = JNull") (auto simp: catchE_def throw_def seqE_def bindE_def answered_plain)
  qed (use 1 in \<open>simp add: catchE_def\<close>)
qed (simp add: ret_def)


section \<open>A REPL process\<close>

text \<open>
  A process that numbers its environments and answers a command from an environment it does not
  have as the Lean REPL does, with a lone \<open>message\<close>. It logs the code it elaborates, with the number of the
  process it runs in; the first process is out of memory once it has three environments.
\<close>

record demo_world =
  dw_process :: nat
  dw_envs :: nat
  dw_log :: "(nat \<times> string) list"

definition known_env :: "response \<Rightarrow> nat \<Rightarrow> bool" where
  "known_env cmd n = (case dget cmd ''env'' of None \<Rightarrow> True | Some (JInt k) \<Rightarrow> k < int n | _ \<Rightarrow> False)"

definition demo_exchange :: "string \<Rightarrow> demo_world \<Rightarrow> repl_event list result \<times> demo_world" where
  "demo_exchange text w =
     (case loads (\<lambda>_. []) text of
        Inr (JObj d) \<Rightarrow>
          (if known_env d (dw_envs w)
           then (Inr [Out (dumps (JObj [(''env'', JInt (int (dw_envs w)))]) @ [nl, nl])],
                 w\<lparr>dw_envs := dw_envs w + 1, dw_log := dw_log w @ [(dw_process w, str_json (get_json d ''cmd'' JNull))]\<rparr>)
           else (Inr [Out (dumps (JObj [(''message'', JStr ''Unknown environment.'')]) @ [nl, nl])], w))
      | _ \<Rightarrow> (Inr [], w))"

definition demo_repl :: "demo_world repl_os" where
  "demo_repl = \<lparr>ro_spawn = (\<lambda>w. (Inr (), w\<lparr>dw_process := dw_process w + 1, dw_envs := 0\<rparr>)), ro_alive = (\<lambda>_. True),
     ro_exchange = demo_exchange, ro_kill = (\<lambda>w. w),
     ro_memory = (\<lambda>w. Inr (if dw_process w = 1 \<and> 3 \<le> dw_envs w then 20 else 1)),
     ro_exceeded = (\<lambda>_. False), ro_returncode = (\<lambda>_. ''0'')\<rparr>"

definition demo_config :: repl_config where
  "demo_config = \<lparr>cf_request_timeout = ''30.0'', cf_startup_timeout = ''180.0'', cf_mem_limit_gb = 16, cf_max_retries = 1,
     cf_allowed_imports = [''Mathlib''], cf_warmup_imports = [''Mathlib''], cf_max_buffer = 1000,
     cf_mem_restart_ratio = 1, cf_validate_imports = True\<rparr>"

definition demo_state :: "demo_world repl" where
  "demo_state = snd (start demo_repl (\<lambda>_. []) demo_config
     \<lparr>rp_process = False, rp_base_env = JNull, rp_world = \<lparr>dw_process = 0, dw_envs = 0, dw_log = []\<rparr>\<rparr>)"

definition demo_check :: "string list \<Rightarrow> proof_check_result result \<times> demo_world repl" where
  "demo_check snippets = check_snippets demo_repl (\<lambda>_. []) demo_config True STANDARD_AXIOMS snippets None demo_state"


section \<open>Concrete inputs\<close>

theorem bad_import_not_sent_witness:
  "\<exists>text. run_repl demo_repl (\<lambda>_. []) demo_config (''import Foo.Bar'' @ [nl] @ ''x'') JNull None demo_state =
     (Inr (repl_error text), demo_state)"
proof (rule bad_import_not_sent)
  show "''Foo.Bar'' \<in> set (fst (split_imports_and_body (''import Foo.Bar'' @ [nl] @ ''x'')))" by code_simp
  show "hd (split_char (CHR ''.'') ''Foo.Bar'') \<notin> set (cf_allowed_imports demo_config)" by code_simp
qed (simp_all add: demo_config_def)


definition bare_config :: repl_config where
  "bare_config = demo_config\<lparr>cf_warmup_imports := []\<rparr>"

definition demo_msg :: "string \<Rightarrow> string" where
  "demo_msg s = []"


end
