(* ===== verification/Rubric.thy ===== *)
theory Rubric
  imports Py_Regex Py_Json Py_Float
begin

text \<open>
  \<open>core/eval/rubric.py\<close> and \<open>core/eval/dtypes.py\<close>: rubrics that build the prompt of a judge and read the
  score out of its answer, strictly or leniently. The value of a score is a float, with \<open>None\<close> for NaN.
  Metrics are JSON values. \<open>msg\<close> is the wording of JSON errors.
\<close>

section \<open>Scores\<close>

record score =
  sc_value :: "rat option"
  sc_passed :: bool
  sc_feedback :: string
  sc_metrics :: "(string, json) dict"

record rubric_spec =
  rs_name :: string
  rs_description :: string
  rs_active :: bool
  rs_weight :: rat
  rs_pass_threshold :: int
  rs_max_score :: int
  rs_criteria :: "(int \<times> string) list"
  rs_prompt_template :: string

section \<open>Reading the answer of a judge\<close>

text \<open>The walk over the text: inside a quoted value, and behind a backslash there.\<close>

fun escape_control :: "bool \<Rightarrow> bool \<Rightarrow> string \<Rightarrow> string" where
  "escape_control in_string escape_next [] = []"
| "escape_control in_string escape_next (c # cs) =
     (if escape_next then c # escape_control in_string False cs
      else if c = CHR 0x5C \<and> in_string then c # escape_control in_string True cs
      else if c = CHR 0x22 then c # escape_control (\<not> in_string) False cs
      else if in_string \<and> c = CHR 0x0A then [CHR 0x5C, CHR ''n''] @ escape_control in_string False cs
      else if in_string \<and> c = CHR 0x0D then [CHR 0x5C, CHR ''r''] @ escape_control in_string False cs
      else if in_string \<and> c = CHR 0x09 then [CHR 0x5C, CHR ''t''] @ escape_control in_string False cs
      else c # escape_control in_string False cs)"

definition escape_control_in_strings :: "string \<Rightarrow> string" where
  "escape_control_in_strings s = escape_control False False s"

definition fence :: string where "fence = [CHR 0x60, CHR 0x60, CHR 0x60]"

definition json_fence_re :: re where
  "json_fence_re = cat [lit (fence @ ''json''), many space, opt (chr nl), Grp 1 (many_lazy any_char), lit fence]"

definition braces_re :: re where
  "braces_re = cat [chr (CHR ''{''), many any_char, chr (CHR ''}'')]"

definition fenced_text :: "string \<Rightarrow> string" where
  "fenced_text response = (case re_search json_fence_re response of Some m \<Rightarrow> strip (group m 1) | None \<Rightarrow> strip response)"

text \<open>\<open>isinstance(score, (int, float))\<close> and \<open>int(score)\<close>: a bool is an int.\<close>

fun score_number :: "json option \<Rightarrow> int option" where
  "score_number (Some (JInt i)) = Some i"
| "score_number (Some (JBool b)) = Some (if b then 1 else 0)"
| "score_number _ = None"

definition clamp :: "int \<Rightarrow> int \<Rightarrow> int" where
  "clamp max_score i = max 0 (min max_score i)"

definition extra_fields :: "(string, json) dict \<Rightarrow> (string, json) dict" where
  "extra_fields d = filter (\<lambda>(k, v). k \<notin> {''score'', ''reasoning''}) d"

type_synonym judgement = "int \<times> string \<times> (string, json) dict"

definition parse_judge_response :: "(string \<Rightarrow> string) \<Rightarrow> string \<Rightarrow> int \<Rightarrow> judgement result" where
  "parse_judge_response msg response max_score =
     (case re_search braces_re (fenced_text response) of
        None \<Rightarrow> Inr (0, ''No JSON found in response: '' @ take 200 response, [])
      | Some m \<Rightarrow>
          (case loads msg (escape_control_in_strings (mt_text m)) of
             Inl (JSONDecodeError e) \<Rightarrow> Inr (0, ''Invalid JSON: '' @ e, [])
           | Inl e \<Rightarrow> Inl e
           | Inr v \<Rightarrow>
               rbind (as_obj v) (\<lambda>d.
                 case score_number (dget d ''score'') of
                   None \<Rightarrow> Inr (0, ''Missing or invalid '' @ repr_str ''score'' @ '' field: '' @ repr_json (JObj d), [])
                 | Some i \<Rightarrow> Inr (clamp max_score i, str_json (dget_or d ''reasoning'' (JStr [])), extra_fields d))))"

section \<open>Prompts\<close>

text \<open>
  \<open>str.format_map\<close> for fields that are plain names; other replacement fields (attributes, indices,
  conversions, format specifications) are outside the model.
\<close>

definition is_field_char :: "char \<Rightarrow> bool" where
  "is_field_char c = (c \<notin> set ''{}.[!:'')"

function format_map :: "(string, string) dict \<Rightarrow> string \<Rightarrow> string result" where
  "format_map flds [] = Inr []"
| "format_map flds (c # cs) =
     (if c = CHR ''{'' \<and> startswith cs ''{'' then rbind (format_map flds (tl cs)) (\<lambda>t. Inr (CHR ''{'' # t))
      else if c = CHR ''}'' \<and> startswith cs ''}'' then rbind (format_map flds (tl cs)) (\<lambda>t. Inr (CHR ''}'' # t))
      else if c = CHR ''}'' then Inl (ValueError ''Single }'')
      else if c = CHR ''{'' then
        (let name = takeWhile is_field_char cs; rest = dropWhile is_field_char cs
         in if rest = [] then Inl (ValueError ''expected }'')
            else if hd rest \<noteq> CHR ''}'' then Inl (OutsideModel ''a replacement field that is not a name'')
            else case dget flds name of
                   None \<Rightarrow> Inl (KeyError name)
                 | Some v \<Rightarrow> rbind (format_map flds (tl rest)) (\<lambda>t. Inr (v @ t)))
      else rbind (format_map flds cs) (\<lambda>t. Inr (c # t)))"
  by pat_completeness auto

termination
proof (relation "measure (\<lambda>(f, s). length s)")
  fix flds :: "(string, string) dict" and c :: char and cs rest :: string
  assume "rest = dropWhile is_field_char cs"
  then have "length rest \<le> length cs" by (simp add: length_dropWhile_le)
  then show "((flds, tl rest), (flds, c # cs)) \<in> measure (\<lambda>(f, s). length s)" by simp
qed auto

text \<open>\<open>sorted(criteria.items(), reverse=True)\<close> of a dict: the scores are distinct.\<close>

definition criteria_text :: "rubric_spec \<Rightarrow> string" where
  "criteria_text spec =
     join [nl] (map (\<lambda>(s, desc). ''- **'' @ str_int s @ ''**: '' @ desc) (sort_key (\<lambda>(s, d). - s) (rs_criteria spec)))"

definition rubric_prompt :: "rubric_spec \<Rightarrow> (string, string) dict \<Rightarrow> string \<Rightarrow> string result" where
  "rubric_prompt spec datum out =
     format_map (dset (dset datum ''output'' out) ''criteria'' (criteria_text spec)) (rs_prompt_template spec)"

section \<open>Rubrics\<close>

definition judged :: "rubric_spec \<Rightarrow> judgement \<Rightarrow> score result" where
  "judged spec = (\<lambda>(s, reasoning, extra).
     rbind (py_div s (rs_max_score spec)) (\<lambda>v. Inr
       \<lparr>sc_value = Some v, sc_passed = rs_pass_threshold spec \<le> s, sc_feedback = reasoning,
        sc_metrics = dupdate [(rs_name spec, JInt s)] extra\<rparr>))"

definition process_answer :: "(string \<Rightarrow> string) \<Rightarrow> rubric_spec \<Rightarrow> string \<Rightarrow> score result" where
  "process_answer msg spec response = rbind (parse_judge_response msg response (rs_max_score spec)) (judged spec)"

section \<open>Lenient reading\<close>

definition FIX_KEYS :: re where
  "FIX_KEYS = cat [Behind (\<lambda>c. c \<in> set (''{,'' @ [nl])), many space, Grp 1 (some word_char), many space, chr (CHR '':'')]"

definition FIX_QUOTED_KEYS :: re where
  "FIX_QUOTED_KEYS = cat [chr (CHR 0x27), Grp 1 (some word_char), chr (CHR 0x27), many space, chr (CHR '':'')]"

definition FIX_VALUES :: re where
  "FIX_VALUES = cat [chr (CHR '':''), many space, chr (CHR 0x27), Grp 1 (many (none_of [CHR 0x27])), chr (CHR 0x27)]"

definition TRAILING_COMMA :: re where
  "TRAILING_COMMA = cat [chr (CHR '',''), many space, chr (CHR ''}'')]"

definition fix_json :: "string \<Rightarrow> string" where
  "fix_json text =
     (let key = (\<lambda>m. [CHR 0x22] @ group m 1 @ [CHR 0x22, CHR '':'']);
          t1 = re_sub FIX_KEYS (\<lambda>m. '' '' @ key m) text;
          t2 = re_sub FIX_QUOTED_KEYS key t1;
          t3 = re_sub FIX_VALUES (\<lambda>m. '': '' @ [CHR 0x22] @ group m 1 @ [CHR 0x22]) t2
      in re_sub TRAILING_COMMA (\<lambda>m. ''}'') t3)"

text \<open>The three patterns for a score and a reasoning, by their quotes.\<close>

definition quoted_text_re :: "char \<Rightarrow> re" where
  "quoted_text_re q = cat [chr q, Grp 2 (many (Alt (none_of [q, CHR 0x5C]) (Cat (chr (CHR 0x5C)) any_char))), chr q]"

definition score_re :: "string \<Rightarrow> string \<Rightarrow> char \<Rightarrow> re" where
  "score_re score_key reasoning_key q = cat [chr (CHR ''{''), many space, lit score_key, many space, chr (CHR '':''), many space,
     Grp 1 (some digit), many space, chr (CHR '',''), many space, lit reasoning_key, many space, chr (CHR '':''), many space,
     quoted_text_re q, many space, chr (CHR ''}'')]"

definition SCORE_PATTERNS :: "re list" where
  "SCORE_PATTERNS =
     [score_re ([CHR 0x22] @ ''score'' @ [CHR 0x22]) ([CHR 0x22] @ ''reasoning'' @ [CHR 0x22]) (CHR 0x22),
      score_re ''score'' ''reasoning'' (CHR 0x22), score_re ''score'' ''reasoning'' (CHR 0x27)]"

definition ANY_SCORE :: re where
  "ANY_SCORE = cat [chr (CHR ''{''), many space, opt (chr (CHR 0x22)), lit ''score'', opt (chr (CHR 0x22)), many space,
     chr (CHR '':''), many space, some digit]"

text \<open>The text up to the brace that closes the first one, skipping braces in strings.\<close>

fun balanced :: "int \<Rightarrow> bool \<Rightarrow> bool \<Rightarrow> string \<Rightarrow> string option" where
  "balanced depth in_string escape_next [] = None"
| "balanced depth in_string escape_next (c # cs) =
     map_option ((#) c)
       (if escape_next then balanced depth in_string False cs
        else if c = CHR 0x5C \<and> in_string then balanced depth in_string True cs
        else if c = CHR 0x22 then balanced depth (\<not> in_string) False cs
        else if in_string then balanced depth in_string False cs
        else if c = CHR ''{'' then balanced (depth + 1) in_string False cs
        else if c = CHR ''}'' then (if depth = 1 then Some [] else balanced (depth - 1) in_string False cs)
        else balanced depth in_string False cs)"

fun first_match :: "re list \<Rightarrow> string \<Rightarrow> re_match option" where
  "first_match [] s = None"
| "first_match (r # rs) s = (case re_search r s of Some m \<Rightarrow> Some m | None \<Rightarrow> first_match rs s)"

definition extract_score_json :: "(string \<Rightarrow> string) \<Rightarrow> string \<Rightarrow> (string, json) dict option result" where
  "extract_score_json msg text =
     (case first_match SCORE_PATTERNS text of
        Some m \<Rightarrow> Inr (Some [(''score'', JInt (int (nat_of_digits (group m 1)))), (''reasoning'', JStr (group m 2))])
      | None \<Rightarrow>
          (case re_search ANY_SCORE text of
             None \<Rightarrow> Inr None
           | Some m \<Rightarrow>
               (case balanced 0 False False (drop (length (mt_before m)) text) of
                  None \<Rightarrow> Inr None
                | Some candidate \<Rightarrow>
                    (let sanitized = escape_control_in_strings candidate
                     in case loads msg sanitized of
                          Inr v \<Rightarrow> rbind (as_obj v) (\<lambda>d. Inr (Some d))
                        | Inl (JSONDecodeError e) \<Rightarrow>
                            (case loads msg (fix_json sanitized) of
                               Inr v \<Rightarrow> rbind (as_obj v) (\<lambda>d. Inr (Some d))
                             | Inl (JSONDecodeError e) \<Rightarrow> Inr None
                             | Inl e \<Rightarrow> Inl e)
                        | Inl e \<Rightarrow> Inl e))))"

definition lenient_process_answer :: "(string \<Rightarrow> string) \<Rightarrow> rubric_spec \<Rightarrow> string \<Rightarrow> score result" where
  "lenient_process_answer msg spec response =
     rbind (process_answer msg spec response) (\<lambda>strict.
       if (case sc_value strict of None \<Rightarrow> False | Some v \<Rightarrow> 0 < v) \<or> \<not> contains (sc_feedback strict) ''Invalid JSON'' then Inr strict
       else rbind (extract_score_json msg response) (\<lambda>found. case found of
              None \<Rightarrow> Inr strict
            | Some d \<Rightarrow>
                (case score_number (dget d ''score'') of
                   None \<Rightarrow> Inr strict
                 | Some i \<Rightarrow> judged spec (clamp (rs_max_score spec) i, str_json (dget_or d ''reasoning'' (JStr [])), extra_fields d))))"

definition active_rubrics :: "rubric_spec list \<Rightarrow> rubric_spec list" where
  "active_rubrics specs = filter rs_active specs"

end
