(* ===== verification/Eval_Gate.thy ===== *)
theory Eval_Gate
  imports Rubric Lean_Checks
begin

text \<open>
  The graders of a formalization (\<open>autoform/eval/compilation_grader.py\<close>, \<open>core/eval/grader.py\<close>,
  \<open>autoform/eval/llm_jury_grader.py\<close>) and the merge gate built from them
  (\<open>autoform/eval/utils/gate.py\<close>). A judge agent is a function of its number and the prompt; the agents
  are separate, so running them together or one after the other gives the same answers. Source files are a function of the
  repository and the path in it.
\<close>

section \<open>Targets\<close>

record target =
  ft_name :: string
  ft_description :: string
  ft_kind :: string
  ft_location :: string
  ft_lean_declaration :: "string option"
  ft_lean_file :: "string option"

definition plain_target :: "string \<Rightarrow> target" where
  "plain_target name = \<lparr>ft_name = name, ft_description = [], ft_kind = [], ft_location = [],
     ft_lean_declaration = None, ft_lean_file = None\<rparr>"

text \<open>\<open>dataclasses.asdict\<close> as the template sees it.\<close>

definition opt_text :: "string option \<Rightarrow> string" where
  "opt_text s = (case s of None \<Rightarrow> ''None'' | Some t \<Rightarrow> t)"

definition target_fields :: "target \<Rightarrow> (string, string) dict" where
  "target_fields t = [(''name'', ft_name t), (''description'', ft_description t), (''kind'', ft_kind t),
     (''location'', ft_location t), (''lean_declaration'', opt_text (ft_lean_declaration t)),
     (''lean_file'', opt_text (ft_lean_file t))]"

text \<open>Truth of an optional string.\<close>

definition present_text :: "string option \<Rightarrow> bool" where
  "present_text s = (case s of None \<Rightarrow> False | Some t \<Rightarrow> t \<noteq> [])"

section \<open>Programmatic graders\<close>

definition compilation_grader :: "bool \<Rightarrow> string \<Rightarrow> (string \<times> string) list \<Rightarrow> score" where
  "compilation_grader compiled output violations =
     (let passed = (compiled \<and> violations = [])
      in \<lparr>sc_value = Some (if passed then 1 else 0), sc_passed = passed,
          sc_feedback = join ''; ''
            ((if compiled then [] else [take 200 output]) @
             (if violations = [] then []
              else [''Forbidden keywords: '' @ join '', '' (map (\<lambda>(f, kw). f @ '':'' @ kw) violations)])),
          sc_metrics = [(''compilation'', JInt (if passed then 1 else 0))]\<rparr>)"

definition axiom_grader :: "axiom_map \<Rightarrow> target \<Rightarrow> score" where
  "axiom_grader violations t =
     (let disallowed = (case ft_lean_declaration t of None \<Rightarrow> [] | Some d \<Rightarrow> dget_or violations d [])
      in if disallowed \<noteq> []
         then \<lparr>sc_value = Some 0, sc_passed = False, sc_feedback = ''Disallowed axioms: '' @ join '', '' (sort disallowed),
               sc_metrics = [(''axioms'', JInt 0)]\<rparr>
         else \<lparr>sc_value = Some 1, sc_passed = True, sc_feedback = [], sc_metrics = [(''axioms'', JInt 1)]\<rparr>)"

section \<open>The jury\<close>

text \<open>A juror is a rubric with the number of its agent; the jury also has the weight of every rubric.\<close>

record jury =
  ju_members :: "(rubric_spec \<times> nat) list"
  ju_weights :: "(string, rat) dict"

definition create_jury :: "rubric_spec list \<Rightarrow> nat list \<Rightarrow> jury result" where
  "create_jury specs agents =
     (let rubrics = active_rubrics specs
      in if length agents \<noteq> length rubrics
         then Inl (ValueError (''Expected '' @ str_nat (length rubrics) @ '' agents (one per rubric), got '' @ str_nat (length agents)))
         else Inr \<lparr>ju_members = zip rubrics agents,
                   ju_weights = foldl (\<lambda>d r. dset d (rs_name r) (rs_weight r)) [] rubrics\<rparr>)"

text \<open>Sums and products of floats, NaN included.\<close>

definition fl_add :: "rat option \<Rightarrow> rat option \<Rightarrow> rat option" where
  "fl_add x y = (case (x, y) of (Some a, Some b) \<Rightarrow> Some (flt (a + b)) | _ \<Rightarrow> None)"

definition fl_mul :: "rat option \<Rightarrow> rat \<Rightarrow> rat option" where
  "fl_mul x w = map_option (\<lambda>a. flt (a * w)) x"

definition weight_of :: "jury \<Rightarrow> nat \<Rightarrow> string \<Rightarrow> rat" where
  "weight_of ju n name = dget_or (ju_weights ju) name (flt (1 / of_nat n))"

definition is_int :: "json \<Rightarrow> bool" where
  "is_int v = (case v of JInt i \<Rightarrow> True | JBool b \<Rightarrow> True | _ \<Rightarrow> False)"

definition feedback_part :: "string \<Rightarrow> score \<Rightarrow> string list" where
  "feedback_part name s =
     (let raw = dget_or (sc_metrics s) name (JStr ''?'')
      in if is_int raw then [''['' @ name @ ''='' @ str_json raw @ ''/5] '' @ sc_feedback s]
         else if sc_feedback s \<noteq> [] then [''['' @ name @ ''] '' @ sc_feedback s] else [])"

definition weighted_sum :: "jury \<Rightarrow> (string, score) dict \<Rightarrow> rat option" where
  "weighted_sum ju scores =
     foldl (\<lambda>acc (name, s). fl_add acc (fl_mul (sc_value s) (weight_of ju (length scores) name))) (Some 0) scores"

definition total_weight :: "jury \<Rightarrow> (string, score) dict \<Rightarrow> rat" where
  "total_weight ju scores = foldl (\<lambda>acc (name, s). flt (acc + weight_of ju (length scores) name)) 0 scores"

definition aggregate :: "jury \<Rightarrow> (string, score) dict \<Rightarrow> score" where
  "aggregate ju scores =
     \<lparr>sc_value = (if 0 < total_weight ju scores
        then map_option (\<lambda>w. flt (w / total_weight ju scores)) (weighted_sum ju scores) else Some 0),
      sc_passed = list_all (\<lambda>(name, s). sc_passed s) scores,
      sc_feedback = join [nl] (concat (map (\<lambda>(name, s). feedback_part name s) scores)),
      sc_metrics = foldl (\<lambda>d (name, s). dupdate d (sc_metrics s)) [] scores\<rparr>"

type_synonym judge = "nat \<Rightarrow> string \<Rightarrow> string result"

definition ask_judge :: "(string \<Rightarrow> string) \<Rightarrow> judge \<Rightarrow> target \<Rightarrow> string \<Rightarrow> rubric_spec \<times> nat \<Rightarrow> (string \<times> score) result" where
  "ask_judge msg judge t src = (\<lambda>(spec, k).
     rbind (rubric_prompt spec (target_fields t) src) (\<lambda>prompt.
     rbind (judge k prompt) (\<lambda>response.
     rbind (process_answer msg spec response) (\<lambda>s. Inr (rs_name spec, s)))))"

definition jury_grade :: "(string \<Rightarrow> string) \<Rightarrow> judge \<Rightarrow> jury \<Rightarrow> target \<Rightarrow> string \<Rightarrow> score result" where
  "jury_grade msg judge ju t src =
     rbind (mapM (ask_judge msg judge t src) (ju_members ju)) (\<lambda>scores.
       Inr (aggregate ju (foldl (\<lambda>d (name, s). dset d name s) [] scores)))"

definition merge_metrics :: "score \<Rightarrow> score \<Rightarrow> score \<Rightarrow> score" where
  "merge_metrics compilation axioms s =
     s\<lparr>sc_metrics := dupdate (dupdate (sc_metrics compilation) (sc_metrics axioms)) (sc_metrics s)\<rparr>"

definition statement_grade :: "(string \<Rightarrow> string) \<Rightarrow> judge \<Rightarrow> score \<Rightarrow> axiom_map \<Rightarrow> jury \<Rightarrow> target \<Rightarrow> string \<Rightarrow> score result" where
  "statement_grade msg judge compilation violations ju t src =
     (if \<not> sc_passed compilation then Inr compilation
      else let axioms = axiom_grader violations t
           in if \<not> sc_passed axioms then Inr axioms
              else rbind (jury_grade msg judge ju t src) (\<lambda>s. Inr (merge_metrics compilation axioms s)))"

section \<open>The gate\<close>

type_synonym files = "string \<Rightarrow> string \<Rightarrow> file_text option"

record repo_checks =
  rc_forbidden :: "(string \<times> string) list"
  rc_axioms :: axiom_map

record gate =
  ga_targets :: "(int, target) dict"
  ga_compilation :: score
  ga_violations :: axiom_map
  ga_jury :: jury

record gate_result =
  gr_passed :: bool
  gr_scores :: "(int, score) dict"
  gr_feedback :: string

text \<open>The declarations whose axioms are checked, with their files.\<close>

definition checked_targets :: "target list \<Rightarrow> (string \<times> string) list" where
  "checked_targets ts =
     map (\<lambda>t. (the (ft_lean_declaration t), the (ft_lean_file t)))
       (filter (\<lambda>t. present_text (ft_lean_declaration t) \<and> present_text (ft_lean_file t)) ts)"

text \<open>
  \<open>EvalGate.__aenter__\<close>: the checks are given or run now, on the source files and the outcome of the axiom check's
  process; the agents are numbered by the rubrics they judge.
\<close>

definition open_gate :: "rubric_spec list \<Rightarrow> string \<Rightarrow> (int, target) dict \<Rightarrow> repo_checks option \<Rightarrow> source_file list \<Rightarrow>
    process_outcome \<Rightarrow> gate result" where
  "open_gate specs timeout targets checks files outcome =
     rbind (case checks of
              Some c \<Rightarrow> Inr (rc_forbidden c, rc_axioms c)
            | None \<Rightarrow>
                rbind (forbidden_check files) (\<lambda>forbidden.
                rbind (axioms_check [] timeout (map fst (checked_targets (dvals targets))) outcome) (\<lambda>(all, violations).
                  Inr (forbidden, violations))))
       (\<lambda>(forbidden, violations).
         rbind (create_jury specs [0..<length (active_rubrics specs)]) (\<lambda>ju.
           Inr \<lparr>ga_targets = targets, ga_compilation = compilation_grader True [] forbidden,
                ga_violations = violations, ga_jury = ju\<rparr>))"

definition all_statement_ids :: "(int, target) dict \<Rightarrow> int list" where
  "all_statement_ids targets = sort (dkeys targets)"

definition resolve_statement :: "files \<Rightarrow> string \<Rightarrow> target \<Rightarrow> string option result" where
  "resolve_statement files repo t =
     (case ft_lean_file t of
        None \<Rightarrow> Inr None
      | Some f \<Rightarrow>
          (if f = [] then Inr None
           else case files repo f of
             None \<Rightarrow> Inr None
           | Some (Text src) \<Rightarrow> Inr (Some src)
           | Some Unreadable \<Rightarrow> Inl (OSError f)
           | Some (Not_Utf8 e) \<Rightarrow> Inl (ValueError e)))"

text \<open>\<open>f"{x:.2f}"\<close>.\<close>

definition fixed2 :: "rat option \<Rightarrow> string" where
  "fixed2 x = (case x of
     None \<Rightarrow> ''nan''
   | Some q \<Rightarrow> (let n = half_even (\<bar>q\<bar> * 100); r = nat (n mod 100)
       in (if q < 0 then ''-'' else []) @ str_int (n div 100) @ ''.'' @ (if r < 10 then ''0'' else []) @ str_nat r))"

definition graded :: "int \<Rightarrow> target \<Rightarrow> score \<Rightarrow> string list" where
  "graded stmt t s =
     (''Statement '' @ str_int stmt @ '' ('' @ ft_name t @ ''): '' @ (if sc_passed s then ''PASS'' else ''FAIL'') @ '' ('' @
       fixed2 (sc_value s) @ '')'') #
     (if sc_feedback s = [] then [] else map (\<lambda>l. ''  '' @ l) (splitlines (sc_feedback s)))"

definition unresolved :: score where
  "unresolved = \<lparr>sc_value = Some 0, sc_passed = False, sc_feedback = ''Could not resolve statement'', sc_metrics = []\<rparr>"

definition evaluate_one :: "(string \<Rightarrow> string) \<Rightarrow> judge \<Rightarrow> files \<Rightarrow> gate \<Rightarrow> string \<Rightarrow>
    (int, score) dict \<times> string list \<Rightarrow> int \<Rightarrow> ((int, score) dict \<times> string list) result" where
  "evaluate_one msg judge files g repo = (\<lambda>(scores, parts) stmt.
     (case dget (ga_targets g) stmt of
        None \<Rightarrow> Inr (scores, parts)
      | Some t \<Rightarrow>
          (if \<not> present_text (ft_lean_file t) then Inr (scores, parts)
           else rbind (resolve_statement files repo t) (\<lambda>resolved. case resolved of
             None \<Rightarrow> Inr (dset scores stmt unresolved, parts @ [''Statement '' @ str_int stmt @ '': could not resolve''])
           | Some src \<Rightarrow>
               rbind (statement_grade msg judge (ga_compilation g) (ga_violations g) (ga_jury g) t src) (\<lambda>s.
                 Inr (dset scores stmt s, parts @ graded stmt t s))))))"

fun evaluate_all :: "(string \<Rightarrow> string) \<Rightarrow> judge \<Rightarrow> files \<Rightarrow> gate \<Rightarrow> string \<Rightarrow> (int, score) dict \<times> string list \<Rightarrow> int list \<Rightarrow>
    ((int, score) dict \<times> string list) result" where
  "evaluate_all msg judge files g repo acc [] = Inr acc"
| "evaluate_all msg judge files g repo acc (stmt # rest) =
     rbind (evaluate_one msg judge files g repo acc stmt) (\<lambda>acc'. evaluate_all msg judge files g repo acc' rest)"

text \<open>A gate that was not entered has no grader.\<close>

definition evaluate_statements :: "(string \<Rightarrow> string) \<Rightarrow> judge \<Rightarrow> files \<Rightarrow> gate option \<Rightarrow> int list \<Rightarrow> string \<Rightarrow> gate_result result" where
  "evaluate_statements msg judge files entered ids repo =
     (case entered of
        None \<Rightarrow> Inl (RuntimeError ''EvalGate must be used as an async context manager'')
      | Some g \<Rightarrow>
          rbind (evaluate_all msg judge files g repo ([], []) ids) (\<lambda>(scores, parts).
            Inr \<lparr>gr_passed = list_all (\<lambda>(stmt, s). sc_passed s) scores, gr_scores = scores, gr_feedback = join [nl] parts\<rparr>))"

section \<open>The full evaluation\<close>

record eval_result =
  er_datum_id :: string
  er_score :: score
  er_datum :: "target option"
  er_output :: "string option"
  er_latency :: "rat option"
  er_cost :: "rat option"

definition datum_id_of :: "target \<Rightarrow> string" where
  "datum_id_of t = (case ft_lean_declaration t of None \<Rightarrow> ft_name t | Some d \<Rightarrow> if d = [] then ft_name t else d)"

definition eval_result_of :: "target \<Rightarrow> score \<Rightarrow> string option \<Rightarrow> eval_result" where
  "eval_result_of t s out = \<lparr>er_datum_id = datum_id_of t, er_score = s, er_datum = Some t, er_output = out,
     er_latency = None, er_cost = None\<rparr>"

text \<open>The source of a target, empty when the file does not exist.\<close>

definition source_of :: "files \<Rightarrow> string \<Rightarrow> target \<Rightarrow> string result" where
  "source_of files repo t =
     rbind (resolve_statement files repo t) (\<lambda>s. Inr (case s of None \<Rightarrow> [] | Some src \<Rightarrow> src))"

definition grade_one :: "(target \<Rightarrow> string \<Rightarrow> score result) \<Rightarrow> files \<Rightarrow> string \<Rightarrow> score \<Rightarrow> axiom_map \<Rightarrow> target \<Rightarrow> eval_result result" where
  "grade_one grader files repo compilation violations t =
     rbind (source_of files repo t) (\<lambda>src.
       let axioms = axiom_grader violations t
       in if \<not> sc_passed axioms then Inr (eval_result_of t axioms (Some src))
          else rbind (grader t src) (\<lambda>s. Inr (eval_result_of t (merge_metrics compilation axioms s) (Some src))))"

text \<open>\<open>AutoformGrader.grade\<close>, with what \<open>lake build\<close>, the file scan and the axiom check found.\<close>

definition full_grade :: "(target \<Rightarrow> string \<Rightarrow> score result) \<Rightarrow> files \<Rightarrow> string \<Rightarrow> target list \<Rightarrow> string list \<Rightarrow> string \<Rightarrow>
    process_outcome \<Rightarrow> source_file list \<Rightarrow> process_outcome \<Rightarrow> eval_result list result" where
  "full_grade grader files repo targets allowed timeout build sources axiom_run =
     (let (compiled, output) = compilation_check timeout build
      in rbind (forbidden_check sources) (\<lambda>forbidden.
           let compilation = compilation_grader compiled output forbidden
           in if \<not> sc_passed compilation then Inr (map (\<lambda>t. eval_result_of t compilation None) targets)
              else rbind (axioms_check allowed timeout (map fst (checked_targets targets)) axiom_run) (\<lambda>(all, violations).
                mapM (grade_one grader files repo compilation violations)
                  (filter (\<lambda>t. present_text (ft_lean_file t)) targets))))"

end
