(* ===== verification/Eval_Gate_Correct.thy ===== *)
theory Eval_Gate_Correct
  imports Eval_Gate
begin

text \<open>
  What the gate shows: the value of a judged answer and of a jury lies between 0 and 1, a gate that
  passes has let through only statements that every check and every juror approved, and a gate over targets
  that no declaration is known for cannot be opened.
\<close>

section \<open>Judged answers\<close>

lemma clamp_bounds: "0 \<le> m \<Longrightarrow> 0 \<le> clamp m i \<and> clamp m i \<le> m"
  by (auto simp: clamp_def)

lemma parse_bounds:
  "parse_judge_response msg response m = Inr (n, reasoning, extra) \<Longrightarrow> 0 \<le> m \<Longrightarrow> 0 \<le> n \<and> n \<le> m"
  by (auto simp: parse_judge_response_def clamp_bounds split: option.splits sum.splits py_error.splits)

text \<open>What a judged answer is: a number of points, their share as a float, and whether they reach the threshold.\<close>

definition judged_points :: "rubric_spec \<Rightarrow> score \<Rightarrow> int \<Rightarrow> bool" where
  "judged_points spec s n \<longleftrightarrow> 0 \<le> n \<and> n \<le> rs_max_score spec \<and>
     sc_value s = Some (flt (of_int n / of_int (rs_max_score spec))) \<and> (sc_passed s \<longleftrightarrow> rs_pass_threshold spec \<le> n)"

lemma judged_has_points:
  "judged spec (n, reasoning, extra) = Inr s \<Longrightarrow> 0 \<le> n \<Longrightarrow> n \<le> rs_max_score spec \<Longrightarrow> judged_points spec s n"
  by (auto simp: judged_def judged_points_def py_div_def split: if_splits)

lemma process_answer_points:
  assumes "process_answer msg spec response = Inr s" "0 \<le> rs_max_score spec"
  shows "\<exists>n. judged_points spec s n"
proof -
  obtain n reasoning extra where "parse_judge_response msg response (rs_max_score spec) = Inr (n, reasoning, extra)"
    "judged spec (n, reasoning, extra) = Inr s"
    using assms(1) by (auto simp: process_answer_def)
  then show ?thesis using parse_bounds assms(2) judged_has_points by blast
qed

lemma lenient_points:
  assumes "lenient_process_answer msg spec response = Inr s" "0 \<le> rs_max_score spec"
  shows "\<exists>n. judged_points spec s n"
proof -
  obtain strict where st: "process_answer msg spec response = Inr strict"
    using assms(1) by (auto simp: lenient_process_answer_def)
  have "s = strict \<or> (\<exists>i reasoning extra. judged spec (clamp (rs_max_score spec) i, reasoning, extra) = Inr s)"
    using assms(1) st by (auto simp: lenient_process_answer_def split: if_splits option.splits)
  then show ?thesis
    using process_answer_points [OF st assms(2)] judged_has_points clamp_bounds [OF assms(2)] by blast
qed

lemma points_unit:
  assumes "judged_points spec s n" "0 < rs_max_score spec"
  shows "\<exists>v. sc_value s = Some v \<and> 0 \<le> v \<and> v \<le> 1"
proof -
  let ?q = "of_int n / of_int (rs_max_score spec) :: rat"
  have "0 \<le> ?q" "?q \<le> of_int 1" using assms by (auto simp: judged_points_def divide_le_eq)
  then have "0 \<le> flt ?q \<and> flt ?q \<le> of_int 1" by (intro fl_bounds) simp_all
  then show ?thesis using assms(1) by (simp add: judged_points_def)
qed

text \<open>However a judge answers, read strictly or leniently, the answer is worth a number of points from 0 to the
  maximum of the rubric: the value is their share, a float from 0 to 1, and it passes exactly when the points
  reach the threshold.\<close>

theorem judged_in_bounds:
  assumes "process_answer msg spec response = Inr s \<or> lenient_process_answer msg spec response = Inr s"
    and "0 < rs_max_score spec"
  shows "\<exists>n v. judged_points spec s n \<and> sc_value s = Some v \<and> 0 \<le> v \<and> v \<le> 1"
proof -
  obtain n where "judged_points spec s n"
    using assms process_answer_points [of msg spec response s] lenient_points [of msg spec response s] by auto
  then show ?thesis using points_unit [OF _ assms(2)] by blast
qed

section \<open>The jury\<close>

definition unit_value :: "rat option \<Rightarrow> bool" where
  "unit_value x = (case x of None \<Rightarrow> False | Some v \<Rightarrow> 0 \<le> v \<and> v \<le> 1)"

definition float_weight :: "rat \<Rightarrow> bool" where
  "float_weight w \<longleftrightarrow> 0 \<le> w \<and> flt w = w"

lemma weighted_term: "float_weight w \<Longrightarrow> 0 \<le> v \<Longrightarrow> v \<le> 1 \<Longrightarrow> 0 \<le> flt (v * w) \<and> flt (v * w) \<le> w"
proof -
  assume w: "float_weight w" and v: "0 \<le> v" "v \<le> 1"
  then have "0 \<le> v * w" "v * w \<le> w" by (simp_all add: float_weight_def mult_left_le_one_le)
  then show ?thesis using fl_mono [of "v * w" w] fl_nonneg [of "v * w"] w by (simp add: float_weight_def)
qed

lemma weighted_below_total:
  assumes "\<And>name s. (name, s) \<in> set scores \<Longrightarrow> unit_value (sc_value s) \<and> float_weight (weight name)" "0 \<le> a" "a \<le> b"
  shows "\<exists>c. foldl (\<lambda>acc (name, s). fl_add acc (fl_mul (sc_value s) (weight name))) (Some a) scores = Some c \<and>
    0 \<le> c \<and> c \<le> foldl (\<lambda>acc (name, s). flt (acc + weight name)) b scores"
  using assms
proof (induction scores arbitrary: a b)
  case (Cons p scores)
  obtain name s where p: "p = (name, s)" by fastforce
  obtain v where v: "sc_value s = Some v" "0 \<le> v" "v \<le> 1" and w: "float_weight (weight name)"
    using Cons.prems(1) [of name s] p by (auto simp: unit_value_def split: option.splits)
  note t = weighted_term [OF w v(2,3)]
  let ?a = "flt (a + flt (v * weight name))" and ?b = "flt (b + weight name)"
  have "0 \<le> ?a" "?a \<le> ?b" using t Cons.prems(2,3) by (auto intro!: fl_nonneg fl_mono)
  moreover have "\<And>name s. (name, s) \<in> set scores \<Longrightarrow> unit_value (sc_value s) \<and> float_weight (weight name)"
    by (rule Cons.prems(1)) simp
  moreover have "fl_add (Some a) (fl_mul (sc_value s) (weight name)) = Some ?a"
    using v by (simp add: fl_add_def fl_mul_def)
  ultimately show ?case using Cons.IH [of ?a ?b] p by simp
qed simp

lemma aggregate_unit:
  assumes "\<And>name s. (name, s) \<in> set scores \<Longrightarrow> unit_value (sc_value s) \<and> float_weight (weight_of ju (length scores) name)"
  shows "unit_value (sc_value (aggregate ju scores))"
proof -
  obtain c where c: "weighted_sum ju scores = Some c" "0 \<le> c" "c \<le> total_weight ju scores"
    using weighted_below_total [of scores "weight_of ju (length scores)" 0 0] assms
    unfolding weighted_sum_def total_weight_def by auto
  show ?thesis
  proof (cases "0 < total_weight ju scores")
    case True
    then have "0 \<le> c / total_weight ju scores" "c / total_weight ju scores \<le> of_int 1" using c by (simp_all add: divide_le_eq)
    then have "0 \<le> flt (c / total_weight ju scores) \<and> flt (c / total_weight ju scores) \<le> of_int 1" by (intro fl_bounds) simp_all
    then show ?thesis using True c(1) by (simp add: aggregate_def unit_value_def)
  qed (simp add: aggregate_def unit_value_def)
qed

lemma set_dict_of: "(k, v) \<in> set (foldl (\<lambda>d (k, v). dset d k v) d xs) \<Longrightarrow> (k, v) \<in> set d \<or> (k, v) \<in> set xs"
proof (induction xs arbitrary: d)
  case (Cons p xs)
  obtain k' v' where p: "p = (k', v')" by fastforce
  have "(k, v) \<in> set (dset d k' v') \<Longrightarrow> (k, v) \<in> set d \<or> (k, v) = (k', v')"
    by (induction d) (auto split: if_splits)
  then show ?case using Cons p by fastforce
qed simp

lemma weights_get:
  "dget (foldl (\<lambda>d r. dset d (rs_name r) (rs_weight r)) d rubrics) name = Some w \<Longrightarrow>
     dget d name = Some w \<or> (\<exists>r \<in> set rubrics. rs_weight r = w)"
  by (induction rubrics arbitrary: d) (fastforce split: if_splits)+

lemma weights_present:
  "r \<in> set rubrics \<or> dget d (rs_name r) \<noteq> None \<Longrightarrow>
     dget (foldl (\<lambda>d r. dset d (rs_name r) (rs_weight r)) d rubrics) (rs_name r) \<noteq> None"
  by (induction rubrics arbitrary: d) auto

text \<open>The verdict of a jury made from rubrics is worth a float from 0 to 1, rounding of the weighted average
  included, when every weight is a non-negative float and every maximum is positive.\<close>

theorem jury_in_bounds:
  assumes "create_jury specs agents = Inr ju" "jury_grade msg judge ju t src = Inr s"
    and "\<forall>r \<in> set specs. float_weight (rs_weight r) \<and> 0 < rs_max_score r"
  shows "unit_value (sc_value s)"
proof -
  let ?rubrics = "active_rubrics specs"
  have ju: "ju_members ju = zip ?rubrics agents" "ju_weights ju = foldl (\<lambda>d r. dset d (rs_name r) (rs_weight r)) [] ?rubrics"
    using assms(1) by (auto simp: create_jury_def Let_def split: if_splits)
  obtain scores where sc: "mapM (ask_judge msg judge t src) (ju_members ju) = Inr scores"
    and s: "s = aggregate ju (foldl (\<lambda>d (name, s). dset d name s) [] scores)"
    using assms(2) by (auto simp: jury_grade_def)
  let ?d = "foldl (\<lambda>d (name, s). dset d name s) [] scores"
  have "unit_value (sc_value x) \<and> float_weight (weight_of ju (length ?d) name)" if "(name, x) \<in> set ?d" for name x
  proof -
    have "(name, x) \<in> set scores" using set_dict_of [OF that] by simp
    then obtain r k where r: "(r, k) \<in> set (ju_members ju)" "ask_judge msg judge t src (r, k) = Inr (name, x)"
      using mapM_Inr_mem [OF sc] by force
    then have rr: "r \<in> set ?rubrics" "name = rs_name r" and pa: "\<exists>response. process_answer msg r response = Inr x"
      using ju(1) by (auto simp: ask_judge_def dest: set_zip_leftD)
    have ok: "float_weight (rs_weight q) \<and> 0 < rs_max_score q" if "q \<in> set ?rubrics" for q
      using that assms(3) by (simp add: active_rubrics_def)
    obtain w where w: "dget (ju_weights ju) name = Some w" using weights_present [of r ?rubrics "[]"] rr ju(2) by auto
    then have "float_weight w" using weights_get [of "[]" ?rubrics name w] ju(2) ok by auto
    then have wt: "float_weight (weight_of ju (length ?d) name)" using w by (simp add: weight_of_def dget_or_def)
    obtain response where response: "process_answer msg r response = Inr x" using pa by blast
    have "\<exists>v. sc_value x = Some v \<and> 0 \<le> v \<and> v \<le> 1"
      using process_answer_points [OF response] points_unit ok [OF rr(1)] by (meson less_imp_le)
    then show ?thesis using wt by (auto simp: unit_value_def)
  qed
  then show ?thesis unfolding s by (intro aggregate_unit) simp
qed

section \<open>The gate\<close>

lemma passed_jurors:
  assumes "jury_grade msg judge ju t src = Inr s" "sc_passed s"
    and "distinct (map (rs_name \<circ> fst) (ju_members ju))" "(spec, k) \<in> set (ju_members ju)"
  shows "\<exists>x. ask_judge msg judge t src (spec, k) = Inr (rs_name spec, x) \<and> sc_passed x"
proof -
  obtain scores where sc: "mapM (ask_judge msg judge t src) (ju_members ju) = Inr scores"
    and s: "s = aggregate ju (foldl (\<lambda>d (name, s). dset d name s) [] scores)"
    using assms(1) by (auto simp: jury_grade_def)
  have names: "mapM (ask_judge msg judge t src) ms = Inr ys \<Longrightarrow> map fst ys = map (rs_name \<circ> fst) ms" for ms ys
    by (induction ms arbitrary: ys) (auto simp: ask_judge_def)
  have fresh: "distinct (map fst d @ map fst ys) \<Longrightarrow> foldl (\<lambda>d (name, s). dset d name s) d ys = d @ ys"
    for d ys :: "(string, score) dict"
  proof (induction ys arbitrary: d)
    case (Cons p ys)
    then have "map_of d (fst p) = None" by (auto simp: map_of_eq_None_iff)
    then show ?case using Cons by (cases p) (simp add: dset_fresh)
  qed simp
  have "foldl (\<lambda>d (name, s). dset d name s) [] scores = scores"
    using fresh [of "[]" scores] names [OF sc] assms(3) by simp
  then have all: "list_all (\<lambda>(name, x). sc_passed x) scores" using assms(2) s by (simp add: aggregate_def)
  have found: "mapM f ms = Inr ys \<Longrightarrow> m \<in> set ms \<Longrightarrow> \<exists>y \<in> set ys. f m = Inr y"
    for f :: "rubric_spec \<times> nat \<Rightarrow> (string \<times> score) result" and ms ys m
    by (induction ms arbitrary: ys) auto
  obtain y where y: "y \<in> set scores" "ask_judge msg judge t src (spec, k) = Inr y" using found [OF sc assms(4)] by blast
  then have "fst y = rs_name spec" by (auto simp: ask_judge_def)
  then show ?thesis using y all by (cases y) (auto simp: list_all_iff)
qed

text \<open>What the gate computes for one statement, whatever it has graded before.\<close>

definition outcome_of :: "(string \<Rightarrow> string) \<Rightarrow> judge \<Rightarrow> files \<Rightarrow> gate \<Rightarrow> string \<Rightarrow> target \<Rightarrow> score result" where
  "outcome_of msg judge files g repo t =
     rbind (resolve_statement files repo t) (\<lambda>r. case r of
       None \<Rightarrow> Inr unresolved
     | Some src \<Rightarrow> statement_grade msg judge (ga_compilation g) (ga_violations g) (ga_jury g) t src)"

lemma evaluate_one_scores:
  assumes "evaluate_one msg judge files g repo (scores, parts) stmt = Inr (scores', parts')"
  shows "if \<exists>t. dget (ga_targets g) stmt = Some t \<and> present_text (ft_lean_file t)
    then \<exists>s. outcome_of msg judge files g repo (the (dget (ga_targets g) stmt)) = Inr s \<and> scores' = dset scores stmt s
    else scores' = scores"
proof (cases "dget (ga_targets g) stmt")
  case (Some t)
  show ?thesis
  proof (cases "present_text (ft_lean_file t)")
    case True
    then obtain r where r: "resolve_statement files repo t = Inr r" using assms Some by (auto simp: evaluate_one_def)
    show ?thesis using assms Some True r by (cases r) (auto simp: evaluate_one_def outcome_of_def)
  qed (use assms Some in \<open>simp add: evaluate_one_def\<close>)
qed (use assms in \<open>simp add: evaluate_one_def\<close>)

lemma evaluate_all_scores:
  assumes "evaluate_all msg judge files g repo acc ids = Inr (scores', parts')"
  shows "(\<forall>stmt. stmt \<notin> set ids \<longrightarrow> dget scores' stmt = dget (fst acc) stmt) \<and>
    (\<forall>stmt t. stmt \<in> set ids \<and> dget (ga_targets g) stmt = Some t \<and> present_text (ft_lean_file t) \<longrightarrow>
      (\<exists>s. outcome_of msg judge files g repo t = Inr s \<and> dget scores' stmt = Some s))"
  using assms
proof (induction ids arbitrary: acc)
  case (Cons i ids)
  obtain scores parts where acc: "acc = (scores, parts)" by fastforce
  obtain scores1 parts1 where 1: "evaluate_one msg judge files g repo (scores, parts) i = Inr (scores1, parts1)"
    "evaluate_all msg judge files g repo (scores1, parts1) ids = Inr (scores', parts')"
    using Cons.prems acc by auto
  note IH = Cons.IH [OF 1(2), simplified] and one = evaluate_one_scores [OF 1(1)]
  have "dget scores' stmt = dget scores stmt" if "stmt \<notin> set (i # ids)" for stmt
    using that IH one by (auto split: if_splits)
  moreover have "\<exists>s. outcome_of msg judge files g repo t = Inr s \<and> dget scores' stmt = Some s"
    if "stmt \<in> set (i # ids)" "dget (ga_targets g) stmt = Some t" "present_text (ft_lean_file t)" for stmt t
  proof (cases "stmt \<in> set ids")
    case False
    then have "stmt = i" using that(1) by simp
    then show ?thesis using that one IH False by (auto split: if_splits)
  qed (use that IH in blast)
  ultimately show ?case using acc by simp
qed simp

text \<open>What passing the gate means for a statement: the repository compiles without forbidden keywords, the axioms of its
  declaration are allowed, its source was found, and every juror passed it.\<close>

definition approved :: "(string \<Rightarrow> string) \<Rightarrow> judge \<Rightarrow> files \<Rightarrow> gate \<Rightarrow> string \<Rightarrow> target \<Rightarrow> bool" where
  "approved msg judge files g repo t \<longleftrightarrow>
     sc_passed (ga_compilation g) \<and> sc_passed (axiom_grader (ga_violations g) t) \<and>
     (\<exists>src. resolve_statement files repo t = Inr (Some src) \<and>
       (\<forall>(spec, k) \<in> set (ju_members (ga_jury g)).
         \<exists>x. ask_judge msg judge t src (spec, k) = Inr (rs_name spec, x) \<and> sc_passed x))"

lemma outcome_approved:
  assumes "outcome_of msg judge files g repo t = Inr s" "sc_passed s"
    and "distinct (map (rs_name \<circ> fst) (ju_members (ga_jury g)))"
  shows "approved msg judge files g repo t"
proof -
  obtain src where src: "resolve_statement files repo t = Inr (Some src)"
    and s: "statement_grade msg judge (ga_compilation g) (ga_violations g) (ga_jury g) t src = Inr s"
    using assms(1,2) by (auto simp: outcome_of_def unresolved_def split: option.splits)
  have c: "sc_passed (ga_compilation g)" "sc_passed (axiom_grader (ga_violations g) t)"
    using s assms(2) by (auto simp: statement_grade_def Let_def split: if_splits)
  then obtain j where j: "jury_grade msg judge (ga_jury g) t src = Inr j" "sc_passed j"
    using s assms(2) by (auto simp: statement_grade_def Let_def merge_metrics_def)
  show ?thesis using c src passed_jurors [OF j assms(3)] by (auto simp: approved_def)
qed

text \<open>C1: A gate that passes lets no statement through unchecked: every statement it was asked about that has a source
  file compiled without forbidden keywords, its declaration has no disallowed axiom, its source was found, and every
  juror of the gate passed it, when the rubrics have different names.\<close>

theorem gate_passes_approved:
  assumes "evaluate_statements msg judge files (Some g) ids repo = Inr r" "gr_passed r"
    and "stmt \<in> set ids" "dget (ga_targets g) stmt = Some t" "present_text (ft_lean_file t)"
    and "distinct (map (rs_name \<circ> fst) (ju_members (ga_jury g)))"
  shows "approved msg judge files g repo t"
proof -
  obtain scores parts where e: "evaluate_all msg judge files g repo ([], []) ids = Inr (scores, parts)"
    and r: "list_all (\<lambda>(stmt, s). sc_passed s) scores"
    using assms(1,2) by (auto simp: evaluate_statements_def)
  obtain s where s: "outcome_of msg judge files g repo t = Inr s" "dget scores stmt = Some s"
    using evaluate_all_scores [OF e] assms(3-5) by blast
  have "sc_passed s" using r map_of_SomeD [OF s(2)] by (auto simp: list_all_iff)
  then show ?thesis using outcome_approved [OF s(1) _ assms(6)] by blast
qed

text \<open>A gate without precomputed checks over targets none of which has both a declaration and a file cannot be
  opened: the axiom check is run on no declaration and raises, although such statements are skipped when they are
  evaluated.\<close>

theorem gate_needs_declaration:
  assumes "forbidden_check sources = Inr forbidden" "checked_targets (dvals targets) = []"
  shows "open_gate specs timeout targets None sources outcome = Inl (AxiomCheckError ''No declaration names provided'')"
  using assms by (simp add: open_gate_def axioms_check_def)

section \<open>A gate\<close>

definition demo_text :: "string \<Rightarrow> string" where
  "demo_text s = ''malformed''"

definition demo_spec :: rubric_spec where
  "demo_spec = \<lparr>rs_name = ''style'', rs_description = [], rs_active = True, rs_weight = 1, rs_pass_threshold = 3,
     rs_max_score = 5, rs_criteria = [(5, ''good''), (1, ''bad'')], rs_prompt_template = ''Judge {output} by {criteria}''\<rparr>"

definition demo_answer :: string where
  "demo_answer = ''Here: {'' @ [CHR 0x22] @ ''score'' @ [CHR 0x22] @ '': 4, '' @ [CHR 0x22] @ ''reasoning'' @ [CHR 0x22] @
     '': '' @ [CHR 0x22] @ ''ok'' @ [CHR 0x22] @ ''}''"

definition demo_judge :: judge where
  "demo_judge k prompt = Inr demo_answer"

definition demo_score :: score where
  "demo_score = \<lparr>sc_value = Some (flt (4 / 5)), sc_passed = True, sc_feedback = ''ok'', sc_metrics = [(''style'', JInt 4)]\<rparr>"

lemma demo_parse: "parse_judge_response demo_text demo_answer 5 = Inr (4, ''ok'', [])"
  by code_simp

lemma demo_process: "process_answer demo_text demo_spec demo_answer = Inr demo_score"
  by (simp add: process_answer_def demo_parse judged_def py_div_def demo_spec_def demo_score_def dupdate_def)

definition demo_target :: target where
  "demo_target = \<lparr>ft_name = ''thm'', ft_description = [], ft_kind = [], ft_location = [],
     ft_lean_declaration = Some ''thm'', ft_lean_file = Some ''A.lean''\<rparr>"

definition demo_files :: files where
  "demo_files repo f = (if f = ''A.lean'' then Some (Text ''theorem thm'') else None)"

definition demo_gate :: gate where
  "demo_gate = \<lparr>ga_targets = [(0, demo_target)], ga_compilation = compilation_grader True [] [], ga_violations = [],
     ga_jury = \<lparr>ju_members = [(demo_spec, 0)], ju_weights = [(''style'', 1)]\<rparr>\<rparr>"

lemma demo_prompt: "\<exists>p. rubric_prompt demo_spec (target_fields demo_target) ''theorem thm'' = Inr p"
proof -
  have "map_sum id length (rubric_prompt demo_spec (target_fields demo_target) ''theorem thm'') = Inr 47" by code_simp
  then show ?thesis by (cases "rubric_prompt demo_spec (target_fields demo_target) ''theorem thm''") auto
qed

lemma demo_jury: "jury_grade demo_text demo_judge (ga_jury demo_gate) demo_target ''theorem thm'' =
    Inr (aggregate (ga_jury demo_gate) [(''style'', demo_score)])"
  using demo_prompt by (auto simp: jury_grade_def demo_gate_def ask_judge_def demo_judge_def demo_process) (simp add: demo_spec_def)

theorem judged_in_bounds_witness:
  "\<exists>n v. judged_points demo_spec demo_score n \<and> sc_value demo_score = Some v \<and> 0 \<le> v \<and> v \<le> 1"
  by (rule judged_in_bounds [where msg = demo_text and response = demo_answer]) (simp_all add: demo_process, simp add: demo_spec_def)

theorem jury_in_bounds_witness:
  "unit_value (sc_value (aggregate (ga_jury demo_gate) [(''style'', demo_score)]))"
proof (rule jury_in_bounds)
  show "create_jury [demo_spec] [0] = Inr (ga_jury demo_gate)"
    by (simp add: create_jury_def active_rubrics_def demo_spec_def demo_gate_def)
  show "\<forall>r \<in> set [demo_spec]. float_weight (rs_weight r) \<and> 0 < rs_max_score r"
  proof -
    have "flt 1 = 1" by code_simp
    then show ?thesis by (simp add: float_weight_def demo_spec_def)
  qed
qed (rule demo_jury)

definition demo_result :: gate_result where
  "demo_result = (case evaluate_statements demo_text demo_judge demo_files (Some demo_gate) [0] ''r'' of Inr r \<Rightarrow> r)"

lemma demo_evaluated: "evaluate_statements demo_text demo_judge demo_files (Some demo_gate) [0] ''r'' = Inr demo_result \<and> gr_passed demo_result"
proof -
  have t: "dget (ga_targets demo_gate) 0 = Some demo_target" by (simp add: demo_gate_def)
  have c: "sc_passed (ga_compilation demo_gate)" "sc_passed (axiom_grader (ga_violations demo_gate) demo_target)"
    by (simp_all add: demo_gate_def compilation_grader_def axiom_grader_def demo_target_def dget_or_def)
  have s: "resolve_statement demo_files ''r'' demo_target = Inr (Some ''theorem thm'')"
    by (simp add: resolve_statement_def demo_target_def demo_files_def)
  have p: "present_text (ft_lean_file demo_target)" by (simp add: present_text_def demo_target_def)
  have j: "sc_passed (aggregate (ga_jury demo_gate) [(''style'', demo_score)])" by (simp add: aggregate_def demo_score_def)
  obtain x where x: "statement_grade demo_text demo_judge (ga_compilation demo_gate) (ga_violations demo_gate) (ga_jury demo_gate)
      demo_target ''theorem thm'' = Inr x" "sc_passed x"
    using c demo_jury j by (simp add: statement_grade_def Let_def merge_metrics_def)
  then have "\<exists>r. evaluate_statements demo_text demo_judge demo_files (Some demo_gate) [0] ''r'' = Inr r \<and> gr_passed r"
    using t s p by (simp add: evaluate_statements_def evaluate_one_def)
  then show ?thesis by (auto simp: demo_result_def)
qed

theorem gate_passes_approved_witness: "approved demo_text demo_judge demo_files demo_gate ''r'' demo_target"
  by (rule gate_passes_approved [where ids = "[0]" and stmt = 0 and r = demo_result])
     (simp_all add: demo_evaluated, simp_all add: demo_gate_def present_text_def demo_target_def)

theorem gate_needs_declaration_witness:
  "open_gate [demo_spec] ''1'' [(0, plain_target ''thm'')] None [] Timed_Out =
     Inl (AxiomCheckError ''No declaration names provided'')"
  by (rule gate_needs_declaration [where forbidden = "[]"])
     (simp_all add: forbidden_check_def checked_targets_def plain_target_def present_text_def)

section \<open>Templates of the jury\<close>

lemma format_append:
  "format_map flds u = Inr t \<Longrightarrow> format_map flds (u @ w) = rbind (format_map flds w) (\<lambda>s. Inr (t @ s))"
proof (induction flds u arbitrary: t rule: format_map.induct)
  case (1 flds)
  then show ?case by (cases "format_map flds w") simp_all
next
  case (2 flds c cs)
  have sw: "startswith cs [x] \<Longrightarrow> startswith (cs @ w) [x] \<and> tl (cs @ w) = tl cs @ w" for x
    by (cases cs) (auto simp: startswith_def)
  have nsw: "\<not> startswith cs [x] \<Longrightarrow> cs \<noteq> [] \<Longrightarrow> \<not> startswith (cs @ w) [x]" for x
    by (cases cs) (auto simp: startswith_def)
  have glue: "rbind (rbind r (\<lambda>s. Inr (t' @ s))) (\<lambda>s. Inr (p @ s)) = rbind r (\<lambda>s. Inr (p @ t' @ s))"
    for r :: "string result" and p t' :: string
    by (cases r) simp_all
  show ?case
  proof (cases "c = CHR ''{'' \<and> startswith cs ''{''")
    case True
    then obtain t' where t': "format_map flds (tl cs) = Inr t'" "t = CHR ''{'' # t'" using 2(5) by auto
    moreover have "startswith (cs @ w) ''{''" "tl (cs @ w) = tl cs @ w" using sw [of "CHR ''{''"] True by auto
    ultimately show ?thesis using True 2(1) [OF True t'(1)] glue [of _ t' "''{''"] by simp
  next
    case a: False
    show ?thesis
    proof (cases "c = CHR ''}'' \<and> startswith cs ''}''")
      case True
      then obtain t' where t': "format_map flds (tl cs) = Inr t'" "t = CHR ''}'' # t'" using 2(5) a by auto
      moreover have "startswith (cs @ w) ''}''" "tl (cs @ w) = tl cs @ w" using sw [of "CHR ''}''"] True by auto
      ultimately show ?thesis using True 2(2) [OF a True t'(1)] glue [of _ t' "''}''"] by simp
    next
      case b: False
      have c: "c \<noteq> CHR ''}''" using 2(5) a b by (auto split: if_splits)
      show ?thesis
      proof (cases "c = CHR ''{''")
        case True
        let ?n = "takeWhile is_field_char cs" and ?r = "dropWhile is_field_char cs"
        from 2(5) a True obtain v t' where f: "?r \<noteq> []" "hd ?r = CHR ''}''" "dget flds ?n = Some v"
          "format_map flds (tl ?r) = Inr t'" "t = v @ t'"
          by (auto simp: Let_def split: if_splits option.splits)
        have "takeWhile is_field_char (cs @ w) = ?n" "dropWhile is_field_char (cs @ w) = ?r @ w"
          using f(1) by (auto simp: takeWhile_append dropWhile_append)
        moreover have "\<not> startswith (cs @ w) ''{''" using nsw a True f(1) by (cases cs) auto
        ultimately show ?thesis
          using f True 2(3) [OF a b c True refl refl f(1) _ f(3,4)] glue [of _ t' v] by (simp add: Let_def)
      next
        case False
        then obtain t' where t': "format_map flds cs = Inr t'" "t = c # t'" using 2(5) a b c by auto
        then show ?thesis using False c 2(4) [OF a b c False t'(1)] glue [of _ t' "[c]"] by simp
      qed
    qed
  qed
qed

text \<open>The gate grades statements whose templates know six fields, the output and the criteria. A rubric whose
  template asks for the book directory, as the active rubrics for faithfulness and proof integrity do, raises
  \<open>KeyError\<close> before its judge is asked, whatever the statement and the judge.\<close>

theorem gate_rubric_field_missing:
  assumes "rs_prompt_template spec = u @ ''{book_dir}'' @ v"
    and "format_map (dset (dset (target_fields t) ''output'' src) ''criteria'' (criteria_text spec)) u = Inr text"
  shows "ask_judge msg judge t src (spec, k) = Inl (KeyError ''book_dir'')"
proof -
  let ?f = "dset (dset (target_fields t) ''output'' src) ''criteria'' (criteria_text spec)"
  have none: "dget ?f ''book_dir'' = None" by (simp add: target_fields_def)
  have n: "takeWhile is_field_char (''book_dir'' @ CHR ''}'' # v) = ''book_dir''"
    "dropWhile is_field_char (''book_dir'' @ CHR ''}'' # v) = CHR ''}'' # v"
    by (simp_all add: is_field_char_def)
  have "format_map ?f (CHR ''{'' # ''book_dir'' @ CHR ''}'' # v) = Inl (KeyError ''book_dir'')"
    using none n by (simp add: startswith_def)
  then have "rubric_prompt spec (target_fields t) src = Inl (KeyError ''book_dir'')"
    unfolding rubric_prompt_def assms(1) using format_append [OF assms(2), of "''{book_dir}'' @ v"] by simp
  then show ?thesis by (simp add: ask_judge_def)
qed

definition book_spec :: rubric_spec where
  "book_spec = demo_spec\<lparr>rs_prompt_template := ''{name}: see `{book_dir}`.''\<rparr>"

theorem gate_rubric_field_missing_witness:
  "ask_judge demo_text demo_judge demo_target ''theorem thm'' (book_spec, 0) = Inl (KeyError ''book_dir'')"
proof (rule gate_rubric_field_missing)
  show "rs_prompt_template book_spec = ''{name}: see `'' @ ''{book_dir}'' @ ''`.''" by (simp add: book_spec_def)
  show "format_map (dset (dset (target_fields demo_target) ''output'' ''theorem thm'') ''criteria'' (criteria_text book_spec))
      ''{name}: see `'' = Inr ''thm: see `''"
    by code_simp
qed

end
