(* ===== verification/Goal_Tracker.thy ===== *)
theory Goal_Tracker
  imports Item_Tracker_Correct Eval_Gate
begin

text \<open>
  \<open>autoform/eval/utils/tracker.py\<close>: formalization targets stored as goals of an item tracker and read
  back, with what a restart and the way back keep of them.
\<close>

section \<open>Storing targets\<close>

definition meta_field :: "string \<Rightarrow> string option \<Rightarrow> (string, json) dict" where
  "meta_field k v = (case v of None \<Rightarrow> [] | Some s \<Rightarrow> if s = [] then [] else [(k, JStr s)])"

definition target_metadata :: "target \<Rightarrow> (string, json) dict" where
  "target_metadata t = meta_field ''lean_declaration'' (ft_lean_declaration t) @ meta_field ''lean_file'' (ft_lean_file t) @
     meta_field ''kind'' (Some (ft_kind t)) @ meta_field ''location'' (Some (ft_location t))"

definition populate_one :: "tracker \<Rightarrow> nat \<times> target \<Rightarrow> tracker result" where
  "populate_one tk = (\<lambda>(i, t).
     if Item_Tracker.get tk (IdInt (int i)) \<noteq> None then Inr tk
     else rbind (add tk (ft_name t) (ft_description t) [] (target_metadata t) (Some (IdInt (int i))) None None (Some ''goal''))
            (\<lambda>(k, tk'). Inr tk'))"

fun populate_from :: "nat \<Rightarrow> tracker \<Rightarrow> target list \<Rightarrow> tracker result" where
  "populate_from i tk [] = Inr tk"
| "populate_from i tk (t # ts) = rbind (populate_one tk (i, t)) (\<lambda>tk'. populate_from (i + 1) tk' ts)"

definition populate_tracker :: "tracker \<Rightarrow> target list \<Rightarrow> tracker result" where
  "populate_tracker tk ts = populate_from 0 tk ts"

section \<open>Reading targets\<close>

definition meta_text :: "item \<Rightarrow> string \<Rightarrow> string option result" where
  "meta_text i k = (case dget (it_metadata i) k of None \<Rightarrow> Inr None | Some v \<Rightarrow> as_opt v)"

text \<open>The target of an item that has a declaration.\<close>

definition target_of_item :: "item \<Rightarrow> target option result" where
  "target_of_item i =
     rbind (meta_text i ''lean_declaration'') (\<lambda>ld.
       if \<not> present_text ld then Inr None
       else rbind (meta_text i ''lean_file'') (\<lambda>lf. Inr (Some ((plain_target (it_title i))
         \<lparr>ft_description := it_description i, ft_lean_declaration := ld, ft_lean_file := lf\<rparr>))))"

definition get_formalization_targets :: "tracker \<Rightarrow> string option \<Rightarrow> target list result" where
  "get_formalization_targets tk status =
     rbind (mapM target_of_item (list_items tk status None None)) (\<lambda>ts.
       Inr (concat (map (\<lambda>t. case t of None \<Rightarrow> [] | Some x \<Rightarrow> [x]) ts)))"

text \<open>\<open>int(s)\<close>: blanks around, an optional sign, digits. Underscores between digits are outside the model.\<close>

definition py_int :: "string \<Rightarrow> int result" where
  "py_int s0 =
     (let s = strip s0; neg = startswith s ''-''; digits = (if neg \<or> startswith s ''+'' then tl s else s)
      in if CHR ''_'' \<in> set s then Inl (OutsideModel ''an integer with underscores'')
         else if isdigit digits then Inr ((if neg then -1 else 1) * int (nat_of_digits digits))
         else Inl (ValueError (''invalid literal for int() with base 10: '' @ repr_str s0)))"

definition index_item :: "(int, target) dict \<Rightarrow> item \<Rightarrow> (int, target) dict result" where
  "index_item d i =
     rbind (target_of_item i) (\<lambda>t. case t of
       None \<Rightarrow> Inr d
     | Some x \<Rightarrow> rbind (py_int (it_id i)) (\<lambda>k. Inr (dset d k x)))"

fun index_items :: "(int, target) dict \<Rightarrow> item list \<Rightarrow> (int, target) dict result" where
  "index_items d [] = Inr d"
| "index_items d (i # is) = rbind (index_item d i) (\<lambda>d'. index_items d' is)"

text \<open>\<open>build_target_index\<close> from a task list, from a tracker, or from neither.\<close>

datatype target_source = Task_Targets "target list" | Tracker_Targets tracker | No_Source

fun build_target_index :: "target_source \<Rightarrow> (int, target) dict result" where
  "build_target_index (Task_Targets ts) = Inr (map (\<lambda>(i, t). (int i, t)) (enumerate 0 ts))"
| "build_target_index (Tracker_Targets tk) = index_items [] (list_items tk None None None)"
| "build_target_index No_Source = Inl (ValueError ''Either task_file or tracker must be provided'')"

section \<open>Populating twice\<close>

lemma add_goal:
  assumes "Item_Tracker.get tk (IdInt (int i)) = None"
  shows "\<exists>tk'. add tk ti de [] md (Some (IdInt (int i))) None None (Some ''goal'') = Inr (str_nat i, tk') \<and>
    tk_items tk' = tk_items tk @ [(str_nat i, new_item (str_nat i) ti de ''goal'' [] None None md)]"
  using assms by (simp add: add_def choose_id_def Item_Tracker.get_def str_int_def has_key_def insert_item_def
      or_default_def new_item_def dset_fresh)

lemma populate_one_spec:
  "\<exists>tk'. populate_one tk (i, t) = Inr tk' \<and> tk_items tk' = tk_items tk @
     (if dget (tk_items tk) (str_nat i) = None
      then [(str_nat i, new_item (str_nat i) (ft_name t) (ft_description t) ''goal'' [] None None (target_metadata t))] else [])"
proof (cases "Item_Tracker.get tk (IdInt (int i)) = None")
  case True
  then obtain tk' where "add tk (ft_name t) (ft_description t) [] (target_metadata t) (Some (IdInt (int i))) None None (Some ''goal'') =
      Inr (str_nat i, tk')"
    "tk_items tk' = tk_items tk @ [(str_nat i, new_item (str_nat i) (ft_name t) (ft_description t) ''goal'' [] None None (target_metadata t))]"
    using add_goal by blast
  then show ?thesis using True by (simp add: populate_one_def Item_Tracker.get_def str_int_def)
qed (simp add: populate_one_def Item_Tracker.get_def str_int_def)

lemma populate_one_present: "dget (tk_items tk) (str_nat i) \<noteq> None \<Longrightarrow> populate_one tk (i, t) = Inr tk"
  by (simp add: populate_one_def Item_Tracker.get_def str_int_def)

text \<open>The goals that populating appends.\<close>

definition goal_items :: "(string, item) dict \<Rightarrow> nat \<Rightarrow> target list \<Rightarrow> (string, item) dict" where
  "goal_items its i ts = map (\<lambda>(k, t). (str_nat k, new_item (str_nat k) (ft_name t) (ft_description t) ''goal'' [] None None (target_metadata t)))
     (filter (\<lambda>(k, t). dget its (str_nat k) = None) (enumerate i ts))"

lemma populate_from_spec:
  "\<exists>tk'. populate_from i tk ts = Inr tk' \<and> tk_items tk' = tk_items tk @ goal_items (tk_items tk) i ts"
proof (induction ts arbitrary: i tk)
  case (Cons t ts)
  obtain tk1 where 1: "populate_one tk (i, t) = Inr tk1" "tk_items tk1 = tk_items tk @
     (if dget (tk_items tk) (str_nat i) = None
      then [(str_nat i, new_item (str_nat i) (ft_name t) (ft_description t) ''goal'' [] None None (target_metadata t))] else [])"
    using populate_one_spec by blast
  obtain tk2 where 2: "populate_from (i + 1) tk1 ts = Inr tk2" "tk_items tk2 = tk_items tk1 @ goal_items (tk_items tk1) (i + 1) ts"
    using Cons.IH by blast
  have "dget (tk_items tk1) (str_nat k) = dget (tk_items tk) (str_nat k)" if "Suc i \<le> k" for k
    using that 1(2) by (auto simp: map_add_def split: option.split)
  then have "filter (\<lambda>(k, t). dget (tk_items tk1) (str_nat k) = None) (enumerate (Suc i) ts) =
      filter (\<lambda>(k, t). dget (tk_items tk) (str_nat k) = None) (enumerate (Suc i) ts)"
    by (intro filter_cong) (auto dest: in_set_enumerate_eq [THEN iffD1])
  then have "goal_items (tk_items tk1) (i + 1) ts = goal_items (tk_items tk) (i + 1) ts" by (simp add: goal_items_def)
  then show ?case using 1 2 by (simp add: goal_items_def)
qed (simp add: goal_items_def)

lemma populate_from_present:
  "(\<forall>k < length ts. dget (tk_items tk) (str_nat (i + k)) \<noteq> None) \<Longrightarrow> populate_from i tk ts = Inr tk"
proof (induction ts arbitrary: i)
  case (Cons t ts)
  have "dget (tk_items tk) (str_nat i) \<noteq> None" using Cons.prems by (metis add.right_neutral length_greater_0_conv list.distinct(1))
  moreover have "\<forall>k < length ts. dget (tk_items tk) (str_nat (i + 1 + k)) \<noteq> None"
    using Cons.prems by (metis Suc_less_eq add_Suc_right add_Suc_shift length_Cons plus_1_eq_Suc semiring_norm(163) add.commute)
  ultimately show ?case using Cons.IH populate_one_present by simp
qed simp

text \<open>Populating a tracker with targets never fails, and doing it again, as every restart of the coordinator does,
  changes nothing: neither the items nor the counters nor the file.\<close>

theorem populate_idempotent:
  "\<exists>tk'. populate_tracker tk targets = Inr tk' \<and> populate_tracker tk' targets = Inr tk'"
proof -
  obtain tk' where tk': "populate_from 0 tk targets = Inr tk'" "tk_items tk' = tk_items tk @ goal_items (tk_items tk) 0 targets"
    using populate_from_spec by blast
  have "dget (tk_items tk') (str_nat k) \<noteq> None" if "k < length targets" for k
  proof (cases "dget (tk_items tk) (str_nat k)")
    case None
    have "(k, targets ! k) \<in> set (enumerate 0 targets)" using that by (simp add: in_set_enumerate_eq)
    then have "str_nat k \<in> fst ` set (goal_items (tk_items tk) 0 targets)" using None unfolding goal_items_def by force
    then show ?thesis using tk'(2) by (auto simp: map_of_eq_None_iff)
  qed (simp add: tk'(2))
  then have "populate_from 0 tk' targets = Inr tk'" by (intro populate_from_present) simp
  then show ?thesis using tk'(1) by (auto simp: populate_tracker_def)
qed

section \<open>The way back\<close>

definition goal_of :: "nat \<Rightarrow> target \<Rightarrow> item" where
  "goal_of k t = new_item (str_nat k) (ft_name t) (ft_description t) ''goal'' [] None None (target_metadata t)"

text \<open>What a goal keeps of its target: not its kind and its location.\<close>

definition stored_target :: "target \<Rightarrow> target" where
  "stored_target t = (plain_target (ft_name t))\<lparr>ft_description := ft_description t,
     ft_lean_declaration := ft_lean_declaration t,
     ft_lean_file := (if present_text (ft_lean_file t) then ft_lean_file t else None)\<rparr>"

lemma target_of_goal:
  "target_of_item (goal_of k t) = Inr (if present_text (ft_lean_declaration t) then Some (stored_target t) else None)"
  by (cases "ft_lean_declaration t"; cases "ft_lean_file t")
     (auto simp: target_of_item_def meta_text_def goal_of_def new_item_def target_metadata_def meta_field_def
        present_text_def stored_target_def)

lemma str_nat_chars: "c \<in> set (str_nat k) \<Longrightarrow> is_digit_char c"
  using isdigit_str_nat [of k] by (simp add: isdigit_def list_all_iff)

lemma digit_not_special: "is_digit_char c \<Longrightarrow> \<not> is_space c \<and> c \<noteq> CHR ''-'' \<and> c \<noteq> CHR ''+'' \<and> c \<noteq> CHR ''_''"
  by (auto simp: is_digit_char_def is_space_def Let_def)

lemma strip_str_nat: "strip (str_nat k) = str_nat k"
proof -
  have no: "c \<in> set (str_nat k) \<Longrightarrow> \<not> is_space c" for c using str_nat_chars digit_not_special by blast
  then have "dropWhile is_space (str_nat k) = str_nat k" "dropWhile is_space (rev (str_nat k)) = rev (str_nat k)"
    by (metis dropWhile_eq_self_iff hd_in_set, metis dropWhile_eq_self_iff hd_in_set set_rev)
  then show ?thesis by (simp add: strip_def lstrip_def rstrip_def)
qed

lemma py_int_str_nat: "py_int (str_nat k) = Inr (int k)"
proof -
  have "hd (str_nat k) \<in> set (str_nat k)" by simp
  then have h: "hd (str_nat k) \<noteq> CHR ''-''" "hd (str_nat k) \<noteq> CHR ''+''" using str_nat_chars digit_not_special by blast+
  have "\<not> startswith (str_nat k) ''-''" "\<not> startswith (str_nat k) ''+''"
    using h by (auto simp: startswith_iff)
  moreover have "CHR ''_'' \<notin> set (str_nat k)" using str_nat_chars digit_not_special by blast
  ultimately show ?thesis by (simp add: py_int_def strip_str_nat)
qed

lemma index_goal:
  "index_item d (goal_of k t) = Inr (if present_text (ft_lean_declaration t) then dset d (int k) (stored_target t) else d)"
  by (simp add: index_item_def target_of_goal py_int_str_nat) (simp add: goal_of_def new_item_def py_int_str_nat)

lemma index_goals:
  "\<forall>i \<in> set is. \<exists>k. i = goal_of k (ts ! k) \<Longrightarrow>
   \<exists>d'. index_items d is = Inr d' \<and>
     (\<forall>k. dget d' (int k) = (if goal_of k (ts ! k) \<in> set is \<and> present_text (ft_lean_declaration (ts ! k))
        then Some (stored_target (ts ! k)) else dget d (int k)))"
proof (induction "is" arbitrary: d)
  case (Cons i "is")
  obtain j where j: "i = goal_of j (ts ! j)" using Cons.prems by auto
  let ?d = "if present_text (ft_lean_declaration (ts ! j)) then dset d (int j) (stored_target (ts ! j)) else d"
  obtain d' where d': "index_items ?d is = Inr d'" "\<forall>k. dget d' (int k) = (if goal_of k (ts ! k) \<in> set is \<and> present_text (ft_lean_declaration (ts ! k))
        then Some (stored_target (ts ! k)) else dget ?d (int k))"
    using Cons.IH [of ?d] Cons.prems by auto
  have "goal_of k (ts ! k) = i \<longleftrightarrow> k = j" for k
    using j by (auto simp: goal_of_def new_item_def)
  then show ?case using d' j by (auto simp: index_goal)
qed simp

text \<open>Targets stored in a fresh tracker and indexed again come back under their positions, but incompletely: a
  target without a declaration is dropped, and of the others the kind and the location are lost.\<close>

theorem target_index_of_goals:
  assumes "k < length targets"
  shows "\<exists>tk index. populate_tracker (empty_tracker fl) targets = Inr tk \<and> build_target_index (Tracker_Targets tk) = Inr index \<and>
    dget index (int k) = (if present_text (ft_lean_declaration (targets ! k)) then Some (stored_target (targets ! k)) else None) \<and>
    ft_kind (stored_target (targets ! k)) = [] \<and> ft_location (stored_target (targets ! k)) = []"
proof -
  obtain tk where tk: "populate_from 0 (empty_tracker fl) targets = Inr tk" "tk_items tk = goal_items [] 0 targets"
    using populate_from_spec [of 0 "empty_tracker fl" targets] by (auto simp: empty_tracker_def)
  have items: "tk_items tk = map (\<lambda>(k, t). (str_nat k, goal_of k t)) (enumerate 0 targets)"
    by (simp add: tk(2) goal_items_def goal_of_def)
  have list: "set (list_items tk None None None) = {goal_of k (targets ! k) | k. k < length targets}"
  proof -
    have "set (list_items tk None None None) = (\<lambda>(k, t). goal_of k t) ` set (enumerate 0 targets)"
      by (simp add: list_items_def items case_prod_unfold image_image)
    also have "set (enumerate 0 targets) = {(k, targets ! k) | k. k < length targets}"
      by (auto simp: in_set_enumerate_eq)
    finally show ?thesis by auto
  qed
  obtain index where index: "index_items [] (list_items tk None None None) = Inr index"
    "\<forall>k. dget index (int k) = (if goal_of k (targets ! k) \<in> set (list_items tk None None None) \<and>
        present_text (ft_lean_declaration (targets ! k)) then Some (stored_target (targets ! k)) else dget [] (int k))"
  proof -
    have "\<forall>i \<in> set (list_items tk None None None). \<exists>k. i = goal_of k (targets ! k)" unfolding list by blast
    from index_goals [OF this, of "[]"] show ?thesis using that by blast
  qed
  have "goal_of k (targets ! k) \<in> set (list_items tk None None None)" using assms list by auto
  then show ?thesis using tk(1) index by (simp add: populate_tracker_def stored_target_def plain_target_def)
qed

definition found_target :: target where
  "found_target = (plain_target ''a'')\<lparr>ft_kind := ''theorem'', ft_lean_declaration := Some ''d''\<rparr>"

theorem target_index_of_goals_witness:
  "\<exists>tk index. populate_tracker (empty_tracker ''task'') [found_target] = Inr tk \<and> build_target_index (Tracker_Targets tk) = Inr index \<and>
    dget index (int 0) = (if present_text (ft_lean_declaration ([found_target] ! 0)) then Some (stored_target ([found_target] ! 0)) else None) \<and>
    ft_kind (stored_target ([found_target] ! 0)) = [] \<and> ft_location (stored_target ([found_target] ! 0)) = []"
  by (rule target_index_of_goals) simp

end
