(* ===== verification/Eval_Metrics.thy ===== *)
theory Eval_Metrics
  imports Eval_Gate
begin

text \<open>
  \<open>core/eval/metrics.py\<close>, \<open>core/eval/pipeline.py\<close> and the report builder \<open>autoform/eval/metrics.py\<close>. Floats
  are rationals rounded to doubles, with \<open>None\<close> for NaN. How \<open>sum\<close> adds floats depends on the
  version of Python (it compensates rounding errors since 3.12), so the sum of a list of floats is the
  parameter \<open>fsum\<close>.
\<close>

section \<open>Aggregators\<close>

type_synonym groups = "(string, eval_result list) dict"

type_synonym fsum = "rat option list \<Rightarrow> rat option"

type_synonym metrics = "(string, rat option) dict"

definition is_nan :: "eval_result \<Rightarrow> bool" where
  "is_nan r = (sc_value (er_score r) = None)"

definition float_of :: "nat \<Rightarrow> rat option" where
  "float_of n = Some (flt (of_nat n))"

definition mean_of :: "fsum \<Rightarrow> rat option list \<Rightarrow> rat option" where
  "mean_of fsum xs = map_option (\<lambda>s. flt (s / of_nat (length xs))) (fsum xs)"

definition agg_total :: "groups \<Rightarrow> metrics" where
  "agg_total gs = [(''total'', float_of (length gs))]"

definition valid_groups :: "groups \<Rightarrow> groups" where
  "valid_groups gs = filter (\<lambda>(k, g). list_ex (\<lambda>r. \<not> is_nan r) g) gs"

definition agg_pass_rate :: "groups \<Rightarrow> metrics" where
  "agg_pass_rate gs =
     (let valid = valid_groups gs; passed = length (filter (\<lambda>(k, g). list_ex (\<lambda>r. sc_passed (er_score r)) g) valid)
      in [(''pass_rate'', if valid = [] then Some 0 else Some (flt (of_nat passed / of_nat (length valid))))])"

definition agg_mean_score :: "fsum \<Rightarrow> groups \<Rightarrow> metrics" where
  "agg_mean_score fsum gs =
     (let values = map (\<lambda>(k, g). map (\<lambda>r. sc_value (er_score r)) (filter (\<lambda>r. \<not> is_nan r) g)) gs;
          means = map (mean_of fsum) (filter (\<lambda>vs. vs \<noteq> []) values)
      in [(''mean_score'', if means = [] then Some 0 else mean_of fsum means)])"

definition agg_num_results :: "groups \<Rightarrow> metrics" where
  "agg_num_results gs = [(''num_results'', float_of (sum_list (map (\<lambda>(k, g). length g) gs)))]"

definition agg_total_cost :: "fsum \<Rightarrow> groups \<Rightarrow> metrics" where
  "agg_total_cost fsum gs =
     [(''total_cost'', fsum (filter (\<lambda>c. c \<noteq> None) (concat (map (\<lambda>(k, g). map er_cost g) gs))))]"

definition agg_mean_latency :: "fsum \<Rightarrow> groups \<Rightarrow> metrics" where
  "agg_mean_latency fsum gs =
     (let latencies = filter (\<lambda>c. c \<noteq> None) (concat (map (\<lambda>(k, g). map er_latency g) gs))
      in [(''mean_latency'', if latencies = [] then Some 0 else mean_of fsum latencies)])"

definition agg_num_errors :: "groups \<Rightarrow> metrics" where
  "agg_num_errors gs = [(''num_errors'', float_of (length (filter is_nan (concat (map snd gs)))))]"

section \<open>pass@k\<close>

text \<open>The estimate for one datum, with \<open>n\<close> samples of which \<open>c\<close> passed.\<close>

definition pass_estimate :: "nat \<Rightarrow> nat \<Rightarrow> nat \<Rightarrow> rat" where
  "pass_estimate k n c =
     (if int n - int c < int k then 1 else flt (1 - flt (of_nat ((n - c) choose k) / of_nat (n choose k))))"

definition pass_at_k :: "fsum \<Rightarrow> nat \<Rightarrow> groups \<Rightarrow> metrics" where
  "pass_at_k fsum k gs =
     (let estimates = map (\<lambda>(d, g). Some (pass_estimate k (length g) (length (filter (\<lambda>r. sc_passed (er_score r)) g))))
            (filter (\<lambda>(d, g). k \<le> length g) gs)
      in [(''pass@'' @ str_nat k, if estimates = [] then Some 0 else mean_of fsum estimates)])"

section \<open>Named metrics\<close>

text \<open>The number a metric holds; adding another value raises.\<close>

fun metric_number :: "json \<Rightarrow> int result" where
  "metric_number (JInt i) = Inr i"
| "metric_number (JBool b) = Inr (if b then 1 else 0)"
| "metric_number v = Inl (TypeError ''unsupported operand type(s) for +'')"

definition metric_values :: "string \<Rightarrow> eval_result list \<Rightarrow> json list" where
  "metric_values key rs = map (\<lambda>r. the (dget (sc_metrics (er_score r)) key)) (filter (\<lambda>r. has_key (sc_metrics (er_score r)) key) rs)"

definition int_mean :: "json list \<Rightarrow> rat result" where
  "int_mean vs = rbind (mapM metric_number vs) (\<lambda>ns. py_div (sum_list ns) (int (length ns)))"

definition mean_metric_key :: "fsum \<Rightarrow> groups \<Rightarrow> string \<Rightarrow> metrics result" where
  "mean_metric_key fsum gs key =
     rbind (mapM int_mean (filter (\<lambda>vs. vs \<noteq> []) (map (\<lambda>(k, g). metric_values key g) gs))) (\<lambda>means.
       Inr (if means = [] then [] else [(''mean_'' @ key, mean_of fsum (map Some means))]))"

definition mean_metric :: "fsum \<Rightarrow> string list \<Rightarrow> groups \<Rightarrow> metrics result" where
  "mean_metric fsum keys gs = rbind (mapM (mean_metric_key fsum gs) keys) (\<lambda>ms. Inr (foldl dupdate [] ms))"

section \<open>The aggregator\<close>

definition group_results :: "eval_result list \<Rightarrow> groups" where
  "group_results rs = foldl (\<lambda>gs r. dset gs (er_datum_id r) (dget_or gs (er_datum_id r) [] @ [r])) [] rs"

definition builtin_aggregators :: "fsum \<Rightarrow> (groups \<Rightarrow> metrics) list" where
  "builtin_aggregators fsum = [agg_total, agg_pass_rate, agg_mean_score fsum, pass_at_k fsum 1, agg_num_results,
     agg_num_errors, agg_total_cost fsum, agg_mean_latency fsum]"

definition summarize :: "fsum \<Rightarrow> (groups \<Rightarrow> metrics) list \<Rightarrow> eval_result list \<Rightarrow> metrics" where
  "summarize fsum extra rs =
     foldl (\<lambda>merged agg. dupdate merged (agg (group_results rs))) [] (builtin_aggregators fsum @ extra)"

section \<open>The pipeline\<close>

text \<open>
  One datum: what the runner and the grader gave (the output and its score, or the exception of either), and
  the time it took. The data are worked on concurrently and recorded in the order they finish.
\<close>

record sample =
  sa_id :: string
  sa_datum :: target
  sa_outcome :: "(string \<times> score) result"
  sa_latency :: rat

definition process_one :: "sample \<Rightarrow> eval_result" where
  "process_one s =
     (case sa_outcome s of
        Inr (out, sc) \<Rightarrow> \<lparr>er_datum_id = sa_id s, er_score = sc, er_datum = Some (sa_datum s), er_output = Some out,
          er_latency = Some (sa_latency s), er_cost = None\<rparr>
      | Inl e \<Rightarrow> \<lparr>er_datum_id = sa_id s,
          er_score = \<lparr>sc_value = None, sc_passed = False, sc_feedback = err_text e, sc_metrics = []\<rparr>,
          er_datum = Some (sa_datum s), er_output = None, er_latency = Some (sa_latency s), er_cost = None\<rparr>)"

definition run_pipeline :: "fsum \<Rightarrow> (groups \<Rightarrow> metrics) list \<Rightarrow> sample list \<Rightarrow> metrics" where
  "run_pipeline fsum extra finished = summarize fsum extra (map process_one finished)"

section \<open>The report\<close>

definition METRIC_KEYS :: "string list" where
  "METRIC_KEYS = [''compilation'', ''axioms'', ''correctness'', ''faithfulness'', ''style'']"

record report_entry =
  re_id :: string
  re_passed :: bool
  re_scores :: "(string, json) dict"
  re_feedback :: string
  re_axiom_verdicts :: "json option"
  re_axiom_only :: "json option"
  re_name :: "string option"
  re_lean_declaration :: "string option"

record report =
  rp_total :: nat
  rp_passed :: nat
  rp_failed :: nat
  rp_pass_rate :: rat
  rp_metrics :: "(string, rat) dict"
  rp_details :: "report_entry list"
  rp_compiles :: bool
  rp_output :: string
  rp_forbidden :: "(string \<times> string) list"
  rp_all_checks_passed :: bool
  rp_axiom_violations :: "(string \<times> string list) list option"

definition report_entry_of :: "string list \<Rightarrow> eval_result \<Rightarrow> report_entry" where
  "report_entry_of keys r =
     (let ms = sc_metrics (er_score r)
      in \<lparr>re_id = er_datum_id r, re_passed = sc_passed (er_score r), re_scores = filter (\<lambda>(k, v). k \<in> set keys) ms,
          re_feedback = sc_feedback (er_score r), re_axiom_verdicts = dget ms ''axiom_verdicts'',
          re_axiom_only = dget ms ''axiom_only'', re_name = map_option ft_name (er_datum r),
          re_lean_declaration = Option.bind (er_datum r) ft_lean_declaration\<rparr>)"

text \<open>The mean of one metric, when a result has it.\<close>

definition report_metric :: "eval_result list \<Rightarrow> string \<Rightarrow> (string, rat) dict result" where
  "report_metric rs key =
     (let vs = metric_values key rs
      in if vs = [] then Inr [] else rbind (int_mean vs) (\<lambda>q. Inr [(key, py_round q 2)]))"

definition build_report :: "bool \<Rightarrow> string \<Rightarrow> (string \<times> string) list \<Rightarrow> axiom_map option \<Rightarrow> eval_result list \<Rightarrow> report result" where
  "build_report compiles output forbidden axioms rs =
     (let total = length rs; passed = length (filter (\<lambda>r. sc_passed (er_score r)) rs)
      in rbind (mapM (report_metric rs) METRIC_KEYS) (\<lambda>ms. Inr
        \<lparr>rp_total = total, rp_passed = passed, rp_failed = total - passed,
         rp_pass_rate = (if total = 0 then 0 else py_round (flt (of_nat passed / of_nat total)) 3),
         rp_metrics = concat ms,
         rp_details = sort_key re_passed (sort_key re_id (map (report_entry_of METRIC_KEYS) rs)),
         rp_compiles = compiles, rp_output = output, rp_forbidden = forbidden,
         rp_all_checks_passed = (compiles \<and> forbidden = [] \<and> (case axioms of None \<Rightarrow> True | Some a \<Rightarrow> a = [])),
         rp_axiom_violations = map_option (map (\<lambda>(name, axs). (name, sort axs))) axioms\<rparr>))"

end
