(* ===== verification/Eval_Metrics_Correct.thy ===== *)
theory Eval_Metrics_Correct
  imports Eval_Metrics "HOL-Library.Multiset"
begin

text \<open>
  What the evaluation numbers show: the pass@k estimate is a probability, and the pipeline records
  every datum exactly once and counts every failure.
\<close>

section \<open>pass@k\<close>

text \<open>The pass@k estimate of a datum with \<open>n\<close> samples is a float between 0 and 1, 0 when no sample passed and 1
  when fewer than \<open>k\<close> failed.\<close>

theorem pass_estimate_bounds:
  assumes "c \<le> n" "k \<le> n"
  shows "0 \<le> pass_estimate k n c \<and> pass_estimate k n c \<le> 1 \<and> (if n - c < k then pass_estimate k n c = 1 else True) \<and>
    (if c = 0 then pass_estimate k n c = 0 else True)"
proof -
  let ?q = "of_nat ((n - c) choose k) / of_nat (n choose k) :: rat"
  have pos: "0 < n choose k" using assms(2) by simp
  have "(n - c) choose k \<le> n choose k" by (rule binomial_right_mono) simp
  then have q: "0 \<le> ?q" "?q \<le> of_int 1" using pos by (simp_all add: divide_le_eq)
  then have f: "0 \<le> flt ?q \<and> flt ?q \<le> of_int 1" by (intro fl_bounds) simp_all
  then have e: "0 \<le> flt (1 - flt ?q) \<and> flt (1 - flt ?q) \<le> of_int 1" by (intro fl_bounds) simp_all
  have one: "flt 1 = 1" "flt 0 = 0" by code_simp+
  have "flt (1 - flt ?q) = 0" if "c = 0" using that pos one by simp
  then show ?thesis using e assms by (auto simp: pass_estimate_def)
qed

section \<open>The pipeline\<close>

lemma mset_concat_dset:
  "mset (concat (map snd (dset gs k (dget_or gs k [] @ [r])))) = mset (concat (map snd gs)) + {#r#}"
  by (induction gs) (auto simp: dget_or_def)

lemma mset_groups: "mset (concat (map snd (group_results rs))) = mset rs"
proof -
  have "mset (concat (map snd (foldl (\<lambda>gs r. dset gs (er_datum_id r) (dget_or gs (er_datum_id r) [] @ [r])) gs rs))) =
      mset (concat (map snd gs)) + mset rs" for gs
    by (induction rs arbitrary: gs) (simp_all add: mset_concat_dset)
  then show ?thesis by (simp add: group_results_def)
qed

lemma keys_groups: "distinct (map fst (group_results rs)) \<and> set (map fst (group_results rs)) = er_datum_id ` set rs"
proof -
  have "distinct (map fst gs) \<Longrightarrow>
      distinct (map fst (foldl (\<lambda>gs r. dset gs (er_datum_id r) (dget_or gs (er_datum_id r) [] @ [r])) gs rs)) \<and>
      set (map fst (foldl (\<lambda>gs r. dset gs (er_datum_id r) (dget_or gs (er_datum_id r) [] @ [r])) gs rs)) =
        set (map fst gs) \<union> er_datum_id ` set rs" for gs
  proof (induction rs arbitrary: gs)
    case (Cons r rs)
    have "set (map fst (dset gs k v)) = insert k (set (map fst gs))" for k and v :: "eval_result list"
      by (induction gs) auto
    then show ?case using Cons.IH [of "dset gs (er_datum_id r) (dget_or gs (er_datum_id r) [] @ [r])"] Cons.prems
      by (auto simp: distinct_update simp del: set_map)
  qed simp
  from this [of "[]"] show ?thesis by (simp add: group_results_def)
qed

definition failed_sample :: "sample \<Rightarrow> bool" where
  "failed_sample s = (case sa_outcome s of Inl e \<Rightarrow> True | Inr (out, sc) \<Rightarrow> sc_value sc = None)"

lemma process_one_simps: "er_datum_id (process_one s) = sa_id s" "is_nan (process_one s) = failed_sample s"
  by (auto simp: process_one_def is_nan_def failed_sample_def split: sum.split)

text \<open>The pipeline isolates failures: whatever runners and graders raise, in whatever order the data finish, the
  summary counts every datum exactly once, the different ids, and as errors exactly the ones that raised or
  got no number.\<close>

theorem pipeline_isolates_errors:
  "dget (run_pipeline fsum [] finished) ''num_results'' = Some (float_of (length finished)) \<and>
   dget (run_pipeline fsum [] finished) ''total'' = Some (float_of (card (sa_id ` set finished))) \<and>
   dget (run_pipeline fsum [] finished) ''num_errors'' = Some (float_of (length (filter failed_sample finished)))"
proof -
  let ?rs = "map process_one finished" let ?gs = "group_results ?rs"
  have "length (concat (map snd ?gs)) = length ?rs" using mset_groups [of ?rs] by (metis size_mset)
  then have n: "sum_list (map (\<lambda>(k, g). length g) ?gs) = length finished"
    by (simp add: length_concat case_prod_unfold comp_def)
  have "length ?gs = card (set (map fst ?gs))" using keys_groups [of ?rs] by (metis distinct_card length_map)
  then have t: "length ?gs = card (sa_id ` set finished)"
    using keys_groups [of ?rs] by (simp add: image_image process_one_simps)
  have "mset (filter is_nan (concat (map snd ?gs))) = mset (filter is_nan ?rs)" using mset_groups [of ?rs] by simp
  then have "length (filter is_nan (concat (map snd ?gs))) = length (filter is_nan ?rs)" by (metis size_mset)
  then have e: "length (filter is_nan (concat (map snd ?gs))) = length (filter failed_sample finished)"
    by (simp add: filter_map comp_def process_one_simps)
  show ?thesis
    unfolding run_pipeline_def summarize_def builtin_aggregators_def
    by (simp add: dupdate_def agg_total_def agg_pass_rate_def agg_mean_score_def pass_at_k_def agg_num_results_def
        agg_num_errors_def agg_total_cost_def agg_mean_latency_def n t e Let_def)
qed

theorem pass_estimate_bounds_witness:
  "0 \<le> pass_estimate 2 5 1 \<and> pass_estimate 2 5 1 \<le> 1 \<and> (if (5::nat) - 1 < 2 then pass_estimate 2 5 1 = 1 else True) \<and>
    (if (1::nat) = 0 then pass_estimate 2 5 1 = 0 else True)"
  by (rule pass_estimate_bounds) simp_all

end
