(* ===== verification/Message_Extract.thy ===== *)
theory Message_Extract
  imports Py_Json Py_Regex
begin

text \<open>
  \<open>core/message_extract.py\<close>: text, thinking and tool calls of a message in the format of OpenAI, Anthropic
  or Gemini, the results of tool calls in a history, and fenced code blocks. A message is a JSON object.
  \<open>msg\<close> is the wording of the errors of the JSON parser.
\<close>

section \<open>Untyped access\<close>

text \<open>\<open>v.get(k, default)\<close>, and a piece of \<open>join\<close>.\<close>

fun pget :: "json \<Rightarrow> string \<Rightarrow> json \<Rightarrow> json result" where
  "pget (JObj d) k v = Inr (dget_or d k v)"
| "pget w k v = Inl (AttributeError ''no attribute get'')"

fun join_item :: "json \<Rightarrow> string result" where
  "join_item (JStr s) = Inr s"
| "join_item v = Inl (TypeError ''sequence item: expected str instance'')"

definition join_texts :: "string \<Rightarrow> json list \<Rightarrow> string result" where
  "join_texts sep vs = rbind (mapM join_item vs) (\<lambda>ss. Inr (join sep ss))"

definition obj_or_empty :: "json \<Rightarrow> json" where
  "obj_or_empty v = (case v of JObj d \<Rightarrow> JObj d | _ \<Rightarrow> JObj [])"

section \<open>Assistant messages\<close>

record extracted_call =
  xc_id :: string
  xc_name :: string
  xc_arguments :: json

record extracted_assistant =
  xa_text :: string
  xa_thinking :: string
  xa_calls :: "extracted_call list"

definition empty_extract :: "json list \<times> json list \<times> extracted_call list" where
  "empty_extract = ([], [], [])"

text \<open>The loop over typed blocks: the texts, the thinking parts and the calls so far.\<close>

definition block_type :: "(string, json) dict \<Rightarrow> json" where
  "block_type b = dget_or b ''type'' (JStr '''')"

definition anthropic_block ::
    "json \<Rightarrow> json list \<times> json list \<times> extracted_call list \<Rightarrow> (json list \<times> json list \<times> extracted_call list) result" where
  "anthropic_block block acc =
     (case block of
        JObj b \<Rightarrow>
          (let (texts, thinking, calls) = acc; t = block_type b
           in if t = JStr ''text'' then Inr (texts @ [dget_or b ''text'' (JStr '''')], thinking, calls)
              else if t = JStr ''thinking'' then Inr (texts, thinking @ [dget_or b ''thinking'' (JStr '''')], calls)
              else if t = JStr ''tool_use'' then
                rbind (as_str (dget_or b ''id'' (JStr ''''))) (\<lambda>cid.
                rbind (as_str (dget_or b ''name'' (JStr ''''))) (\<lambda>name.
                Inr (texts, thinking, calls @ [\<lparr>xc_id = cid, xc_name = name,
                  xc_arguments = obj_or_empty (dget_or b ''input'' (JObj []))\<rparr>])))
              else Inr acc)
      | _ \<Rightarrow> Inr acc)"

definition gemini_part ::
    "json \<Rightarrow> json list \<times> json list \<times> extracted_call list \<Rightarrow> (json list \<times> json list \<times> extracted_call list) result" where
  "gemini_part part acc =
     (case part of
        JObj b \<Rightarrow>
          (let (texts, thinking, calls) = acc; t = block_type b
           in if t = JStr ''text'' then Inr (texts @ [dget_or b ''text'' (JStr '''')], thinking, calls)
              else if t = JStr ''thinking'' then Inr (texts, thinking @ [dget_or b ''text'' (JStr '''')], calls)
              else if t = JStr ''function_call'' then
                rbind (as_str (dget_or b ''name'' (JStr ''''))) (\<lambda>name.
                Inr (texts, thinking, calls @ [\<lparr>xc_id = name, xc_name = name,
                  xc_arguments = obj_or_empty (dget_or b ''args'' (JObj []))\<rparr>]))
              else Inr acc)
      | _ \<Rightarrow> Inr acc)"

fun over_blocks :: "('b \<Rightarrow> 'a \<Rightarrow> 'a result) \<Rightarrow> 'b list \<Rightarrow> 'a \<Rightarrow> 'a result" where
  "over_blocks f [] acc = Inr acc"
| "over_blocks f (b # bs) acc = rbind (f b acc) (over_blocks f bs)"

definition joined_extract :: "(json list \<times> json list \<times> extracted_call list) result \<Rightarrow> extracted_assistant result" where
  "joined_extract r = rbind r (\<lambda>(texts, thinking, calls).
     rbind (join_texts [nl] texts) (\<lambda>text. rbind (join_texts [nl] thinking) (\<lambda>think.
       Inr \<lparr>xa_text = text, xa_thinking = think, xa_calls = calls\<rparr>)))"

definition extract_anthropic_assistant :: "json list \<Rightarrow> extracted_assistant result" where
  "extract_anthropic_assistant content = joined_extract (over_blocks anthropic_block content empty_extract)"

definition extract_gemini_assistant :: "json list \<Rightarrow> extracted_assistant result" where
  "extract_gemini_assistant parts = joined_extract (over_blocks gemini_part parts empty_extract)"

text \<open>Arguments that are not JSON text are read as no arguments.\<close>

definition call_arguments :: "(string \<Rightarrow> string) \<Rightarrow> json \<Rightarrow> json result" where
  "call_arguments msg a =
     (case a of
        JStr s \<Rightarrow> (case loads msg s of Inl (JSONDecodeError _) \<Rightarrow> Inr (JObj []) | r \<Rightarrow> r)
      | _ \<Rightarrow> Inr (JObj []))"

definition openai_call :: "(string \<Rightarrow> string) \<Rightarrow> json \<Rightarrow> extracted_call result" where
  "openai_call msg tc =
     rbind (pget tc ''function'' (JObj [])) (\<lambda>fn.
     rbind (pget fn ''arguments'' (JStr ''{}'')) (\<lambda>a.
     rbind (call_arguments msg a) (\<lambda>arguments.
     rbind (rbind (pget tc ''id'' (JStr '''')) as_str) (\<lambda>cid.
     rbind (rbind (pget fn ''name'' (JStr ''unknown'')) as_str) (\<lambda>name.
     Inr \<lparr>xc_id = cid, xc_name = name, xc_arguments = arguments\<rparr>)))))"

definition extract_openai_tool_calls :: "(string \<Rightarrow> string) \<Rightarrow> json \<Rightarrow> extracted_call list result" where
  "extract_openai_tool_calls msg tcs =
     (if \<not> truthy tcs then Inr []
      else case tcs of
        JArr xs \<Rightarrow> mapM (openai_call msg) xs
      | JObj _ \<Rightarrow> Inl (AttributeError ''no attribute get'')
      | JStr _ \<Rightarrow> Inl (AttributeError ''no attribute get'')
      | _ \<Rightarrow> Inl (TypeError ''object is not iterable''))"

definition extract_assistant :: "(string \<Rightarrow> string) \<Rightarrow> (string, json) dict \<Rightarrow> extracted_assistant result" where
  "extract_assistant msg m =
     (let content = dget_or m ''content'' JNull; parts = dget_or m ''parts'' JNull
      in case parts of
        JArr (p # ps) \<Rightarrow> extract_gemini_assistant (p # ps)
      | _ \<Rightarrow>
          (case content of
             JArr bs \<Rightarrow> extract_anthropic_assistant bs
           | _ \<Rightarrow>
               (let text = (case content of JStr s \<Rightarrow> s | _ \<Rightarrow> [])
                in rbind (as_str (dget_or m ''thinking'' (JStr ''''))) (\<lambda>thinking.
                   rbind (extract_openai_tool_calls msg (dget_or m ''tool_calls'' JNull)) (\<lambda>calls.
                   Inr \<lparr>xa_text = text, xa_thinking = thinking, xa_calls = calls\<rparr>)))))"

section \<open>Tool results\<close>

text \<open>The text of a result that is itself JSON, and whether it reports a failure.\<close>

definition read_result :: "(string \<Rightarrow> string) \<Rightarrow> json \<Rightarrow> bool \<Rightarrow> (json \<times> bool) result" where
  "read_result msg content is_error =
     (case content of
        JStr s \<Rightarrow>
          (case loads msg s of
             Inr (JObj d) \<Rightarrow> Inr (dget_or d ''text'' content, is_error \<or> dget d ''ok'' = Some (JBool False))
           | Inl (OutsideModel e) \<Rightarrow> Inl (OutsideModel e)
           | _ \<Rightarrow> Inr (content, is_error))
      | _ \<Rightarrow> Inr (content, is_error))"

type_synonym result_map = "(string, string \<times> bool) dict"

definition openai_result :: "(string \<Rightarrow> string) \<Rightarrow> (string, json) dict \<Rightarrow> result_map \<Rightarrow> result_map result" where
  "openai_result msg m acc =
     (if dget_or m ''role'' (JStr '''') = JStr ''tool'' then
        rbind (as_str (dget_or m ''tool_call_id'' (JStr ''''))) (\<lambda>cid.
        rbind (read_result msg (dget_or m ''content'' (JStr '''')) False) (\<lambda>(content, is_error).
        Inr (dset acc cid (str_json content, is_error))))
      else Inr acc)"

definition anthropic_result :: "(string \<Rightarrow> string) \<Rightarrow> json \<Rightarrow> result_map \<Rightarrow> result_map result" where
  "anthropic_result msg block acc =
     (case block of
        JObj b \<Rightarrow>
          (if dget b ''type'' = Some (JStr ''tool_result'') then
             rbind (as_str (dget_or b ''tool_use_id'' (JStr ''''))) (\<lambda>cid.
             rbind (read_result msg (dget_or b ''content'' (JStr '''')) (truthy (dget_or b ''is_error'' (JBool False))))
               (\<lambda>(content, is_error). Inr (dset acc cid (str_json content, is_error))))
           else Inr acc)
      | _ \<Rightarrow> Inr acc)"

definition gemini_result :: "json \<Rightarrow> result_map \<Rightarrow> result_map result" where
  "gemini_result part acc =
     (case part of
        JObj b \<Rightarrow>
          (if dget b ''type'' = Some (JStr ''function_response'') then
             rbind (as_str (dget_or b ''name'' (JStr ''''))) (\<lambda>name.
               let response = dget_or b ''response'' (JObj []);
                   (text, is_error) = (case response of
                       JObj d \<Rightarrow> (dget_or d ''result'' (JStr ''''), truthy (dget_or d ''is_error'' (JBool False)))
                     | _ \<Rightarrow> (JStr (str_json response), False))
               in Inr (dset acc name (str_json text, is_error)))
           else Inr acc)
      | _ \<Rightarrow> Inr acc)"

definition message_results :: "(string \<Rightarrow> string) \<Rightarrow> (string, json) dict \<Rightarrow> result_map \<Rightarrow> result_map result" where
  "message_results msg m acc =
     rbind (openai_result msg m acc) (\<lambda>acc1.
     rbind (case dget_or m ''content'' JNull of JArr bs \<Rightarrow> over_blocks (anthropic_result msg) bs acc1 | _ \<Rightarrow> Inr acc1) (\<lambda>acc2.
     case dget_or m ''parts'' JNull of JArr ps \<Rightarrow> over_blocks gemini_result ps acc2 | _ \<Rightarrow> Inr acc2))"

definition extract_tool_results :: "(string \<Rightarrow> string) \<Rightarrow> (string, json) dict list \<Rightarrow> result_map result" where
  "extract_tool_results msg ms = over_blocks (message_results msg) ms []"

section \<open>Text\<close>

definition text_blocks :: "json list \<Rightarrow> json list" where
  "text_blocks bs = concat (map (\<lambda>b. case b of
     JObj d \<Rightarrow> (if dget d ''type'' = Some (JStr ''text'') then [dget_or d ''text'' (JStr '''')] else [])
   | _ \<Rightarrow> []) bs)"

definition extract_text_content :: "(string, json) dict \<Rightarrow> string result" where
  "extract_text_content m =
     (case dget_or m ''parts'' JNull of
        JArr (p # ps) \<Rightarrow> join_texts [nl] (text_blocks (p # ps))
      | _ \<Rightarrow> (case dget_or m ''content'' JNull of
            JArr bs \<Rightarrow> join_texts [nl] (text_blocks bs)
          | JStr s \<Rightarrow> Inr s
          | _ \<Rightarrow> Inr []))"

definition has_visible_content :: "(string \<Rightarrow> string) \<Rightarrow> (string, json) dict \<Rightarrow> bool result" where
  "has_visible_content msg m =
     (let role = dget_or m ''role'' (JStr '''')
      in if role \<notin> {JStr ''user'', JStr ''assistant'', JStr ''model''} then Inr False
         else if role = JStr ''user'' then rbind (extract_text_content m) (\<lambda>t. Inr (strip t \<noteq> []))
         else rbind (extract_assistant msg m) (\<lambda>ex.
           Inr (strip (xa_text ex) \<noteq> [] \<or> xa_thinking ex \<noteq> [] \<or> xa_calls ex \<noteq> [])))"

section \<open>Code blocks\<close>

datatype language = CPP | GO | JAVASCRIPT | LEAN | PYTHON | RUST | SHELL | TYPESCRIPT

fun tags :: "language \<Rightarrow> string list" where
  "tags CPP = [''cpp'', ''c++'']"
| "tags GO = [''go'', ''golang'']"
| "tags JAVASCRIPT = [''javascript'', ''js'']"
| "tags LEAN = [''lean4'', ''lean'']"
| "tags PYTHON = [''python'', ''py'']"
| "tags RUST = [''rust'', ''rs'']"
| "tags SHELL = [''shell'', ''bash'', ''sh'']"
| "tags TYPESCRIPT = [''typescript'', ''ts'']"

definition language_of :: "string \<Rightarrow> language option" where
  "language_of s = map_of [(''cpp'', CPP), (''go'', GO), (''javascript'', JAVASCRIPT), (''lean'', LEAN),
     (''python'', PYTHON), (''rust'', RUST), (''shell'', SHELL), (''typescript'', TYPESCRIPT)] s"

datatype lang_arg = AnyLanguage | Named string | Tags "string list"

definition tags_of :: "lang_arg \<Rightarrow> string list" where
  "tags_of l = (case l of
     AnyLanguage \<Rightarrow> []
   | Named s \<Rightarrow> (case language_of s of Some k \<Rightarrow> tags k | None \<Rightarrow> [s])
   | Tags ts \<Rightarrow> ts)"

definition fence :: string where "fence = ''```''"

definition block_body :: "re list" where
  "block_body = [chr nl, Grp 1 (many_lazy any_char), lit fence]"

definition code_block_re :: "lang_arg \<Rightarrow> re" where
  "code_block_re l =
     (case l of
        AnyLanguage \<Rightarrow> cat ([lit fence, many (none_of [nl, CHR 0x60])] @ block_body)
      | _ \<Rightarrow>
          (let sorted_tags = sort_key (\<lambda>t. - int (length t)) (tags_of l);
               tag_re = (if sorted_tags = [] then Empty else alts (map lit_nocase sorted_tags))
           in cat ([lit fence, tag_re, many space] @ block_body)))"

definition extract_code_block :: "string \<Rightarrow> lang_arg \<Rightarrow> bool \<Rightarrow> string option" where
  "extract_code_block text l last_one =
     (let matches = map (\<lambda>m. group m 1) (finditer (code_block_re l) text)
      in if matches = [] then None else Some (if last_one then last matches else hd matches))"

end
