(* ===== verification/Inference.thy ===== *)
theory Inference
  imports Effects Py_Json Py_Regex Py_Float Message_Extract
begin

text \<open>
  \<open>core/inference/protocol.py\<close>: the types between the agent loop and the backends of model providers, the cost of
  a call, and what a backend offers. The service behind a backend answers a request with a reply or one
  of the exceptions its library documents.
\<close>

text \<open>A text in single quotes.\<close>

definition squote :: "string \<Rightarrow> string" where
  "squote s = [CHR 0x27] @ s @ [CHR 0x27]"

text \<open>A result as a computation.\<close>

definition liftE :: "'a result \<Rightarrow> ('s, 'a) eff" where
  "liftE r = (case r of Inl e \<Rightarrow> throw e | Inr a \<Rightarrow> ret a)"

section \<open>Boundary types\<close>

record cache_config =
  cc_system :: bool
  cc_tools :: bool
  cc_messages :: bool

record inference_config =
  ic_temperature :: "rat option"
  ic_max_tokens :: "int option"
  ic_top_p :: "rat option"
  ic_cache :: "cache_config option"

definition DEFAULT_MAX_TOKENS :: int where "DEFAULT_MAX_TOKENS = 16384"

definition default_inference_config :: inference_config where
  "default_inference_config =
     \<lparr>ic_temperature = None, ic_max_tokens = Some DEFAULT_MAX_TOKENS, ic_top_p = None, ic_cache = None\<rparr>"

record token_usage =
  tu_input :: int
  tu_output :: int
  tu_cached :: int
  tu_creation :: int
  tu_total :: int

definition no_usage :: token_usage where
  "no_usage = \<lparr>tu_input = 0, tu_output = 0, tu_cached = 0, tu_creation = 0, tu_total = 0\<rparr>"

record tool_schema =
  ts_name :: string
  ts_description :: string
  ts_parameters :: json

record tool_call =
  tc_id :: string
  tc_name :: string
  tc_arguments :: string
  tc_thought :: string
  tc_truncated :: bool

record tool_result =
  tr_call_id :: string
  tr_content :: string
  tr_tool_name :: string
  tr_is_error :: bool

record turn_result =
  tn_text :: string
  tn_thinking :: string
  tn_calls :: "tool_call list"
  tn_usage :: token_usage
  tn_model :: string
  tn_call_id :: string
  tn_finish :: string

section \<open>Cost\<close>

record model_pricing =
  mp_input :: rat
  mp_output :: rat
  mp_cached :: "rat option"
  mp_write :: "rat option"

definition is_free :: "model_pricing \<Rightarrow> bool" where
  "is_free p \<longleftrightarrow> mp_input p = 0 \<and> mp_output p = 0"

text \<open>\<open>n * rate / 1_000_000\<close> on floats.\<close>

definition charge :: "int \<Rightarrow> rat \<Rightarrow> rat" where
  "charge n rate = flt (flt (flt (of_int n) * rate) / 1000000)"

definition compute_cost :: "model_pricing \<Rightarrow> int \<Rightarrow> int \<Rightarrow> int \<Rightarrow> int \<Rightarrow> rat" where
  "compute_cost p input_tokens output_tokens cached creation =
     (let read_rate = (case mp_cached p of Some r \<Rightarrow> r | None \<Rightarrow> mp_input p);
          write_rate = (case mp_write p of Some r \<Rightarrow> r | None \<Rightarrow> flt (mp_input p * (5 / 4)));
          regular = input_tokens - cached - creation
      in flt (flt (flt (charge regular (mp_input p) + charge cached read_rate) + charge creation write_rate) +
           charge output_tokens (mp_output p)))"

section \<open>Errors of a service\<close>

definition dot :: re where "dot = none_of [nl]"

definition words_dot :: "string list \<Rightarrow> re" where
  "words_dot ws = cat (tl (concat (map (\<lambda>w. [dot, lit_nocase w]) ws)))"

definition PROMPT_TOO_LONG_PATTERNS :: re where
  "PROMPT_TOO_LONG_PATTERNS = alts
     [words_dot [''context'', ''length''], words_dot [''maximum'', ''context''], words_dot [''token'', ''limit''],
      words_dot [''too'', ''many'', ''tokens''], words_dot [''prompt'', ''is'', ''too'', ''long''],
      cat [lit_nocase ''exceeds'', many dot, alts [lit_nocase ''context'', lit_nocase ''token'', lit_nocase ''limit'']],
      cat [lit_nocase ''input'', many dot, words_dot [''too'', ''long'']],
      words_dot [''request'', ''too'', ''large'']]"

definition is_prompt_too_long_message :: "string \<Rightarrow> bool" where
  "is_prompt_too_long_message m = (re_search PROMPT_TOO_LONG_PATTERNS m \<noteq> None)"

text \<open>
  What a call of the service gives: a response, one of the transient exceptions that are tried again, a
  \<open>BadRequestError\<close>, or another exception.
\<close>

datatype 'r api_reply =
    Response 'r
  | Transient string
  | BadRequest string
  | ApiFailed string

text \<open>Up to \<open>retries\<close> more calls after transient exceptions.\<close>

fun retry_on_exception :: "nat \<Rightarrow> ('w \<Rightarrow> 'r api_reply \<times> 'w) \<Rightarrow> 'w \<Rightarrow> 'r api_reply \<times> 'w" where
  "retry_on_exception retries fn w =
     (case fn w of
        (Transient e, w') \<Rightarrow> (case retries of 0 \<Rightarrow> (Transient e, w') | Suc n \<Rightarrow> retry_on_exception n fn w')
      | r \<Rightarrow> r)"

declare retry_on_exception.simps [simp del]

section \<open>What a backend offers\<close>

text \<open>
  The operations of \<open>InferenceProtocol\<close> on a backend whose state, with the service behind it, has type \<open>'i\<close>. A
  message of a history is a JSON object.
\<close>

type_synonym message = "(string, json) dict"

record 'i backend =
  complete :: "tool_schema list \<Rightarrow> inference_config \<Rightarrow> ('i, turn_result) eff"
  add_user_message :: "string \<Rightarrow> 'i \<Rightarrow> 'i"
  add_tool_results :: "tool_result list \<Rightarrow> 'i \<Rightarrow> 'i"
  set_system_prompt :: "string \<Rightarrow> 'i \<Rightarrow> 'i"
  get_system_prompt :: "'i \<Rightarrow> string"
  reset_history :: "'i \<Rightarrow> 'i"
  get_messages :: "'i \<Rightarrow> message list"
  replace_history :: "string \<Rightarrow> 'i \<Rightarrow> 'i"
  replace_messages :: "message list \<Rightarrow> ('i, unit) eff"
  cleanup_interrupted :: "'i \<Rightarrow> 'i"
  model_name :: "'i \<Rightarrow> string"

text \<open>The message list with the system prompt in front, when there is one.\<close>

definition with_system :: "string \<Rightarrow> message list \<Rightarrow> message list" where
  "with_system prompt ms = (if prompt = [] then ms else [(''role'', JStr ''system''), (''content'', JStr prompt)] # ms)"

definition user_message :: "string \<Rightarrow> message" where
  "user_message content = [(''role'', JStr ''user''), (''content'', JStr content)]"

definition not_system :: "message \<Rightarrow> bool" where
  "not_system m = (dget m ''role'' \<noteq> Some (JStr ''system''))"

definition is_assistant :: "json \<Rightarrow> bool" where
  "is_assistant role \<longleftrightarrow> role = JStr ''assistant'' \<or> role = JStr ''model''"

definition summary_text :: "string \<Rightarrow> string" where
  "summary_text summary = ''[Context summary of previous conversation]'' @ [nl, nl] @ summary"

lemma not_system_user [simp]: "not_system (user_message c)"
  by (simp add: not_system_def user_message_def)

end
