(* ===== verification/Openai_Backend.thy ===== *)
theory Openai_Backend
  imports Inference
begin

text \<open>
  \<open>core/inference/openai_api.py\<close>: the backend for services with the interface of OpenAI. The history is a list
  of message objects; the service \<open>api\<close> answers a request and changes its own state. The call ids the code makes up
  for an answer without one come with the answer.
\<close>

section \<open>What the service sends\<close>

text \<open>
  A tool call of an answer: a dict, or an object of the library with its \<open>function\<close> (name and arguments),
  its id and the fields the library does not know, of which only \<open>extra_content\<close> is read.
\<close>

datatype raw_call =
    RawDict "(string, json) dict"
  | RawObj "(string \<times> string) option" string "json option"

record openai_usage =
  ou_prompt :: int
  ou_completion :: int
  ou_total :: int
  ou_cached :: "int option"

record openai_choice =
  oc_content :: "string option"
  oc_reasoning_content :: "string option"
  oc_reasoning :: "string option"
  oc_thinking :: "string option"
  oc_calls :: "raw_call list"
  oc_finish :: "string option"

record openai_response =
  or_choices :: "openai_choice list"
  or_usage :: "openai_usage option"
  or_model :: string
  or_id :: string

record openai_request =
  rq_model :: string
  rq_messages :: "message list"
  rq_params :: "(string, rat) dict"
  rq_tools :: "json list option"
  rq_think :: bool

type_synonym 'w openai_api = "'w \<Rightarrow> openai_request \<Rightarrow> openai_response api_reply \<times> 'w"

record 'w openai =
  oa_model :: string
  oa_retries :: nat
  oa_is_local :: bool
  oa_system :: string
  oa_messages :: "message list"
  oa_service :: 'w

section \<open>Helpers\<close>

text \<open>\<open>extra_content.google.thought_signature\<close>, where it is there.\<close>

definition google_signature :: "json option \<Rightarrow> json" where
  "google_signature extra =
     (case extra of
        Some (JObj ec) \<Rightarrow> (case dget ec ''google'' of
            Some (JObj g) \<Rightarrow> dget_or g ''thought_signature'' JNull
          | _ \<Rightarrow> JNull)
      | _ \<Rightarrow> JNull)"

definition extract_thought_signature :: "raw_call \<Rightarrow> string" where
  "extract_thought_signature call =
     (case call of
        RawObj fn cid extra \<Rightarrow> (let sig = google_signature extra in if truthy sig then str_json sig else [])
      | RawDict d \<Rightarrow> (case dget d ''extra_content'' of
            Some (JObj ec) \<Rightarrow> (case dget ec ''google'' of
                Some (JObj g) \<Rightarrow> str_json (dget_or g ''thought_signature'' (JStr ''''))
              | _ \<Rightarrow> [])
          | _ \<Rightarrow> []))"

text \<open>Arguments that are not JSON mark the call as cut off.\<close>

definition invalid_json :: "(string \<Rightarrow> string) \<Rightarrow> string \<Rightarrow> bool result" where
  "invalid_json msg s =
     (case loads msg s of Inr _ \<Rightarrow> Inr False | Inl (JSONDecodeError _) \<Rightarrow> Inr True | Inl e \<Rightarrow> Inl e)"

definition build_tool_call :: "(string \<Rightarrow> string) \<Rightarrow> string \<Rightarrow> string \<Rightarrow> string \<Rightarrow> nat \<Rightarrow> string \<Rightarrow> tool_call result" where
  "build_tool_call msg name arguments cid index sig =
     rbind (invalid_json msg arguments) (\<lambda>truncated.
     Inr \<lparr>tc_id = (if cid = [] then ''call_'' @ str_nat index else cid), tc_name = name, tc_arguments = arguments,
          tc_thought = sig, tc_truncated = truncated\<rparr>)"

definition str_or :: "json \<Rightarrow> string \<Rightarrow> string" where
  "str_or v d = (if truthy v then str_json v else d)"

definition normalize_tool_call :: "(string \<Rightarrow> string) \<Rightarrow> nat \<Rightarrow> raw_call \<Rightarrow> tool_call result" where
  "normalize_tool_call msg idx call =
     (case call of
        RawDict d \<Rightarrow>
          (let fn = (let v = dget_or d ''function'' JNull in if truthy v then v else JObj [])
           in rbind (pget fn ''name'' JNull) (\<lambda>name. rbind (pget fn ''arguments'' JNull) (\<lambda>arguments.
                build_tool_call msg (str_or name []) (str_or arguments ''{}'') (str_or (dget_or d ''id'' JNull) []) idx
                  (extract_thought_signature call))))
      | RawObj fn cid extra \<Rightarrow>
          (let (name, arguments) = (case fn of Some na \<Rightarrow> na | None \<Rightarrow> ([], ''{}''))
           in build_tool_call msg name arguments cid idx (extract_thought_signature call)))"

definition normalize_tool_calls :: "(string \<Rightarrow> string) \<Rightarrow> raw_call list \<Rightarrow> tool_call list result" where
  "normalize_tool_calls msg calls =
     mapM (\<lambda>(idx, call). normalize_tool_call msg idx call) (zip [0..<length calls] calls)"

definition schemas_to_openai :: "tool_schema list \<Rightarrow> json list" where
  "schemas_to_openai ts = map (\<lambda>t. JObj [(''type'', JStr ''function''),
     (''function'', JObj [(''name'', JStr (ts_name t)), (''description'', JStr (ts_description t)),
       (''parameters'', ts_parameters t)])]) ts"

definition tool_results_to_messages :: "tool_result list \<Rightarrow> message list" where
  "tool_results_to_messages rs = map (\<lambda>r. [(''role'', JStr ''tool''), (''tool_call_id'', JStr (tr_call_id r)),
     (''content'', JStr (tr_content r))]) rs"

definition extract_reasoning :: "openai_choice \<Rightarrow> string" where
  "extract_reasoning c =
     (case filter (\<lambda>v. v \<noteq> None \<and> v \<noteq> Some []) [oc_reasoning_content c, oc_reasoning c, oc_thinking c] of
        Some s # _ \<Rightarrow> s
      | _ \<Rightarrow> [])"

definition get_inference_params :: "inference_config \<Rightarrow> (string, rat) dict" where
  "get_inference_params c =
     (case ic_temperature c of Some t \<Rightarrow> [(''temperature'', t)] | None \<Rightarrow> []) @
     (case ic_max_tokens c of Some n \<Rightarrow> [(''max_tokens'', of_int n)] | None \<Rightarrow> []) @
     (case ic_top_p c of Some p \<Rightarrow> [(''top_p'', p)] | None \<Rightarrow> [])"

section \<open>The conversation\<close>

definition tool_call_json :: "tool_call \<Rightarrow> json" where
  "tool_call_json tc = JObj ([(''id'', JStr (tc_id tc)), (''type'', JStr ''function''),
     (''function'', JObj [(''name'', JStr (tc_name tc)), (''arguments'', JStr (tc_arguments tc))])] @
     (if tc_thought tc = [] then []
      else [(''extra_content'', JObj [(''google'', JObj [(''thought_signature'', JStr (tc_thought tc))])])]))"

definition assistant_message :: "string \<Rightarrow> string \<Rightarrow> tool_call list \<Rightarrow> message" where
  "assistant_message text thinking calls =
     [(''role'', JStr ''assistant''), (''content'', JStr text)] @
     (if thinking = [] then [] else [(''thinking'', JStr thinking)]) @
     (if calls = [] then [] else [(''tool_calls'', JArr (map tool_call_json calls))])"

definition append_message :: "message \<Rightarrow> 'w openai \<Rightarrow> 'w openai" where
  "append_message m s = s\<lparr>oa_messages := oa_messages s @ [m]\<rparr>"

definition openai_add_user_message :: "string \<Rightarrow> 'w openai \<Rightarrow> 'w openai" where
  "openai_add_user_message content s = append_message (user_message content) s"

definition openai_add_tool_results :: "tool_result list \<Rightarrow> 'w openai \<Rightarrow> 'w openai" where
  "openai_add_tool_results rs s = s\<lparr>oa_messages := oa_messages s @ tool_results_to_messages rs\<rparr>"

definition openai_get_messages :: "'w openai \<Rightarrow> message list" where
  "openai_get_messages s = with_system (oa_system s) (oa_messages s)"

definition build_messages_for_api :: "'w openai \<Rightarrow> message list" where
  "build_messages_for_api s = with_system (oa_system s) (oa_messages s)"

definition openai_replace_history :: "string \<Rightarrow> 'w openai \<Rightarrow> 'w openai" where
  "openai_replace_history summary s = s\<lparr>oa_messages := [user_message (summary_text summary)]\<rparr>"

definition openai_replace_messages :: "message list \<Rightarrow> ('w openai, unit) eff" where
  "openai_replace_messages ms = modifyE (\<lambda>s. s\<lparr>oa_messages := filter not_system ms\<rparr>)"

text \<open>The messages \<open>cleanup_interrupted\<close> takes off the end.\<close>

definition unfinished :: "message \<Rightarrow> bool" where
  "unfinished m =
     (let role = dget_or m ''role'' (JStr ''''); content = dget_or m ''content'' (JStr '''')
      in role = JStr ''tool'' \<or>
         (role = JStr ''assistant'' \<and>
          (truthy (dget_or m ''tool_calls'' JNull) \<or> \<not> truthy content \<or>
           (case content of JStr s \<Rightarrow> strip s = [] | _ \<Rightarrow> False))))"

definition openai_cleanup_interrupted :: "'w openai \<Rightarrow> 'w openai" where
  "openai_cleanup_interrupted s = s\<lparr>oa_messages := rev (dropWhile unfinished (rev (oa_messages s)))\<rparr>"

section \<open>A completion\<close>

definition ask_service :: "'w openai_api \<Rightarrow> openai_request \<Rightarrow> 'w openai \<Rightarrow> openai_response api_reply \<times> 'w openai" where
  "ask_service api rq s =
     (case retry_on_exception (oa_retries s) (\<lambda>w. api w rq) (oa_service s) of (r, w) \<Rightarrow> (r, s\<lparr>oa_service := w\<rparr>))"

text \<open>An exception of the service, with \<open>BadRequestError\<close> for a long prompt turned into \<open>PromptTooLongError\<close>.\<close>

definition raise_reply :: "'r api_reply \<Rightarrow> 'r result" where
  "raise_reply r =
     (case r of
        Response x \<Rightarrow> Inr x
      | Transient e \<Rightarrow> Inl (APIError e)
      | ApiFailed e \<Rightarrow> Inl (APIError e)
      | BadRequest e \<Rightarrow> Inl (if is_prompt_too_long_message e then PromptTooLongError e else APIError e))"

definition openai_request_of :: "tool_schema list \<Rightarrow> inference_config \<Rightarrow> 'w openai \<Rightarrow> openai_request" where
  "openai_request_of tools config s =
     \<lparr>rq_model = oa_model s, rq_messages = build_messages_for_api s, rq_params = get_inference_params config,
      rq_tools = (if tools = [] then None else Some (schemas_to_openai tools)), rq_think = oa_is_local s\<rparr>"

definition openai_usage_of :: "openai_usage option \<Rightarrow> token_usage" where
  "openai_usage_of u =
     (case u of
        None \<Rightarrow> no_usage
      | Some v \<Rightarrow> \<lparr>tu_input = ou_prompt v, tu_output = ou_completion v, tu_cached = (case ou_cached v of Some c \<Rightarrow> c | None \<Rightarrow> 0),
          tu_creation = 0, tu_total = ou_total v\<rparr>)"

text \<open>A request that fails because the model has no tools is made again without them.\<close>

definition request_reply :: "'w openai_api \<Rightarrow> openai_request \<Rightarrow> ('w openai, openai_response) eff" where
  "request_reply api rq = (\<lambda>s.
     case ask_service api rq s of
       (BadRequest e, s') \<Rightarrow>
         (if \<not> is_prompt_too_long_message e \<and> contains (lower e) ''does not support tools'' \<and> rq_tools rq \<noteq> None
          then (case ask_service api (rq\<lparr>rq_tools := None\<rparr>) s' of
                  (BadRequest e', s'') \<Rightarrow> (Inl (APIError e'), s'')
                | (r, s'') \<Rightarrow> (raise_reply r, s''))
          else (raise_reply (BadRequest e), s'))
     | (r, s') \<Rightarrow> (raise_reply r, s'))"

definition turn_of :: "(string \<Rightarrow> string) \<Rightarrow> openai_response \<Rightarrow> turn_result result" where
  "turn_of msg r =
     (case or_choices r of
        [] \<Rightarrow> Inl IndexError
      | c # _ \<Rightarrow>
          rbind (normalize_tool_calls msg (oc_calls c)) (\<lambda>calls.
          Inr \<lparr>tn_text = (case oc_content c of Some t \<Rightarrow> t | None \<Rightarrow> []), tn_thinking = extract_reasoning c, tn_calls = calls,
               tn_usage = openai_usage_of (or_usage r), tn_model = or_model r, tn_call_id = or_id r,
               tn_finish = (case oc_finish c of Some f \<Rightarrow> f | None \<Rightarrow> [])\<rparr>))"

definition openai_complete :: "'w openai_api \<Rightarrow> (string \<Rightarrow> string) \<Rightarrow> tool_schema list \<Rightarrow> inference_config \<Rightarrow> ('w openai, turn_result) eff" where
  "openai_complete api msg tools config =
     bindE (getsE (openai_request_of tools config)) (\<lambda>rq.
     bindE (request_reply api rq) (\<lambda>response.
     bindE (liftE (turn_of msg response)) (\<lambda>turn.
     seqE (modifyE (append_message (assistant_message (tn_text turn) (tn_thinking turn) (tn_calls turn))))
       (ret turn))))"

definition openai_backend :: "'w openai_api \<Rightarrow> (string \<Rightarrow> string) \<Rightarrow> 'w openai backend" where
  "openai_backend api msg =
     \<lparr>complete = openai_complete api msg, add_user_message = openai_add_user_message,
      add_tool_results = openai_add_tool_results, set_system_prompt = (\<lambda>p s. s\<lparr>oa_system := p\<rparr>),
      get_system_prompt = oa_system, reset_history = (\<lambda>s. s\<lparr>oa_messages := []\<rparr>),
      get_messages = openai_get_messages, replace_history = openai_replace_history,
      replace_messages = openai_replace_messages, cleanup_interrupted = openai_cleanup_interrupted,
      model_name = oa_model\<rparr>"

end
