(* ===== verification/Backend_Interface.thy ===== *)
theory Backend_Interface
  imports Inference
begin

text \<open>
  What the agent loop relies on in a backend. \<open>history\<close> is the conversation without the system prompt, and
  \<open>opens\<close> the ids of the tool calls that wait for a result at the end of a conversation, or \<open>None\<close> for a
  conversation the service would refuse.
\<close>

locale chat_backend =
  fixes b :: "'i backend"
    and history :: "'i \<Rightarrow> message list"
    and opens :: "message list \<Rightarrow> string list option"
    and msg :: "string \<Rightarrow> string"
  assumes messages: "get_messages b i = with_system (get_system_prompt b i) (history i)"
    and set_prompt: "history (set_system_prompt b p i) = history i"
      "get_system_prompt b (set_system_prompt b p i) = p"
    and user: "history (add_user_message b c i) = history i @ [user_message c]"
      "get_system_prompt b (add_user_message b c i) = get_system_prompt b i"
    and results_prompt: "get_system_prompt b (add_tool_results b rs i) = get_system_prompt b i"
    and results_roles: "list_all not_system (history i) \<Longrightarrow> list_all not_system (history (add_tool_results b rs i))"
    and reset: "history (reset_history b i) = []" "get_system_prompt b (reset_history b i) = get_system_prompt b i"
    and replaced: "history (replace_history b t i) = [user_message (summary_text t)]"
      "get_system_prompt b (replace_history b t i) = get_system_prompt b i"
    and restored: "\<exists>j. replace_messages b ms i = (Inr (), j) \<and> history j = filter not_system ms \<and>
      get_system_prompt b j = get_system_prompt b i"
    and completed: "complete b ts cfg i = (Inr r, j) \<Longrightarrow> \<exists>m. history j = history i @ [m] \<and> not_system m"
    and completed_open: "complete b ts cfg i = (Inr r, j) \<Longrightarrow> opens (history i) = Some [] \<Longrightarrow>
      opens (history j) = Some (map tc_id (tn_calls r))"
    and not_completed: "complete b ts cfg i = (Inl e, j) \<Longrightarrow> history j = history i"
    and completed_prompt: "complete b ts cfg i = (q, j) \<Longrightarrow> get_system_prompt b j = get_system_prompt b i"
    and empty_open: "opens [] = Some []"
    and user_open: "opens ms = Some [] \<Longrightarrow> opens (ms @ [user_message c]) = Some []"
    and results_open: "opens (history i) = Some (map tr_call_id rs) \<Longrightarrow> rs \<noteq> [] \<Longrightarrow>
      opens (history (add_tool_results b rs i)) = Some []"
    and settled: "opens (ms @ [m]) = Some [] \<Longrightarrow> is_assistant (dget_or m ''role'' JNull) \<Longrightarrow>
      extract_assistant msg m = Inr x \<Longrightarrow> xa_calls x = []"

text \<open>A backend whose tool calls have an id, and arguments that parse unless they were cut off.\<close>

locale tool_backend = chat_backend +
  assumes call_ids: "complete b ts cfg i = (Inr r, j) \<Longrightarrow> [] \<notin> tc_id ` set (tn_calls r)"
    and call_arguments: "complete b ts cfg i = (Inr r, j) \<Longrightarrow> tc \<in> set (tn_calls r) \<Longrightarrow> \<not> tc_truncated tc \<Longrightarrow>
      \<exists>v. loads msg (tc_arguments tc) = Inr v"

end
