(* ===== verification/Openai_Correct.thy ===== *)
theory Openai_Correct
  imports Openai_Backend Backend_Interface
begin

text \<open>
  The backend for OpenAI keeps the contract of \<open>Backend_Interface\<close>: every tool message answers the next call of
  the assistant message before it, in order.
\<close>

section \<open>Conversations the service accepts\<close>

fun id_of_call :: "json \<Rightarrow> string option" where
  "id_of_call (JObj d) = (case dget d ''id'' of Some (JStr s) \<Rightarrow> Some s | _ \<Rightarrow> None)"
| "id_of_call v = None"

definition is_text :: "json option \<Rightarrow> bool" where
  "is_text v = (case v of Some (JStr _) \<Rightarrow> True | _ \<Rightarrow> False)"

definition openai_step :: "message \<Rightarrow> string list \<Rightarrow> string list option" where
  "openai_step m waiting =
     (let role = dget m ''role''
      in if role = Some (JStr ''user'') then (if waiting = [] then Some [] else None)
         else if role = Some (JStr ''assistant'') then
           (if waiting = [] \<and> is_text (dget m ''content'') \<and> dget m ''parts'' = None
            then case dget m ''tool_calls'' of
                None \<Rightarrow> Some []
              | Some (JArr cs) \<Rightarrow> those (map id_of_call cs)
              | _ \<Rightarrow> None
            else None)
         else if role = Some (JStr ''tool'') then
           (case (dget m ''tool_call_id'', waiting) of
              (Some (JStr i), j # rest) \<Rightarrow> if i = j then Some rest else None
            | _ \<Rightarrow> None)
         else None)"

definition openai_open :: "message list \<Rightarrow> string list option" where
  "openai_open ms = foldl (\<lambda>w m. Option.bind w (openai_step m)) (Some []) ms"

lemma those_Nil [simp]: "those xs = Some [] \<longleftrightarrow> xs = []"
  by (cases xs) (auto split: option.splits)

lemma openai_open_snoc: "openai_open (ms @ [m]) = Option.bind (openai_open ms) (openai_step m)"
  by (simp add: openai_open_def)

lemma openai_open_append: "openai_open (ms @ ns) = foldl (\<lambda>w m. Option.bind w (openai_step m)) (openai_open ms) ns"
  by (simp add: openai_open_def)

lemma step_user [simp]: "openai_step (user_message c) [] = Some []"
  by (simp add: openai_step_def user_message_def)

lemma those_ids: "those (map (id_of_call \<circ> tool_call_json) calls) = Some (map tc_id calls)"
  by (induction calls) (auto simp: tool_call_json_def)

lemma step_assistant: "openai_step (assistant_message text thinking calls) [] = Some (map tc_id calls)"
  using those_ids [of calls]
  by (auto simp: openai_step_def assistant_message_def is_text_def Let_def comp_def)

lemma steps_results:
  "foldl (\<lambda>w m. Option.bind w (openai_step m)) (Some (map tr_call_id rs)) (tool_results_to_messages rs) = Some []"
  by (induction rs) (auto simp: openai_step_def tool_results_to_messages_def)

section \<open>Completions\<close>

lemma ask_service_frame:
  "ask_service api rq s = (r, s') \<Longrightarrow> oa_messages s' = oa_messages s \<and> oa_system s' = oa_system s"
  by (auto simp: ask_service_def split: prod.splits)

lemma request_reply_frame:
  "request_reply api rq s = (r, s') \<Longrightarrow> oa_messages s' = oa_messages s \<and> oa_system s' = oa_system s"
  by (auto simp: request_reply_def raise_reply_def split: prod.splits api_reply.splits if_splits dest!: ask_service_frame)

lemma openai_complete_cases:
  assumes "openai_complete api msg ts c s = (r, s')"
  shows "oa_system s' = oa_system s"
    and "r = Inl e \<Longrightarrow> oa_messages s' = oa_messages s"
    and "r = Inr t \<Longrightarrow> oa_messages s' = oa_messages s @ [assistant_message (tn_text t) (tn_thinking t) (tn_calls t)] \<and>
      (\<exists>p. turn_of msg p = Inr t)"
proof -
  obtain q s1 where q: "request_reply api (openai_request_of ts c s) s = (q, s1)" by fastforce
  note f = request_reply_frame [OF q]
  show "oa_system s' = oa_system s" "r = Inl e \<Longrightarrow> oa_messages s' = oa_messages s"
    "r = Inr t \<Longrightarrow> oa_messages s' = oa_messages s @ [assistant_message (tn_text t) (tn_thinking t) (tn_calls t)] \<and>
      (\<exists>p. turn_of msg p = Inr t)"
    using assms q f
    by (auto simp: openai_complete_def eff_simps liftE_def append_message_def split: sum.splits prod.splits)
qed

lemma built_call:
  "build_tool_call msg name arguments cid index sig = Inr tc \<Longrightarrow>
     tc_id tc \<noteq> [] \<and> (\<not> tc_truncated tc \<longrightarrow> (\<exists>v. loads msg (tc_arguments tc) = Inr v))"
  by (auto simp: build_tool_call_def invalid_json_def split: sum.splits py_error.splits if_splits)

lemma normalized_call:
  "normalize_tool_call msg idx call = Inr tc \<Longrightarrow>
     tc_id tc \<noteq> [] \<and> (\<not> tc_truncated tc \<longrightarrow> (\<exists>v. loads msg (tc_arguments tc) = Inr v))"
  by (auto simp: normalize_tool_call_def Let_def split: raw_call.splits option.splits prod.splits dest: built_call)

lemma turn_calls:
  assumes "turn_of msg p = Inr t" "tc \<in> set (tn_calls t)"
  shows "tc_id tc \<noteq> [] \<and> (\<not> tc_truncated tc \<longrightarrow> (\<exists>v. loads msg (tc_arguments tc) = Inr v))"
proof -
  have "\<exists>c :: openai_choice. normalize_tool_calls msg (oc_calls c) = Inr (tn_calls t)"
    using assms(1) by (auto simp: turn_of_def split: list.splits)
  with assms(2) show ?thesis
    by (auto simp: normalize_tool_calls_def dest!: mapM_Inr_mem normalized_call)
qed

section \<open>The contract\<close>

lemma settled_openai:
  assumes "openai_open (ms @ [m]) = Some []" "is_assistant (dget_or m ''role'' JNull)" "extract_assistant msg m = Inr x"
  shows "xa_calls x = []"
proof -
  obtain w where w: "openai_step m w = Some []" using assms(1) by (auto simp: openai_open_snoc bind_eq_Some_conv)
  then have c: "is_text (dget m ''content'')" "dget m ''parts'' = None"
    "dget m ''tool_calls'' = None \<or> dget m ''tool_calls'' = Some (JArr [])"
    using assms(2)
    by (auto simp: openai_step_def is_assistant_def dget_or_def Let_def split: if_splits option.splits json.splits list.splits)
  then show ?thesis using assms(3)
    by (auto simp: extract_assistant_def is_text_def dget_or_def Let_def extract_openai_tool_calls_def
        split: option.splits json.splits)
qed

interpretation openai: tool_backend "openai_backend api msg" oa_messages openai_open msg for api msg
proof
  show "\<exists>j. replace_messages (openai_backend api msg) ms i = (Inr (), j) \<and> oa_messages j = filter not_system ms \<and>
      get_system_prompt (openai_backend api msg) j = get_system_prompt (openai_backend api msg) i" for ms i
    by (auto simp: openai_backend_def openai_replace_messages_def eff_simps)
  show "\<exists>m. oa_messages j = oa_messages i @ [m] \<and> not_system m"
    if "complete (openai_backend api msg) ts c i = (Inr r, j)" for ts c i r j
    using openai_complete_cases(3) [of api msg ts c i _ j r] that
    by (auto simp: openai_backend_def not_system_def assistant_message_def)
  show "openai_open (oa_messages j) = Some (map tc_id (tn_calls r))"
    if "complete (openai_backend api msg) ts c i = (Inr r, j)" "openai_open (oa_messages i) = Some []" for ts c i r j
    using openai_complete_cases(3) [of api msg ts c i _ j r] that
    by (auto simp: openai_backend_def openai_open_snoc step_assistant)
  show "oa_messages j = oa_messages i" if "complete (openai_backend api msg) ts c i = (Inl e, j)" for ts c i e j
    using openai_complete_cases(2) [of api msg ts c i _ j e] that by (simp add: openai_backend_def)
  show "get_system_prompt (openai_backend api msg) j = get_system_prompt (openai_backend api msg) i"
    if "complete (openai_backend api msg) ts c i = (q, j)" for ts c i q j
    using openai_complete_cases(1) [of api msg ts c i q j] that by (simp add: openai_backend_def)
  show "openai_open (oa_messages (add_tool_results (openai_backend api msg) rs i)) = Some []"
    if "openai_open (oa_messages i) = Some (map tr_call_id rs)" for i rs
    using that by (simp add: openai_backend_def openai_add_tool_results_def openai_open_append steps_results)
  show "[] \<notin> tc_id ` set (tn_calls r)" if "complete (openai_backend api msg) ts c i = (Inr r, j)" for ts c i r j
    using openai_complete_cases(3) [of api msg ts c i _ j r] that turn_calls by (fastforce simp: openai_backend_def)
  show "\<exists>v. loads msg (tc_arguments tc) = Inr v"
    if "complete (openai_backend api msg) ts c i = (Inr r, j)" "tc \<in> set (tn_calls r)" "\<not> tc_truncated tc" for ts c i r j tc
    using openai_complete_cases(3) [of api msg ts c i _ j r] that turn_calls by (fastforce simp: openai_backend_def)
  show "xa_calls x = []"
    if "openai_open (ms @ [m]) = Some []" "is_assistant (dget_or m ''role'' JNull)" "extract_assistant msg m = Inr x" for ms m x
    using settled_openai that by blast
qed (auto simp: openai_backend_def openai_get_messages_def openai_add_user_message_def append_message_def
    openai_add_tool_results_def openai_replace_history_def tool_results_to_messages_def not_system_def list_all_iff
    openai_open_snoc, simp add: openai_open_def)

section \<open>Reading messages back\<close>

definition extracted :: "(string \<Rightarrow> string) \<Rightarrow> tool_call \<Rightarrow> extracted_call" where
  "extracted msg tc = \<lparr>xc_id = tc_id tc, xc_name = tc_name tc,
     xc_arguments = (case loads msg (tc_arguments tc) of Inr v \<Rightarrow> v | Inl _ \<Rightarrow> JObj [])\<rparr>"

definition readable :: "(string \<Rightarrow> string) \<Rightarrow> tool_call \<Rightarrow> bool" where
  "readable msg tc \<longleftrightarrow> (case loads msg (tc_arguments tc) of Inl (JSONDecodeError _) \<Rightarrow> True | Inl _ \<Rightarrow> False | Inr _ \<Rightarrow> True)"

lemma openai_call_json: "readable msg tc \<Longrightarrow> openai_call msg (tool_call_json tc) = Inr (extracted msg tc)"
  by (auto simp: openai_call_def tool_call_json_def extracted_def readable_def dget_or_def call_arguments_def
      split: sum.splits py_error.splits)

text \<open>What the backend appended for an answer is read back from the message: the text, the thinking and every call with
  its id, name and parsed arguments (none where they do not parse).\<close>

theorem appended_message_read_back:
  assumes "\<And>tc. tc \<in> set calls \<Longrightarrow> readable msg tc"
  shows "extract_assistant msg (assistant_message content thinking calls) =
    Inr \<lparr>xa_text = content, xa_thinking = thinking, xa_calls = map (extracted msg) calls\<rparr>"
proof -
  have "mapM (openai_call msg) (map tool_call_json calls) = Inr (map (extracted msg) calls)"
    using assms by (induction calls) (auto simp: openai_call_json)
  then show ?thesis
    by (auto simp: extract_assistant_def assistant_message_def dget_or_def extract_openai_tool_calls_def Let_def)
qed

lemma appended_message_read_back_witness:
  "extract_assistant id (assistant_message ''a'' ''b'' [\<lparr>tc_id = ''c'', tc_name = ''look'', tc_arguments = ''[1]'', tc_thought = [], tc_truncated = False\<rparr>]) =
   Inr \<lparr>xa_text = ''a'', xa_thinking = ''b'', xa_calls = [\<lparr>xc_id = ''c'', xc_name = ''look'', xc_arguments = JArr [JInt 1]\<rparr>]\<rparr>"
proof -
  have l: "loads id ''[1]'' = Inr (JArr [JInt 1])" by code_simp
  show ?thesis by (subst appended_message_read_back) (simp_all add: readable_def extracted_def l)
qed

end
