(* ===== verification/Mcp_Manager.thy ===== *)
theory Mcp_Manager
  imports Inference
begin

text \<open>
  \<open>core/mcp/manager.py\<close> and \<open>core/mcp/bridge.py\<close>: the sessions with tool servers, which server has which tool, and
  the conversion of tools and results. The client library is the record \<open>mcp_net\<close>: connecting,
  listing tools, calling a tool, closing, and the callback that restarts a server, each on a state of its own.
\<close>

section \<open>Tools and results of a server\<close>

record mcp_tool =
  mt_name :: string
  mt_description :: "string option"
  mt_schema :: "(string, json) dict"

datatype content_block = TextContent string | OtherContent string

record call_result =
  cr_blocks :: "content_block list"
  cr_is_error :: bool
  cr_structured :: json

text \<open>A configuration: the rest of it is only passed to the client library.\<close>

record mcp_config =
  cf_key :: string
  cf_reconnect :: bool
  cf_rest :: string

type_synonym session = nat

record 'w mcp_net =
  net_connect :: "mcp_config \<Rightarrow> ('w, session) eff"
  net_list :: "session \<Rightarrow> ('w, mcp_tool list) eff"
  net_call :: "session \<Rightarrow> string \<Rightarrow> json \<Rightarrow> ('w, call_result) eff"
  net_close :: "session \<Rightarrow> ('w, unit) eff"
  net_restart :: "mcp_config \<Rightarrow> ('w, mcp_config) eff"

record 'w manager =
  mg_configs :: "(string, mcp_config) dict"
  mg_tool_to_server :: "(string, string) dict"
  mg_server_to_tools :: "(string, string list) dict"
  mg_tools :: "(string, mcp_tool) dict"
  mg_sessions :: "(string, session) dict"
  mg_discovered :: bool
  mg_net :: 'w

definition new_manager :: "mcp_config list \<Rightarrow> 'w \<Rightarrow> 'w manager result" where
  "new_manager cfgs w =
     (if cfgs = [] then Inl (ValueError ''server_configs cannot be empty'')
      else Inr \<lparr>mg_configs = foldl (\<lambda>d c. dset d (cf_key c) c) [] cfgs, mg_tool_to_server = [],
        mg_server_to_tools = [], mg_tools = [], mg_sessions = [], mg_discovered = False, mg_net = w\<rparr>)"

text \<open>An operation of the client library on the manager's state.\<close>

definition on_net :: "('w, 'a) eff \<Rightarrow> ('w manager, 'a) eff" where
  "on_net m = (\<lambda>s. case m (mg_net s) of (r, w) \<Rightarrow> (r, s\<lparr>mg_net := w\<rparr>))"

section \<open>Sessions\<close>

definition get_session :: "'w mcp_net \<Rightarrow> string \<Rightarrow> ('w manager, session) eff" where
  "get_session net key = (\<lambda>s.
     case dget (mg_sessions s) key of
       Some c \<Rightarrow> (Inr c, s)
     | None \<Rightarrow>
         (case dget (mg_configs s) key of
            None \<Rightarrow> (Inl (KeyError key), s)
          | Some cfg \<Rightarrow>
              bindE (on_net (net_connect net cfg)) (\<lambda>c.
                seqE (modifyE (\<lambda>s. s\<lparr>mg_sessions := dset (mg_sessions s) key c\<rparr>)) (ret c)) s))"

definition drop_session :: "string \<Rightarrow> ('w manager, unit) eff" where
  "drop_session key = modifyE (\<lambda>s. s\<lparr>mg_sessions := ddel (mg_sessions s) key\<rparr>)"

definition close_ignored :: "'w mcp_net \<Rightarrow> session \<Rightarrow> ('w manager, unit) eff" where
  "close_ignored net c = catchE (on_net (net_close net c)) (\<lambda>_. ret ())"

section \<open>Discovery\<close>

record discovery =
  ds_tools :: "(string, string) dict"
  ds_servers :: "(string, string list) dict"
  ds_by_name :: "(string, mcp_tool) dict"

definition duplicate_tool :: "string \<Rightarrow> string \<Rightarrow> py_error" where
  "duplicate_tool name key = ValueError (''Duplicate tool '' @ squote name @ '' from server '' @ squote key @ ''.'')"

fun add_tools :: "string \<Rightarrow> mcp_tool list \<Rightarrow> discovery \<Rightarrow> discovery result" where
  "add_tools key [] d = Inr d"
| "add_tools key (t # ts) d =
     (let name = mt_name t
      in if has_key (ds_tools d) name then Inl (duplicate_tool name key)
         else add_tools key ts \<lparr>ds_tools = dset (ds_tools d) name key,
           ds_servers = dmodify (ds_servers d) key (\<lambda>ns. if name \<in> set ns then ns else ns @ [name]),
           ds_by_name = dset (ds_by_name d) name t\<rparr>)"

text \<open>The servers in turn; a server that cannot be reached is skipped.\<close>

fun discover_from :: "'w mcp_net \<Rightarrow> string list \<Rightarrow> discovery \<Rightarrow> ('w manager, discovery) eff" where
  "discover_from net [] d = ret d"
| "discover_from net (key # keys) d = (\<lambda>s.
     case get_session net key s of
       (Inl _, s') \<Rightarrow> discover_from net keys d s'
     | (Inr c, s') \<Rightarrow>
         (case on_net (net_list net c) s' of
            (Inl e, s'') \<Rightarrow> (Inl e, s'')
          | (Inr ts, s'') \<Rightarrow>
              (case add_tools key ts d of
                 Inl e \<Rightarrow> (Inl e, s'')
               | Inr d' \<Rightarrow> discover_from net keys d' s'')))"

definition discover_tools :: "'w mcp_net \<Rightarrow> ('w manager, (string, string) dict) eff" where
  "discover_tools net = (\<lambda>s.
     case discover_from net (dkeys (mg_configs s))
            \<lparr>ds_tools = [], ds_servers = map (\<lambda>k. (k, [])) (dkeys (mg_configs s)), ds_by_name = []\<rparr> s of
       (Inl e, s') \<Rightarrow> (Inl e, s')
     | (Inr d, s') \<Rightarrow>
         (Inr (ds_tools d), s'\<lparr>mg_tool_to_server := ds_tools d, mg_server_to_tools := ds_servers d,
            mg_tools := ds_by_name d, mg_discovered := True\<rparr>))"

definition get_discovered_tools :: "'w manager \<Rightarrow> string list option \<Rightarrow> mcp_tool list" where
  "get_discovered_tools s names =
     (let wanted = (case names of None \<Rightarrow> dkeys (mg_tools s) | Some ns \<Rightarrow> filter (has_key (mg_tools s)) ns)
      in map (\<lambda>n. the (dget (mg_tools s) n)) (sort wanted))"

section \<open>Calling a tool\<close>

text \<open>The second attempt, after the server was restarted: a failure drops the session again.\<close>

definition call_after_restart :: "'w mcp_net \<Rightarrow> string \<Rightarrow> string \<Rightarrow> json \<Rightarrow> mcp_config \<Rightarrow> ('w manager, call_result) eff" where
  "call_after_restart net key name args cfg =
     catchE
       (bindE (on_net (net_restart net cfg)) (\<lambda>new_cfg.
        seqE (modifyE (\<lambda>s. s\<lparr>mg_configs := dset (mg_configs s) key new_cfg\<rparr>))
        (bindE (get_session net key) (\<lambda>c. on_net (net_call net c name args)))))
       (\<lambda>e. bindE (getsE (\<lambda>s. dget (mg_sessions s) key)) (\<lambda>failed.
          seqE (drop_session key)
          (seqE (case failed of Some c \<Rightarrow> close_ignored net c | None \<Rightarrow> ret ()) (throw e))))"

definition mcp_call_tool :: "'w mcp_net \<Rightarrow> string \<Rightarrow> json \<Rightarrow> ('w manager, call_result) eff" where
  "mcp_call_tool net name args =
     bindE (getsE mg_discovered) (\<lambda>known.
     seqE (if known then ret [] else discover_tools net)
     (bindE (getsE (\<lambda>s. dget (mg_tool_to_server s) name)) (\<lambda>server.
      case server of
        None \<Rightarrow> throw (KeyError (''Unknown tool '' @ squote name))
      | Some key \<Rightarrow>
          bindE (get_session net key) (\<lambda>c.
          catchE (on_net (net_call net c name args))
            (\<lambda>e. seqE (drop_session key) (seqE (close_ignored net c)
               (bindE (getsE (\<lambda>s. dget (mg_configs s) key)) (\<lambda>cfg.
                case cfg of
                  None \<Rightarrow> throw (KeyError key)
                | Some k \<Rightarrow> if cf_reconnect k then call_after_restart net key name args k else throw e))))))))"

fun close_each :: "'w mcp_net \<Rightarrow> session list \<Rightarrow> ('w manager, unit) eff" where
  "close_each net [] = ret ()"
| "close_each net (c # cs) = seqE (on_net (net_close net c)) (close_each net cs)"

definition close_all :: "'w mcp_net \<Rightarrow> ('w manager, unit) eff" where
  "close_all net = bindE (getsE (\<lambda>s. dvals (mg_sessions s))) (\<lambda>cs.
     seqE (close_each net cs) (modifyE (\<lambda>s. s\<lparr>mg_sessions := []\<rparr>)))"

section \<open>The bridge\<close>

definition setdefault :: "(string, json) dict \<Rightarrow> string \<Rightarrow> json \<Rightarrow> (string, json) dict" where
  "setdefault d k v = (if has_key d k then d else dset d k v)"

definition mcp_tools_to_schemas :: "mcp_tool list \<Rightarrow> string \<Rightarrow> tool_schema list" where
  "mcp_tools_to_schemas ts prefix =
     map (\<lambda>t.
       let schema = (if mt_schema t = [] then [(''type'', JStr ''object''), (''properties'', JObj [])] else mt_schema t);
           schema' = setdefault (setdefault schema ''type'' (JStr ''object'')) ''properties'' (JObj [])
       in \<lparr>ts_name = prefix @ mt_name t,
           ts_description = (case mt_description t of Some d \<Rightarrow> d | None \<Rightarrow> []), ts_parameters = JObj schema'\<rparr>) ts"

definition bad_arguments :: "string \<Rightarrow> string \<Rightarrow> json" where
  "bad_arguments error raw = JObj [(''_error'', JStr error), (''_raw'', JStr raw)]"

definition parse_tool_call_arguments :: "(string \<Rightarrow> string) \<Rightarrow> string \<Rightarrow> json result" where
  "parse_tool_call_arguments msg raw =
     (if raw = [] then Inr (JObj [])
      else case loads msg raw of
        Inl (JSONDecodeError _) \<Rightarrow> Inr (bad_arguments ''invalid_json_arguments'' raw)
      | Inl e \<Rightarrow> Inl e
      | Inr (JObj d) \<Rightarrow> Inr (JObj d)
      | Inr _ \<Rightarrow> Inr (bad_arguments ''arguments_not_object'' raw))"

text \<open>\<open>json.dumps(v, ensure_ascii=False)\<close>: the delete character is not escaped.\<close>

definition plain_char :: "char \<Rightarrow> string" where
  "plain_char c = (if c = CHR 0x7F then [c] else dump_char c)"

definition plain_str :: "string \<Rightarrow> string" where
  "plain_str s = [CHR 0x22] @ concat (map plain_char s) @ [CHR 0x22]"

fun dumps_plain :: "json \<Rightarrow> string" where
  "dumps_plain JNull = ''null''"
| "dumps_plain (JBool b) = (if b then ''true'' else ''false'')"
| "dumps_plain (JInt i) = str_int i"
| "dumps_plain (JStr s) = plain_str s"
| "dumps_plain (JArr xs) = ''['' @ join '', '' (map dumps_plain xs) @ '']''"
| "dumps_plain (JObj kvs) = ''{'' @ join '', '' (map (\<lambda>(k, v). plain_str k @ '': '' @ dumps_plain v) kvs) @ ''}''"

definition block_text :: "content_block \<Rightarrow> string" where
  "block_text b = (case b of TextContent t \<Rightarrow> t | OtherContent r \<Rightarrow> r)"

definition text_parts :: "content_block list \<Rightarrow> string list" where
  "text_parts bs = concat (map (\<lambda>b. case b of TextContent t \<Rightarrow> [t] | OtherContent _ \<Rightarrow> []) bs)"

definition mcp_call_result_to_tool_content :: "call_result \<Rightarrow> string" where
  "mcp_call_result_to_tool_content r =
     dumps_plain (JObj [(''ok'', JBool (\<not> cr_is_error r)), (''text'', JStr (strip (join [nl] (text_parts (cr_blocks r))))),
       (''structured'', cr_structured r), (''raw'', JArr (map (\<lambda>b. JStr (block_text b)) (cr_blocks r)))])"

end
