(* ===== verification/Tool_Runtime.thy ===== *)
theory Tool_Runtime
  imports Mcp_Manager
begin

text \<open>
  \<open>core/mcp/tool_runtime.py\<close> and the registry of \<open>core/tool.py\<close>: the tool calls of a turn run one after the
  other, tools outside the allowlist are refused, and long results are cut or written to a file. The trace records
  are left out. Text is counted and cut in characters, of which the notes the code adds have one that takes
  several bytes. Writing a file is a function of the state of the outside world that says whether it worked.
\<close>

section \<open>The registry of tools\<close>

datatype autonomy = BARE | READ | WRITE | EXECUTE_RESTRICTED | EXECUTE

fun score :: "autonomy \<Rightarrow> int" where
  "score BARE = 0"
| "score READ = 10"
| "score WRITE = 20"
| "score EXECUTE_RESTRICTED = 25"
| "score EXECUTE = 30"

fun autonomy_value :: "autonomy \<Rightarrow> string" where
  "autonomy_value BARE = ''bare''"
| "autonomy_value READ = ''read''"
| "autonomy_value WRITE = ''write''"
| "autonomy_value EXECUTE_RESTRICTED = ''execute-restricted''"
| "autonomy_value EXECUTE = ''execute''"

text \<open>The first of the values with the highest score.\<close>

fun max_score :: "autonomy \<Rightarrow> autonomy list \<Rightarrow> autonomy" where
  "max_score a [] = a"
| "max_score a (b # bs) = max_score (if score a < score b then b else a) bs"

definition max_autonomy :: autonomy where
  "max_autonomy = max_score BARE [READ, WRITE, EXECUTE_RESTRICTED, EXECUTE]"

text \<open>A limit of \<open>None\<close> is \<open>float('inf')\<close>.\<close>

record tool_spec =
  sp_autonomy :: autonomy
  sp_max_chars :: "nat option"

type_synonym registry = "(string, tool_spec) dict"

definition MAX_RESULT_CHARS :: nat where "MAX_RESULT_CHARS = 20000"

definition autonomy_of :: "registry \<Rightarrow> string \<Rightarrow> autonomy" where
  "autonomy_of reg name = (case dget reg name of Some sp \<Rightarrow> sp_autonomy sp | None \<Rightarrow> max_autonomy)"

definition max_result_chars_of :: "registry \<Rightarrow> string \<Rightarrow> nat option" where
  "max_result_chars_of reg name = (case dget reg name of Some sp \<Rightarrow> sp_max_chars sp | None \<Rightarrow> Some MAX_RESULT_CHARS)"

definition compute_agent_autonomy :: "registry \<Rightarrow> string list \<Rightarrow> autonomy" where
  "compute_agent_autonomy reg allowlist =
     (case allowlist of
        [] \<Rightarrow> max_autonomy
      | t # ts \<Rightarrow> max_score (autonomy_of reg t) (map (autonomy_of reg) ts))"

section \<open>Characters of UTF-8 text\<close>

definition is_continuation :: "char \<Rightarrow> bool" where
  "is_continuation c = (let n = of_char c :: nat in 128 \<le> n \<and> n < 192)"

definition chars :: "string \<Rightarrow> nat" where
  "chars s = length (filter (\<lambda>c. \<not> is_continuation c) s)"

text \<open>\<open>s[:n]\<close>: the bytes before the start of character \<open>n\<close>.\<close>

fun take_chars :: "nat \<Rightarrow> string \<Rightarrow> string" where
  "take_chars n [] = []"
| "take_chars n (c # cs) =
     (if is_continuation c then c # take_chars n cs
      else case n of 0 \<Rightarrow> [] | Suc m \<Rightarrow> c # take_chars m cs)"

section \<open>Budgets\<close>

definition SYSTEM_MAX_RESULT_CHARS :: nat where "SYSTEM_MAX_RESULT_CHARS = 50000"
definition MAX_RESULTS_PER_MESSAGE_CHARS :: nat where "MAX_RESULTS_PER_MESSAGE_CHARS = 200000"
definition PREVIEW_SIZE_CHARS :: nat where "PREVIEW_SIZE_CHARS = 2000"
definition PERSISTENCE_MARKER :: string where "PERSISTENCE_MARKER = ''[Result persisted to''"

record 'w runtime =
  rt_manager :: "'w manager"
  rt_allowed :: "string list"
  rt_persist_dir :: "string option"
  rt_registry :: registry

type_synonym 'w writer = "string \<Rightarrow> string \<Rightarrow> 'w \<Rightarrow> bool \<times> 'w"

definition get_allowed_tools :: "'w runtime \<Rightarrow> string list" where
  "get_allowed_tools rt =
     (let discovered = dkeys (mg_tool_to_server (rt_manager rt))
      in if rt_allowed rt = [] then discovered else filter (\<lambda>t. t \<in> set discovered) (remdups (rt_allowed rt)))"

definition list_tools :: "'w runtime \<Rightarrow> tool_schema list" where
  "list_tools rt = mcp_tools_to_schemas (get_discovered_tools (rt_manager rt) (Some (get_allowed_tools rt))) []"

definition effective_limit :: "registry \<Rightarrow> string \<Rightarrow> nat option" where
  "effective_limit reg name = map_option (\<lambda>raw. min raw SYSTEM_MAX_RESULT_CHARS) (max_result_chars_of reg name)"

text \<open>\<open>f"{n:,}"\<close>.\<close>

fun group_digits :: "string \<Rightarrow> string" where
  "group_digits ds = (if length ds \<le> 3 then ds
     else group_digits (take (length ds - 3) ds) @ '','' @ drop (length ds - 3) ds)"

declare group_digits.simps [simp del]

definition with_commas :: "nat \<Rightarrow> string" where
  "with_commas n = group_digits (str_nat n)"

definition truncated_note :: "nat \<Rightarrow> nat \<Rightarrow> string" where
  "truncated_note n shown =
     [nl, nl] @ ''[truncated '' @ em_dash @ '' '' @ with_commas n @ '' chars total, showing first '' @ with_commas shown @ '']''"

definition safe_id :: "string \<Rightarrow> string" where
  "safe_id cid = map (\<lambda>c. if is_word_char c \<or> c = CHR ''-'' then c else CHR ''_'') cid"

definition result_path :: "string \<Rightarrow> string \<Rightarrow> string" where
  "result_path dir cid = path_join (path_join dir ''tool-results'') (safe_id cid @ ''.txt'')"

text \<open>The index of the last newline.\<close>

fun rfind_nl :: "string \<Rightarrow> nat option" where
  "rfind_nl [] = None"
| "rfind_nl (c # cs) = (case rfind_nl cs of Some i \<Rightarrow> Some (Suc i) | None \<Rightarrow> if c = nl then Some 0 else None)"

definition preview_of :: "string \<Rightarrow> string" where
  "preview_of content =
     (let preview = take_chars PREVIEW_SIZE_CHARS content
      in case rfind_nl preview of
           Some i \<Rightarrow> if PREVIEW_SIZE_CHARS < 2 * chars (take i content) then take i content else preview
         | None \<Rightarrow> preview)"

definition persisted_text :: "string \<Rightarrow> string \<Rightarrow> string" where
  "persisted_text path content =
     preview_of content @ [nl] @ (if PREVIEW_SIZE_CHARS < chars content then ''...'' @ [nl] else []) @ [nl] @
     PERSISTENCE_MARKER @ '' '' @ path @ '' '' @ em_dash @ '' '' @ with_commas (chars content) @
     '' chars total, showing first '' @ with_commas PREVIEW_SIZE_CHARS @ '']''"

definition persist_result :: "'w writer \<Rightarrow> string \<Rightarrow> string \<Rightarrow> string \<Rightarrow> 'w runtime \<Rightarrow> string \<times> 'w runtime" where
  "persist_result write dir cid content rt =
     (let path = result_path dir cid; (written, w) = write path content (mg_net (rt_manager rt));
          rt' = rt\<lparr>rt_manager := (rt_manager rt)\<lparr>mg_net := w\<rparr>\<rparr>
      in (if written then persisted_text path content
          else take_chars PREVIEW_SIZE_CHARS content @ truncated_note (chars content) PREVIEW_SIZE_CHARS, rt'))"

text \<open>The results that may be written to a file, largest first (equal ones in order).\<close>

definition candidates :: "registry \<Rightarrow> tool_result list \<Rightarrow> (nat \<times> nat) list" where
  "candidates reg results =
     sort_key (\<lambda>(i, n). - int n)
       (map (\<lambda>(i, r). (i, chars (tr_content r)))
         (filter (\<lambda>(i, r). \<not> contains (tr_content r) PERSISTENCE_MARKER \<and> effective_limit reg (tr_tool_name r) \<noteq> None \<and>
                           \<not> tr_is_error r)
           (zip [0..<length results] results)))"

fun persist_largest ::
    "'w writer \<Rightarrow> string \<Rightarrow> (nat \<times> nat) list \<Rightarrow> int \<Rightarrow> tool_result list \<Rightarrow> 'w runtime \<Rightarrow> tool_result list \<times> 'w runtime" where
  "persist_largest write dir [] used results rt = (results, rt)"
| "persist_largest write dir ((idx, len) # cs) used results rt =
     (if used \<le> int MAX_RESULTS_PER_MESSAGE_CHARS then (results, rt)
      else (let r = results ! idx; (text, rt') = persist_result write dir (tr_call_id r) (tr_content r) rt
            in persist_largest write dir cs (used - int (chars (tr_content r)) + int (chars text))
                 (results[idx := r\<lparr>tr_content := text\<rparr>]) rt'))"

definition total_chars :: "tool_result list \<Rightarrow> nat" where
  "total_chars rs = sum_list (map (\<lambda>r. chars (tr_content r)) rs)"

definition apply_aggregate_budget :: "'w writer \<Rightarrow> tool_result list \<Rightarrow> 'w runtime \<Rightarrow> tool_result list \<times> 'w runtime" where
  "apply_aggregate_budget write results rt =
     (case rt_persist_dir rt of
        None \<Rightarrow> (results, rt)
      | Some dir \<Rightarrow>
          (if total_chars results \<le> MAX_RESULTS_PER_MESSAGE_CHARS then (results, rt)
           else persist_largest write dir (candidates (rt_registry rt) results) (int (total_chars results)) results rt))"

section \<open>Executing tool calls\<close>

definition error_content :: "string \<Rightarrow> string \<Rightarrow> json \<Rightarrow> string" where
  "error_content tool_name error arguments =
     dumps_plain (JObj [(''ok'', JBool False), (''tool'', JStr tool_name), (''error'', JStr error), (''arguments'', arguments)])"

definition nameless_content :: string where
  "nameless_content = dumps_plain (JObj [(''ok'', JBool False), (''error'', JStr ''Malformed tool call: missing function name.'')])"

definition tool_result_of :: "string \<Rightarrow> string \<Rightarrow> string \<Rightarrow> bool \<Rightarrow> tool_result" where
  "tool_result_of cid content name err = \<lparr>tr_call_id = cid, tr_content = content, tr_tool_name = name, tr_is_error = err\<rparr>"

definition call_id_of :: "nat \<Rightarrow> tool_call \<Rightarrow> string" where
  "call_id_of idx tc = (if tc_id tc = [] then ''tool_call_'' @ str_nat idx else tc_id tc)"

text \<open>The limit of one tool.\<close>

definition within_limit :: "'w writer \<Rightarrow> string \<Rightarrow> string \<Rightarrow> string \<Rightarrow> 'w runtime \<Rightarrow> string \<times> 'w runtime" where
  "within_limit write name cid content rt =
     (case effective_limit (rt_registry rt) name of
        None \<Rightarrow> (content, rt)
      | Some limit \<Rightarrow>
          (if chars content \<le> limit then (content, rt)
           else case rt_persist_dir rt of
             Some dir \<Rightarrow> persist_result write dir cid content rt
           | None \<Rightarrow> (take_chars limit content @ truncated_note (chars content) limit, rt)))"

definition call_manager :: "'w mcp_net \<Rightarrow> string \<Rightarrow> json \<Rightarrow> 'w runtime \<Rightarrow> (string \<times> bool) \<times> 'w runtime" where
  "call_manager net name arguments rt =
     (case mcp_call_tool net name arguments (rt_manager rt) of
        (Inr r, m) \<Rightarrow> ((mcp_call_result_to_tool_content r, cr_is_error r), rt\<lparr>rt_manager := m\<rparr>)
      | (Inl e, m) \<Rightarrow> ((error_content name (err_text e) arguments, True), rt\<lparr>rt_manager := m\<rparr>))"

definition execute_one ::
    "'w mcp_net \<Rightarrow> 'w writer \<Rightarrow> (string \<Rightarrow> string) \<Rightarrow> string list \<Rightarrow> nat \<Rightarrow> tool_call \<Rightarrow> ('w runtime, tool_result) eff" where
  "execute_one net write msg allowed idx tc = (\<lambda>rt.
     let cid = call_id_of idx tc; name = tc_name tc
     in if name = [] then (Inr (tool_result_of cid nameless_content [] True), rt)
        else case parse_tool_call_arguments msg (tc_arguments tc) of
          Inl e \<Rightarrow> (Inl e, rt)
        | Inr arguments \<Rightarrow>
            (if name \<notin> set allowed
             then (Inr (tool_result_of cid (error_content name (''Tool '' @ squote name @ '' is not allowed.'') arguments) name True), rt)
             else (let ((content, err), rt') = call_manager net name arguments rt;
                       shown = (if \<not> err \<and> strip content = [] then ''('' @ name @ '' completed with no output)'' else content);
                       (text, rt'') = within_limit write name cid shown rt'
                   in (Inr (tool_result_of cid text name err), rt''))))"

fun execute_from ::
    "'w mcp_net \<Rightarrow> 'w writer \<Rightarrow> (string \<Rightarrow> string) \<Rightarrow> string list \<Rightarrow> nat \<Rightarrow> tool_call list \<Rightarrow> ('w runtime, tool_result list) eff" where
  "execute_from net write msg allowed idx [] = ret []"
| "execute_from net write msg allowed idx (tc # tcs) =
     bindE (execute_one net write msg allowed idx tc) (\<lambda>r.
     bindE (execute_from net write msg allowed (Suc idx) tcs) (\<lambda>rs. ret (r # rs)))"

definition execute :: "'w mcp_net \<Rightarrow> 'w writer \<Rightarrow> (string \<Rightarrow> string) \<Rightarrow> tool_call list \<Rightarrow> ('w runtime, tool_result list) eff" where
  "execute net write msg calls =
     bindE (getsE get_allowed_tools) (\<lambda>allowed.
     bindE (execute_from net write msg allowed 0 calls) (\<lambda>results. (\<lambda>rt.
       case apply_aggregate_budget write results rt of (rs, rt') \<Rightarrow> (Inr rs, rt'))))"

end
