(* ===== verification/Tool_Runtime_Correct.thy ===== *)
theory Tool_Runtime_Correct
  imports Tool_Runtime "HOL-Library.Multiset"
begin

text \<open>
  What running tool calls promises: one result for every call in their order, nothing done for tools that
  are not allowed, and the budget of a turn.
\<close>

section \<open>One result for every call\<close>

definition runnable :: "(string \<Rightarrow> string) \<Rightarrow> tool_call \<Rightarrow> bool" where
  "runnable msg tc \<longleftrightarrow> tc_name tc = [] \<or> (\<exists>v. parse_tool_call_arguments msg (tc_arguments tc) = Inr v)"

definition answers :: "tool_result \<Rightarrow> string \<Rightarrow> string \<Rightarrow> bool" where
  "answers r cid name \<longleftrightarrow> tr_call_id r = cid \<and> tr_tool_name r = name"

lemma execute_one_answers:
  assumes "runnable msg tc"
  shows "\<exists>r rt'. execute_one net write msg allowed idx tc rt = (Inr r, rt') \<and> answers r (call_id_of idx tc) (tc_name tc)"
  using assms
  by (auto simp: execute_one_def runnable_def answers_def tool_result_of_def Let_def split: prod.splits)

lemma execute_from_answers:
  assumes "\<And>tc. tc \<in> set calls \<Longrightarrow> runnable msg tc"
  shows "\<exists>rs rt'. execute_from net write msg allowed idx calls rt = (Inr rs, rt') \<and>
    map tr_call_id rs = map (\<lambda>(i, tc). call_id_of i tc) (zip [idx..<idx + length calls] calls) \<and>
    map tr_tool_name rs = map tc_name calls"
  using assms
proof (induction calls arbitrary: idx rt)
  case Nil
  then show ?case by (simp add: ret_def)
next
  case (Cons tc tcs)
  obtain r rt1 where r: "execute_one net write msg allowed idx tc rt = (Inr r, rt1)" "answers r (call_id_of idx tc) (tc_name tc)"
    using execute_one_answers Cons.prems by (metis list.set_intros(1))
  obtain rs rt2 where "execute_from net write msg allowed (Suc idx) tcs rt1 = (Inr rs, rt2)"
    "map tr_call_id rs = map (\<lambda>(i, tc). call_id_of i tc) (zip [Suc idx..<Suc idx + length tcs] tcs)"
    "map tr_tool_name rs = map tc_name tcs"
    using Cons.IH [of "Suc idx" rt1] Cons.prems by auto
  with r show ?case by (simp add: eff_simps answers_def upt_conv_Cons del: upt_Suc)
qed

section \<open>The budget of a turn\<close>

definition may_persist :: "registry \<Rightarrow> tool_result \<Rightarrow> bool" where
  "may_persist reg r \<longleftrightarrow> \<not> contains (tr_content r) PERSISTENCE_MARKER \<and> effective_limit reg (tr_tool_name r) \<noteq> None \<and> \<not> tr_is_error r"

text \<open>The text that stands for a result that was written to a file, or could not be written.\<close>

definition stands_for :: "string \<Rightarrow> tool_result \<Rightarrow> tool_result \<Rightarrow> bool" where
  "stands_for dir r r' \<longleftrightarrow> (\<exists>text. r' = r\<lparr>tr_content := text\<rparr> \<and>
     (text = persisted_text (result_path dir (tr_call_id r)) (tr_content r) \<or>
      text = take_chars PREVIEW_SIZE_CHARS (tr_content r) @ truncated_note (chars (tr_content r)) PREVIEW_SIZE_CHARS))"

lemma persist_result_stands:
  "persist_result write dir (tr_call_id r) (tr_content r) rt = (text, rt') \<Longrightarrow> stands_for dir r (r\<lparr>tr_content := text\<rparr>)"
  by (auto simp: persist_result_def stands_for_def Let_def split: prod.splits if_splits)

lemma distinct_map_sort:
  assumes "distinct (map g xs)" shows "distinct (map g (sort_key f xs))"
proof -
  have "mset (map g (sort_key f xs)) = mset (map g xs)" by simp
  then show ?thesis using assms mset_eq_imp_distinct_iff by blast
qed

lemma candidates_facts:
  "fst ` set (candidates reg rs) = {i. i < length rs \<and> may_persist reg (rs ! i)}" "distinct (map fst (candidates reg rs))"
proof -
  let ?P = "\<lambda>(i, r). may_persist reg r"
  have c: "candidates reg rs = sort_key (\<lambda>(i, n). - int n)
      (map (\<lambda>(i, r). (i, chars (tr_content r))) (filter ?P (zip [0..<length rs] rs)))"
    by (simp add: candidates_def may_persist_def case_prod_unfold)
  show "fst ` set (candidates reg rs) = {i. i < length rs \<and> may_persist reg (rs ! i)}"
    unfolding c by (force simp: set_zip image_iff)
  have "distinct (map fst (zip [0..<length rs] rs))" by simp
  then have "distinct (map fst (filter ?P (zip [0..<length rs] rs)))" by (rule distinct_map_filter)
  then have d: "distinct (map fst (map (\<lambda>(i, r). (i, chars (tr_content r))) (filter ?P (zip [0..<length rs] rs))))"
    by (simp add: comp_def case_prod_unfold)
  show "distinct (map fst (candidates reg rs))" unfolding c
    by (rule distinct_map_sort [OF d])
qed

lemma total_chars_update:
  "i < length rs \<Longrightarrow> int (total_chars (rs[i := r])) = int (total_chars rs) - int (chars (tr_content (rs ! i))) + int (chars (tr_content r))"
proof (induction rs arbitrary: i)
  case (Cons x xs)
  then show ?case by (cases i) (auto simp: total_chars_def)
qed simp

lemma persist_largest_spec:
  assumes "persist_largest write dir cs used rs rt = (rs', rt')" "used = int (total_chars rs)"
    "\<And>i. i \<in> fst ` set cs \<Longrightarrow> i < length rs" "distinct (map fst cs)"
  shows "length rs' = length rs \<and> map tr_call_id rs' = map tr_call_id rs \<and> map tr_tool_name rs' = map tr_tool_name rs \<and>
    (\<forall>i < length rs. rs' ! i = rs ! i \<or> (i \<in> fst ` set cs \<and> stands_for dir (rs ! i) (rs' ! i))) \<and>
    (total_chars rs' \<le> MAX_RESULTS_PER_MESSAGE_CHARS \<or> (\<forall>i \<in> fst ` set cs. stands_for dir (rs ! i) (rs' ! i)))"
  using assms
proof (induction cs arbitrary: used rs rt)
  case Nil
  then show ?case by simp
next
  case (Cons c cs)
  obtain idx len where c: "c = (idx, len)" by fastforce
  show ?case
  proof (cases "used \<le> int MAX_RESULTS_PER_MESSAGE_CHARS")
    case True
    then show ?thesis using Cons.prems c by simp
  next
    case False
    define x where "x = rs ! idx"
    obtain t rt1 where p: "persist_result write dir (tr_call_id x) (tr_content x) rt = (t, rt1)" by fastforce
    define rs1 where "rs1 = rs[idx := x\<lparr>tr_content := t\<rparr>]"
    have idx: "idx < length rs" using Cons.prems(3) c by simp
    have step: "persist_largest write dir cs (used - int (chars (tr_content x)) + int (chars t)) rs1 rt1 = (rs', rt')"
      using Cons.prems(1) False p by (simp add: c x_def rs1_def Let_def)
    have used: "used - int (chars (tr_content x)) + int (chars t) = int (total_chars rs1)"
      using total_chars_update [OF idx] Cons.prems(2) by (simp add: rs1_def x_def)
    note ih = Cons.IH [OF step used]
    have st: "stands_for dir x (x\<lparr>tr_content := t\<rparr>)" by (rule persist_result_stands [OF p])
    have notin: "idx \<notin> fst ` set cs" using Cons.prems(4) c by auto
    have res: "length rs' = length rs1 \<and> map tr_call_id rs' = map tr_call_id rs1 \<and> map tr_tool_name rs' = map tr_tool_name rs1 \<and>
      (\<forall>i < length rs1. rs' ! i = rs1 ! i \<or> (i \<in> fst ` set cs \<and> stands_for dir (rs1 ! i) (rs' ! i))) \<and>
      (total_chars rs' \<le> MAX_RESULTS_PER_MESSAGE_CHARS \<or> (\<forall>i \<in> fst ` set cs. stands_for dir (rs1 ! i) (rs' ! i)))"
      by (rule ih) (use Cons.prems(3,4) c in \<open>auto simp: rs1_def\<close>)
    have same: "i \<noteq> idx \<Longrightarrow> rs1 ! i = rs ! i" for i by (simp add: rs1_def)
    have replaced: "rs' ! idx = x\<lparr>tr_content := t\<rparr>" using res idx notin by (auto simp: rs1_def)
    have names: "map tr_call_id rs1 = map tr_call_id rs" "map tr_tool_name rs1 = map tr_tool_name rs"
      by (auto simp: rs1_def x_def map_update list_update_same_conv idx intro!: nth_equalityI)
    have "rs' ! i = rs ! i \<or> (i \<in> fst ` set (c # cs) \<and> stands_for dir (rs ! i) (rs' ! i))" if "i < length rs" for i
      using that res same [of i] replaced st by (cases "i = idx") (auto simp: c x_def rs1_def)
    moreover have each: "stands_for dir (rs ! i) (rs' ! i)"
      if "\<forall>i \<in> fst ` set cs. stands_for dir (rs1 ! i) (rs' ! i)" "i \<in> fst ` set (c # cs)" for i
      using that same [of i] replaced st notin by (cases "i = idx") (auto simp: c x_def)
    moreover have "total_chars rs' \<le> MAX_RESULTS_PER_MESSAGE_CHARS \<or> (\<forall>i \<in> fst ` set (c # cs). stands_for dir (rs ! i) (rs' ! i))"
      using each res by blast
    ultimately show ?thesis using res names by (simp add: rs1_def)
  qed
qed

lemma budget_spec:
  assumes "apply_aggregate_budget write rs rt = (rs', rt')"
  shows "length rs' = length rs \<and> map tr_call_id rs' = map tr_call_id rs \<and> map tr_tool_name rs' = map tr_tool_name rs"
    and "rt_persist_dir rt = Some dir \<Longrightarrow>
      (\<forall>i < length rs. rs' ! i = rs ! i \<or> (may_persist (rt_registry rt) (rs ! i) \<and> stands_for dir (rs ! i) (rs' ! i))) \<and>
      (total_chars rs' \<le> MAX_RESULTS_PER_MESSAGE_CHARS \<or>
       (\<forall>i < length rs. may_persist (rt_registry rt) (rs ! i) \<longrightarrow> stands_for dir (rs ! i) (rs' ! i)))"
proof -
  have spec: "(\<forall>i < length rs. rs' ! i = rs ! i \<or> (may_persist (rt_registry rt) (rs ! i) \<and> stands_for d (rs ! i) (rs' ! i))) \<and>
      (total_chars rs' \<le> MAX_RESULTS_PER_MESSAGE_CHARS \<or>
       (\<forall>i < length rs. may_persist (rt_registry rt) (rs ! i) \<longrightarrow> stands_for d (rs ! i) (rs' ! i))) \<and>
      length rs' = length rs \<and> map tr_call_id rs' = map tr_call_id rs \<and> map tr_tool_name rs' = map tr_tool_name rs"
    if d: "rt_persist_dir rt = Some d" for d
  proof (cases "total_chars rs \<le> MAX_RESULTS_PER_MESSAGE_CHARS")
    case True
    then show ?thesis using assms d by (simp add: apply_aggregate_budget_def)
  next
    case False
    then have "persist_largest write d (candidates (rt_registry rt) rs) (int (total_chars rs)) rs rt = (rs', rt')"
      using assms d by (simp add: apply_aggregate_budget_def)
    from persist_largest_spec [OF this] show ?thesis
      using candidates_facts [of "rt_registry rt" rs] by auto
  qed
  show "length rs' = length rs \<and> map tr_call_id rs' = map tr_call_id rs \<and> map tr_tool_name rs' = map tr_tool_name rs"
    using spec assms by (cases "rt_persist_dir rt") (auto simp: apply_aggregate_budget_def)
  show "rt_persist_dir rt = Some dir \<Longrightarrow>
      (\<forall>i < length rs. rs' ! i = rs ! i \<or> (may_persist (rt_registry rt) (rs ! i) \<and> stands_for dir (rs ! i) (rs' ! i))) \<and>
      (total_chars rs' \<le> MAX_RESULTS_PER_MESSAGE_CHARS \<or>
       (\<forall>i < length rs. may_persist (rt_registry rt) (rs ! i) \<longrightarrow> stands_for dir (rs ! i) (rs' ! i)))"
    using spec by blast
qed

section \<open>What a turn changes\<close>

definition same_settings :: "'w runtime \<Rightarrow> 'w runtime \<Rightarrow> bool" where
  "same_settings rt rt' \<longleftrightarrow> rt_allowed rt' = rt_allowed rt \<and> rt_persist_dir rt' = rt_persist_dir rt \<and> rt_registry rt' = rt_registry rt"

text \<open>A property of the manager that the calls of some tools and the writing of files keep.\<close>

definition files_keep :: "'w writer \<Rightarrow> ('w manager \<Rightarrow> bool) \<Rightarrow> bool" where
  "files_keep write P \<longleftrightarrow> (\<forall>path content m. P m \<longrightarrow> P (m\<lparr>mg_net := snd (write path content (mg_net m))\<rparr>))"

definition calls_keep :: "'w mcp_net \<Rightarrow> string \<Rightarrow> ('w manager \<Rightarrow> bool) \<Rightarrow> bool" where
  "calls_keep net name P \<longleftrightarrow> (\<forall>args m. P m \<longrightarrow> P (snd (mcp_call_tool net name args m)))"

lemma persist_result_keeps:
  "persist_result write dir cid content rt = (t, rt') \<Longrightarrow> files_keep write P \<Longrightarrow> P (rt_manager rt) \<Longrightarrow>
     P (rt_manager rt') \<and> same_settings rt rt'"
  by (auto simp: persist_result_def files_keep_def same_settings_def Let_def split: prod.splits) (metis snd_conv)

lemma persist_largest_keeps:
  "persist_largest write dir cs used rs rt = (rs', rt') \<Longrightarrow> files_keep write P \<Longrightarrow> P (rt_manager rt) \<Longrightarrow>
     P (rt_manager rt') \<and> same_settings rt rt'"
proof (induction cs arbitrary: used rs rt)
  case (Cons c cs)
  show ?case
  proof (cases "used \<le> int MAX_RESULTS_PER_MESSAGE_CHARS")
    case False
    define x where "x = rs ! fst c"
    obtain t rt1 where p: "persist_result write dir (tr_call_id x) (tr_content x) rt = (t, rt1)" by fastforce
    note k = persist_result_keeps [OF p Cons.prems(2,3)]
    have "persist_largest write dir cs (used - int (chars (tr_content x)) + int (chars t)) (rs[fst c := x\<lparr>tr_content := t\<rparr>]) rt1 = (rs', rt')"
      using Cons.prems(1) False p by (cases c) (simp add: x_def Let_def)
    from Cons.IH [OF this Cons.prems(2)] k show ?thesis by (auto simp: same_settings_def)
  qed (use Cons.prems in \<open>cases c, simp add: same_settings_def\<close>)
qed (simp add: same_settings_def)

lemma budget_keeps:
  "apply_aggregate_budget write rs rt = (rs', rt') \<Longrightarrow> files_keep write P \<Longrightarrow> P (rt_manager rt) \<Longrightarrow>
     P (rt_manager rt') \<and> same_settings rt rt'"
  by (auto simp: apply_aggregate_budget_def same_settings_def split: option.splits if_splits dest!: persist_largest_keeps)

lemma within_limit_keeps:
  "within_limit write name cid content rt = (t, rt') \<Longrightarrow> files_keep write P \<Longrightarrow> P (rt_manager rt) \<Longrightarrow>
     P (rt_manager rt') \<and> same_settings rt rt'"
  by (auto simp: within_limit_def same_settings_def split: option.splits if_splits dest!: persist_result_keeps)

lemma call_manager_keeps:
  "call_manager net name args rt = (r, rt') \<Longrightarrow> calls_keep net name P \<Longrightarrow> P (rt_manager rt) \<Longrightarrow>
     P (rt_manager rt') \<and> same_settings rt rt'"
  by (auto simp: call_manager_def calls_keep_def same_settings_def split: prod.splits sum.splits) (metis snd_conv)+

lemma execute_one_keeps:
  assumes "execute_one net write msg allowed idx tc rt = (q, rt')" "files_keep write P" "P (rt_manager rt)"
    "tc_name tc \<in> set allowed \<Longrightarrow> calls_keep net (tc_name tc) P"
  shows "P (rt_manager rt') \<and> same_settings rt rt'"
proof (cases "tc_name tc = [] \<or> tc_name tc \<notin> set allowed \<or> (\<exists>e. parse_tool_call_arguments msg (tc_arguments tc) = Inl e)")
  case True
  then have "rt' = rt" using assms(1) by (auto simp: execute_one_def Let_def split: sum.splits if_splits)
  then show ?thesis using assms(3) by (simp add: same_settings_def)
next
  case False
  then obtain args where args: "parse_tool_call_arguments msg (tc_arguments tc) = Inr args"
    by (cases "parse_tool_call_arguments msg (tc_arguments tc)") auto
  obtain content err rt1 where c: "call_manager net (tc_name tc) args rt = ((content, err), rt1)" by (metis surj_pair)
  define cut where "cut = (if \<not> err \<and> strip content = [] then ''('' @ tc_name tc @ '' completed with no output)'' else content)"
  obtain t rt2 where w: "within_limit write (tc_name tc) (call_id_of idx tc) cut rt1 = (t, rt2)" by fastforce
  have "rt' = rt2" using assms(1) False args c w by (simp add: execute_one_def Let_def cut_def split: if_splits)
  then show ?thesis
    using call_manager_keeps [OF c, of P] within_limit_keeps [OF w, of P] False assms(2-4) by (auto simp: same_settings_def)
qed

lemma execute_from_keeps:
  assumes "execute_from net write msg allowed idx calls rt = (q, rt')" "files_keep write P" "P (rt_manager rt)"
    "\<And>name. name \<in> tc_name ` set calls \<Longrightarrow> name \<in> set allowed \<Longrightarrow> calls_keep net name P"
  shows "P (rt_manager rt') \<and> same_settings rt rt'"
  using assms
proof (induction calls arbitrary: idx rt q)
  case Nil
  then show ?case by (simp add: ret_def same_settings_def)
next
  case (Cons tc tcs)
  obtain p rt1 where o: "execute_one net write msg allowed idx tc rt = (p, rt1)" by fastforce
  have k: "P (rt_manager rt1) \<and> same_settings rt rt1"
    by (rule execute_one_keeps [OF o Cons.prems(2,3)]) (use Cons.prems(4) in auto)
  show ?case
  proof (cases p)
    case (Inl e)
    then show ?thesis using Cons.prems(1) o k by (simp add: eff_simps)
  next
    case (Inr x)
    obtain p2 rt2 where e: "execute_from net write msg allowed (Suc idx) tcs rt1 = (p2, rt2)" by fastforce
    have rt: "rt' = rt2" using Cons.prems(1) o Inr e by (auto simp: eff_simps split: sum.splits)
    have "P (rt_manager rt') \<and> same_settings rt1 rt'"
      by (rule Cons.IH [OF _ Cons.prems(2)]) (use e rt k Cons.prems(4) in auto)
    then show ?thesis using rt k by (auto simp: same_settings_def)
  qed
qed

lemma execute_cases:
  assumes "execute net write msg calls rt = (q, rt')"
  obtains e where "q = Inl e" "execute_from net write msg (get_allowed_tools rt) 0 calls rt = (Inl e, rt')"
  | rs1 rt1 rs where "q = Inr rs" "execute_from net write msg (get_allowed_tools rt) 0 calls rt = (Inr rs1, rt1)"
      "apply_aggregate_budget write rs1 rt1 = (rs, rt')"
  using assms by (auto simp: execute_def eff_simps split: prod.splits sum.splits)

lemma execute_keeps:
  assumes "execute net write msg calls rt = (q, rt')" "files_keep write P" "P (rt_manager rt)"
    "\<And>name. name \<in> tc_name ` set calls \<Longrightarrow> name \<in> set (get_allowed_tools rt) \<Longrightarrow> calls_keep net name P"
  shows "P (rt_manager rt') \<and> same_settings rt rt'"
  using assms(1)
proof (cases rule: execute_cases)
  case (1 e)
  from execute_from_keeps [OF 1(2) assms(2-4)] show ?thesis by simp
next
  case (2 rs1 rt1 rs)
  have k: "P (rt_manager rt1) \<and> same_settings rt rt1"
    by (rule execute_from_keeps [OF 2(2) assms(2-3)]) (use assms(4) in auto)
  then show ?thesis using budget_keeps [OF 2(3) assms(2)] by (auto simp: same_settings_def)
qed

lemma execute_answers:
  assumes "\<And>tc. tc \<in> set calls \<Longrightarrow> runnable msg tc"
  shows "\<exists>rs rt'. execute net write msg calls rt = (Inr rs, rt') \<and>
    map tr_call_id rs = map (\<lambda>(i, tc). call_id_of i tc) (zip [0..<length calls] calls) \<and>
    map tr_tool_name rs = map tc_name calls"
proof -
  obtain rs1 rt1 where f: "execute_from net write msg (get_allowed_tools rt) 0 calls rt = (Inr rs1, rt1)"
    "map tr_call_id rs1 = map (\<lambda>(i, tc). call_id_of i tc) (zip [0..<0 + length calls] calls)"
    "map tr_tool_name rs1 = map tc_name calls"
    using execute_from_answers [of calls msg net "write" "get_allowed_tools rt" 0 rt] assms by blast
  obtain rs rt' where "apply_aggregate_budget write rs1 rt1 = (rs, rt')" by fastforce
  with f budget_spec(1) show ?thesis by (fastforce simp: execute_def eff_simps)
qed

section \<open>Properties\<close>

text \<open>C30: Whatever a turn does to the tool servers it does by calling tools that are allowed and that the turn names: a
  property of the servers that those calls keep, and that writing result files keeps, holds after the turn.\<close>

theorem only_allowed_called:
  assumes "execute net write msg calls rt = (q, rt')" "files_keep write P" "P (rt_manager rt)"
    "\<And>name. name \<in> tc_name ` set calls \<Longrightarrow> name \<in> set (get_allowed_tools rt) \<Longrightarrow> calls_keep net name P"
  shows "P (rt_manager rt')"
  using execute_keeps [OF assms] by simp

text \<open>A server whose state is the list of the names it was called with.\<close>

definition demo_net :: "string list mcp_net" where
  "demo_net = \<lparr>net_connect = (\<lambda>cfg. ret 0), net_list = (\<lambda>c. ret []),
     net_call = (\<lambda>c name args. seqE (modifyE (\<lambda>log. log @ [name]))
       (ret \<lparr>cr_blocks = [TextContent ''0123456789''], cr_is_error = False, cr_structured = JNull\<rparr>)),
     net_close = (\<lambda>c. ret ()), net_restart = (\<lambda>cfg. ret cfg)\<rparr>"

definition demo_config :: mcp_config where
  "demo_config = \<lparr>cf_key = ''s'', cf_reconnect = False, cf_rest = []\<rparr>"

definition demo_runtime :: "string option \<Rightarrow> nat option \<Rightarrow> 'w \<Rightarrow> 'w runtime" where
  "demo_runtime dir limit w =
     \<lparr>rt_manager = \<lparr>mg_configs = [(''s'', demo_config)], mg_tool_to_server = [(''look'', ''s''), (''rm'', ''s'')],
        mg_server_to_tools = [(''s'', [''look'', ''rm''])], mg_tools = [], mg_sessions = [(''s'', 0)], mg_discovered = True,
        mg_net = w\<rparr>,
      rt_allowed = [''look''], rt_persist_dir = dir, rt_registry = [(''look'', \<lparr>sp_autonomy = READ, sp_max_chars = limit\<rparr>)]\<rparr>"

definition demo_call :: "string \<Rightarrow> string \<Rightarrow> tool_call" where
  "demo_call cid name = \<lparr>tc_id = cid, tc_name = name, tc_arguments = [], tc_thought = [], tc_truncated = False\<rparr>"

definition no_write :: "'w writer" where
  "no_write path content w = (False, w)"

lemma demo_calls_keep: "calls_keep demo_net ''look'' (\<lambda>m. mg_discovered m \<and> ''rm'' \<notin> set (mg_net m))"
  by (auto simp: calls_keep_def mcp_call_tool_def demo_net_def eff_simps catchE_def on_net_def get_session_def drop_session_def
      close_ignored_def call_after_restart_def split: option.splits sum.splits prod.splits)

lemma only_allowed_called_witness:
  "let rt' = snd (execute demo_net no_write id [demo_call ''a'' ''rm'', demo_call ''b'' ''look''] (demo_runtime None None []))
   in ''rm'' \<notin> set (mg_net (rt_manager rt'))"
proof -
  obtain q rt' where e: "execute demo_net no_write id [demo_call ''a'' ''rm'', demo_call ''b'' ''look'']
      (demo_runtime None None []) = (q, rt')" by fastforce
  have "mg_discovered (rt_manager rt') \<and> ''rm'' \<notin> set (mg_net (rt_manager rt'))"
    by (rule only_allowed_called [OF e]) (use demo_calls_keep in
      \<open>auto simp: files_keep_def no_write_def demo_runtime_def demo_call_def get_allowed_tools_def\<close>)
  with e show ?thesis by simp
qed

lemma contains_append [intro]: "contains b q \<Longrightarrow> contains (a @ b) q"
  by (metis append.assoc contains_iff)

lemma persisted_marked: "contains (persisted_text path content) PERSISTENCE_MARKER"
proof -
  have "contains (PERSISTENCE_MARKER @ rest) PERSISTENCE_MARKER" for rest by (metis append_Nil contains_iff)
  then show ?thesis unfolding persisted_text_def by blast
qed

lemma stands_for_content:
  "stands_for dir r r' \<Longrightarrow> \<not> may_persist reg r' \<or>
     tr_content r' = take_chars PREVIEW_SIZE_CHARS (tr_content r) @ truncated_note (chars (tr_content r)) PREVIEW_SIZE_CHARS"
  by (auto simp: stands_for_def may_persist_def persisted_marked)

text \<open>The results of a turn fit into the budget, or whatever could be written to a file has been: what is left over are
  errors, results of tools without a limit, and previews.\<close>

theorem budget_or_nothing_left:
  assumes "execute net write msg calls rt = (Inr rs, rt')" "rt_persist_dir rt = Some dir"
  shows "total_chars rs \<le> MAX_RESULTS_PER_MESSAGE_CHARS \<or>
    (\<forall>r \<in> set rs. tr_is_error r \<or> effective_limit (rt_registry rt) (tr_tool_name r) = None \<or>
       contains (tr_content r) PERSISTENCE_MARKER \<or>
       (\<exists>full. tr_content r = take_chars PREVIEW_SIZE_CHARS full @ truncated_note (chars full) PREVIEW_SIZE_CHARS))"
  using assms(1)
proof (cases rule: execute_cases)
  case (2 rs1 rt1 rs2)
  have s: "same_settings rt rt1" using execute_from_keeps [OF 2(2), where P = "\<lambda>_. True"] by (simp add: files_keep_def calls_keep_def)
  then have d: "rt_persist_dir rt1 = Some dir" "rt_registry rt1 = rt_registry rt" using assms(2) by (auto simp: same_settings_def)
  have rs: "rs2 = rs" using 2(1) by simp
  note b = budget_spec(1) [OF 2(3)] budget_spec(2) [OF 2(3) d(1)]
  show ?thesis
  proof (cases "total_chars rs \<le> MAX_RESULTS_PER_MESSAGE_CHARS")
    case False
    have "\<not> may_persist (rt_registry rt) r \<or>
        (\<exists>full. tr_content r = take_chars PREVIEW_SIZE_CHARS full @ truncated_note (chars full) PREVIEW_SIZE_CHARS)"
      if r: "r \<in> set rs" for r
    proof -
      obtain i where i: "i < length rs1" "r = rs ! i" using r b(1) rs by (metis in_set_conv_nth)
      show ?thesis
        using b(2) False i rs d(2) stands_for_content [of dir "rs1 ! i" r "rt_registry rt"] by auto metis+
    qed
    then show ?thesis unfolding may_persist_def by blast
  qed simp
qed simp

lemma budget_or_nothing_left_witness:
  "\<exists>rs rt'. execute demo_net no_write id [demo_call ''a'' ''look''] (demo_runtime (Some ''d'') None []) = (Inr rs, rt') \<and>
    (total_chars rs \<le> MAX_RESULTS_PER_MESSAGE_CHARS \<or>
     (\<forall>r \<in> set rs. tr_is_error r \<or> effective_limit (rt_registry (demo_runtime (Some ''d'') None ([] :: string list))) (tr_tool_name r) = None \<or>
       contains (tr_content r) PERSISTENCE_MARKER \<or>
       (\<exists>full. tr_content r = take_chars PREVIEW_SIZE_CHARS full @ truncated_note (chars full) PREVIEW_SIZE_CHARS)))"
proof -
  have "\<And>tc. tc \<in> set [demo_call ''a'' ''look''] \<Longrightarrow> runnable id tc"
    by (simp add: runnable_def demo_call_def parse_tool_call_arguments_def)
  then obtain rs rt' where e: "execute demo_net no_write id [demo_call ''a'' ''look''] (demo_runtime (Some ''d'') None []) = (Inr rs, rt')"
    using execute_answers by blast
  have "rt_persist_dir (demo_runtime (Some ''d'') None ([] :: string list)) = Some ''d''" by (simp add: demo_runtime_def)
  from budget_or_nothing_left [OF e this] show ?thesis by (intro exI conjI) (rule e)
qed

text \<open>Files are named by the id of the call, and the ids the code makes up for a backend without ids start again in every
  turn: the result of a later call with the same id takes the place of the one an earlier preview refers to.\<close>

definition store_write :: "(string, string) dict writer" where
  "store_write path content w = (True, dset w path content)"

theorem persisted_result_overwritten:
  "fst (persist_result store_write dir cid first rt) = persisted_text (result_path dir cid) first \<and>
   dget (mg_net (rt_manager (snd (persist_result store_write dir cid second
     (snd (persist_result store_write dir cid first rt)))))) (result_path dir cid) = Some second"
  by (simp add: persist_result_def store_write_def Let_def)

end
