(* ===== verification/Agent_Loop.thy ===== *)
theory Agent_Loop
  imports Tool_Runtime
begin

text \<open>
  \<open>core/agent/loop.py\<close>: the loop of an agent over a backend and its tools. A turn asks the backend, runs the tools
  the answer calls and puts their results into the history; answers that were cut off are asked for again, and a
  history that is too long is replaced by a summary. Tracing, rate limits and the lock that puts calls
  in a row are left out. Messages that others send while the loop waits are the field \<open>ag_incoming\<close>, one batch for
  each time the queue is drained.
\<close>

section \<open>State\<close>

record agent_config =
  ac_inference :: inference_config
  ac_context_window :: "int option"
  ac_compact_threshold :: rat

record ('i, 'w) agent =
  ag_inf :: 'i
  ag_runtime :: "'w runtime option"
  ag_config :: agent_config
  ag_max_turns :: int
  ag_total_turns :: int
  ag_queue :: "string list option"
  ag_pending :: "string list"
  ag_incoming :: "string list list"
  ag_tools :: "tool_schema list"
  ag_agent_tools :: "string list"
  ag_autonomy :: "autonomy option"
  ag_base_prompt :: string
  ag_prompt :: string
  ag_tool_summary :: "string option"
  ag_skill_summary :: "string option"

text \<open>
  What the agent runs on: the backend, the client library of the tool servers, the file system for long results, the
  wording of JSON errors; and, when calls are limited by semaphores, the order in which the calls of a turn get to run.
\<close>

record ('i, 'w) agent_env =
  ae_backend :: "'i backend"
  ae_net :: "'w mcp_net"
  ae_write :: "'w writer"
  ae_msg :: "string \<Rightarrow> string"
  ae_order :: "(tool_call list \<Rightarrow> nat list) option"

definition DEFAULT_COMPACT_TRUNCATION :: nat where "DEFAULT_COMPACT_TRUNCATION = 2000"
definition MAX_OUTPUT_RECOVERY :: nat where "MAX_OUTPUT_RECOVERY = 3"
definition MAX_REACTIVE_COMPACTIONS :: nat where "MAX_REACTIVE_COMPACTIONS = 2"

definition on_inf :: "('i, 'a) eff \<Rightarrow> (('i, 'w) agent, 'a) eff" where
  "on_inf m = (\<lambda>s. case m (ag_inf s) of (r, i) \<Rightarrow> (r, s\<lparr>ag_inf := i\<rparr>))"

definition mod_inf :: "('i \<Rightarrow> 'i) \<Rightarrow> (('i, 'w) agent, unit) eff" where
  "mod_inf f = modifyE (\<lambda>s. s\<lparr>ag_inf := f (ag_inf s)\<rparr>)"

section \<open>The message queue\<close>

definition send_message :: "string \<Rightarrow> ('i, 'w) agent \<Rightarrow> bool \<times> ('i, 'w) agent" where
  "send_message m s =
     (case ag_queue s of
        None \<Rightarrow> (False, s)
      | Some q \<Rightarrow> (True, s\<lparr>ag_queue := Some (q @ [m]), ag_pending := ag_pending s @ [m]\<rparr>))"

definition receive_incoming :: "('i, 'w) agent \<Rightarrow> ('i, 'w) agent" where
  "receive_incoming s =
     (case ag_incoming s of
        [] \<Rightarrow> s
      | batch # rest \<Rightarrow> foldl (\<lambda>t m. snd (send_message m t)) (s\<lparr>ag_incoming := rest\<rparr>) batch)"

definition drain_message_queue :: "(('i, 'w) agent, string option) eff" where
  "drain_message_queue = (\<lambda>s0. let s = receive_incoming s0 in
     case ag_queue s of
       None \<Rightarrow> (Inr None, s)
     | Some [] \<Rightarrow> (Inr None, s)
     | Some parts \<Rightarrow> (Inr (Some (join [nl, nl] parts)), s\<lparr>ag_queue := Some [], ag_pending := []\<rparr>))"

section \<open>Compaction\<close>

definition compact_token_limit :: "agent_config \<Rightarrow> int option" where
  "compact_token_limit c =
     map_option (\<lambda>n. let q = flt (of_int n * ac_compact_threshold c) in if q < 0 then - \<lfloor>- q\<rfloor> else \<lfloor>q\<rfloor>) (ac_context_window c)"

definition should_compact :: "agent_config \<Rightarrow> int \<Rightarrow> bool" where
  "should_compact c input_tokens =
     (case compact_token_limit c of None \<Rightarrow> False | Some limit \<Rightarrow> limit < input_tokens)"

definition shortened :: "string \<Rightarrow> string" where
  "shortened content =
     (if DEFAULT_COMPACT_TRUNCATION < chars content
      then take_chars DEFAULT_COMPACT_TRUNCATION content @ ''... [truncated]'' else content)"

definition summary_lines :: "(string \<Rightarrow> string) \<Rightarrow> message \<Rightarrow> string list result" where
  "summary_lines msg m =
     (let role = dget_or m ''role'' (JStr ''unknown'')
      in if is_assistant role then
           rbind (extract_assistant msg m) (\<lambda>ex.
           Inr ((if xa_calls ex = [] then []
                 else [''[assistant called tools: '' @ join '', '' (map xc_name (xa_calls ex)) @ '']'']) @
                (if xa_text ex = [] then [] else [''[assistant]: '' @ shortened (xa_text ex)])))
         else rbind (extract_text_content m) (\<lambda>content.
           Inr [if role = JStr ''tool''
                then ''[tool result from '' @ str_json (dget_or m ''name'' (JStr ''unknown'')) @ '']: '' @ shortened content
                else ''['' @ str_json role @ '']: '' @ shortened content]))"

definition summarizer_prompt :: string where
  "summarizer_prompt =
     ''You are a summarizer. Produce a concise summary of the conversation below. '' @
     ''Focus on: key findings, decisions made, actions taken, and remaining work. '' @
     ''Be specific about important details like file paths, names, and values.''"

definition summary_request :: "string \<Rightarrow> string" where
  "summary_request conversation = ''Summarize this conversation:'' @ [nl, nl] @ conversation"

text \<open>The messages to summarize and, when the last one waits for tool results, that message.\<close>

definition split_pending :: "(string \<Rightarrow> string) \<Rightarrow> message list \<Rightarrow> (message list \<times> message option) result" where
  "split_pending msg ms =
     (let m = last ms
      in if is_assistant (dget_or m ''role'' JNull) then
           rbind (extract_assistant msg m) (\<lambda>ex.
           Inr (if xa_calls ex = [] then (ms, None) else (butlast ms, Some m)))
         else Inr (ms, None))"

definition pending_list :: "message option \<Rightarrow> message list" where
  "pending_list p = (case p of None \<Rightarrow> [] | Some m \<Rightarrow> [m])"

text \<open>The call of the summarizer, with the history put back when it fails, and the new history.\<close>

definition summarize ::
    "('i, 'w) agent_env \<Rightarrow> message list \<Rightarrow> message option \<Rightarrow> string \<Rightarrow> (('i, 'w) agent, unit) eff" where
  "summarize env ms pending conversation = (let b = ae_backend env in
     bindE (getsE (\<lambda>s. get_system_prompt b (ag_inf s))) (\<lambda>saved_system.
     bindE (getsE (\<lambda>s. ac_inference (ag_config s))) (\<lambda>config.
     seqE (mod_inf (set_system_prompt b summarizer_prompt))
     (seqE (mod_inf (reset_history b))
     (seqE (mod_inf (add_user_message b (summary_request conversation)))
     (bindE (catchE (on_inf (complete b [] config))
        (\<lambda>e. seqE (mod_inf (set_system_prompt b saved_system))
           (seqE (mod_inf (reset_history b))
           (seqE (on_inf (replace_messages b (ms @ pending_list pending))) (throw e)))))
     (\<lambda>result.
     seqE (mod_inf (set_system_prompt b saved_system))
     (seqE (mod_inf (replace_history b (tn_text result)))
     (case pending of
        None \<Rightarrow> ret ()
      | Some m \<Rightarrow> bindE (getsE (\<lambda>s. get_messages b (ag_inf s))) (\<lambda>now.
          on_inf (replace_messages b (tl now @ [m]))))))))))))"

definition compact :: "('i, 'w) agent_env \<Rightarrow> (('i, 'w) agent, unit) eff" where
  "compact env = (let b = ae_backend env in
     bindE (getsE (\<lambda>s. get_messages b (ag_inf s))) (\<lambda>messages.
       let to_summarize = tl messages
       in if to_summarize = [] then ret ()
          else bindE (liftE (split_pending (ae_msg env) to_summarize)) (\<lambda>(ms, pending).
            if ms = [] then ret ()
            else bindE (liftE (mapM (summary_lines (ae_msg env)) ms)) (\<lambda>ls.
              summarize env ms pending (join [nl] (concat ls))))))"

definition compact_if :: "('i, 'w) agent_env \<Rightarrow> int \<Rightarrow> (('i, 'w) agent, unit) eff" where
  "compact_if env input_tokens = bindE (getsE (\<lambda>s. should_compact (ag_config s) input_tokens)) (\<lambda>b. whenE b (compact env))"

section \<open>Tools\<close>

text \<open>
  With semaphores the calls run one by one in the order they are let through, each as a batch of its own; the
  results are put together in the order of the calls.
\<close>

fun run_in_order ::
    "'w mcp_net \<Rightarrow> 'w writer \<Rightarrow> (string \<Rightarrow> string) \<Rightarrow> tool_call list \<Rightarrow> nat list \<Rightarrow> (nat, tool_result list) dict \<Rightarrow>
     ('w runtime, (nat, tool_result list) dict) eff" where
  "run_in_order net write msg calls [] acc = ret acc"
| "run_in_order net write msg calls (i # is) acc =
     bindE (execute net write msg [calls ! i]) (\<lambda>batch. run_in_order net write msg calls is (dset acc i batch))"

definition gather_tools ::
    "'w mcp_net \<Rightarrow> 'w writer \<Rightarrow> (string \<Rightarrow> string) \<Rightarrow> nat list \<Rightarrow> tool_call list \<Rightarrow> ('w runtime, tool_result list) eff" where
  "gather_tools net write msg order calls =
     bindE (run_in_order net write msg calls order []) (\<lambda>nested.
     (\<lambda>rt. case apply_aggregate_budget write (concat (map (\<lambda>i. dget_or nested i []) [0..<length calls])) rt of
        (rs, rt') \<Rightarrow> (Inr rs, rt')))"

definition execute_tools :: "('i, 'w) agent_env \<Rightarrow> tool_call list \<Rightarrow> (('i, 'w) agent, tool_result list) eff" where
  "execute_tools env calls = (\<lambda>s.
     case ag_runtime s of
       None \<Rightarrow> (Inr [], s)
     | Some rt \<Rightarrow>
         (case (case ae_order env of
                  None \<Rightarrow> execute (ae_net env) (ae_write env) (ae_msg env) calls
                | Some f \<Rightarrow> gather_tools (ae_net env) (ae_write env) (ae_msg env) (f calls) calls) rt of
            (r, rt') \<Rightarrow> (r, s\<lparr>ag_runtime := Some rt'\<rparr>)))"

section \<open>Turns\<close>

definition call_llm :: "('i, 'w) agent_env \<Rightarrow> (('i, 'w) agent, turn_result) eff" where
  "call_llm env = (\<lambda>s. on_inf (complete (ae_backend env) (ag_tools s) (ac_inference (ag_config s))) s)"

definition dropped_result :: "tool_call \<Rightarrow> tool_result" where
  "dropped_result tc = \<lparr>tr_call_id = tc_id tc,
     tr_content = ''Malformed arguments '' @ em_dash @ '' tool call was not executed.'', tr_tool_name = tc_name tc, tr_is_error = True\<rparr>"

definition retry_message :: "tool_call list \<Rightarrow> string" where
  "retry_message calls = ''Your tool call(s) ('' @ join '', '' (map tc_name calls) @
     '') had malformed arguments and could not be executed. Please retry the same tool call(s) with valid, complete JSON arguments.''"

definition continue_message :: string where
  "continue_message = ''Your output was cut off due to token limits. Continue exactly where you left off. Do not repeat, apologize, or summarize.''"

text \<open>
  How a turn ends: with the answer, or with the next turn, for which the numbers of requested continuations and of
  compactions for long prompts are kept.
\<close>

datatype turn_end = Answer string | Again nat nat

definition cut_off :: "turn_result \<Rightarrow> bool" where
  "cut_off r \<longleftrightarrow> tn_calls r \<noteq> [] \<and> (tn_finish r = ''length'' \<or> list_ex tc_truncated (tn_calls r))"

text \<open>What a turn does with the answer of the backend.\<close>

definition handle_answer :: "('i, 'w) agent_env \<Rightarrow> nat \<Rightarrow> nat \<Rightarrow> turn_result \<Rightarrow> (('i, 'w) agent, turn_end) eff" where
  "handle_answer env recoveries compactions r = (let b = ae_backend env in
     if cut_off r then
       seqE (mod_inf (add_tool_results b (map dropped_result (tn_calls r))))
       (seqE (mod_inf (add_user_message b (retry_message (tn_calls r)))) (ret (Again recoveries compactions)))
     else if tn_finish r = ''length'' \<and> tn_calls r = [] then
       (if Suc recoveries \<le> MAX_OUTPUT_RECOVERY
        then seqE (mod_inf (add_user_message b continue_message)) (ret (Again (Suc recoveries) compactions))
        else ret (Answer (tn_text r)))
     else if tn_calls r = [] then
       seqE (compact_if env (tu_input (tn_usage r))) (ret (Answer (tn_text r)))
     else
       bindE (execute_tools env (tn_calls r)) (\<lambda>results.
       seqE (mod_inf (add_tool_results b results))
       (seqE (compact_if env (tu_input (tn_usage r))) (ret (Again 0 compactions)))))"

definition count_turn :: "(('i, 'w) agent, unit) eff" where
  "count_turn = modifyE (\<lambda>s. s\<lparr>ag_total_turns := ag_total_turns s + 1\<rparr>)"

definition inject_pending :: "('i, 'w) agent_env \<Rightarrow> (('i, 'w) agent, unit) eff" where
  "inject_pending env = bindE drain_message_queue (\<lambda>pending.
     case pending of
       None \<Rightarrow> ret ()
     | Some m \<Rightarrow> whenE (m \<noteq> []) (mod_inf (add_user_message (ae_backend env) m)))"

definition turn :: "('i, 'w) agent_env \<Rightarrow> nat \<Rightarrow> nat \<Rightarrow> (('i, 'w) agent, turn_end) eff" where
  "turn env recoveries compactions =
     seqE count_turn (seqE (inject_pending env) (\<lambda>s.
       case call_llm env s of
         (Inr r, s') \<Rightarrow> handle_answer env recoveries compactions r s'
       | (Inl (PromptTooLongError e), s') \<Rightarrow>
           (if Suc compactions \<le> MAX_REACTIVE_COMPACTIONS
            then seqE (compact env) (ret (Again recoveries (Suc compactions))) s'
            else (Inl (PromptTooLongError e), s'))
       | (Inl e, s') \<Rightarrow> (Inl e, s')))"

text \<open>
  The loop: the first argument is the number of turns that are left, as every turn adds one to
  \<open>total_turns\<close> and nothing else in the loop changes it.
\<close>

fun turns :: "nat \<Rightarrow> ('i, 'w) agent_env \<Rightarrow> nat \<Rightarrow> nat \<Rightarrow> (('i, 'w) agent, string) eff" where
  "turns 0 env recoveries compactions = ret []"
| "turns (Suc n) env recoveries compactions =
     bindE (turn env recoveries compactions) (\<lambda>e.
     case e of Answer t \<Rightarrow> ret t | Again r c \<Rightarrow> turns n env r c)"

definition run_loop :: "('i, 'w) agent_env \<Rightarrow> (('i, 'w) agent, string) eff" where
  "run_loop env = (\<lambda>s. turns (nat (ag_max_turns s - ag_total_turns s)) env 0 0 s)"

definition agent_call :: "('i, 'w) agent_env \<Rightarrow> string \<Rightarrow> (('i, 'w) agent, string) eff" where
  "agent_call env content =
     seqE (whenE (content \<noteq> []) (mod_inf (add_user_message (ae_backend env) content))) (run_loop env)"

text \<open>A step of the consumer of the queue, when the agent is idle.\<close>

definition consume_one :: "('i, 'w) agent_env \<Rightarrow> (('i, 'w) agent, unit) eff" where
  "consume_one env = (\<lambda>s.
     case ag_queue s of
       Some (m # q) \<Rightarrow>
         (case agent_call env m (s\<lparr>ag_queue := Some q, ag_pending := remove1 m (ag_pending s)\<rparr>) of (_, s') \<Rightarrow> (Inr (), s'))
     | _ \<Rightarrow> (Inr (), s))"

section \<open>Starting and running\<close>

text \<open>\<open>s.split("\n\n", 1)\<close>.\<close>

fun split_blank :: "string \<Rightarrow> string \<times> string option" where
  "split_blank [] = ([], None)"
| "split_blank (c # cs) =
     (if startswith (c # cs) [nl, nl] then ([], Some (drop 2 (c # cs)))
      else case split_blank cs of (p, q) \<Rightarrow> (c # p, q))"

definition tool_lines :: "tool_schema \<Rightarrow> string list" where
  "tool_lines t =
     (let desc = strip (ts_description t)
      in if desc = [] then [[nl] @ ''- '' @ ts_name t]
         else case split_blank desc of (p, q) \<Rightarrow>
           [[nl] @ ''- '' @ ts_name t @ '': '' @ map (\<lambda>c. if c = nl then CHR '' '' else c) p] @
           (case q of None \<Rightarrow> [] | Some details \<Rightarrow> [[nl] @ ''```'' @ [nl] @ details @ [nl] @ ''```'']))"

definition build_system_prompt :: "string \<Rightarrow> tool_schema list \<Rightarrow> string option \<Rightarrow> string option \<Rightarrow> string" where
  "build_system_prompt base tools tool_summary skill_summary =
     join [nl]
       ([base] @
        (if tools = [] then []
         else case tool_summary of
           Some summary \<Rightarrow> [[], ''## Available tools'', [],
             ''Use `list_tools()` to see available tool collections and `check_tools(name)` for detailed usage documentation.'', [], summary]
         | None \<Rightarrow> [[], ''## Available tools''] @ concat (map tool_lines tools)) @
        (case skill_summary of
           Some summary \<Rightarrow> [[], ''## Available skills'', [],
             ''Use `list_skills()` to see available skills and `check_skills(name)` for the full skill content.'', [], summary]
         | None \<Rightarrow> []))"

definition reset_agent :: "('i, 'w) agent_env \<Rightarrow> (('i, 'w) agent, unit) eff" where
  "reset_agent env = modifyE (\<lambda>s. s\<lparr>ag_inf := reset_history (ae_backend env) (set_system_prompt (ae_backend env) (ag_prompt s) (ag_inf s)),
     ag_total_turns := 0\<rparr>)"

text \<open>The checks of the allowlist and of the autonomy level against the tools that were found.\<close>

definition startup_error :: "('i, 'w) agent \<Rightarrow> 'w runtime \<Rightarrow> py_error option" where
  "startup_error s rt =
     (let discovered = dkeys (mg_tool_to_server (rt_manager rt));
          missing = filter (\<lambda>t. t \<notin> set discovered) (remdups (ag_agent_tools s));
          implied = compute_agent_autonomy (rt_registry rt) (ag_agent_tools s)
      in if ag_agent_tools s \<noteq> [] \<and> missing \<noteq> []
         then Some (ValueError (''Whitelisted tools not found in any server: '' @ repr_strs (sort missing) @
           ''. Available tools: '' @ repr_strs (sort discovered)))
         else case ag_autonomy s of
           Some a \<Rightarrow> if score a < score implied
             then Some (ValueError (''Explicit autonomy '' @ squote (autonomy_value a) @ '' is lower than tool-implied autonomy '' @
               squote (autonomy_value implied)))
             else None
         | None \<Rightarrow> None)"

definition enter_agent :: "('i, 'w) agent_env \<Rightarrow> (('i, 'w) agent, unit) eff" where
  "enter_agent env = (\<lambda>s.
     case ag_runtime s of
       None \<Rightarrow> reset_agent env s
     | Some rt \<Rightarrow>
         (case discover_tools (ae_net env) (rt_manager rt) of
            (Inl e, m) \<Rightarrow> (Inl e, s\<lparr>ag_runtime := Some (rt\<lparr>rt_manager := m\<rparr>)\<rparr>)
          | (Inr _, m) \<Rightarrow>
              (let rt' = rt\<lparr>rt_manager := m\<rparr>; s' = s\<lparr>ag_runtime := Some rt'\<rparr>; tools = list_tools rt'
               in case startup_error s rt' of
                    Some e \<Rightarrow> (Inl e, s')
                  | None \<Rightarrow> reset_agent env (s'\<lparr>ag_tools := tools,
                      ag_prompt := build_system_prompt (ag_base_prompt s) tools (ag_tool_summary s) (ag_skill_summary s)\<rparr>))))"

definition close_agent :: "('i, 'w) agent_env \<Rightarrow> (('i, 'w) agent, unit) eff" where
  "close_agent env = (\<lambda>s.
     case ag_runtime s of
       None \<Rightarrow> (Inr (), s)
     | Some rt \<Rightarrow> (case close_all (ae_net env) (rt_manager rt) of
         (r, m) \<Rightarrow> (r, s\<lparr>ag_runtime := Some (rt\<lparr>rt_manager := m\<rparr>)\<rparr>)))"

text \<open>\<open>run(task)\<close>: whether the call succeeded, and the text of the exception otherwise.\<close>

definition run_task :: "('i, 'w) agent_env \<Rightarrow> string \<Rightarrow> (('i, 'w) agent, bool \<times> string option) eff" where
  "run_task env description =
     seqE (enter_agent env) (finallyE (seqE (reset_agent env)
       (catchE (bindE (agent_call env description) (\<lambda>_. ret (True, None))) (\<lambda>e. ret (False, Some (err_text e)))))
       (close_agent env))"

definition set_agent_tools :: "('i, 'w) agent_env \<Rightarrow> string list \<Rightarrow> ('i, 'w) agent \<Rightarrow> ('i, 'w) agent" where
  "set_agent_tools env names s =
     (let s' = s\<lparr>ag_agent_tools := remdups names\<rparr>
      in case ag_runtime s of
           None \<Rightarrow> s'
         | Some rt \<Rightarrow>
             (let rt' = rt\<lparr>rt_allowed := remdups names\<rparr>; tools = list_tools rt';
                  prompt = build_system_prompt (ag_base_prompt s) tools (ag_tool_summary s) (ag_skill_summary s)
              in s'\<lparr>ag_runtime := Some rt', ag_tools := tools, ag_prompt := prompt,
                    ag_inf := set_system_prompt (ae_backend env) prompt (ag_inf s)\<rparr>))"

end
