(* ===== verification/Agent_Loop_Correct.thy ===== *)
theory Agent_Loop_Correct
  imports Agent_Loop Tool_Runtime_Correct Openai_Correct
begin

text \<open>
  What the agent loop promises over any backend that keeps the contract of \<open>Backend_Interface\<close>, and so over the one for
  OpenAI: the conversation stays one the service accepts, compaction is all or nothing, the number of turns is
  bounded, and an answer that was cut off runs no tool. Two ways in which it does not keep what it means to: the beginning of
  a continued answer is not returned, and without a system prompt a failed compaction drops the first message.
\<close>

section \<open>Steps that only touch the backend and the tools\<close>

definition only_inf :: "('i, 'w) agent \<Rightarrow> ('i, 'w) agent \<Rightarrow> bool" where
  "only_inf s s' \<longleftrightarrow> (\<exists>i. s' = s\<lparr>ag_inf := i\<rparr>)"

definition inner :: "('i, 'w) agent \<Rightarrow> ('i, 'w) agent \<Rightarrow> bool" where
  "inner s s' \<longleftrightarrow> (\<exists>i rt. s' = s\<lparr>ag_inf := i, ag_runtime := rt\<rparr>)"

lemma only_inf_refl [simp]: "only_inf s s"
  unfolding only_inf_def by (intro exI [of _ "ag_inf s"]) simp

lemma only_inf_update [simp]: "only_inf s (s\<lparr>ag_inf := i\<rparr>)"
  unfolding only_inf_def by blast

lemma only_inf_trans: "only_inf s t \<Longrightarrow> only_inf t u \<Longrightarrow> only_inf s u"
  by (auto simp: only_inf_def)

lemma only_inf_fields:
  "only_inf s s' \<Longrightarrow> ag_runtime s' = ag_runtime s \<and> ag_config s' = ag_config s \<and> ag_max_turns s' = ag_max_turns s \<and>
     ag_total_turns s' = ag_total_turns s"
  by (auto simp: only_inf_def)

lemma inner_fields: "inner s s' \<Longrightarrow> ag_config s' = ag_config s \<and> ag_max_turns s' = ag_max_turns s \<and> ag_total_turns s' = ag_total_turns s"
  by (auto simp: inner_def)

lemma only_inf_inner: "only_inf s s' \<Longrightarrow> inner s s'"
  unfolding only_inf_def inner_def by (metis agent.surjective agent.update_convs(1,2))

lemma inner_trans: "inner s t \<Longrightarrow> inner t u \<Longrightarrow> inner s u"
  unfolding inner_def by auto blast

lemma on_inf_only: "on_inf m s = (r, s') \<Longrightarrow> only_inf s s' \<and> m (ag_inf s) = (r, ag_inf s')"
  by (auto simp: on_inf_def split: prod.splits)

lemma mod_inf_step [simp]: "mod_inf f s = (Inr (), s\<lparr>ag_inf := f (ag_inf s)\<rparr>)"
  by (simp add: mod_inf_def modifyE_def)

section \<open>Running the tools of a turn\<close>

definition fair_order :: "('i, 'w) agent_env \<Rightarrow> bool" where
  "fair_order env \<longleftrightarrow> (\<forall>f calls. ae_order env = Some f \<longrightarrow> distinct (f calls) \<and> set (f calls) = {0..<length calls})"

lemma given_ids: "[] \<notin> tc_id ` set calls \<Longrightarrow> map (\<lambda>(i, tc). call_id_of i tc) (zip is calls) = map tc_id (take (length is) calls)"
proof (induction calls arbitrary: "is")
  case (Cons c cs)
  then show ?case by (cases "is") (auto simp: call_id_of_def)
qed simp

lemma run_in_order_spec:
  assumes "\<And>i. i \<in> set is \<Longrightarrow> i < length calls" "\<And>tc. tc \<in> set calls \<Longrightarrow> runnable msg tc" "[] \<notin> tc_id ` set calls"
  shows "\<exists>acc' rt'. run_in_order net write msg calls is acc rt = (Inr acc', rt') \<and>
    (\<forall>i. if i \<in> set is then \<exists>r. dget acc' i = Some [r] \<and> tr_call_id r = tc_id (calls ! i) else dget acc' i = dget acc i)"
  using assms(1)
proof (induction "is" arbitrary: acc rt)
  case Nil
  then show ?case by (simp add: ret_def)
next
  case (Cons i "is")
  have i: "calls ! i \<in> set calls" using Cons.prems by simp
  obtain rs rt1 where e: "execute net write msg [calls ! i] rt = (Inr rs, rt1)" "map tr_call_id rs = [call_id_of 0 (calls ! i)]"
    using execute_answers [of "[calls ! i]" msg net "write" rt] assms(2) [OF i] by auto
  have "tc_id (calls ! i) \<noteq> []" using assms(3) i by force
  with e(2) obtain r where r: "rs = [r]" "tr_call_id r = tc_id (calls ! i)" by (auto simp: call_id_of_def)
  obtain acc' rt' where ih: "run_in_order net write msg calls is (dset acc i rs) rt1 = (Inr acc', rt')"
    "\<forall>j. if j \<in> set is then \<exists>r. dget acc' j = Some [r] \<and> tr_call_id r = tc_id (calls ! j) else dget acc' j = dget (dset acc i rs) j"
    using Cons.IH [of "dset acc i rs" rt1] Cons.prems by auto
  have "if j \<in> set (i # is) then \<exists>r. dget acc' j = Some [r] \<and> tr_call_id r = tc_id (calls ! j) else dget acc' j = dget acc j" for j
    using ih(2) [rule_format, of j] r by (auto split: if_splits)
  then show ?case using e(1) ih(1) by (auto simp: eff_simps)
qed

lemma concat_task_batches:
  "(\<And>i. i < n \<Longrightarrow> \<exists>r. dget nested i = Some [r] \<and> tr_call_id r = g i) \<Longrightarrow>
     map tr_call_id (concat (map (\<lambda>i. dget_or nested i []) [0..<n])) = map g [0..<n]"
  by (induction n) (fastforce simp: dget_or_def)+

lemma gather_answers:
  assumes "distinct order" "set order = {0..<length calls}" "\<And>tc. tc \<in> set calls \<Longrightarrow> runnable msg tc" "[] \<notin> tc_id ` set calls"
  shows "\<exists>rs rt'. gather_tools net write msg order calls rt = (Inr rs, rt') \<and> map tr_call_id rs = map tc_id calls"
proof -
  have "\<And>i. i \<in> set order \<Longrightarrow> i < length calls" using assms(2) by simp
  from run_in_order_spec [OF this assms(3,4)] obtain acc' rt' where a: "run_in_order net write msg calls order [] rt = (Inr acc', rt')"
    "\<forall>i. if i \<in> set order then \<exists>r. dget acc' i = Some [r] \<and> tr_call_id r = tc_id (calls ! i) else dget acc' i = dget [] i" by blast
  have "map tr_call_id (concat (map (\<lambda>i. dget_or acc' i []) [0..<length calls])) = map (\<lambda>i. tc_id (calls ! i)) [0..<length calls]"
    by (rule concat_task_batches) (use a(2) assms(2) in \<open>metis atLeastLessThan_iff zero_le\<close>)
  also have "\<dots> = map tc_id calls" by (rule nth_equalityI) simp_all
  finally have ids: "map tr_call_id (concat (map (\<lambda>i. dget_or acc' i []) [0..<length calls])) = map tc_id calls" .
  obtain rs rt2 where "apply_aggregate_budget write (concat (map (\<lambda>i. dget_or acc' i []) [0..<length calls])) rt' = (rs, rt2)" by fastforce
  moreover from budget_spec(1) [OF this] have "map tr_call_id rs = map tc_id calls" using ids by simp
  ultimately show ?thesis using a(1) by (simp add: gather_tools_def eff_simps)
qed

lemma execute_tools_answers:
  assumes "ag_runtime s \<noteq> None" "fair_order env" "\<And>tc. tc \<in> set calls \<Longrightarrow> runnable (ae_msg env) tc" "[] \<notin> tc_id ` set calls"
  shows "\<exists>rs rt. execute_tools env calls s = (Inr rs, s\<lparr>ag_runtime := Some rt\<rparr>) \<and> map tr_call_id rs = map tc_id calls"
proof -
  obtain rt where rt: "ag_runtime s = Some rt" using assms(1) by blast
  show ?thesis
  proof (cases "ae_order env")
    case None
    obtain rs rt' where "execute (ae_net env) (ae_write env) (ae_msg env) calls rt = (Inr rs, rt')"
      "map tr_call_id rs = map (\<lambda>(i, tc). call_id_of i tc) (zip [0..<length calls] calls)"
      using execute_answers [OF assms(3)] by blast
    then show ?thesis using rt None assms(4) by (auto simp: execute_tools_def given_ids intro!: exI [of _ rt'])
  next
    case (Some f)
    obtain rs rt' where "gather_tools (ae_net env) (ae_write env) (ae_msg env) (f calls) calls rt = (Inr rs, rt')"
      "map tr_call_id rs = map tc_id calls"
      using gather_answers [OF _ _ assms(3,4)] assms(2) Some unfolding fair_order_def by blast
    then show ?thesis using rt Some by (auto simp: execute_tools_def intro!: exI [of _ rt'])
  qed
qed

section \<open>The queue\<close>

definition without_queue :: "('i, 'w) agent \<Rightarrow> ('i, 'w) agent" where
  "without_queue s = s\<lparr>ag_queue := None, ag_pending := [], ag_incoming := []\<rparr>"

lemma without_send [simp]: "without_queue (snd (send_message m s)) = without_queue s"
  by (cases "ag_queue s") (simp_all add: send_message_def without_queue_def)

lemma without_sends [simp]: "without_queue (foldl (\<lambda>t m. snd (send_message m t)) t ms) = without_queue t"
  by (induction ms arbitrary: t) simp_all

lemma without_receive [simp]: "without_queue (receive_incoming s) = without_queue s"
  by (cases "ag_incoming s") (simp_all add: receive_incoming_def, simp add: without_queue_def)

lemma drain_queue:
  assumes "drain_message_queue s = (r, s')" shows "(\<exists>m. r = Inr m) \<and> without_queue s' = without_queue s"
proof -
  define t where "t = receive_incoming s"
  have "(\<exists>m. r = Inr m) \<and> without_queue s' = without_queue t"
    using assms by (auto simp: drain_message_queue_def Let_def t_def [symmetric] without_queue_def split: option.splits list.splits)
  then show ?thesis by (simp add: t_def)
qed

lemma without_queue_fields:
  assumes "without_queue s' = without_queue s"
  shows "ag_inf s' = ag_inf s" "ag_runtime s' = ag_runtime s" "ag_config s' = ag_config s"
    "ag_max_turns s' = ag_max_turns s" "ag_total_turns s' = ag_total_turns s"
  using assms by (cases s; cases s'; simp add: without_queue_def)+

section \<open>Compaction and turns over the contract\<close>

text \<open>A conversation without system messages that no tool call waits in.\<close>

definition quiet :: "('i \<Rightarrow> message list) \<Rightarrow> (message list \<Rightarrow> string list option) \<Rightarrow> 'i \<Rightarrow> bool" where
  "quiet history opens i \<longleftrightarrow> list_all not_system (history i) \<and> opens (history i) = Some []"

text \<open>What holds between the turns, and how a step keeps it.\<close>

definition keeps_quiet ::
    "'i backend \<Rightarrow> ('i \<Rightarrow> message list) \<Rightarrow> (message list \<Rightarrow> string list option) \<Rightarrow> ('i, 'w) agent \<Rightarrow> ('i, 'w) agent \<Rightarrow> bool" where
  "keeps_quiet b history opens s s' \<longleftrightarrow>
     quiet history opens (ag_inf s') \<and> get_system_prompt b (ag_inf s') = get_system_prompt b (ag_inf s) \<and>
     ag_runtime s' \<noteq> None \<and> inner s s'"

text \<open>The agent between two turns.\<close>

definition steady :: "'i backend \<Rightarrow> ('i \<Rightarrow> message list) \<Rightarrow> (message list \<Rightarrow> string list option) \<Rightarrow> ('i, 'w) agent \<Rightarrow> bool" where
  "steady b history opens s \<longleftrightarrow> quiet history opens (ag_inf s) \<and> get_system_prompt b (ag_inf s) \<noteq> [] \<and> ag_runtime s \<noteq> None"

context chat_backend begin

lemma split_settled:
  assumes "opens ms = Some []" "ms \<noteq> []" "split_pending msg ms = Inr (xs, p)"
  shows "xs = ms \<and> p = None"
proof -
  have snoc: "opens (butlast ms @ [last ms]) = Some []" using assms(1,2) by simp
  show ?thesis using assms(3) settled [OF snoc] by (auto simp: split_pending_def Let_def split: if_splits)
qed

lemma summarize_spec:
  assumes "ae_backend env = b" "summarize env ms None conversation s = (r, s')"
  shows "only_inf s s' \<and> get_system_prompt b (ag_inf s') = get_system_prompt b (ag_inf s)"
    and "r = Inl e \<Longrightarrow> history (ag_inf s') = filter not_system ms"
    and "r = Inr u \<Longrightarrow> \<exists>t. history (ag_inf s') = [user_message (summary_text t)]"
proof -
  define i1 where "i1 = add_user_message b (summary_request conversation)
    (reset_history b (set_system_prompt b summarizer_prompt (ag_inf s)))"
  obtain q i2 where c: "complete b [] (ac_inference (ag_config s)) i1 = (q, i2)" by fastforce
  define i3 where "i3 = set_system_prompt b (get_system_prompt b (ag_inf s)) i2"
  obtain j where j: "replace_messages b ms (reset_history b i3) = (Inr (), j)" "history j = filter not_system ms"
    "get_system_prompt b j = get_system_prompt b (reset_history b i3)" using restored by blast
  have run: "(r, s') = (case q of
      Inl e \<Rightarrow> (Inl e, s\<lparr>ag_inf := j\<rparr>)
    | Inr x \<Rightarrow> (Inr (), s\<lparr>ag_inf := replace_history b (tn_text x) i3\<rparr>))"
    using assms(2) c [unfolded i1_def] j(1) [unfolded i3_def]
    by (cases q) (simp_all add: summarize_def assms(1) Let_def eff_simps catchE_def on_inf_def pending_list_def i3_def)
  show "only_inf s s' \<and> get_system_prompt b (ag_inf s') = get_system_prompt b (ag_inf s)"
    "r = Inl e \<Longrightarrow> history (ag_inf s') = filter not_system ms"
    "r = Inr u \<Longrightarrow> \<exists>t. history (ag_inf s') = [user_message (summary_text t)]"
    using run j(2,3) by (cases q; auto simp: i3_def set_prompt reset replaced)+
qed

text \<open>The messages that compaction looks at: without a system prompt the first one is taken for it.\<close>

lemma compact_spec:
  assumes env: "ae_backend env = b" "ae_msg env = msg" and quiet: "opens (tl (get_messages b (ag_inf s))) = Some []"
    and c: "compact env s = (r, s')"
  shows "only_inf s s' \<and> get_system_prompt b (ag_inf s') = get_system_prompt b (ag_inf s)"
    and "history (ag_inf s') = history (ag_inf s) \<or>
      (r \<noteq> Inr () \<and> history (ag_inf s') = filter not_system (tl (get_messages b (ag_inf s)))) \<or>
      (\<exists>t. r = Inr () \<and> history (ag_inf s') = [user_message (summary_text t)])"
proof -
  define ms where "ms = tl (get_messages b (ag_inf s))"
  have "only_inf s s' \<and> get_system_prompt b (ag_inf s') = get_system_prompt b (ag_inf s) \<and>
    (history (ag_inf s') = history (ag_inf s) \<or> (r \<noteq> Inr () \<and> history (ag_inf s') = filter not_system ms) \<or>
      (\<exists>t. r = Inr () \<and> history (ag_inf s') = [user_message (summary_text t)]))"
  proof (cases "ms = [] \<or> (\<exists>e. split_pending msg ms = Inl e) \<or> (\<exists>e. mapM (summary_lines msg) ms = Inl e)")
    case True
    have "s' = s"
    proof (cases "ms = []")
      case False
      show ?thesis
      proof (cases "split_pending msg ms")
        case (Inl e)
        then show ?thesis using c False by (simp add: compact_def env ms_def [symmetric] eff_simps liftE_def)
      next
        case (Inr xp)
        obtain xs p where xp: "xp = (xs, p)" by fastforce
        have "xs = ms \<and> p = None" using split_settled [of ms xs p] quiet Inr False xp by (simp add: ms_def)
        then show ?thesis using c False True Inr xp by (auto simp: compact_def env ms_def [symmetric] eff_simps liftE_def)
      qed
    qed (use c in \<open>simp add: compact_def env ms_def [symmetric] eff_simps\<close>)
    then show ?thesis by simp
  next
    case False
    then obtain xs p lns where sp: "split_pending msg ms = Inr (xs, p)" "mapM (summary_lines msg) ms = Inr lns"
      by (cases "split_pending msg ms"; cases "mapM (summary_lines msg) ms") auto
    have "xs = ms \<and> p = None" using split_settled [of ms xs p] quiet sp False by (simp add: ms_def)
    then have sm: "summarize env ms None (join [nl] (concat lns)) s = (r, s')"
      using c False sp by (simp add: compact_def env ms_def [symmetric] eff_simps liftE_def)
    show ?thesis using summarize_spec [OF env(1) sm] by (cases r) auto
  qed
  then show "only_inf s s' \<and> get_system_prompt b (ag_inf s') = get_system_prompt b (ag_inf s)"
    "history (ag_inf s') = history (ag_inf s) \<or>
      (r \<noteq> Inr () \<and> history (ag_inf s') = filter not_system (tl (get_messages b (ag_inf s)))) \<or>
      (\<exists>t. r = Inr () \<and> history (ag_inf s') = [user_message (summary_text t)])"
    unfolding ms_def by blast+
qed

lemma prompt_messages: "get_system_prompt b i \<noteq> [] \<Longrightarrow> tl (get_messages b i) = history i"
  by (simp add: messages with_system_def)

lemma quiet_user: "quiet history opens i \<Longrightarrow> quiet history opens (add_user_message b c i)"
  by (simp add: quiet_def user user_open)

lemma compact_quiet:
  assumes "ae_backend env = b" "ae_msg env = msg" "get_system_prompt b (ag_inf s) \<noteq> []" "quiet history opens (ag_inf s)"
    "compact env s = (r, s')"
  shows "only_inf s s'" "get_system_prompt b (ag_inf s') = get_system_prompt b (ag_inf s)" "quiet history opens (ag_inf s')"
    "r \<noteq> Inr () \<Longrightarrow> history (ag_inf s') = history (ag_inf s)"
proof -
  have tl: "tl (get_messages b (ag_inf s)) = history (ag_inf s)" by (rule prompt_messages [OF assms(3)])
  have q: "opens (tl (get_messages b (ag_inf s))) = Some []" using assms(4) tl by (simp add: quiet_def)
  have f: "filter not_system (history (ag_inf s)) = history (ag_inf s)" using assms(4) by (simp add: quiet_def list_all_iff)
  note cs = compact_spec [OF assms(1,2) q assms(5)]
  show "only_inf s s'" "get_system_prompt b (ag_inf s') = get_system_prompt b (ag_inf s)" using cs(1) by auto
  show "quiet history opens (ag_inf s')"
    using cs(2) assms(4) user_open [OF empty_open] unfolding tl f quiet_def by auto
  show "r \<noteq> Inr () \<Longrightarrow> history (ag_inf s') = history (ag_inf s)" using cs(2) unfolding tl f by auto
qed

lemma compact_if_quiet:
  assumes "ae_backend env = b" "ae_msg env = msg" "get_system_prompt b (ag_inf s) \<noteq> []" "quiet history opens (ag_inf s)"
    "compact_if env n s = (r, s')"
  shows "only_inf s s' \<and> get_system_prompt b (ag_inf s') = get_system_prompt b (ag_inf s) \<and> quiet history opens (ag_inf s')"
proof (cases "should_compact (ag_config s) n")
  case True
  then have "compact env s = (r, s')" using assms(5) by (simp add: compact_if_def eff_simps)
  from compact_quiet [OF assms(1-4) this] show ?thesis by simp
next
  case False
  then show ?thesis using assms by (simp add: compact_if_def eff_simps)
qed

end

context tool_backend begin

lemma handle_answer_quiet:
  assumes env: "ae_backend env = b" "ae_msg env = msg" "fair_order env"
    and s: "complete b ts cfg i0 = (Inr a, ag_inf s)" "quiet history opens i0" "get_system_prompt b (ag_inf s) \<noteq> []"
      "ag_runtime s \<noteq> None"
    and h: "handle_answer env n k a s = (r, s')"
  shows "keeps_quiet b history opens s s'"
proof -
  note quietD = s(2) [unfolded quiet_def]
  have roles: "list_all not_system (history (ag_inf s))" using completed [OF s(1)] quietD by auto
  have open_calls: "opens (history (ag_inf s)) = Some (map tc_id (tn_calls a))"
    using completed_open [OF s(1)] quietD by simp
  have closed: "quiet history opens (add_tool_results b rs (ag_inf s))"
    if "map tr_call_id rs = map tc_id (tn_calls a)" "tn_calls a \<noteq> []" for rs
  proof -
    have "rs \<noteq> []" using that by auto
    then show ?thesis using results_open [of "ag_inf s" rs] results_roles [OF roles] open_calls that(1) by (simp add: quiet_def)
  qed
  consider (cut) "cut_off a" | (cont) "\<not> cut_off a" "tn_finish a = ''length''" "tn_calls a = []"
    | (final) "\<not> cut_off a" "tn_finish a \<noteq> ''length''" "tn_calls a = []"
    | (tools) "\<not> cut_off a" "tn_calls a \<noteq> []" by blast
  then show ?thesis
  proof cases
    case cut
    have ids: "map tr_call_id (map dropped_result (tn_calls a)) = map tc_id (tn_calls a)" by (simp add: dropped_result_def)
    have "s' = s\<lparr>ag_inf := add_user_message b (retry_message (tn_calls a)) (add_tool_results b (map dropped_result (tn_calls a)) (ag_inf s))\<rparr>"
      using h cut by (simp add: handle_answer_def env Let_def eff_simps)
    then show ?thesis using closed [OF ids] cut s(4)
      by (simp add: keeps_quiet_def quiet_user user results_prompt cut_off_def only_inf_inner)
  next
    case cont
    have q: "quiet history opens (ag_inf s)" using roles open_calls cont by (simp add: quiet_def)
    have "s' = s \<or> s' = s\<lparr>ag_inf := add_user_message b continue_message (ag_inf s)\<rparr>"
      using h cont by (auto simp: handle_answer_def env Let_def eff_simps split: if_splits)
    then show ?thesis using q s(4) by (auto simp: keeps_quiet_def quiet_user user only_inf_inner)
  next
    case final
    have q: "quiet history opens (ag_inf s)" using roles open_calls final by (simp add: quiet_def)
    obtain u where "compact_if env (tu_input (tn_usage a)) s = (u, s')"
      using h final by (auto simp: handle_answer_def env Let_def eff_simps split: prod.splits sum.splits)
    from compact_if_quiet [OF env(1,2) s(3) q this] show ?thesis
      using s(4) by (auto simp: keeps_quiet_def only_inf_inner dest: only_inf_fields)
  next
    case tools
    have run: "runnable (ae_msg env) tc" if tc: "tc \<in> set (tn_calls a)" for tc
    proof -
      have "\<not> tc_truncated tc" using tools tc by (auto simp: cut_off_def list_ex_iff)
      then obtain v where "loads msg (tc_arguments tc) = Inr v" using call_arguments [OF s(1) tc] by blast
      then show ?thesis by (cases v) (auto simp: runnable_def parse_tool_call_arguments_def env)
    qed
    obtain rs rt where x: "execute_tools env (tn_calls a) s = (Inr rs, s\<lparr>ag_runtime := Some rt\<rparr>)" "map tr_call_id rs = map tc_id (tn_calls a)"
      using execute_tools_answers [OF s(4) env(3) run call_ids [OF s(1)]] by blast
    define t where "t = s\<lparr>ag_runtime := Some rt, ag_inf := add_tool_results b rs (ag_inf s)\<rparr>"
    have t: "quiet history opens (ag_inf t)" "get_system_prompt b (ag_inf t) \<noteq> []"
      using closed [OF x(2) tools(2)] s(3) by (simp_all add: t_def results_prompt)
    obtain u where c: "compact_if env (tu_input (tn_usage a)) t = (u, s')"
      using h tools x by (auto simp: handle_answer_def env Let_def eff_simps cut_off_def t_def split: prod.splits sum.splits)
    have st: "inner s t" unfolding inner_def t_def by (metis agent.update_convs(1,2) agent.surjective)
    from compact_if_quiet [OF env(1,2) t(2,1) c] show ?thesis
      using inner_trans [OF st only_inf_inner] by (auto simp: keeps_quiet_def t_def results_prompt dest: only_inf_fields)
  qed
qed

lemma inject_steady:
  assumes "ae_backend env = b" "steady b history opens s" "inject_pending env s = (r, s')"
  shows "r = Inr () \<and> steady b history opens s' \<and> ag_total_turns s' = ag_total_turns s \<and> ag_max_turns s' = ag_max_turns s"
proof -
  obtain q t where d: "drain_message_queue s = (q, t)" by fastforce
  then obtain p where p: "q = Inr p" using drain_queue by blast
  note f = without_queue_fields [OF drain_queue [OF d, THEN conjunct2]]
  have t: "steady b history opens t" using assms(2) f by (simp add: steady_def)
  have "r = Inr () \<and> (s' = t \<or> (\<exists>c. s' = t\<lparr>ag_inf := add_user_message b c (ag_inf t)\<rparr>))"
    using assms(1,3) d p by (auto simp: inject_pending_def eff_simps split: option.splits if_splits)
  then show ?thesis using t f by (auto simp: steady_def quiet_user user)
qed

lemma turn_steady:
  assumes env: "ae_backend env = b" "ae_msg env = msg" "fair_order env"
    and s: "steady b history opens s" and t: "turn env n k s = (r, s')"
  shows "steady b history opens s' \<and> ag_total_turns s' = ag_total_turns s + 1 \<and> ag_max_turns s' = ag_max_turns s"
proof -
  define s0 where "s0 = s\<lparr>ag_total_turns := ag_total_turns s + 1\<rparr>"
  obtain p s1 where i: "inject_pending env s0 = (p, s1)" by fastforce
  have s0: "steady b history opens s0" using s by (simp add: s0_def steady_def)
  note i1 = inject_steady [OF env(1) s0 i]
  obtain q s2 where c: "call_llm env s1 = (q, s2)" by fastforce
  obtain ts cfg where c2: "complete b ts cfg (ag_inf s1) = (q, ag_inf s2)" and o: "only_inf s1 s2"
    using c on_inf_only unfolding call_llm_def env(1) by blast
  note of = only_inf_fields [OF o] and cp = completed_prompt [OF c2]
  have total: "ag_total_turns s2 = ag_total_turns s + 1" "ag_max_turns s2 = ag_max_turns s"
    using of i1 by (simp_all add: s0_def)
  have st1: "quiet history opens (ag_inf s1)" "get_system_prompt b (ag_inf s1) \<noteq> []" "ag_runtime s1 \<noteq> None"
    using i1 by (auto simp: steady_def)
  have run: "turn env n k s = (case q of
      Inr a \<Rightarrow> handle_answer env n k a s2
    | Inl (PromptTooLongError e) \<Rightarrow>
        (if Suc k \<le> MAX_REACTIVE_COMPACTIONS then seqE (compact env) (ret (Again n (Suc k))) s2 else (Inl (PromptTooLongError e), s2))
    | Inl e \<Rightarrow> (Inl e, s2))"
    using i c i1 by (simp add: turn_def count_turn_def eff_simps s0_def [symmetric] split: sum.split py_error.split)
  show ?thesis
  proof (cases q)
    case (Inr a)
    have "keeps_quiet b history opens s2 s'"
      using handle_answer_quiet [OF env, of ts cfg "ag_inf s1" a s2 n k r s'] c2 Inr st1 cp of t run by simp
    then show ?thesis using total cp st1 by (auto simp: keeps_quiet_def steady_def dest: inner_fields)
  next
    case (Inl e)
    have st2: "quiet history opens (ag_inf s2)" using not_completed [OF c2 [unfolded Inl]] st1(1) by (simp add: quiet_def)
    have same: "steady b history opens s2" using st2 st1 cp of by (simp add: steady_def)
    show ?thesis
    proof (cases "s' = s2")
      case True
      then show ?thesis using same total by simp
    next
      case False
      then obtain u where "compact env s2 = (u, s')"
        using t run Inl by (auto simp: eff_simps split: py_error.splits if_splits prod.splits sum.splits)
      from compact_quiet [OF env(1,2) _ st2 this] have "only_inf s2 s'" "quiet history opens (ag_inf s')"
        "get_system_prompt b (ag_inf s') = get_system_prompt b (ag_inf s2)" using same by (auto simp: steady_def)
      then show ?thesis using same total by (auto simp: steady_def dest: only_inf_fields)
    qed
  qed
qed

lemma turns_steady:
  assumes env: "ae_backend env = b" "ae_msg env = msg" "fair_order env"
  shows "steady b history opens s \<Longrightarrow> turns n env k m s = (r, s') \<Longrightarrow>
    steady b history opens s' \<and> ag_max_turns s' = ag_max_turns s \<and> ag_total_turns s \<le> ag_total_turns s' \<and>
    ag_total_turns s' \<le> ag_total_turns s + int n"
proof (induction n arbitrary: k m s)
  case 0
  then show ?case by (simp add: ret_def)
next
  case (Suc n)
  obtain q s1 where t: "turn env k m s = (q, s1)" by fastforce
  note st = turn_steady [OF env Suc.prems(1) t]
  show ?case
  proof (cases "\<exists>k' m'. q = Inr (Again k' m')")
    case True
    then obtain k' m' where "turns n env k' m' s1 = (r, s')" using Suc.prems(2) t by (auto simp: eff_simps)
    from Suc.IH [OF _ this] st show ?thesis by auto
  next
    case False
    then have "s' = s1" using Suc.prems(2) t by (auto simp: eff_simps split: sum.splits turn_end.splits)
    then show ?thesis using st by simp
  qed
qed

lemma call_steady:
  assumes env: "ae_backend env = b" "ae_msg env = msg" "fair_order env"
    and s: "steady b history opens s" and c: "agent_call env content s = (r, s')"
  shows "steady b history opens s' \<and> ag_max_turns s' = ag_max_turns s \<and> ag_total_turns s \<le> ag_total_turns s' \<and>
    ag_total_turns s' \<le> max (ag_total_turns s) (ag_max_turns s)"
proof -
  obtain t where t: "run_loop env t = (r, s')" "t = s \<or> t = s\<lparr>ag_inf := add_user_message b content (ag_inf s)\<rparr>"
    using c by (auto simp: agent_call_def env(1) eff_simps split: if_splits)
  have "steady b history opens t" using s t(2) by (auto simp: steady_def quiet_user user)
  moreover have "ag_max_turns t = ag_max_turns s" "ag_total_turns t = ag_total_turns s" using t(2) by auto
  ultimately show ?thesis using turns_steady [OF env _ t(1) [unfolded run_loop_def]] by (auto simp: max_def split: if_splits)
qed

end

section \<open>Steps that leave the tools alone\<close>

lemma only_inf_order: "reflp only_inf" "transp only_inf"
  by (auto intro: reflpI transpI only_inf_trans)

lemma only_steps:
  "keeps only_inf (mod_inf f)" "keeps only_inf (on_inf m)" "keeps only_inf (liftE r)" "keeps only_inf (ret a)"
  "keeps only_inf (throw e)" "keeps only_inf (getsE g)"
proof -
  show "keeps only_inf (on_inf m)" using on_inf_only [of m] by (metis keeps_def prod.collapse)
qed (auto simp: keeps_def liftE_def ret_def throw_def getsE_def split: sum.split)

lemmas only_compose = keeps_bindE [OF only_inf_order(2)] keeps_seqE [OF only_inf_order(2)] keeps_catchE [OF only_inf_order(2)]

lemma summarize_only: "keeps only_inf (summarize env ms p c)"
  unfolding summarize_def Let_def by (intro only_compose only_steps) (auto split: option.split intro!: only_compose only_steps)

lemma compact_only: "keeps only_inf (compact env)"
  unfolding compact_def Let_def
  by (intro only_compose only_steps) (auto split: prod.split intro!: only_compose only_steps summarize_only)

lemma compact_if_only: "keeps only_inf (compact_if env n)"
  unfolding compact_if_def whenE_def by (intro only_compose only_steps) (auto intro: compact_only only_steps)

lemma inject_runtime: "inject_pending env s = (r, s') \<Longrightarrow> ag_runtime s' = ag_runtime s"
  by (auto simp: inject_pending_def eff_simps split: prod.splits sum.splits option.splits if_splits
      dest!: drain_queue without_queue_fields(2))

section \<open>Properties\<close>



text \<open>C10: A turn runs tools only for an answer that is complete: it did not end at the token limit and the arguments of
  every call parse.\<close>

theorem tools_run_only_complete:
  assumes "ae_backend env = openai_backend api (ae_msg env)" "turn env n k s = (r, s')" "ag_runtime s' \<noteq> ag_runtime s"
  shows "\<exists>ts cfg i a j. openai_complete api (ae_msg env) ts cfg i = (Inr a, j) \<and> tn_calls a \<noteq> [] \<and> tn_finish a \<noteq> ''length'' \<and>
    (\<forall>tc \<in> set (tn_calls a). \<exists>v. loads (ae_msg env) (tc_arguments tc) = Inr v)"
proof -
  define s0 where "s0 = s\<lparr>ag_total_turns := ag_total_turns s + 1\<rparr>"
  obtain p s1 where i: "inject_pending env s0 = (p, s1)" by fastforce
  have r1: "ag_runtime s1 = ag_runtime s" using inject_runtime [OF i] by (simp add: s0_def)
  obtain q s2 where c: "call_llm env s1 = (q, s2)" by fastforce
  have o: "only_inf s1 s2" "complete (ae_backend env) (ag_tools s1) (ac_inference (ag_config s1)) (ag_inf s1) = (q, ag_inf s2)"
    using c on_inf_only unfolding call_llm_def by blast+
  have r2: "ag_runtime s2 = ag_runtime s" using only_inf_fields [OF o(1)] r1 by simp
  have t: "turn env n k s = (case p of Inl e \<Rightarrow> (Inl e, s1) | Inr _ \<Rightarrow> (case q of
      Inr a \<Rightarrow> handle_answer env n k a s2
    | Inl (PromptTooLongError e) \<Rightarrow>
        (if Suc k \<le> MAX_REACTIVE_COMPACTIONS then seqE (compact env) (ret (Again n (Suc k))) s2 else (Inl (PromptTooLongError e), s2))
    | Inl e \<Rightarrow> (Inl e, s2)))"
    using i c by (simp add: turn_def count_turn_def eff_simps s0_def [symmetric] split: sum.split py_error.split)
  have cmp: "ag_runtime u = ag_runtime s2" if "compact env s2 = (v, u)" for u v
    using keepsD [OF compact_only that] only_inf_fields by blast
  have "\<exists>a. q = Inr a \<and> handle_answer env n k a s2 = (r, s')"
    using assms(2,3) t r1 r2 cmp
    by (cases p; cases q) (auto simp: eff_simps split: py_error.splits if_splits prod.splits sum.splits)
  then obtain a where a: "q = Inr a" "handle_answer env n k a s2 = (r, s')" by blast
  have ifc: "ag_runtime u = ag_runtime w" if "compact_if env x w = (v, u)" for u v w x
    using keepsD [OF compact_if_only that] only_inf_fields by blast
  have d: "\<not> cut_off a \<and> tn_calls a \<noteq> []"
    using a(2) assms(3) r2 ifc by (auto simp: handle_answer_def Let_def eff_simps split: if_splits prod.splits sum.splits)
  have oc: "complete (openai_backend api (ae_msg env)) (ag_tools s1) (ac_inference (ag_config s1)) (ag_inf s1) = (Inr a, ag_inf s2)"
    using o(2) a(1) assms(1) by simp
  have "\<exists>v. loads (ae_msg env) (tc_arguments tc) = Inr v" if "tc \<in> set (tn_calls a)" for tc
    using openai.call_arguments [OF oc that] d that by (auto simp: cut_off_def list_ex_iff)
  with d have "tn_calls a \<noteq> [] \<and> tn_finish a \<noteq> ''length'' \<and> (\<forall>tc \<in> set (tn_calls a). \<exists>v. loads (ae_msg env) (tc_arguments tc) = Inr v)"
    by (auto simp: cut_off_def)
  moreover have "openai_complete api (ae_msg env) (ag_tools s1) (ac_inference (ag_config s1)) (ag_inf s1) = (Inr a, ag_inf s2)"
    using oc by (simp add: openai_backend_def)
  ultimately show ?thesis by blast
qed

section \<open>Concrete runs\<close>

text \<open>A service that gives the answers of a list, and then fails.\<close>

definition scripted :: "openai_response api_reply list openai_api" where
  "scripted script rq = (case script of [] \<Rightarrow> (ApiFailed ''down'', []) | r # rs \<Rightarrow> (r, rs))"

definition reply :: "string \<Rightarrow> raw_call list \<Rightarrow> string \<Rightarrow> openai_response api_reply" where
  "reply t calls finish = Response \<lparr>or_choices = [\<lparr>oc_content = Some t, oc_reasoning_content = None, oc_reasoning = None,
     oc_thinking = None, oc_calls = calls, oc_finish = Some finish\<rparr>], or_usage = None, or_model = ''m'', or_id = ''r''\<rparr>"

definition demo_chat :: "string \<Rightarrow> message list \<Rightarrow> openai_response api_reply list \<Rightarrow> openai_response api_reply list openai" where
  "demo_chat prompt ms script = \<lparr>oa_model = ''m'', oa_retries = 0, oa_is_local = False, oa_system = prompt, oa_messages = ms,
     oa_service = script\<rparr>"

definition demo_agent :: "'i \<Rightarrow> ('i, string list) agent" where
  "demo_agent i = \<lparr>ag_inf = i, ag_runtime = Some (demo_runtime None None []),
     ag_config = \<lparr>ac_inference = default_inference_config, ac_context_window = None, ac_compact_threshold = 3 / 4\<rparr>,
     ag_max_turns = 5, ag_total_turns = 0, ag_queue = None, ag_pending = [], ag_incoming = [], ag_tools = [],
     ag_agent_tools = [''look''], ag_autonomy = None, ag_base_prompt = ''p'', ag_prompt = ''p'', ag_tool_summary = None,
     ag_skill_summary = None\<rparr>"

definition demo_env :: "(openai_response api_reply list openai, string list) agent_env" where
  "demo_env = \<lparr>ae_backend = openai_backend scripted id, ae_net = demo_net, ae_write = no_write, ae_msg = id, ae_order = None\<rparr>"

definition tool_reply :: "openai_response api_reply" where
  "tool_reply = reply [] [RawObj (Some (''look'', ''{}'')) ''c1'' None] ''tool_calls''"

lemma demo_fair: "fair_order demo_env"
  by (simp add: fair_order_def demo_env_def)


definition short_chat :: "message list" where
  "short_chat = [user_message ''first'', user_message ''second'']"


lemma demo_answer:
  "openai_complete scripted id ts cfg (demo_chat ''p'' [] [tool_reply]) =
     (Inr \<lparr>tn_text = [], tn_thinking = [], tn_calls = [\<lparr>tc_id = ''c1'', tc_name = ''look'', tc_arguments = ''{}'', tc_thought = [],
        tc_truncated = False\<rparr>], tn_usage = no_usage, tn_model = ''m'', tn_call_id = ''r'', tn_finish = ''tool_calls''\<rparr>,
      demo_chat ''p'' [assistant_message [] [] [\<lparr>tc_id = ''c1'', tc_name = ''look'', tc_arguments = ''{}'', tc_thought = [],
        tc_truncated = False\<rparr>]] [])"
proof -
  have "loads id ''{}'' = Inr (JObj [])" by code_simp
  then show ?thesis
    by (simp add: openai_complete_def request_reply_def ask_service_def demo_chat_def scripted_def tool_reply_def reply_def
        eff_simps openai_request_of_def retry_on_exception.simps raise_reply_def turn_of_def normalize_tool_calls_def
        normalize_tool_call_def build_tool_call_def invalid_json_def extract_thought_signature_def google_signature_def
        liftE_def openai_usage_of_def extract_reasoning_def append_message_def)
qed

lemma demo_execute:
  "\<exists>rs rt'. execute demo_net no_write id [\<lparr>tc_id = ''c1'', tc_name = ''look'', tc_arguments = ''{}'',
     tc_thought = [], tc_truncated = False\<rparr>] (demo_runtime None None []) = (Inr rs, rt') \<and> mg_net (rt_manager rt') = [''look'']"
proof -
  have "loads id ''{}'' = Inr (JObj [])" by code_simp
  then show ?thesis
    by (simp add: execute_def eff_simps execute_one_def get_allowed_tools_def demo_runtime_def call_id_of_def
        parse_tool_call_arguments_def call_manager_def mcp_call_tool_def demo_net_def on_net_def get_session_def catchE_def
        within_limit_def effective_limit_def max_result_chars_of_def tool_result_of_def apply_aggregate_budget_def Let_def)
qed

lemma demo_turn:
  "map_option (\<lambda>rt. mg_net (rt_manager rt)) (ag_runtime (snd (turn demo_env 0 0 (demo_agent (demo_chat ''p'' [] [tool_reply]))))) =
   Some [''look'']"
proof -
  obtain rs rt' where e: "execute demo_net no_write id [\<lparr>tc_id = ''c1'', tc_name = ''look'', tc_arguments = ''{}'',
     tc_thought = [], tc_truncated = False\<rparr>] (demo_runtime None None []) = (Inr rs, rt')" "mg_net (rt_manager rt') = [''look'']"
    using demo_execute by blast
  then show ?thesis
    by (simp add: turn_def count_turn_def inject_pending_def drain_message_queue_def receive_incoming_def eff_simps
        call_llm_def on_inf_def demo_env_def demo_agent_def openai_backend_def demo_answer handle_answer_def cut_off_def
        execute_tools_def mod_inf_def compact_if_def should_compact_def compact_token_limit_def)
qed

lemma tools_run_only_complete_witness:
  "\<exists>ts cfg i a j. openai_complete scripted id ts cfg i = (Inr a, j) \<and> tn_calls a \<noteq> [] \<and> tn_finish a \<noteq> ''length'' \<and>
    (\<forall>tc \<in> set (tn_calls a). \<exists>v. loads id (tc_arguments tc) = Inr v)"
proof -
  let ?s = "demo_agent (demo_chat ''p'' [] [tool_reply])"
  obtain r s' where t: "turn demo_env 0 0 ?s = (r, s')" by fastforce
  have "map_option (\<lambda>rt. mg_net (rt_manager rt)) (ag_runtime (snd (turn demo_env 0 0 ?s))) = Some [''look'']"
    by (rule demo_turn)
  moreover have "map_option (\<lambda>rt. mg_net (rt_manager rt)) (ag_runtime ?s) = Some []" by (simp add: demo_agent_def demo_runtime_def)
  ultimately have d: "ag_runtime s' \<noteq> ag_runtime ?s" using t by auto
  have env: "ae_backend demo_env = openai_backend scripted (ae_msg demo_env)" by (simp add: demo_env_def)
  show ?thesis using tools_run_only_complete [OF env t d] by (simp add: demo_env_def)
qed

text \<open>The answer of a call whose output was cut off at the token limit is only its last piece, though the model was told not to
  repeat what it had written.\<close>

theorem continued_answer_loses_beginning:
  "fst (agent_call demo_env ''go'' (demo_agent (demo_chat ''p'' [] [reply ''the proof '' [] ''length'', reply ''is complete'' [] ''stop'']))) =
   Inr ''is complete''"
  by code_simp

text \<open>An agent without a system prompt loses its first message when the summarizer fails.\<close>

theorem failed_compaction_drops_first:
  "oa_messages (ag_inf (snd (compact demo_env (demo_agent (demo_chat [] short_chat []))))) = [user_message ''second'']"
  by code_simp

end
