(* ===== verification/Mcp_Correct.thy ===== *)
theory Mcp_Correct
  imports Agent_Loop_Correct
begin

text \<open>
  What discovery and the start of an agent promise: every tool belongs to one server, and an agent only starts when its
  allowlist is known and none of its tools needs more autonomy than it states.
\<close>

section \<open>Discovery\<close>

text \<open>The two maps between tools and servers mirror each other, and every tool with a server is known by name.\<close>

definition mirrored :: "(string, string) dict \<Rightarrow> (string, string list) dict \<Rightarrow> (string, mcp_tool) dict \<Rightarrow> bool" where
  "mirrored tools servers by_name \<longleftrightarrow>
     (\<forall>t k. dget tools t = Some k \<longleftrightarrow> (\<exists>ts. dget servers k = Some ts \<and> t \<in> set ts)) \<and> dom (map_of by_name) = dom (map_of tools)"

lemma add_tools_mirrored:
  assumes "add_tools key ts d = Inr d'" "mirrored (ds_tools d) (ds_servers d) (ds_by_name d)" "key \<in> dom (map_of (ds_servers d))"
  shows "mirrored (ds_tools d') (ds_servers d') (ds_by_name d') \<and> dom (map_of (ds_servers d')) = dom (map_of (ds_servers d))"
  using assms
proof (induction ts arbitrary: d)
  case (Cons t ts)
  define e where "e = \<lparr>ds_tools = dset (ds_tools d) (mt_name t) key,
    ds_servers = dmodify (ds_servers d) key (\<lambda>ns. if mt_name t \<in> set ns then ns else ns @ [mt_name t]),
    ds_by_name = dset (ds_by_name d) (mt_name t) t\<rparr>"
  have fresh: "dget (ds_tools d) (mt_name t) = None" and step: "add_tools key ts e = Inr d'"
    using Cons.prems(1) by (auto simp: Let_def e_def has_key_def split: if_splits)
  have notin: "mt_name t \<notin> set ns" if "dget (ds_servers d) k = Some ns" for k ns
    using that fresh Cons.prems(2) unfolding mirrored_def by (metis option.distinct(1))
  have doms: "dom (map_of (ds_servers e)) = dom (map_of (ds_servers d))" by (auto simp: e_def split: if_splits)
  obtain ns0 where ns0: "dget (ds_servers d) key = Some ns0" "mt_name t \<notin> set ns0" using Cons.prems(3) notin by auto
  have srv: "dget (ds_servers e) j = (if j = key then Some (ns0 @ [mt_name t]) else dget (ds_servers d) j)" for j
    using ns0 by (simp add: e_def)
  have tool: "dget (ds_tools e) n = (if n = mt_name t then Some key else dget (ds_tools d) n)" for n by (simp add: e_def)
  have "dget (ds_tools d) n = Some k \<longleftrightarrow> (\<exists>ns. dget (ds_servers d) k = Some ns \<and> n \<in> set ns)" for n k
    using Cons.prems(2) by (simp add: mirrored_def)
  then have m: "dget (ds_tools e) n = Some k \<longleftrightarrow> (\<exists>ns. dget (ds_servers e) k = Some ns \<and> n \<in> set ns)" for n k
    using ns0 notin by (cases "k = key"; cases "n = mt_name t") (auto simp: srv tool)
  have "dom (map_of (ds_by_name e)) = dom (map_of (ds_tools e))" using Cons.prems(2) by (auto simp: e_def mirrored_def)
  with m have "mirrored (ds_tools e) (ds_servers e) (ds_by_name e)" by (simp add: mirrored_def)
  from Cons.IH [OF step this] Cons.prems(3) doms show ?case by simp
qed simp

lemma discover_from_mirrored:
  assumes "discover_from net keys d m = (Inr d', m')" "mirrored (ds_tools d) (ds_servers d) (ds_by_name d)"
    "set keys \<subseteq> dom (map_of (ds_servers d))"
  shows "mirrored (ds_tools d') (ds_servers d') (ds_by_name d')"
  using assms
proof (induction keys arbitrary: d m)
  case (Cons key keys)
  obtain r m1 where g: "get_session net key m = (r, m1)" by fastforce
  show ?case
  proof (cases r)
    case (Inl e)
    then show ?thesis using Cons g by auto
  next
    case (Inr c)
    with Cons.prems(1) g obtain ts m2 e where
      "add_tools key ts d = Inr e" "discover_from net keys e m2 = (Inr d', m')"
      by (auto split: prod.splits sum.splits)
    with add_tools_mirrored [OF this(1) Cons.prems(2)] Cons.IH Cons.prems(3) show ?thesis by fastforce
  qed
qed (simp add: ret_def)

text \<open>After discovery every tool is mapped to exactly one server, the server that lists it.\<close>

theorem discovery_mirrored:
  assumes "discover_tools net m = (Inr d, m')"
  shows "mirrored (mg_tool_to_server m') (mg_server_to_tools m') (mg_tools m') \<and> mg_discovered m' \<and> d = mg_tool_to_server m'"
proof -
  let ?d0 = "\<lparr>ds_tools = [], ds_servers = map (\<lambda>k. (k, [])) (dkeys (mg_configs m)), ds_by_name = []\<rparr> :: discovery"
  have e: "dget (map ((\<lambda>k. (k, [] :: string list)) \<circ> fst) xs) k = (if k \<in> fst ` set xs then Some [] else None)"
    for xs :: "(string, mcp_config) dict" and k by (induction xs) auto
  obtain q m1 where f: "discover_from net (dkeys (mg_configs m)) ?d0 m = (q, m1)" by fastforce
  then obtain ds where ds: "q = Inr ds" using assms by (cases q) (simp_all add: discover_tools_def)
  then have m': "m' = m1\<lparr>mg_tool_to_server := ds_tools ds, mg_server_to_tools := ds_servers ds, mg_tools := ds_by_name ds, mg_discovered := True\<rparr>"
    "d = ds_tools ds" using assms f by (auto simp: discover_tools_def)
  have "mirrored (ds_tools ds) (ds_servers ds) (ds_by_name ds)"
  proof (rule discover_from_mirrored [OF f [unfolded ds]])
    show "mirrored (ds_tools ?d0) (ds_servers ?d0) (ds_by_name ?d0)" by (simp add: mirrored_def e)
    show "set (dkeys (mg_configs m)) \<subseteq> dom (map_of (ds_servers ?d0))" by (auto simp: e dom_def)
  qed
  with m' show ?thesis by simp
qed

section \<open>Starting an agent\<close>

lemma max_score_upper: "x \<in> set (a # bs) \<Longrightarrow> score x \<le> score (max_score a bs)"
proof (induction bs arbitrary: a x)
  case (Cons c cs)
  define m where "m = (if score a < score c then c else a)"
  have m: "score a \<le> score m" "score c \<le> score m" "score m \<le> score (max_score m cs)"
    using Cons.IH [of m m] by (auto simp: m_def)
  have "score x \<le> score (max_score m cs)"
  proof (cases "x \<in> set cs")
    case True
    then show ?thesis using Cons.IH [of x m] by simp
  next
    case False
    then have "score x \<le> score m" using Cons.prems m by auto
    then show ?thesis using m(3) by linarith
  qed
  then show ?case by (simp add: m_def)
qed simp

lemma implied_upper: "t \<in> set allowlist \<Longrightarrow> score (autonomy_of reg t) \<le> score (compute_agent_autonomy reg allowlist)"
  using max_score_upper by (cases allowlist) (auto simp: compute_agent_autonomy_def simp del: max_score.simps)

text \<open>An agent that starts has only tools that some server offers, and states no lower autonomy than any of them needs; without
  an allowlist it states the highest.\<close>

theorem started_agent_checked:
  assumes "enter_agent env s = (Inr (), s')" "ag_runtime s = Some rt"
  shows "\<exists>rt'. ag_runtime s' = Some rt' \<and> rt_registry rt' = rt_registry rt \<and>
    set (ag_agent_tools s) \<subseteq> dom (map_of (mg_tool_to_server (rt_manager rt'))) \<and>
    (\<forall>a. ag_autonomy s = Some a \<longrightarrow>
       (if ag_agent_tools s = [] then a = EXECUTE
        else \<forall>t \<in> set (ag_agent_tools s). score (autonomy_of (rt_registry rt) t) \<le> score a))"
proof -
  obtain d m where d: "discover_tools (ae_net env) (rt_manager rt) = (Inr d, m)"
    using assms by (auto simp: enter_agent_def split: prod.splits sum.splits)
  define rt' where "rt' = rt\<lparr>rt_manager := m\<rparr>"
  have ok: "startup_error s rt' = None" and rt': "ag_runtime s' = Some rt'"
    using assms d by (auto simp: enter_agent_def rt'_def Let_def reset_agent_def modifyE_def split: option.splits)
  have known: "set (ag_agent_tools s) \<subseteq> set (dkeys (mg_tool_to_server (rt_manager rt')))"
    using ok by (auto simp: startup_error_def Let_def filter_empty_conv split: if_splits)
  have "\<not> score a < score (compute_agent_autonomy (rt_registry rt) (ag_agent_tools s))" if "ag_autonomy s = Some a" for a
    using ok that unfolding startup_error_def Let_def rt'_def by (simp split: if_splits)
  then have enough: "score (compute_agent_autonomy (rt_registry rt) (ag_agent_tools s)) \<le> score a" if "ag_autonomy s = Some a" for a
    using that by force
  have top: "a = EXECUTE" if "ag_autonomy s = Some a" "ag_agent_tools s = []" for a
    using enough [OF that(1)] that(2) by (cases a) (simp_all add: compute_agent_autonomy_def max_autonomy_def)
  have "score (autonomy_of (rt_registry rt) t) \<le> score a" if "ag_autonomy s = Some a" "t \<in> set (ag_agent_tools s)" for a t
    using enough [OF that(1)] implied_upper [OF that(2)] order.trans by blast
  with top known rt' show ?thesis by (auto simp: rt'_def dom_map_of_conv_image_fst)
qed

section \<open>A server with two tools\<close>

definition plain_tool :: "string \<Rightarrow> mcp_tool" where
  "plain_tool name = \<lparr>mt_name = name, mt_description = None, mt_schema = []\<rparr>"

definition listing_net :: "string list mcp_net" where
  "listing_net = demo_net\<lparr>net_list := (\<lambda>c. ret [plain_tool ''look'', plain_tool ''rm''])\<rparr>"

lemma discovery_mirrored_witness:
  "mirrored (mg_tool_to_server (snd (discover_tools listing_net (rt_manager (demo_runtime None None [])))))
     (mg_server_to_tools (snd (discover_tools listing_net (rt_manager (demo_runtime None None [])))))
     (mg_tools (snd (discover_tools listing_net (rt_manager (demo_runtime None None [])))))"
proof -
  obtain q m' where d: "discover_tools listing_net (rt_manager (demo_runtime None None [])) = (q, m')" by fastforce
  have "fst (discover_tools listing_net (rt_manager (demo_runtime None None []))) = Inr [(''look'', ''s''), (''rm'', ''s'')]" by code_simp
  with d have "q = Inr [(''look'', ''s''), (''rm'', ''s'')]" by simp
  from discovery_mirrored [OF d [unfolded this]] d show ?thesis by simp
qed

definition listing_env :: "(openai_response api_reply list openai, string list) agent_env" where
  "listing_env = demo_env\<lparr>ae_net := listing_net\<rparr>"

lemma started_agent_checked_witness:
  "\<exists>rt'. ag_runtime (snd (enter_agent listing_env (demo_agent (demo_chat ''p'' [] [])))) = Some rt' \<and>
     {''look''} \<subseteq> dom (map_of (mg_tool_to_server (rt_manager rt')))"
proof -
  let ?s = "demo_agent (demo_chat ''p'' [] [])"
  obtain r s' where e: "enter_agent listing_env ?s = (r, s')" by fastforce
  have "fst (enter_agent listing_env ?s) = Inr ()" by code_simp
  with e have e2: "enter_agent listing_env ?s = (Inr (), s')" by simp
  have rt: "ag_runtime ?s = Some (demo_runtime None None [])" and names: "ag_agent_tools ?s = [''look'']" by (simp_all add: demo_agent_def)
  show ?thesis using started_agent_checked [OF e2 rt] e2 by (auto simp: names)
qed

end
