(* ===== verification/Book_Chunks.thy ===== *)
theory Book_Chunks
  imports Py_Strings "HOL-Library.Monad_Syntax"
begin

text \<open>
  \<open>autoform/statement_extraction/chunking.py\<close>: the files of a book are read in the order of their names
  into one list of lines, which is cut into overlapping pieces. The loop over the pieces is a partial
  function: \<open>None\<close> is a loop that never ends. A directory is the list of its entries in any order.
\<close>

section \<open>Data\<close>

record chunk =
  ck_index :: nat
  ck_text :: string
  ck_start_line :: int
  ck_end_line :: int

record dir_entry =
  de_name :: string
  de_is_file :: bool
  de_text :: string

definition BOOK_EXTENSIONS :: "string list" where
  "BOOK_EXTENSIONS = [''.md'', ''.tex'']"

text \<open>\<open>Path.suffix\<close>: from the last dot of the name, which must be neither its first nor its last character.\<close>

definition suffix_of :: "string \<Rightarrow> string" where
  "suffix_of name =
     (let after = takeWhile (\<lambda>c. c \<noteq> CHR ''.'') (rev name);
          stem = drop (Suc (length after)) (rev name)
      in if after = [] \<or> stem = [] then [] else CHR ''.'' # rev after)"

section \<open>Reading a book\<close>

definition discover_book_files :: "string \<Rightarrow> dir_entry list \<Rightarrow> dir_entry list result" where
  "discover_book_files book_dir entries =
     (let files = sort_key de_name (filter (\<lambda>f. de_is_file f \<and> suffix_of (de_name f) \<in> set BOOK_EXTENSIONS) entries)
      in if files = [] then Inl (FileNotFoundError (''No .md or .tex files found in '' @ book_dir)) else Inr files)"

definition load_book :: "string \<Rightarrow> dir_entry list \<Rightarrow> string list result" where
  "load_book book_dir entries =
     rbind (discover_book_files book_dir entries) (\<lambda>files. Inr (concat (map (\<lambda>f. splitlines (de_text f)) files)))"

section \<open>Cutting it into pieces\<close>

text \<open>\<open>xs[i:j]\<close>: a negative index counts from the end, and both are cut to the list.\<close>

definition slice_index :: "'a list \<Rightarrow> int \<Rightarrow> nat" where
  "slice_index xs i = nat (min (int (length xs)) (if i < 0 then max 0 (i + int (length xs)) else i))"

definition slice :: "'a list \<Rightarrow> int \<Rightarrow> int \<Rightarrow> 'a list" where
  "slice xs i j = drop (slice_index xs i) (take (slice_index xs j) xs)"

definition make_chunk :: "string list \<Rightarrow> int \<Rightarrow> nat \<Rightarrow> int \<Rightarrow> chunk" where
  "make_chunk lines chunk_size index start =
     (let e = min (start + chunk_size) (int (length lines))
      in \<lparr>ck_index = index, ck_text = join [nl] (slice lines start e), ck_start_line = start + 1, ck_end_line = e\<rparr>)"

partial_function (option) chunk_from :: "string list \<Rightarrow> int \<Rightarrow> int \<Rightarrow> nat \<Rightarrow> int \<Rightarrow> chunk list option" where
  "chunk_from lines chunk_size overlap index start =
     (if start < int (length lines) then
        (let c = make_chunk lines chunk_size index start;
             start' = start + (chunk_size - overlap)
         in if int (length lines) \<le> start' then Some [c]
            else Option.bind (chunk_from lines chunk_size overlap (Suc index) start') (\<lambda>cs. Some (c # cs)))
      else Some [])"

definition chunk_lines :: "string list \<Rightarrow> int \<Rightarrow> int \<Rightarrow> chunk list option" where
  "chunk_lines lines chunk_size overlap = (if lines = [] then Some [] else chunk_from lines chunk_size overlap 0 0)"

text \<open>The whole: \<open>None\<close> when the loop does not end.\<close>

definition chunk_all :: "string \<Rightarrow> dir_entry list \<Rightarrow> int \<Rightarrow> int \<Rightarrow> chunk list result option" where
  "chunk_all book_dir entries chunk_size overlap =
     (case load_book book_dir entries of
        Inl e \<Rightarrow> Some (Inl e)
      | Inr lines \<Rightarrow> Option.bind (chunk_lines lines chunk_size overlap) (\<lambda>cs. Some (Inr cs)))"

section \<open>When the loop ends\<close>

lemma chunk_from_step:
  assumes "start < int (length lines)"
  shows "chunk_from lines n ov k start =
     (if int (length lines) \<le> start + (n - ov) then Some [make_chunk lines n k start]
      else map_option ((#) (make_chunk lines n k start)) (chunk_from lines n ov (Suc k) (start + (n - ov))))"
  by (subst chunk_from.simps, cases "chunk_from lines n ov (Suc k) (start + (n - ov))") (simp_all add: assms Let_def)

lemma chunk_from_loops:
  assumes "chunk_from lines n ov k start = Some cs"
  shows "ov < n \<or> int (length lines) \<le> start"
proof (rule chunk_from.raw_induct [where P = "\<lambda>lines n ov k start cs. ov < n \<or> int (length lines) \<le> start", OF _ assms])
  fix f and lines :: "string list" and n ov k start and cs :: "chunk list"
  assume IH: "\<And>lines n ov k start cs. f lines n ov k start = Some cs \<Longrightarrow> ov < n \<or> int (length lines) \<le> start"
    and body: "(if start < int (length lines) then
        (let c = make_chunk lines n k start; start' = start + (n - ov)
         in if int (length lines) \<le> start' then Some [c]
            else Option.bind (f lines n ov (Suc k) start') (\<lambda>cs. Some (c # cs)))
      else Some []) = Some cs"
  show "ov < n \<or> int (length lines) \<le> start"
    using body IH [of lines n ov "Suc k" "start + (n - ov)"]
    by (fastforce simp: Let_def bind_eq_Some_conv split: if_splits)
qed

section \<open>The pieces of a loop that ends\<close>

text \<open>The starts are the multiples of the step below the number of lines.\<close>

definition nth_chunk :: "string list \<Rightarrow> int \<Rightarrow> int \<Rightarrow> nat \<Rightarrow> chunk" where
  "nth_chunk lines n ov i = make_chunk lines n i (int i * (n - ov))"

definition chunk_count :: "nat \<Rightarrow> int \<Rightarrow> nat" where
  "chunk_count len step = nat ((int len + step - 1) div step)"

lemma le_zdiv_iff:
  assumes "0 < (s :: int)"
  shows "k \<le> a div s \<longleftrightarrow> k * s \<le> a"
proof
  assume "k \<le> a div s"
  then have "k * s \<le> a div s * s" using assms by (simp add: mult_right_mono)
  also have "\<dots> \<le> a" using assms pos_mod_sign [of s a] by (simp add: minus_mod_eq_div_mult [symmetric])
  finally show "k * s \<le> a" .
next
  assume "k * s \<le> a"
  then have "k * s div s \<le> a div s" using assms by (intro zdiv_mono1)
  then show "k \<le> a div s" using assms by simp
qed

lemma less_chunk_count: "0 < step \<Longrightarrow> k < chunk_count len step \<longleftrightarrow> int k * step < int len"
proof -
  assume s: "0 < step"
  have "k < chunk_count len step \<longleftrightarrow> int k + 1 \<le> (int len + step - 1) div step"
    by (auto simp: chunk_count_def)
  also have "\<dots> \<longleftrightarrow> (int k + 1) * step \<le> int len + step - 1"
    using s by (simp add: le_zdiv_iff)
  finally show ?thesis by (simp add: algebra_simps) arith
qed

lemma chunk_from_map:
  assumes "ov < n" "k < chunk_count (length lines) (n - ov)"
  shows "chunk_from lines n ov k (int k * (n - ov)) = Some (map (nth_chunk lines n ov) [k..<chunk_count (length lines) (n - ov)])"
  using assms(2)
proof (induction k rule: strict_inc_induct)
  case (base k)
  then have "int k * (n - ov) < int (length lines)" "int (length lines) \<le> int k * (n - ov) + (n - ov)"
    using less_chunk_count [of "n - ov" k "length lines"] less_chunk_count [of "n - ov" "Suc k" "length lines"] assms(1)
    by (auto simp: algebra_simps)
  with base show ?case by (simp add: chunk_from_step nth_chunk_def)
next
  case (step k)
  then have "int k * (n - ov) < int (length lines)" "int k * (n - ov) + (n - ov) < int (length lines)"
    using less_chunk_count [of "n - ov" k "length lines"] less_chunk_count [of "n - ov" "Suc k" "length lines"] assms(1)
    by (auto simp: algebra_simps)
  moreover have "int k * (n - ov) + (n - ov) = int (Suc k) * (n - ov)" by (simp add: algebra_simps)
  ultimately show ?case
    using step by (simp add: chunk_from_step nth_chunk_def upt_conv_Cons del: upt_Suc of_nat_Suc)
qed

lemma chunk_lines_map:
  assumes "ov < n"
  shows "chunk_lines lines n ov = Some (map (nth_chunk lines n ov) [0..<chunk_count (length lines) (n - ov)])"
proof (cases "lines = []")
  case True
  with assms less_chunk_count [of "n - ov" 0 0] show ?thesis by (simp add: chunk_lines_def)
next
  case False
  with assms less_chunk_count [of "n - ov" 0 "length lines"] chunk_from_map [OF assms, of 0 lines]
  show ?thesis by (simp add: chunk_lines_def)
qed

text \<open>Within the lines a slice is what it looks like.\<close>

lemma slice_nat: "i \<le> j \<Longrightarrow> j \<le> length xs \<Longrightarrow> slice xs (int i) (int j) = take (j - i) (drop i xs)"
  by (simp add: slice_def slice_index_def drop_take)

lemma nth_chunk_lines:
  assumes "0 \<le> ov" "ov < n" "int i * (n - ov) < int (length lines)"
  shows "ck_text (nth_chunk lines n ov i) =
      join [nl] (take (nat n) (drop (i * nat (n - ov)) lines))"
    "ck_start_line (nth_chunk lines n ov i) = int (i * nat (n - ov)) + 1"
    "ck_end_line (nth_chunk lines n ov i) = min (int (i * nat (n - ov)) + n) (int (length lines))"
proof -
  let ?s = "i * nat (n - ov)" and ?e = "min (i * nat (n - ov) + nat n) (length lines)"
  have s: "int i * (n - ov) = int ?s" using assms by simp
  have e: "min (int ?s + n) (int (length lines)) = int ?e" using assms(1,2) by (simp add: of_nat_min del: of_nat_mult)
  have "?s \<le> ?e" using assms s by linarith
  then have "slice lines (int ?s) (int ?e) = take (?e - ?s) (drop ?s lines)" by (intro slice_nat) auto
  moreover have "take (?e - ?s) (drop ?s lines) = take (nat n) (drop ?s lines)" by (simp add: min_def)
  ultimately show "ck_text (nth_chunk lines n ov i) = join [nl] (take (nat n) (drop ?s lines))"
    unfolding nth_chunk_def make_chunk_def Let_def s e by simp
  show "ck_start_line (nth_chunk lines n ov i) = int ?s + 1"
    "ck_end_line (nth_chunk lines n ov i) = min (int ?s + n) (int (length lines))"
    unfolding nth_chunk_def make_chunk_def Let_def s by simp_all
qed

section \<open>What the pieces are for\<close>

lemma chunk_lines_ends: "(\<exists>cs. chunk_lines lines n ov = Some cs) \<longleftrightarrow> (lines = [] \<or> ov < n)"
proof (cases "lines = []")
  case True
  then show ?thesis by (simp add: chunk_lines_def)
next
  case False
  then have "chunk_lines lines n ov \<noteq> Some cs" if "n \<le> ov" for cs
    using that chunk_from_loops [of lines n ov 0 0 cs] by (auto simp: chunk_lines_def)
  with False chunk_lines_map [of ov n lines] show ?thesis by (metis linorder_not_less)
qed

text \<open>C40: Cutting a book ends exactly when the overlap is smaller than the size of a piece, or there is
  nothing to cut; otherwise the loop adds pieces for ever.
\<close>

theorem chunking_ends_iff: "(\<exists>cs. chunk_lines lines n ov = Some cs) \<longleftrightarrow> (lines = [] \<or> ov < n)"
  by (rule chunk_lines_ends)

text \<open>C39: No short stretch of the book is torn apart: any run of consecutive lines that is at most one line
  longer than the overlap stands, whole, in the text of one of the pieces, whose line numbers say where.
\<close>

theorem window_in_one_chunk:
  assumes "0 \<le> ov" "chunk_lines lines n ov = Some cs" "0 < w" "i + w \<le> length lines" "int w \<le> ov + 1"
  shows "\<exists>c\<in>set cs. ck_start_line c \<le> int i + 1 \<and> int (i + w) \<le> ck_end_line c \<and>
     (\<exists>ls us. ck_text c = join [nl] (ls @ take w (drop i lines) @ us) \<and> int (length ls) = int i + 1 - ck_start_line c)"
proof -
  have ovn: "ov < n" using assms chunk_lines_ends [of lines n ov] by fastforce
  define S where "S = nat (n - ov)"
  define k where "k = i div S"
  have S: "0 < S" "int S = n - ov" using ovn by (simp_all add: S_def)
  have k: "k * S \<le> i" "i < k * S + S" using S(1) dividend_less_div_times [of S i] by (simp_all add: k_def div_times_less_eq_dividend add.commute)
  have kl: "int k * (n - ov) < int (length lines)" using k assms(3,4) S(2) by (metis (no_types, opaque_lifting) add_leD1 less_add_same_cancel1 of_nat_less_iff of_nat_mult order_le_less_trans order_less_le_trans)
  then have "k < chunk_count (length lines) (n - ov)" using less_chunk_count [of "n - ov"] ovn by simp
  then have mem: "nth_chunk lines n ov k \<in> set cs" using assms(2) chunk_lines_map [OF ovn, of lines] by auto
  have end_le: "i + w \<le> k * S + nat n" using k(2) S(2) assms(1,5) ovn by linarith
  define p where "p = k * S"
  note at = nth_chunk_lines [OF assms(1) ovn kl, folded S_def p_def]
  have pi: "p \<le> i" "i + w \<le> p + nat n" using k(1) end_le by (simp_all add: p_def)
  let ?t = "take (nat n) (drop p lines)" and ?c = "nth_chunk lines n ov k"
  have "?t = take (i - p) ?t @ take w (drop (i - p) ?t) @ drop w (drop (i - p) ?t)" by (simp only: append_take_drop_id)
  moreover have "take w (drop (i - p) ?t) = take w (drop i lines)" using pi by (simp add: drop_take min_def)
  ultimately have "ck_text ?c = join [nl] (take (i - p) ?t @ take w (drop i lines) @ drop w (drop (i - p) ?t))" using at(1) by simp
  moreover have "int (length (take (i - p) ?t)) = int i + 1 - ck_start_line ?c" using at(2) pi assms(3,4) by simp
  moreover have "ck_start_line ?c \<le> int i + 1" "int (i + w) \<le> ck_end_line ?c" using at(2,3) pi assms(1,4) ovn by simp_all
  ultimately show ?thesis using mem by blast
qed

theorem window_in_one_chunk_witness:
  "\<exists>c\<in>set [nth_chunk [''a'', ''b'', ''c''] 2 1 0, nth_chunk [''a'', ''b'', ''c''] 2 1 1, nth_chunk [''a'', ''b'', ''c''] 2 1 2].
     ck_start_line c \<le> int 1 + 1 \<and> int (1 + 2) \<le> ck_end_line c \<and>
     (\<exists>ls us. ck_text c = join [nl] (ls @ take 2 (drop 1 [''a'', ''b'', ''c'']) @ us) \<and> int (length ls) = int 1 + 1 - ck_start_line c)"
proof (rule window_in_one_chunk)
  show "chunk_lines [''a'', ''b'', ''c''] 2 1 =
      Some [nth_chunk [''a'', ''b'', ''c''] 2 1 0, nth_chunk [''a'', ''b'', ''c''] 2 1 1, nth_chunk [''a'', ''b'', ''c''] 2 1 2]"
    using chunk_lines_map [of 1 2 "[''a'', ''b'', ''c'']"] by (simp add: chunk_count_def upt_rec numeral_2_eq_2)
qed simp_all

end
