(* ===== verification/Statement_Names.thy ===== *)
theory Statement_Names
  imports Py_Regex
begin

text \<open>
  \<open>autoform/statement_extraction/normalization.py\<close>: the canonical form under which names of statements are
  compared. The patterns are those of the module; text is ASCII.
\<close>

section \<open>The canonical form\<close>

definition KIND_ABBREVIATIONS :: "(string, string) dict" where
  "KIND_ABBREVIATIONS =
     [(''thm'', ''theorem''), (''lem'', ''lemma''), (''prop'', ''proposition''), (''def'', ''definition''),
      (''defn'', ''definition''), (''cor'', ''corollary''), (''conj'', ''conjecture''), (''ax'', ''axiom''),
      (''const'', ''construction''), (''cl'', ''claim'')]"

definition KIND_WORDS :: "string list" where
  "KIND_WORDS =
     [''theorem'', ''thm'', ''lemma'', ''lem'', ''proposition'', ''prop'', ''definition'', ''defn'', ''def'',
      ''corollary'', ''cor'', ''conjecture'', ''conj'', ''axiom'', ''ax'', ''construction'', ''const'',
      ''claim'', ''cl'']"

definition KIND_PATTERN :: re where
  "KIND_PATTERN = cat [Grp 1 (alts (map lit_nocase KIND_WORDS)), opt (chr CHR ''.''), many space]"

definition not_nl :: re where
  "not_nl = none_of [nl]"

definition PARENS_RE :: re where
  "PARENS_RE = cat [many space, chr CHR ''('', many not_nl, chr CHR '')'', many space, eol]"

definition PUNCT_RE :: re where
  "PUNCT_RE = cat [some (one_of ''.:;,''), eol]"

definition normalize_statement_name :: "string \<Rightarrow> string" where
  "normalize_statement_name name =
     (let name = strip name;
          name = (if re_search digit name \<noteq> None then re_sub PARENS_RE (\<lambda>_. []) name else name);
          name = strip (lower name);
          name = re_sub (some space) (\<lambda>_. '' '') name;
          name = re_sub PUNCT_RE (\<lambda>_. []) name
      in case re_match_start KIND_PATTERN name of
           None \<Rightarrow> name
         | Some m \<Rightarrow>
             (let abbrev = rev (dropWhile (\<lambda>c. c = CHR ''.'') (rev (lower (group m 1))));
                  full = dget_or KIND_ABBREVIATIONS abbrev abbrev;
                  rest = dropWhile (\<lambda>c. c \<in> set ''. '') (mt_rest m)
              in if rest \<noteq> [] then full @ '' '' @ rest else full))"

section \<open>What the patterns match\<close>

lemma in_run_cat:
  "t \<in> set (run (Cat r s) p) \<longleftrightarrow> (\<exists>t'\<in>set (run r p). t \<in> set (run s t'))"
  by simp

lemma run_chr: "t \<in> set (run (chr c) p) \<longleftrightarrow> after p = c # after t \<and> t = p\<lparr>before := c # before p, after := after t\<rparr>"
  by (cases "after p"; cases p; cases t) (auto simp: chr_def)

lemma parens_match:
  assumes "t \<in> set (run PARENS_RE p)"
  shows "\<exists>b i e. after p = b @ CHR ''('' # i @ CHR '')'' # e @ after t \<and> list_all is_space b \<and> list_all is_space e \<and> after t \<in> {[], [nl]}"
proof -
  from assms obtain t1 t2 t3 t4 t5 where t: "t1 \<in> set (run (many space) p)" "t2 \<in> set (run (chr CHR ''('') t1)"
      "t3 \<in> set (run (many not_nl) t2)" "t4 \<in> set (run (chr CHR '')'') t3)" "t5 \<in> set (run (many space) t4)" "t \<in> set (run eol t5)"
    unfolding PARENS_RE_def cat.simps in_run_cat by blast
  obtain b where b: "list_all is_space b" "after p = b @ after t1" using t(1) unfolding space_def by (blast dest: run_many_Cls)
  obtain i where i: "after t2 = i @ after t3" using t(3) unfolding not_nl_def none_of_def by (blast dest: run_many_Cls)
  obtain e where e: "list_all is_space e" "after t4 = e @ after t5" using t(5) unfolding space_def by (blast dest: run_many_Cls)
  have "after t1 = CHR ''('' # after t2" "after t3 = CHR '')'' # after t4" using t(2,4) run_chr by blast+
  moreover have "after t = after t5" "after t5 \<in> {[], [nl]}" using t(6) by (auto simp: run_eol split: if_splits)
  ultimately have "after p = b @ CHR ''('' # i @ CHR '')'' # e @ after t" using b(2) i e(2) by simp
  with b e show ?thesis using \<open>after t = after t5\<close> \<open>after t5 \<in> {[], [nl]}\<close> by metis
qed

lemma parens_match_exists:
  assumes "list_all is_space b" "nl \<notin> set i"
  shows "run PARENS_RE \<lparr>before = bef, after = b @ CHR ''('' # i @ [CHR '')''], caps = []\<rparr> \<noteq> []"
proof -
  let ?p = "\<lparr>before = bef, after = b @ CHR ''('' # i @ [CHR '')''], caps = []\<rparr>"
  let ?t1 = "?p\<lparr>before := rev b @ bef, after := CHR ''('' # i @ [CHR '')'']\<rparr>"
  let ?t2 = "?p\<lparr>before := CHR ''('' # rev b @ bef, after := i @ [CHR '')'']\<rparr>"
  let ?t3 = "?p\<lparr>before := rev i @ CHR ''('' # rev b @ bef, after := [CHR '')'']\<rparr>"
  let ?t4 = "?p\<lparr>before := CHR '')'' # rev i @ CHR ''('' # rev b @ bef, after := []\<rparr>"
  have "?t1 \<in> set (run (many space) ?p)" using run_many_ClsI [OF assms(1), of ?p] by (simp add: space_def)
  moreover have "?t2 \<in> set (run (chr CHR ''('') ?t1)" by (simp add: chr_def)
  moreover have "?t3 \<in> set (run (many not_nl) ?t2)"
    using run_many_ClsI [of "\<lambda>d. d \<notin> set [nl]" i ?t2] assms(2) by (auto simp: not_nl_def none_of_def list_all_iff)
  moreover have "?t4 \<in> set (run (chr CHR '')'') ?t3)" by (simp add: chr_def)
  moreover have "?t4 \<in> set (run (many space) ?t4)" using run_many_ClsI [of is_space "[]" ?t4] by (simp add: space_def)
  moreover have "?t4 \<in> set (run eol ?t4)" by (simp add: run_eol)
  ultimately have "?t4 \<in> set (run PARENS_RE ?p)" unfolding PARENS_RE_def cat.simps in_run_cat by blast
  then show ?thesis by auto
qed

lemma no_parens:
  assumes "CHR ''('' \<notin> set s"
  shows "re_sub PARENS_RE f s = s"
proof (rule re_sub_no_match, unfold re_search_None_iff, intro allI impI)
  fix u v
  assume "s = u @ v"
  with assms show "run PARENS_RE \<lparr>before = rev u, after = v, caps = []\<rparr> = []"
    using parens_match [of "hd (run PARENS_RE \<lparr>before = rev u, after = v, caps = []\<rparr>)" "\<lparr>before = rev u, after = v, caps = []\<rparr>"]
    by (cases "run PARENS_RE \<lparr>before = rev u, after = v, caps = []\<rparr>") auto
qed

text \<open>A nickname in parentheses at the end goes, with the blanks before it.\<close>

lemma nickname_dropped:
  assumes pre: "pre \<noteq> []" "\<not> is_space (last pre)" "CHR ''('' \<notin> set pre" and b: "list_all is_space b" and i: "nl \<notin> set i"
  shows "re_sub PARENS_RE (\<lambda>_. []) (pre @ b @ CHR ''('' # i @ [CHR '')'']) = pre"
proof -
  let ?s = "b @ CHR ''('' # i @ [CHR '')'']"
  have "run PARENS_RE \<lparr>before = rev u, after = v @ ?s, caps = []\<rparr> = []" if uv: "pre = u @ v" "v \<noteq> []" for u v
  proof (rule ccontr)
    assume "\<not> ?thesis"
    then obtain t where "t \<in> set (run PARENS_RE \<lparr>before = rev u, after = v @ ?s, caps = []\<rparr>)"
      by (meson last_in_set)
    from parens_match [OF this] obtain b' i' e where
      e: "v @ ?s = b' @ CHR ''('' # i' @ CHR '')'' # e @ after t" "list_all is_space b'" by auto
    from e(1) consider us where "v = b' @ us" "us @ ?s = CHR ''('' # i' @ CHR '')'' # e @ after t"
      | us where "b' = v @ us" by (auto simp: append_eq_append_conv2)
    then show False
    proof cases
      case 1
      show False
      proof (cases us)
        case Nil
        with 1 uv pre e(2) show False by (metis append.right_neutral last_appendR last_in_set list.pred_set)
      next
        case (Cons c cs)
        with 1 uv pre show False by auto
      qed
    next
      case 2
      with uv pre e(2) show False by (metis last_appendR last_in_set list.pred_set list_all_append)
    qed
  qed
  then have skip: "search_from PARENS_RE [] (pre @ ?s) = search_from PARENS_RE (rev pre) ?s"
    using search_from_skip [of pre PARENS_RE "[]" ?s] by simp
  from parens_match_exists [OF b i, of "rev pre"] obtain t ts where
    t: "run PARENS_RE \<lparr>before = rev pre, after = ?s, caps = []\<rparr> = t # ts" by (meson neq_Nil_conv)
  then have "after t = [] \<or> after t = [nl]"
    using parens_match [of t "\<lparr>before = rev pre, after = ?s, caps = []\<rparr>"] by auto
  moreover obtain u where "?s = u @ after t"
    using run_consumes [of t PARENS_RE "\<lparr>before = rev pre, after = ?s, caps = []\<rparr>"] t by auto
  then have "after t = [nl] \<Longrightarrow> last ?s = nl" by (metis last_snoc)
  then have "after t \<noteq> [nl]" by (auto simp: nl_def)
  ultimately have rest: "after t = []" by blast
  define m where "m = \<lparr>mt_before = rev pre, mt_text = ?s, mt_groups = caps t, mt_rest = []\<rparr>"
  have "search_from PARENS_RE [] (pre @ ?s) = Some m"
    using t rest search_from_here [of PARENS_RE "rev pre" ?s m] unfolding skip by (simp add: match_at_def m_def)
  then have "re_sub PARENS_RE (\<lambda>_. []) (pre @ ?s) = pre @ [] @ sub_from PARENS_RE (\<lambda>_. []) (rev (mt_text m) @ mt_before m) (mt_rest m)"
    unfolding re_sub_from by (rule sub_from_Some) (simp_all add: m_def)
  moreover have "run PARENS_RE \<lparr>before = c, after = [], caps = []\<rparr> = []" for c
    using parens_match [of "hd (run PARENS_RE \<lparr>before = c, after = [], caps = []\<rparr>)" "\<lparr>before = c, after = [], caps = []\<rparr>"]
    by (cases "run PARENS_RE \<lparr>before = c, after = [], caps = []\<rparr>") auto
  then have "sub_from PARENS_RE (\<lambda>_. []) c [] = []" for c by (intro sub_from_None) (simp add: match_at_def)
  ultimately show ?thesis by (simp add: m_def)
qed

lemma punct_match:
  assumes "t \<in> set (run PUNCT_RE p)"
  shows "\<exists>u. u \<noteq> [] \<and> set u \<subseteq> set ''.:;,'' \<and> after p = u @ after t \<and> after t \<in> {[], [nl]}"
proof -
  from assms obtain t2 where t3: "t2 \<in> set (run (some (one_of ''.:;,'')) p)" "t \<in> set (run eol t2)"
    unfolding PUNCT_RE_def cat.simps in_run_cat by blast
  then obtain t1 where t: "t1 \<in> set (run (Cls (\<lambda>d. d \<in> set ''.:;,'')) p)"
      "t2 \<in> set (run (many (Cls (\<lambda>d. d \<in> set ''.:;,''))) t1)" "t \<in> set (run eol t2)"
    unfolding some_def one_of_def many_def in_run_cat by blast
  obtain u where u: "list_all (\<lambda>d. d \<in> set ''.:;,'') u" "after t1 = u @ after t2" using t(2) by (blast dest: run_many_Cls)
  have "after t2 = after t" "after t \<in> {[], [nl]}" using t(3) by (auto simp: run_eol split: if_splits)
  moreover obtain c where "c \<in> set ''.:;,''" "after p = c # after t1" using t(1) by (cases "after p") (auto split: if_splits)
  ultimately show ?thesis using u by (intro exI [of _ "c # u"]) (auto simp: list_all_iff)
qed

lemma no_punct:
  assumes "s \<noteq> []" "last s \<notin> set (nl # ''.:;,'')"
  shows "re_sub PUNCT_RE f s = s"
proof (rule re_sub_no_match, unfold re_search_None_iff, intro allI impI)
  fix u v
  assume s: "s = u @ v"
  have False if t: "t \<in> set (run PUNCT_RE \<lparr>before = rev u, after = v, caps = []\<rparr>)" for t
  proof -
    obtain x where x: "x \<noteq> []" "set x \<subseteq> set ''.:;,''" "v = x @ after t" "after t \<in> {[], [nl]}"
      using punct_match [OF t] by auto
    then have "last s = last x \<or> last s = nl" using s by (cases "after t = []") auto
    moreover have "last x \<in> set ''.:;,''" using x(1,2) last_in_set by blast
    ultimately have "last s \<in> set (nl # ''.:;,'')" by (metis list.set_intros)
    with assms show False by blast
  qed
  then show "run PUNCT_RE \<lparr>before = rev u, after = v, caps = []\<rparr> = []"
    by (cases "run PUNCT_RE \<lparr>before = rev u, after = v, caps = []\<rparr>") auto
qed

lemma digit_found: "c \<in> set s \<Longrightarrow> is_digit_char c \<Longrightarrow> re_search digit s \<noteq> None"
proof
  assume c: "c \<in> set s" "is_digit_char c" and n: "re_search digit s = None"
  from c(1) obtain u v where "s = u @ c # v" by (auto dest: split_list)
  with n c(2) show False unfolding re_search_None_iff digit_def by fastforce
qed

lemma strip_id: "s \<noteq> [] \<Longrightarrow> \<not> is_space (hd s) \<Longrightarrow> \<not> is_space (last s) \<Longrightarrow> strip s = s"
proof -
  assume s: "s \<noteq> []" "\<not> is_space (hd s)" "\<not> is_space (last s)"
  then have "lstrip s = s" by (cases s) (simp_all add: lstrip_def)
  moreover have "rstrip s = s" using s(1,3) by (cases s rule: rev_cases) (simp_all add: rstrip_def)
  ultimately show ?thesis by (simp add: strip_def)
qed

section \<open>Numbered names\<close>

text \<open>A number is of digits and dots, with a digit at either end; a nickname stands in parentheses.\<close>

definition numbering :: "string \<Rightarrow> bool" where
  "numbering r = (r \<noteq> [] \<and> is_digit_char (hd r) \<and> is_digit_char (last r) \<and> list_all (\<lambda>c. is_digit_char c \<or> c = CHR ''.'') r)"

definition nickname :: "string \<Rightarrow> bool" where
  "nickname k \<longleftrightarrow> k = [] \<or> (\<exists>b i. k = b @ CHR ''('' # i @ [CHR '')''] \<and> list_all is_space b \<and> nl \<notin> set i)"

lemma number_char:
  assumes "is_digit_char c \<or> c = CHR ''.''"
  shows "\<not> is_space c" "c \<noteq> CHR ''(''" "lower_char c = c"
  using assms by (auto simp: is_digit_char_def is_space_def lower_char_def Let_def)

lemma digit_char_facts:
  assumes "is_digit_char c"
  shows "c \<notin> set (nl # ''.:;,'')" "c \<noteq> CHR '' ''"
  using assms by (auto simp: is_digit_char_def nl_def)

lemma word_char_facts:
  assumes "lower w \<in> set KIND_WORDS" "c \<in> set w"
  shows "\<not> is_space c" "c \<noteq> CHR ''(''"
proof -
  have l: "lower_char c \<in> set (lower w)" using assms(2) by (simp add: lower_def)
  have "list_all (list_all (\<lambda>d. 97 \<le> (of_char d :: nat))) KIND_WORDS" by code_simp
  with l assms(1) have "97 \<le> (of_char (lower_char c) :: nat)" by (auto simp: list_all_iff)
  then have "65 \<le> (of_char c :: nat)" by (auto simp: lower_char_def Let_def split: if_splits)
  then show "\<not> is_space c" "c \<noteq> CHR ''(''" by (auto simp: is_space_def Let_def)
qed

lemma kind_words_nonempty: "lower w \<in> set KIND_WORDS \<Longrightarrow> w \<noteq> []"
  by (auto simp: KIND_WORDS_def lower_def)

text \<open>The word at the start, with or without a dot and a space.\<close>

lemma letter_not_digit: "is_digit_char d \<Longrightarrow> 97 \<le> (of_char c :: nat) \<Longrightarrow> lower_char d \<noteq> c"
  by (auto simp: is_digit_char_def lower_char_def Let_def)

lemma alts_first:
  assumes "\<And>x. x \<in> set xs \<Longrightarrow> run (lit_nocase x) p = []"
  shows "\<exists>zs. run (alts (map lit_nocase (xs @ w # ys))) p = run (lit_nocase w) p @ zs"
  using assms
proof (induction xs)
  case Nil
  then show ?case by (cases ys) auto
next
  case (Cons x xs)
  then show ?case by (cases xs) auto
qed

lemma word_then_other:
  assumes x: "lower (take (length x) (w @ c # s)) = lower x" and l: "\<And>d. d \<in> set x \<Longrightarrow> lower_char d \<noteq> lower_char c"
  shows "lower (take (length x) w) = lower x"
proof (cases "length x \<le> length w")
  case False
  then have "lower (take (length x) (w @ c # s)) ! length w = lower_char c" by (simp add: lower_def nth_append)
  moreover have "lower x ! length w = lower_char (x ! length w)" "x ! length w \<in> set x" using False by (simp_all add: lower_def)
  ultimately show ?thesis using x l by metis
qed (use x in simp)

lemma kind_words_ok:
  assumes "w \<in> set KIND_WORDS"
  shows "\<exists>xs ys. KIND_WORDS = xs @ w # ys \<and> (\<forall>x\<in>set xs. lower (take (length x) w) \<noteq> lower x)"
    "lower w = w" "list_all (\<lambda>c. 97 \<le> (of_char (lower_char c) :: nat)) w"
proof -
  have all: "list_all (\<lambda>w. list_all (\<lambda>x. lower (take (length x) w) \<noteq> lower x) (takeWhile (\<lambda>x. x \<noteq> w) KIND_WORDS) \<and>
      lower w = w \<and> list_all (\<lambda>c. 97 \<le> (of_char (lower_char c) :: nat)) w) KIND_WORDS"
    by (simp add: KIND_WORDS_def lower_def lower_char_def)
  note w = bspec [OF iffD1 [OF list_all_iff all] assms]
  then show "lower w = w" "list_all (\<lambda>c. 97 \<le> (of_char (lower_char c) :: nat)) w" by blast+
  obtain xs ys where xy: "KIND_WORDS = xs @ w # ys" "w \<notin> set xs" using assms by (meson split_list_first)
  have "takeWhile (\<lambda>x. x \<noteq> w) KIND_WORDS = xs"
    unfolding xy(1) by (subst takeWhile_append2) (use xy(2) in auto)
  with w have "\<forall>x\<in>set xs. lower (take (length x) w) \<noteq> lower x" unfolding list_all_iff by simp
  with xy(1) show "\<exists>xs ys. KIND_WORDS = xs @ w # ys \<and> (\<forall>x\<in>set xs. lower (take (length x) w) \<noteq> lower x)" by blast
qed

lemma kind_match:
  assumes "w \<in> set KIND_WORDS" "dot \<in> {[], ''.''}" "sp \<in> {[], '' ''}" "is_digit_char d"
  shows "\<exists>m. re_match_start KIND_PATTERN (w @ dot @ sp @ d # r) = Some m \<and> group m 1 = w \<and>
     dropWhile (\<lambda>c. c \<in> set ''. '') (mt_rest m) = d # r"
proof -
  define tail where "tail = dot @ sp @ d # r"
  let ?p = "\<lparr>before = [], after = w @ tail, caps = []\<rparr>"
  obtain xs ys where xy: "KIND_WORDS = xs @ w # ys" "\<forall>x\<in>set xs. lower (take (length x) w) \<noteq> lower x"
    using kind_words_ok(1) [OF assms(1)] by blast
  obtain c cs where c: "tail = c # cs" "(of_char (lower_char c) :: nat) < 97"
    using assms by (auto simp: tail_def is_digit_char_def lower_char_def)
  have "run (lit_nocase x) ?p = []" if "x \<in> set xs" for x
  proof -
    have "lower_char e \<noteq> lower_char c" if "e \<in> set x" for e
    proof -
      have "x \<in> set KIND_WORDS" unfolding xy(1) using \<open>x \<in> set xs\<close> by simp
      from kind_words_ok(3) [OF this] that have "97 \<le> (of_char (lower_char e) :: nat)" by (auto simp: list_all_iff)
      with c(2) show ?thesis by auto
    qed
    then show ?thesis using word_then_other [of x w c cs] xy(2) that c(1) by (auto simp: run_lit_nocase)
  qed
  from alts_first [OF this, of _ w ys] obtain zs where
    "run (alts (map lit_nocase KIND_WORDS)) ?p = ?p\<lparr>before := rev w, after := tail\<rparr> # zs"
    unfolding xy(1) by (auto simp: run_lit_nocase)
  moreover obtain b ts where
    "run (Cat (opt (chr CHR ''.'')) (many space)) (?p\<lparr>before := rev w, after := tail, caps := [(1, w)]\<rparr>) =
       \<lparr>before = b, after = d # r, caps = [(1, w)]\<rparr> # ts"
  proof -
    have sp: "\<not> is_space d" "is_space CHR '' ''" "\<not> is_space CHR ''.''" "d \<noteq> CHR ''.''"
      using number_char [of d] digit_char_facts [OF assms(4)] assms(4) by (simp_all add: is_space_def)
    have m: "\<exists>b ts. run (many space) \<lparr>before = x, after = sp @ d # r, caps = g\<rparr> = \<lparr>before = b, after = d # r, caps = g\<rparr> # ts" for x g
      using run_many_Cls_hd [of is_space "\<lparr>before = x, after = sp @ d # r, caps = g\<rparr>"] assms(3) sp by (auto simp: space_def)
    show thesis
      using assms(2) m [of "dot @ rev w" "[(1, w)]"] sp assms(3) that
      by (auto simp: tail_def opt_def chr_def)
  qed
  ultimately show ?thesis
    using assms(4) digit_char_facts [of d]
    by (simp add: re_match_start_def match_at_def KIND_PATTERN_def group_def dget_or_def tail_def)
qed

lemma squeeze_one_run:
  assumes "list_all is_space bl" "\<forall>c\<in>set r. \<not> is_space c"
  shows "squeeze is_space '' '' (bl @ r) = (if bl = [] then r else '' '' @ r)"
proof (cases bl)
  case Nil
  then show ?thesis using squeeze_append [of r is_space "'' ''" "[]"] assms(2) by simp
next
  case (Cons c cs)
  moreover have "dropWhile is_space (cs @ r) = r" using assms Cons by (cases r) (auto simp: list_all_iff dropWhile_append2)
  ultimately show ?thesis using squeeze_append [of r is_space "'' ''" "[]"] assms by simp
qed

text \<open>However the name of a numbered statement is written - the kind spelt out or abbreviated, in any
  case, with or without a dot, any blanks, a nickname in parentheses at the end - its canonical form is
  the full kind, a space and the number.
\<close>

theorem numbered_name_normalized:
  assumes w: "lower w \<in> set KIND_WORDS" and dot: "dot \<in> {[], ''.''}" and bl: "list_all is_space bl"
    and r: "numbering r" and k: "nickname k"
  shows "normalize_statement_name (w @ dot @ bl @ r @ k) = dget_or KIND_ABBREVIATIONS (lower w) (lower w) @ '' '' @ r"
proof -
  let ?pre = "w @ dot @ bl @ r"
  obtain d r' where d: "r = d # r'" "is_digit_char d" using r by (cases r) (auto simp: numbering_def)
  have rc: "\<not> is_space c" "c \<noteq> CHR ''(''" "lower_char c = c" if "c \<in> set (dot @ r)" for c
    using that dot r number_char [of c] by (auto simp: numbering_def list_all_iff)
  have last: "is_digit_char (last ?pre)" "?pre \<noteq> []" using r by (simp_all add: numbering_def)
  note ls = number_char(1) [OF disjI1 [OF last(1)]] digit_char_facts(1) [OF last(1)]
  have np: "CHR ''('' \<notin> set ?pre" using word_char_facts(2) [OF w] rc bl by (auto simp: list_all_iff is_space_def)
  have hw: "\<not> is_space (hd (w @ x))" for x using kind_words_nonempty [OF w] word_char_facts(1) [OF w] by (cases w) auto
  have "strip (?pre @ k) = ?pre @ k"
  proof (rule strip_id)
    show "\<not> is_space (hd (?pre @ k))" using hw [of "dot @ bl @ r @ k"] by simp
    show "\<not> is_space (last (?pre @ k))" using k ls(1) by (auto simp: nickname_def is_space_def)
  qed (use d in simp)
  moreover have "re_search digit (?pre @ k) \<noteq> None" by (rule digit_found [of d]) (use d in simp_all)
  moreover have "re_sub PARENS_RE (\<lambda>_. []) (?pre @ k) = ?pre"
    using k no_parens [OF np] nickname_dropped [OF last(2) ls(1) np] unfolding nickname_def by auto
  moreover have "lower ?pre = lower w @ dot @ lower bl @ r"
    using rc by (simp add: lower_def map_idI)
  moreover have lb: "lower bl = bl" using bl by (auto simp: lower_def list_all_iff is_space_def lower_char_def Let_def intro!: map_idI)
  moreover have ww: "lower (lower w) \<in> set KIND_WORDS" using kind_words_ok(2) [OF w] w by simp
  moreover have "strip (lower w @ dot @ bl @ r) = lower w @ dot @ bl @ r"
  proof (rule strip_id)
    show "\<not> is_space (hd (lower w @ dot @ bl @ r))"
      using kind_words_nonempty [OF ww] word_char_facts(1) [OF ww] by (cases "lower w") auto
    show "\<not> is_space (last (lower w @ dot @ bl @ r))" using ls(1) r by (simp add: numbering_def)
  qed (use r in \<open>simp add: numbering_def\<close>)
  moreover define sp where "sp = (if bl = [] then [] else '' '')"
  have ns: "\<forall>c\<in>set (lower w @ dot). \<not> is_space c" "\<forall>c\<in>set r. \<not> is_space c"
    using rc(1) word_char_facts(1) [OF ww] by auto
  have "squeeze is_space '' '' (lower w @ dot @ bl @ r) = lower w @ dot @ sp @ r"
    using squeeze_append [OF ns(1), of "'' ''" "bl @ r"] squeeze_one_run [OF bl ns(2)] by (simp add: sp_def)
  moreover have "re_sub PUNCT_RE (\<lambda>_. []) (lower w @ dot @ sp @ r) = lower w @ dot @ sp @ r"
    using ls(2) r by (intro no_punct) (simp_all add: numbering_def)
  moreover have spm: "sp \<in> {[], '' ''}" by (simp add: sp_def)
  moreover obtain m where m: "re_match_start KIND_PATTERN (lower w @ dot @ sp @ r) = Some m" "group m 1 = lower w"
      "dropWhile (\<lambda>c. c \<in> set ''. '') (mt_rest m) = r"
    using kind_match [OF w dot spm d(2), of r'] unfolding d(1) by blast
  moreover have "rev (dropWhile (\<lambda>c. c = CHR ''.'') (rev (lower (lower w)))) = lower w"
  proof -
    have "last (lower w) \<noteq> CHR ''.''"
      using kind_words_ok(3) [OF w] last_in_set [OF kind_words_nonempty [OF ww]] by (fastforce simp: list_all_iff lower_char_def)
    then show ?thesis using kind_words_ok(2) [OF w] by (cases "lower w" rule: rev_cases) simp_all
  qed
  ultimately show ?thesis using r
    by (simp add: normalize_statement_name_def re_sub_spaces Let_def numbering_def)
qed

theorem numbered_name_normalized_witness:
  "normalize_statement_name (''THM'' @ ''.'' @ ''  '' @ ''3.2'' @ '' (Heine-Borel)'') =
   dget_or KIND_ABBREVIATIONS (lower ''THM'') (lower ''THM'') @ '' '' @ ''3.2''"
proof (rule numbered_name_normalized)
  show "lower ''THM'' \<in> set KIND_WORDS" "list_all is_space ''  ''" "numbering ''3.2''" by code_simp+
  show "nickname '' (Heine-Borel)''"
    unfolding nickname_def by (intro disjI2 exI [of _ "'' ''"] exI [of _ "''Heine-Borel''"]) (simp add: is_space_def nl_def)
qed simp

text \<open>The canonical form is not always canonical: a full stop after the nickname keeps the nickname, so the
  name no longer agrees with the same name without it (nor with itself, normalized again), and a
  word that only starts like an abbreviation is taken apart.
\<close>

theorem canonical_form_slips:
  "normalize_statement_name ''Theorem 3.2 (Heine-Borel).'' = ''theorem 3.2 (heine-borel)'' \<and>
   normalize_statement_name (normalize_statement_name ''Theorem 3.2 (Heine-Borel).'') = ''theorem 3.2'' \<and>
   normalize_statement_name ''Clifford Theorem'' = ''claim ifford theorem''"
  by (intro conjI; code_simp)

end
