(* ===== verification/Yaml_Response.thy ===== *)
theory Yaml_Response
  imports Py_Regex
begin

text \<open>
  \<open>autoform/statement_extraction/parsing.py\<close>: getting a YAML list of mappings out of what a model answered.
  \<open>yaml.safe_load\<close> is the parameter \<open>yaml\<close>: \<open>None\<close> is a \<open>YAMLError\<close>, and a value is given as JSON.
\<close>

section \<open>Definitions\<close>

definition FENCE_RE :: re where
  "FENCE_RE = cat [lit ''```'', opt (cat [chr CHR ''y'', opt (chr CHR ''a''), lit ''ml'']), many space, chr nl,
     Grp 1 (many_lazy any_char), lit ''```'']"

definition YAML_ITEM_RE :: re where
  "YAML_ITEM_RE = cat [Bol, lit ''- '', some word_char, chr CHR '':'']"

definition YAML_CONT_RE :: re where
  "YAML_CONT_RE = cat [Bol, lit ''  '', some word_char, chr CHR '':'']"

definition backslash :: char where "backslash = CHR 0x5C"

definition quote :: char where "quote = CHR 0x22"

text \<open>The loop of \<open>_escape_backslashes\<close>: the character before, and whether a quoted region is open.\<close>

fun escape_from :: "char option \<Rightarrow> bool \<Rightarrow> string \<Rightarrow> string" where
  "escape_from prev in_quote [] = []"
| "escape_from prev in_quote (ch # cs) =
     (if ch = quote \<and> prev \<noteq> Some backslash then ch # escape_from (Some ch) (\<not> in_quote) cs
      else if ch = backslash \<and> in_quote then backslash # backslash # escape_from (Some ch) in_quote cs
      else ch # escape_from (Some ch) in_quote cs)"

definition escape_backslashes :: "string \<Rightarrow> string" where
  "escape_backslashes text = escape_from None False text"

type_synonym entry = "(string, json) dict"

text \<open>A list all of whose elements are mappings.\<close>

fun as_entry :: "json \<Rightarrow> entry option" where
  "as_entry (JObj d) = Some d"
| "as_entry _ = None"

fun list_of_dicts :: "json \<Rightarrow> entry list option" where
  "list_of_dicts (JArr xs) = those (map as_entry xs)"
| "list_of_dicts _ = None"

fun first_parsed :: "(string \<Rightarrow> json option) \<Rightarrow> string list \<Rightarrow> entry list option" where
  "first_parsed yaml [] = None"
| "first_parsed yaml (candidate # cs) =
     (case Option.bind (yaml candidate) list_of_dicts of Some es \<Rightarrow> Some es | None \<Rightarrow> first_parsed yaml cs)"

definition try_parse :: "(string \<Rightarrow> json option) \<Rightarrow> string \<Rightarrow> entry list option" where
  "try_parse yaml text =
     (if text = [] \<or> text = ''[]'' then Some [] else first_parsed yaml [text, escape_backslashes text])"

text \<open>The loop over the lines: the finished blocks and the lines of the current one.\<close>

definition fragment_line :: "string list \<times> string list \<Rightarrow> string \<Rightarrow> string list \<times> string list" where
  "fragment_line st line = (case st of (blocks, current) \<Rightarrow>
     if re_match_start YAML_ITEM_RE line \<noteq> None then (blocks, current @ [line])
     else if current \<noteq> [] \<and> re_match_start YAML_CONT_RE line \<noteq> None then (blocks, current @ [line])
     else if current \<noteq> [] then (blocks @ [join [nl] current], [])
     else (blocks, current))"

definition yaml_blocks :: "string \<Rightarrow> string list" where
  "yaml_blocks text =
     (case foldl fragment_line ([], []) (splitlines text) of (blocks, current) \<Rightarrow>
        if current \<noteq> [] then blocks @ [join [nl] current] else blocks)"

definition parsed_or_none :: "entry list option \<Rightarrow> entry list" where
  "parsed_or_none r = (case r of Some es \<Rightarrow> es | None \<Rightarrow> [])"

definition extract_yaml_fragments :: "(string \<Rightarrow> json option) \<Rightarrow> string \<Rightarrow> entry list option" where
  "extract_yaml_fragments yaml text =
     (if re_search YAML_ITEM_RE text = None then None
      else
        (let blocks = yaml_blocks text
         in if blocks = [] then None
            else
              (case try_parse yaml (join [nl] blocks) of
                 Some es \<Rightarrow> Some es
               | None \<Rightarrow>
                   (let entries = concat (map (\<lambda>b. parsed_or_none (try_parse yaml b)) blocks)
                    in if entries \<noteq> [] then Some entries else None))))"

definition parse_yaml_response :: "(string \<Rightarrow> json option) \<Rightarrow> string \<Rightarrow> entry list option" where
  "parse_yaml_response yaml response =
     (let stripped = strip response
      in if stripped = [] \<or> stripped = ''[]'' then Some []
         else
           (case Option.bind (re_search FENCE_RE stripped) (\<lambda>m. try_parse yaml (strip (group m 1))) of
              Some es \<Rightarrow> Some es
            | None \<Rightarrow>
                (case try_parse yaml stripped of
                   Some es \<Rightarrow> Some es
                 | None \<Rightarrow> extract_yaml_fragments yaml stripped)))"

section \<open>Escaping\<close>

definition doubled :: "string \<Rightarrow> string" where
  "doubled s = concat (map (\<lambda>c. if c = backslash then [backslash, backslash] else [c]) s)"

lemma escape_no_quote:
  "quote \<notin> set u \<Longrightarrow> escape_from p False (u @ v) = u @ escape_from (if u = [] then p else Some (last u)) False v"
  by (induction u arbitrary: p) (auto simp: backslash_def quote_def)

lemma escape_inside:
  "quote \<notin> set s \<Longrightarrow> escape_from p True (s @ v) = doubled s @ escape_from (if s = [] then p else Some (last s)) True v"
  by (induction s arbitrary: p) (auto simp: backslash_def quote_def doubled_def)

text \<open>A quoted text with no quotes inside and no backslash at its end comes out with exactly its
  backslashes doubled, and the text before it unchanged; what follows is treated the same way.
\<close>

theorem escape_doubles_inside:
  assumes "quote \<notin> set u" "u = [] \<or> last u \<noteq> backslash" "quote \<notin> set s" "s = [] \<or> last s \<noteq> backslash"
  shows "escape_backslashes (u @ quote # s @ quote # v) =
     u @ quote # doubled s @ quote # escape_from (Some quote) False v"
proof -
  have "escape_from (if u = [] then None else Some (last u)) False (quote # s @ quote # v) =
      quote # escape_from (Some quote) True (s @ quote # v)"
    using assms(2) by (auto simp: quote_def backslash_def)
  moreover have "escape_from (if s = [] then Some quote else Some (last s)) True (quote # v) = quote # escape_from (Some quote) False v"
    using assms(4) by (auto simp: quote_def backslash_def)
  ultimately show ?thesis
    by (simp add: escape_backslashes_def escape_no_quote [OF assms(1)] escape_inside [OF assms(3)])
qed

text \<open>
  An escaped quote inside quoted text: its backslash is doubled like the others, so the quote is no longer
  escaped and ends the text for the YAML reader.
\<close>

lemma escaped_quote_unescaped:
  assumes "quote \<notin> set u" "u = [] \<or> last u \<noteq> backslash" "quote \<notin> set s"
  shows "escape_backslashes (u @ quote # s @ backslash # quote # v) =
     u @ quote # doubled s @ backslash # backslash # quote # escape_from (Some quote) True v"
proof -
  have "escape_from (if u = [] then None else Some (last u)) False (quote # s @ backslash # quote # v) =
      quote # escape_from (Some quote) True (s @ backslash # quote # v)"
    using assms(2) by (auto simp: quote_def backslash_def)
  then show ?thesis
    by (simp add: escape_backslashes_def escape_no_quote [OF assms(1)] escape_inside [OF assms(3)])
       (simp add: quote_def backslash_def)
qed

end
