(* ===== verification/Statement_Extraction.thy ===== *)
theory Statement_Extraction
  imports Book_Chunks Statement_Names Yaml_Response Eval_Gate
begin

text \<open>
  The pipeline of \<open>autoform/statement_extraction\<close>: \<open>extraction.py\<close>, \<open>reconciliation.py\<close>, \<open>merging.py\<close> and the
  steps of \<open>__main__._run\<close>. What an agent answers is the parameter \<open>agent\<close>, by the id of its trace (each
  call has its own) and the prompt; \<open>yaml\<close> is \<open>yaml.safe_load\<close>. Of the jobs of one \<open>gather\<close> that fail, the first
  in the order of the list is reported.
\<close>

type_synonym yaml_loader = "string \<Rightarrow> json option"
type_synonym agent_reply = "string \<Rightarrow> string \<Rightarrow> string result"

section \<open>Extraction\<close>

definition str_or :: "entry \<Rightarrow> string \<Rightarrow> string" where
  "str_or e k = (case dget e k of Some v \<Rightarrow> str_json v | None \<Rightarrow> [])"

definition entry_target :: "entry \<Rightarrow> target" where
  "entry_target e = (plain_target (str_or e ''name''))
     \<lparr>ft_description := str_or e ''description'', ft_location := str_or e ''location'', ft_kind := str_or e ''kind''\<rparr>"

definition parse_statements :: "yaml_loader \<Rightarrow> string \<Rightarrow> target list" where
  "parse_statements yaml response =
     map entry_target (filter (\<lambda>e. has_key e ''name'') (parsed_or_none (parse_yaml_response yaml response)))"

definition line_range :: "chunk \<Rightarrow> string" where
  "line_range c = str_int (ck_start_line c) @ ''-'' @ str_int (ck_end_line c)"

definition extract_prompt :: "chunk \<Rightarrow> string" where
  "extract_prompt c =
     ''Extract all labeled mathematical statements from the following text.'' @ [nl] @
     ''Lines '' @ line_range c @ [nl, nl] @ ''---'' @ [nl] @ ck_text c @ [nl] @ ''---''"

definition extract_from_chunk :: "yaml_loader \<Rightarrow> agent_reply \<Rightarrow> chunk \<Rightarrow> nat \<Rightarrow> target list result" where
  "extract_from_chunk yaml agent c i =
     rbind (agent (''chunk_'' @ str_nat (ck_index c) @ ''/agent_'' @ str_nat i) (extract_prompt c)) (\<lambda>response.
       Inr (parse_statements yaml response))"

definition extract_k_from_chunk :: "yaml_loader \<Rightarrow> agent_reply \<Rightarrow> nat \<Rightarrow> chunk \<Rightarrow> target list list result" where
  "extract_k_from_chunk yaml agent k c = mapM (extract_from_chunk yaml agent c) [0..<k]"

section \<open>Reconciliation\<close>

record disputed =
  dp_name :: string
  dp_found_by :: "nat list"
  dp_versions :: "target list"
  dp_reason :: string

record chunk_conflict =
  cf_chunk :: chunk
  cf_extractions :: "target list list"
  cf_agreed :: "target list"
  cf_disputed :: "disputed list"

abbreviation norm_name :: "target \<Rightarrow> string" where
  "norm_name t \<equiv> normalize_statement_name (ft_name t)"

text \<open>What one agent found, by canonical name: a later statement of the same name takes the place of an earlier one.\<close>

definition index_by_name :: "target list \<Rightarrow> (string, target) dict" where
  "index_by_name ss = foldl (\<lambda>d s. dset d (norm_name s) s) [] ss"

definition all_names :: "(string, target) dict list \<Rightarrow> string list" where
  "all_names by_agent = dkeys (foldl (\<lambda>d k. dset d k ()) [] (concat (map dkeys by_agent)))"

definition versions_of :: "(string, target) dict list \<Rightarrow> string \<Rightarrow> (nat \<times> target) list" where
  "versions_of by_agent name =
     concat (map (\<lambda>(i, index). case dget index name of Some s \<Rightarrow> [(i, s)] | None \<Rightarrow> []) (enumerate 0 by_agent))"

definition sort_out :: "(string, target) dict list \<Rightarrow> nat \<Rightarrow> target list \<times> disputed list \<Rightarrow> string \<Rightarrow> target list \<times> disputed list" where
  "sort_out by_agent k st name = (case st of (agreed, disputed) \<Rightarrow>
     let vs = versions_of by_agent name
     in if length vs < k then
          (agreed, disputed @ [\<lparr>dp_name = ft_name (snd (hd vs)), dp_found_by = map fst vs, dp_versions = map snd vs,
             dp_reason = ''Found by '' @ str_nat (length vs) @ ''/'' @ str_nat k @ '' agents''\<rparr>])
        else (agreed @ [snd (hd vs)], disputed))"

definition find_consensus :: "chunk \<Rightarrow> target list list \<Rightarrow> target list \<times> chunk_conflict option" where
  "find_consensus c extractions =
     (let by_agent = map index_by_name extractions
      in case foldl (sort_out by_agent (length extractions)) ([], []) (all_names by_agent) of (agreed, disputed) \<Rightarrow>
        (agreed, if disputed = [] then None
           else Some \<lparr>cf_chunk = c, cf_extractions = extractions, cf_agreed = agreed, cf_disputed = disputed\<rparr>))"

definition version_lines :: "nat \<times> target \<Rightarrow> string list" where
  "version_lines iv = (case iv of (i, v) \<Rightarrow>
     [[nl] @ ''**Agent '' @ str_nat i @ '' version:**'', ''- name: '' @ ft_name v,
      ''- description: '' @ ft_description v, ''- kind: '' @ ft_kind v])"

definition format_disputed :: "chunk_conflict \<Rightarrow> string" where
  "format_disputed cf =
     join [nl] (concat (map (\<lambda>d.
       [''### '' @ dp_name d,
        ''Found by agents: ['' @ join '', '' (map str_nat (dp_found_by d)) @ ''] (out of '' @ str_nat (length (cf_extractions cf)) @ '')'']
       @ concat (map version_lines (zip (dp_found_by d) (dp_versions d))) @ [[]]) (cf_disputed cf)))"

definition review_prompt :: "chunk_conflict \<Rightarrow> string" where
  "review_prompt cf =
     ''## Source Text'' @ [nl] @ ''Lines '' @ line_range (cf_chunk cf) @ [nl, nl] @ ''---'' @ [nl] @ ck_text (cf_chunk cf) @
     [nl] @ ''---'' @ [nl, nl] @ ''## Disputed FormalizationTargets'' @ [nl, nl] @ format_disputed cf @ [nl, nl] @
     ''Review each disputed statement against the source text and decide: include or exclude.''"

text \<open>\<open>entry.get("verdict", "").lower()\<close>: only a string has the method.\<close>

definition type_name :: "json \<Rightarrow> string" where
  "type_name v = (case v of JNull \<Rightarrow> ''NoneType'' | JBool _ \<Rightarrow> ''bool'' | JInt _ \<Rightarrow> ''int'' | JStr _ \<Rightarrow> ''str''
     | JArr _ \<Rightarrow> ''list'' | JObj _ \<Rightarrow> ''dict'')"

definition lower_verdict :: "entry \<Rightarrow> string result" where
  "lower_verdict e =
     (case dget e ''verdict'' of
        None \<Rightarrow> Inr []
      | Some v \<Rightarrow> (case v of JStr s \<Rightarrow> Inr (lower s)
          | _ \<Rightarrow> Inl (AttributeError (repr_str (type_name v) @ '' object has no attribute '' @ repr_str ''lower''))))"

definition included_entry :: "entry \<Rightarrow> target list result" where
  "included_entry e =
     rbind (lower_verdict e) (\<lambda>verdict. Inr (if verdict \<noteq> ''include'' then [] else [entry_target e]))"

definition review_chunk :: "yaml_loader \<Rightarrow> agent_reply \<Rightarrow> chunk_conflict \<Rightarrow> target list result" where
  "review_chunk yaml agent cf =
     rbind (agent (''chunk_'' @ str_nat (ck_index (cf_chunk cf)) @ ''/reviewer'') (review_prompt cf)) (\<lambda>response.
     rbind (mapM included_entry (parsed_or_none (parse_yaml_response yaml response))) (\<lambda>included. Inr (concat included)))"

definition reconcile_chunk ::
  "yaml_loader \<Rightarrow> agent_reply \<Rightarrow> chunk \<times> target list list \<Rightarrow> (target list \<times> chunk_conflict option) result" where
  "reconcile_chunk yaml agent ce = (case ce of (c, extractions) \<Rightarrow>
     case find_consensus c extractions of
       (agreed, None) \<Rightarrow> Inr (agreed, None)
     | (agreed, Some cf) \<Rightarrow>
         rbind (review_chunk yaml agent cf) (\<lambda>reviewed. Inr (agreed @ reviewed, Some cf)))"

definition reconcile_all ::
  "yaml_loader \<Rightarrow> agent_reply \<Rightarrow> chunk list \<Rightarrow> target list list list \<Rightarrow> (target list list \<times> chunk_conflict list) result" where
  "reconcile_all yaml agent chunks all_extractions =
     rbind (mapM (reconcile_chunk yaml agent) (zip chunks all_extractions)) (\<lambda>results.
       Inr (map fst results, List.map_filter snd results))"

section \<open>Merging\<close>

definition needs_merging :: "chunk \<Rightarrow> chunk \<Rightarrow> target list \<Rightarrow> target list \<Rightarrow> bool" where
  "needs_merging a b ss_a ss_b =
     (if ck_start_line b > ck_end_line a then False else if ss_a = [] \<or> ss_b = [] then False else True)"

definition format_statements :: "target list \<Rightarrow> string" where
  "format_statements ss =
     join [nl] (map (\<lambda>s. ''- name: '' @ [quote] @ ft_name s @ [quote, nl] @ ''  description: '' @ [quote] @ ft_description s @ [quote]) ss)"

definition names_or_none :: "target list \<Rightarrow> string" where
  "names_or_none ss = (let t = join '', '' (map ft_name ss) in if t = [] then ''(none)'' else t)"

definition merge_prompt :: "chunk \<Rightarrow> chunk \<Rightarrow> target list \<Rightarrow> target list \<Rightarrow> string" where
  "merge_prompt a b ss_a ss_b =
     ''## Statements from earlier chunk (chunk '' @ str_nat (ck_index a) @ '', lines '' @ line_range a @ '')'' @ [nl] @
     format_statements ss_a @ [nl, nl] @
     ''## Statements from later chunk (chunk '' @ str_nat (ck_index b) @ '', lines '' @ line_range b @ '')'' @ [nl] @
     format_statements ss_b @ [nl, nl] @
     ''The earlier chunk has '' @ str_nat (length ss_a) @ '' statement(s): '' @ names_or_none ss_a @ [nl] @
     ''The later chunk has '' @ str_nat (length ss_b) @ '' statement(s): '' @ names_or_none ss_b @ [nl, nl] @
     ''Start by listing the names from each chunk, then for each statement from the later chunk, decide: duplicate or new?''"

definition NEW_VERDICTS :: "string list" where
  "NEW_VERDICTS = [''new'', ''keep'', ''not duplicate'', ''not a duplicate'']"

text \<open>The canonical names an entry of the merger's answer marks as duplicates.\<close>

definition entry_duplicates :: "entry \<Rightarrow> string list" where
  "entry_duplicates e =
     (let name = str_or e ''name''
      in if lower (str_or e ''verdict'') \<in> set NEW_VERDICTS then []
         else if name = [] then []
         else normalize_statement_name name #
           (if CHR '':'' \<in> set name then
              (let pre = strip (hd (split_char CHR '':'' name)) in if pre \<noteq> [] then [normalize_statement_name pre] else [])
            else []))"

definition duplicate_names :: "entry list \<Rightarrow> string list" where
  "duplicate_names entries = remdups (concat (map entry_duplicates entries))"

text \<open>Only the first statement of each marked name is dropped.\<close>

fun drop_duplicates :: "(string, nat) dict \<Rightarrow> target list \<Rightarrow> target list" where
  "drop_duplicates remaining [] = []"
| "drop_duplicates remaining (s # ss) =
     (let k = dget_or remaining (norm_name s) 0
      in if has_key remaining (norm_name s) \<and> 0 < k then drop_duplicates (dset remaining (norm_name s) (k - 1)) ss
         else s # drop_duplicates remaining ss)"

definition merge_id :: "chunk \<Rightarrow> chunk \<Rightarrow> string" where
  "merge_id a b = ''merge_'' @ str_nat (ck_index a) @ ''_'' @ str_nat (ck_index b)"

definition merge_pair :: "yaml_loader \<Rightarrow> agent_reply \<Rightarrow> chunk \<Rightarrow> chunk \<Rightarrow> target list \<Rightarrow> target list \<Rightarrow> target list result" where
  "merge_pair yaml agent a b ss_a ss_b =
     rbind (agent (merge_id a b) (merge_prompt a b ss_a ss_b)) (\<lambda>response.
       let entries = parsed_or_none (parse_yaml_response yaml response)
       in if entries = [] then Inr ss_b
          else Inr (drop_duplicates (map (\<lambda>n. (n, 1)) (duplicate_names entries)) ss_b))"

definition process_pair :: "yaml_loader \<Rightarrow> agent_reply \<Rightarrow> chunk list \<Rightarrow> target list list \<Rightarrow> nat \<Rightarrow> target list result" where
  "process_pair yaml agent chunks sss i =
     (if \<not> needs_merging (chunks ! (i - 1)) (chunks ! i) (sss ! (i - 1)) (sss ! i) then Inr (sss ! i)
      else merge_pair yaml agent (chunks ! (i - 1)) (chunks ! i) (sss ! (i - 1)) (sss ! i))"

definition merge_all :: "yaml_loader \<Rightarrow> agent_reply \<Rightarrow> chunk list \<Rightarrow> target list list \<Rightarrow> target list result" where
  "merge_all yaml agent chunks sss =
     (if chunks = [] then Inr []
      else rbind (mapM (process_pair yaml agent chunks sss) [1..<length chunks]) (\<lambda>pairs. Inr (sss ! 0 @ concat pairs)))"

section \<open>The pipeline\<close>

text \<open>\<open>None\<close>: the book is never cut to its end. What is written to files at the end is left out but for the review.\<close>

definition extract_statements ::
  "yaml_loader \<Rightarrow> agent_reply \<Rightarrow> string \<Rightarrow> dir_entry list \<Rightarrow> nat \<Rightarrow> int \<Rightarrow> int \<Rightarrow> (target list \<times> chunk_conflict list) result option" where
  "extract_statements yaml agent book_dir entries k chunk_size overlap =
     map_option (\<lambda>r.
       rbind r (\<lambda>chunks.
       rbind (mapM (extract_k_from_chunk yaml agent k) chunks) (\<lambda>all_extractions.
       rbind (reconcile_all yaml agent chunks all_extractions) (\<lambda>(sss, conflicts).
       rbind (merge_all yaml agent chunks sss) (\<lambda>statements. Inr (statements, conflicts))))))
     (chunk_all book_dir entries chunk_size overlap)"

definition review_version :: "target \<Rightarrow> json" where
  "review_version v = JObj [(''name'', JStr (ft_name v)), (''description'', JStr (ft_description v)), (''kind'', JStr (ft_kind v))]"

definition review_entry :: "chunk_conflict \<Rightarrow> json" where
  "review_entry cf =
     JObj [(''chunk_index'', JInt (int (ck_index (cf_chunk cf)))), (''lines'', JStr (line_range (cf_chunk cf))),
       (''disputed_statements'', JArr (map (\<lambda>d.
          JObj [(''name'', JStr (dp_name d)), (''reason'', JStr (dp_reason d)),
            (''found_by_agents'', JArr (map (\<lambda>i. JInt (int i)) (dp_found_by d))),
            (''versions'', JArr (map review_version (dp_versions d)))]) (cf_disputed cf)))]"

definition review_entries :: "chunk_conflict list \<Rightarrow> json" where
  "review_entries conflicts = JArr (map review_entry conflicts)"

end
