(* ===== verification/Statement_Extraction_Correct.thy ===== *)
theory Statement_Extraction_Correct
  imports Statement_Extraction "HOL-Library.Sublist"
begin

text \<open>
  What the pipeline keeps: the consensus of the agents of a chunk is exact, a merge drops no more than the
  first statement of each name the merger marked, and so a statement that every agent of a chunk found
  is in the result unless the merger of its chunk and the one before called it a duplicate.
\<close>

section \<open>Consensus\<close>

definition names_of :: "target list \<Rightarrow> string set" where
  "names_of ss = norm_name ` set ss"

lemma index_by_name_step [simp]:
  "index_by_name [] = []" "index_by_name (ss @ [s]) = dset (index_by_name ss) (norm_name s) s"
  by (simp_all add: index_by_name_def)

lemma index_by_name_get:
  "dget (index_by_name ss) n = Some t \<Longrightarrow> t \<in> set ss \<and> norm_name t = n"
  by (induction ss arbitrary: t rule: rev_induct) (auto split: if_splits)

lemma index_by_name_keys: "set (dkeys (index_by_name ss)) = names_of ss"
  by (induction ss rule: rev_induct) (auto simp: names_of_def dom_update)

lemma index_by_name_has: "(\<exists>t. dget (index_by_name ss) n = Some t) \<longleftrightarrow> n \<in> names_of ss"
  using index_by_name_keys [of ss] by (metis map_of_eq_None_iff not_None_eq list.set_map)


lemma all_names_set: "set (all_names ds) = \<Union> (set ` set (map dkeys ds))" and all_names_distinct: "distinct (all_names ds)"
proof -
  have "set (dkeys (foldl (\<lambda>d k. dset d k ()) d ks)) = set (dkeys d) \<union> set ks" for d :: "(string, unit) dict" and ks
    by (induction ks arbitrary: d) (auto simp: dom_update)
  then show "set (all_names ds) = \<Union> (set ` set (map dkeys ds))" by (simp add: all_names_def)
  have "distinct (dkeys d) \<Longrightarrow> distinct (dkeys (foldl (\<lambda>d k. dset d k ()) d ks))" for d :: "(string, unit) dict" and ks
    by (induction ks arbitrary: d) (auto simp: distinct_update)
  then show "distinct (all_names ds)" by (simp add: all_names_def)
qed

lemma versions_shift:
  "length (concat (map (\<lambda>(i, index). case dget index n of Some s \<Rightarrow> [(i, s)] | None \<Rightarrow> []) (enumerate j ds))) =
   length (filter (\<lambda>d. dget d n \<noteq> None) ds)"
  by (induction ds arbitrary: j) (auto split: option.splits)

lemma versions_all:
  "length ds \<le> length (versions_of ds n) \<longleftrightarrow> (\<forall>d\<in>set ds. dget d n \<noteq> None)"
proof -
  have "length (filter (\<lambda>d. dget d n \<noteq> None) ds) \<le> length ds" by (rule length_filter_le)
  then have "length ds \<le> length (filter (\<lambda>d. dget d n \<noteq> None) ds) \<longleftrightarrow> length (filter (\<lambda>d. dget d n \<noteq> None) ds) = length ds" by linarith
  then show ?thesis unfolding versions_of_def versions_shift length_filter_eq_iff by simp
qed

lemma in_versions: "(i, t) \<in> set (versions_of ds n) \<longleftrightarrow> i < length ds \<and> dget (ds ! i) n = Some t"
proof -
  have "(i, t) \<in> set (versions_of ds n) \<longleftrightarrow> (\<exists>p\<in>set (enumerate 0 ds). fst p = i \<and> dget (snd p) n = Some t)"
    by (force simp: versions_of_def split: option.splits)
  also have "\<dots> \<longleftrightarrow> i < length ds \<and> dget (ds ! i) n = Some t"
    unfolding Bex_def in_set_enumerate_eq by (auto intro!: exI [of _ "(i, ds ! i)"])
  finally show ?thesis .
qed

lemma sort_out_foldl:
  "foldl (sort_out ds k) (ag, dis) ns =
     (ag @ map (\<lambda>n. snd (hd (versions_of ds n))) (filter (\<lambda>n. k \<le> length (versions_of ds n)) ns),
      dis @ map (\<lambda>n. \<lparr>dp_name = ft_name (snd (hd (versions_of ds n))), dp_found_by = map fst (versions_of ds n),
        dp_versions = map snd (versions_of ds n),
        dp_reason = ''Found by '' @ str_nat (length (versions_of ds n)) @ ''/'' @ str_nat k @ '' agents''\<rparr>)
        (filter (\<lambda>n. length (versions_of ds n) < k) ns))"
  by (induction ns arbitrary: ag dis) (auto simp: sort_out_def Let_def)

definition disputed_in :: "chunk_conflict option \<Rightarrow> disputed list" where
  "disputed_in cf = (case cf of None \<Rightarrow> [] | Some c \<Rightarrow> cf_disputed c)"

lemma find_consensus_eq:
  "find_consensus c exts =
     (let ds = map index_by_name exts; k = length exts; r = foldl (sort_out ds k) ([], []) (all_names ds)
      in (fst r, if snd r = [] then None else Some \<lparr>cf_chunk = c, cf_extractions = exts, cf_agreed = fst r, cf_disputed = snd r\<rparr>))"
  by (simp add: find_consensus_def Let_def split_beta)

lemma found_names: "set (all_names (map index_by_name exts)) = (\<Union>ss\<in>set exts. names_of ss)"
  using index_by_name_keys by (simp add: all_names_set image_image)

lemma in_all_agents: "length exts \<le> length (versions_of (map index_by_name exts) n) \<longleftrightarrow> (\<forall>ss\<in>set exts. n \<in> names_of ss)"
  using versions_all [of "map index_by_name exts" n] index_by_name_has by (simp add: image_iff)

lemma version_name:
  assumes "n \<in> set (all_names (map index_by_name exts))"
  shows "norm_name (snd (hd (versions_of (map index_by_name exts) n))) = n \<and>
    (\<exists>ss\<in>set exts. snd (hd (versions_of (map index_by_name exts) n)) \<in> set ss) \<and>
    versions_of (map index_by_name exts) n \<noteq> []"
proof -
  let ?vs = "versions_of (map index_by_name exts) n"
  obtain ss where "ss \<in> set exts" "n \<in> names_of ss" using assms by (auto simp: found_names)
  then obtain j t where "j < length exts" "dget (index_by_name (exts ! j)) n = Some t"
    using index_by_name_has [of ss n] by (metis in_set_conv_nth)
  then have ne: "?vs \<noteq> []" using in_versions [of j t "map index_by_name exts" n] by auto
  obtain i t' where "hd ?vs = (i, t')" by (cases "hd ?vs")
  then have "i < length exts" "dget (index_by_name (exts ! i)) n = Some t'"
    using in_versions [of i t' "map index_by_name exts" n] hd_in_set [OF ne] by auto
  then show ?thesis using index_by_name_get [of "exts ! i" n t'] \<open>hd ?vs = (i, t')\<close> ne nth_mem by fastforce
qed

lemma consensus_of:
  "distinct (map norm_name (fst (find_consensus c exts))) \<and>
   names_of (fst (find_consensus c exts)) = {n. exts \<noteq> [] \<and> (\<forall>ss\<in>set exts. n \<in> names_of ss)} \<and>
   {normalize_statement_name (dp_name d) |d. d \<in> set (disputed_in (snd (find_consensus c exts)))} =
     {n. (\<exists>ss\<in>set exts. n \<in> names_of ss) \<and> \<not> (\<forall>ss\<in>set exts. n \<in> names_of ss)} \<and>
   set (fst (find_consensus c exts)) \<subseteq> \<Union> (set ` set exts)"
proof -
  let ?ds = "map index_by_name exts"
  let ?v = "\<lambda>n. snd (hd (versions_of ?ds n))"
  let ?in = "filter (\<lambda>n. length exts \<le> length (versions_of ?ds n)) (all_names ?ds)"
  let ?out = "filter (\<lambda>n. length (versions_of ?ds n) < length exts) (all_names ?ds)"
  have ag: "fst (find_consensus c exts) = map ?v ?in" by (simp add: find_consensus_eq sort_out_foldl Let_def)
  have names: "map norm_name (map ?v ns) = ns" if "set ns \<subseteq> set (all_names ?ds)" for ns
    using that version_name by (induction ns) auto
  have "map norm_name (fst (find_consensus c exts)) = ?in" unfolding ag by (rule names) auto
  then have d: "distinct (map norm_name (fst (find_consensus c exts)))" and
    n: "names_of (fst (find_consensus c exts)) = set ?in"
    using all_names_distinct by (simp_all add: names_of_def flip: set_map)
  have dis: "disputed_in (snd (find_consensus c exts)) = map (\<lambda>n. \<lparr>dp_name = ft_name (?v n), dp_found_by = map fst (versions_of ?ds n),
        dp_versions = map snd (versions_of ?ds n),
        dp_reason = ''Found by '' @ str_nat (length (versions_of ?ds n)) @ ''/'' @ str_nat (length exts) @ '' agents''\<rparr>) ?out"
    by (auto simp: find_consensus_eq sort_out_foldl Let_def disputed_in_def)
  have "{normalize_statement_name (dp_name d) |d. d \<in> set (disputed_in (snd (find_consensus c exts)))} = set ?out"
  proof -
    have "{normalize_statement_name (dp_name d) |d. d \<in> set (disputed_in (snd (find_consensus c exts)))} = set (map norm_name (map ?v ?out))"
      unfolding dis by (force simp: image_iff)
    moreover have "map norm_name (map ?v ?out) = ?out" by (rule names) auto
    ultimately show ?thesis by (simp only:)
  qed
  moreover have "set (fst (find_consensus c exts)) \<subseteq> \<Union> (set ` set exts)" unfolding ag using version_name by fastforce
  ultimately show ?thesis
    using d n in_all_agents [of exts] found_names [of exts] by (auto simp: not_le [symmetric])
qed

text \<open>C38: The agreed statements of a chunk have distinct canonical names, namely exactly the names that every
  agent found, and the disputed ones have exactly the names that some agent found and another did not; each
  agreed statement is the version of one of the agents.
\<close>

theorem consensus_exact:
  "distinct (map norm_name (fst (find_consensus c exts))) \<and>
   names_of (fst (find_consensus c exts)) = (if exts = [] then {} else \<Inter> (names_of ` set exts)) \<and>
   {normalize_statement_name (dp_name d) |d. d \<in> set (disputed_in (snd (find_consensus c exts)))} =
     \<Union> (names_of ` set exts) - \<Inter> (names_of ` set exts) \<and>
   set (fst (find_consensus c exts)) \<subseteq> \<Union> (set ` set exts)"
proof -
  have "{n. exts \<noteq> [] \<and> (\<forall>ss\<in>set exts. n \<in> names_of ss)} = (if exts = [] then {} else \<Inter> (names_of ` set exts))" by auto
  moreover have "{n. (\<exists>ss\<in>set exts. n \<in> names_of ss) \<and> \<not> (\<forall>ss\<in>set exts. n \<in> names_of ss)} =
      \<Union> (names_of ` set exts) - \<Inter> (names_of ` set exts)" by auto
  ultimately show ?thesis using consensus_of [of c exts] by simp
qed

section \<open>Merging\<close>

text \<open>Without its first statement of that name.\<close>

definition marked_once :: "(string, nat) dict \<Rightarrow> string \<Rightarrow> bool" where
  "marked_once r n = (0 < dget_or r n 0)"

lemma drop_duplicates_filter:
  assumes "\<And>n. dget_or r n 0 \<le> 1"
  shows "filter (\<lambda>s. norm_name s = n) (drop_duplicates r ss) =
     (if marked_once r n then tl (filter (\<lambda>s. norm_name s = n) ss) else filter (\<lambda>s. norm_name s = n) ss)"
  using assms
proof (induction r ss rule: drop_duplicates.induct)
  case (1 r)
  then show ?case by simp
next
  case (2 r s ss)
  let ?m = "norm_name s"
  show ?case
  proof (cases "has_key r ?m \<and> 0 < dget_or r ?m 0")
    case True
    have le: "dget_or (dset r ?m (dget_or r ?m 0 - 1)) n 0 \<le> 1" for n
      using 2(3) [of n] 2(3) [of ?m] by (auto simp: dget_or_def)
    have off: "marked_once (dset r ?m (dget_or r ?m 0 - 1)) n \<longleftrightarrow> marked_once r n \<and> n \<noteq> ?m"
      using 2(3) [of ?m] by (auto simp: marked_once_def dget_or_def)
    show ?thesis using 2(1) [OF refl True le] True off by (auto simp: marked_once_def)
  next
    case False
    then have "\<not> marked_once r ?m" by (force simp: marked_once_def has_key_iff dget_or_def dest: map_of_SomeD split: option.splits)
    then show ?thesis using 2(2) [OF refl False 2(3)] False by auto
  qed
qed

lemma drop_duplicates_subseq: "subseq (drop_duplicates r ss) ss"
  by (induction r ss rule: drop_duplicates.induct) (auto simp: Let_def)

text \<open>
  What a merge leaves of the later chunk is in its order, and of each canonical name only the first
  statement can be gone, and only when the merger marked that name.
\<close>

lemma merge_drops_first_only:
  assumes "merge_pair yaml agent a b ss_a ss_b = Inr kept"
  shows "subseq kept ss_b \<and>
    (\<exists>response. agent (merge_id a b) (merge_prompt a b ss_a ss_b) = Inr response \<and>
      (\<forall>n. filter (\<lambda>s. norm_name s = n) kept =
        (if n \<in> set (duplicate_names (parsed_or_none (parse_yaml_response yaml response)))
         then tl (filter (\<lambda>s. norm_name s = n) ss_b) else filter (\<lambda>s. norm_name s = n) ss_b)))"
proof -
  obtain response where r: "agent (merge_id a b) (merge_prompt a b ss_a ss_b) = Inr response"
    using assms by (auto simp: merge_pair_def)
  let ?es = "parsed_or_none (parse_yaml_response yaml response)"
  have k: "kept = drop_duplicates (map (\<lambda>n. (n, 1)) (duplicate_names ?es)) ss_b" if "?es \<noteq> []"
    using assms r that by (simp add: merge_pair_def Let_def)
  have e: "kept = ss_b" "duplicate_names ?es = []" if "?es = []"
    using assms r that by (simp_all add: merge_pair_def Let_def duplicate_names_def)
  have g: "dget_or (map (\<lambda>n. (n, 1)) ds) n 0 = (if n \<in> set ds then 1 else (0 :: nat))" for ds :: "string list" and n
    by (induction ds) (auto simp: dget_or_def)
  note f = drop_duplicates_filter [of "map (\<lambda>n. (n, 1)) (duplicate_names ?es)", unfolded marked_once_def g, simplified]
  have "filter (\<lambda>s. norm_name s = n) kept = (if n \<in> set (duplicate_names ?es)
         then tl (filter (\<lambda>s. norm_name s = n) ss_b) else filter (\<lambda>s. norm_name s = n) ss_b)" for n
    using e k f by (cases "?es = []") simp_all
  moreover have "subseq kept ss_b" using e(1) k drop_duplicates_subseq by (cases "?es = []") auto
  ultimately show ?thesis using r by blast
qed

section \<open>The pipeline\<close>

lemma extract_statements_steps:
  assumes "extract_statements yaml agent dir es k n ov = Some (Inr (statements, conflicts))"
    and "chunk_all dir es n ov = Some (Inr chunks)"
  shows "\<exists>all sss. mapM (extract_k_from_chunk yaml agent k) chunks = Inr all \<and>
    reconcile_all yaml agent chunks all = Inr (sss, conflicts) \<and> merge_all yaml agent chunks sss = Inr statements"
  using assms by (auto simp: extract_statements_def split: prod.splits)

lemma reconcile_all_nth:
  assumes "reconcile_all yaml agent chunks all = Inr (sss, conflicts)" "length all = length chunks" "i < length chunks"
  shows "length sss = length chunks \<and> (\<exists>cf. reconcile_chunk yaml agent (chunks ! i, all ! i) = Inr (sss ! i, cf))"
proof -
  from assms(1) obtain results where r: "mapM (reconcile_chunk yaml agent) (zip chunks all) = Inr results" "sss = map fst results"
    by (auto simp: reconcile_all_def)
  with mapM_nth [OF r(1)] assms(2,3) show ?thesis by (auto intro: exI [of _ "snd (results ! i)"])
qed

lemma reconcile_keeps_agreed:
  "reconcile_chunk yaml agent (c, exts) = Inr (ss, cf) \<Longrightarrow> set (fst (find_consensus c exts)) \<subseteq> set ss"
  by (auto simp: reconcile_chunk_def split: prod.splits option.splits)

text \<open>What of the statements of a piece is in the result.\<close>

lemma merge_all_nth:
  assumes "merge_all yaml agent chunks sss = Inr statements" "i < length chunks"
  shows "\<exists>kept. set kept \<subseteq> set statements \<and>
    (if i = 0 then kept = sss ! 0 else process_pair yaml agent chunks sss i = Inr kept)"
proof -
  from assms obtain pairs where p: "mapM (process_pair yaml agent chunks sss) [1..<length chunks] = Inr pairs"
    "statements = sss ! 0 @ concat pairs" by (auto simp: merge_all_def split: if_splits)
  show ?thesis
  proof (cases "i = 0")
    case True
    with p show ?thesis by auto
  next
    case False
    with mapM_nth [OF p(1)] assms(2) have "process_pair yaml agent chunks sss i = Inr (pairs ! (i - 1))" "i - 1 < length pairs"
      by (auto dest: spec [of _ "i - 1"])
    with p(2) False nth_mem show ?thesis by fastforce
  qed
qed

text \<open>A statement that every agent of a piece found is in the result of the pipeline, under its canonical
  name, unless the merger of that piece and the one before marked the name as a duplicate.
\<close>

theorem unanimous_statement_survives:
  assumes "extract_statements yaml agent dir es k n ov = Some (Inr (statements, conflicts))"
    and "chunk_all dir es n ov = Some (Inr chunks)" "i < length chunks"
    and "extract_k_from_chunk yaml agent k (chunks ! i) = Inr exts" "exts \<noteq> []" "\<forall>ss\<in>set exts. name \<in> names_of ss"
  shows "name \<in> names_of statements \<or>
    (\<exists>prompt response. 0 < i \<and> agent (merge_id (chunks ! (i - 1)) (chunks ! i)) prompt = Inr response \<and>
       name \<in> set (duplicate_names (parsed_or_none (parse_yaml_response yaml response))))"
proof -
  obtain all sss where s: "mapM (extract_k_from_chunk yaml agent k) chunks = Inr all"
    "reconcile_all yaml agent chunks all = Inr (sss, conflicts)" "merge_all yaml agent chunks sss = Inr statements"
    using extract_statements_steps [OF assms(1,2)] by blast
  from mapM_nth [OF s(1)] assms(3,4) have a: "length all = length chunks" "all ! i = exts" by auto
  obtain cf where "reconcile_chunk yaml agent (chunks ! i, exts) = Inr (sss ! i, cf)"
    using reconcile_all_nth [OF s(2) a(1) assms(3)] a(2) by blast
  then have "names_of (fst (find_consensus (chunks ! i) exts)) \<subseteq> names_of (sss ! i)"
    using reconcile_keeps_agreed unfolding names_of_def by (blast intro: image_mono)
  moreover have "name \<in> names_of (fst (find_consensus (chunks ! i) exts))"
    using consensus_of [of "chunks ! i" exts] assms(5,6) by blast
  ultimately have inn: "name \<in> names_of (sss ! i)" by blast
  obtain kept where k: "set kept \<subseteq> set statements"
    "if i = 0 then kept = sss ! 0 else process_pair yaml agent chunks sss i = Inr kept"
    using merge_all_nth [OF s(3) assms(3)] by blast
  show ?thesis
  proof (cases "kept = sss ! i")
    case True
    with inn k(1) show ?thesis by (auto simp: names_of_def)
  next
    case False
    with k(2) have i: "0 < i" and m: "merge_pair yaml agent (chunks ! (i - 1)) (chunks ! i) (sss ! (i - 1)) (sss ! i) = Inr kept"
      by (auto simp: process_pair_def split: if_splits)
    obtain response where r: "agent (merge_id (chunks ! (i - 1)) (chunks ! i)) (merge_prompt (chunks ! (i - 1)) (chunks ! i) (sss ! (i - 1)) (sss ! i)) = Inr response"
      and f: "filter (\<lambda>s. norm_name s = name) kept = (if name \<in> set (duplicate_names (parsed_or_none (parse_yaml_response yaml response)))
         then tl (filter (\<lambda>s. norm_name s = name) (sss ! i)) else filter (\<lambda>s. norm_name s = name) (sss ! i))"
      using merge_drops_first_only [OF m] by blast
    show ?thesis
    proof (cases "name \<in> set (duplicate_names (parsed_or_none (parse_yaml_response yaml response)))")
      case True
      with r i show ?thesis by blast
    next
      case False
      obtain t where "t \<in> set (sss ! i)" "norm_name t = name" using inn by (auto simp: names_of_def)
      then have "t \<in> set (filter (\<lambda>s. norm_name s = name) kept)" unfolding f using False by simp
      then show ?thesis using k(1) \<open>norm_name t = name\<close> by (auto simp: names_of_def)
    qed
  qed
qed

lemma subseq_in: "subseq xs ys \<Longrightarrow> set xs \<subseteq> set ys"
  by (metis subseq_singleton_left subseq_order.trans subsetI)

lemma merged_from:
  assumes "merge_all yaml agent chunks sss = Inr statements" "t \<in> set statements"
  shows "\<exists>i<length chunks. t \<in> set (sss ! i)"
proof -
  from assms obtain pairs where ne: "chunks \<noteq> []" and p: "mapM (process_pair yaml agent chunks sss) [1..<length chunks] = Inr pairs"
    "t \<in> set (sss ! 0) \<or> (\<exists>ss\<in>set pairs. t \<in> set ss)" by (auto simp: merge_all_def split: if_splits)
  show ?thesis
  proof (cases "t \<in> set (sss ! 0)")
    case True
    with ne show ?thesis by (intro exI [of _ 0]) simp
  next
    case False
    with p(2) obtain j where j: "j < length pairs" "t \<in> set (pairs ! j)" by (metis in_set_conv_nth)
    with mapM_nth [OF p(1)] have "Suc j < length chunks" "process_pair yaml agent chunks sss (Suc j) = Inr (pairs ! j)" by auto
    moreover have "set (pairs ! j) \<subseteq> set (sss ! Suc j)" if "process_pair yaml agent chunks sss (Suc j) = Inr (pairs ! j)"
      using that merge_drops_first_only [of yaml agent "chunks ! j" "chunks ! Suc j" "sss ! j" "sss ! Suc j" "pairs ! j"]
      by (auto simp: process_pair_def split: if_splits dest!: subseq_in)
    ultimately show ?thesis using j(2) by blast
  qed
qed

lemma included_from:
  "included_entry e = Inr ts \<Longrightarrow> t \<in> set ts \<Longrightarrow> lower_verdict e = Inr ''include'' \<and> t = entry_target e"
  by (auto simp: included_entry_def split: if_splits)

lemma reviewed_from:
  assumes "review_chunk yaml agent cf = Inr ts" "t \<in> set ts"
  shows "\<exists>prompt response e. agent (''chunk_'' @ str_nat (ck_index (cf_chunk cf)) @ ''/reviewer'') prompt = Inr response \<and>
       e \<in> set (parsed_or_none (parse_yaml_response yaml response)) \<and> lower_verdict e = Inr ''include'' \<and> t = entry_target e"
proof -
  from assms(1) obtain response inc where r: "agent (''chunk_'' @ str_nat (ck_index (cf_chunk cf)) @ ''/reviewer'') (review_prompt cf) = Inr response"
    "mapM included_entry (parsed_or_none (parse_yaml_response yaml response)) = Inr inc" "ts = concat inc"
    by (auto simp: review_chunk_def)
  with assms(2) obtain ts' where "ts' \<in> set inc" "t \<in> set ts'" by auto
  with mapM_Inr_mem [OF r(2)] included_from r(1) show ?thesis by metis
qed

lemma reconciled_from:
  assumes "reconcile_chunk yaml agent (c, exts) = Inr (ss, cf)" "t \<in> set ss"
  shows "(\<exists>s\<in>set exts. t \<in> set s) \<or>
    (\<exists>prompt response e. agent (''chunk_'' @ str_nat (ck_index c) @ ''/reviewer'') prompt = Inr response \<and>
       e \<in> set (parsed_or_none (parse_yaml_response yaml response)) \<and> lower_verdict e = Inr ''include'' \<and> t = entry_target e)"
proof (cases "t \<in> set (fst (find_consensus c exts))")
  case True
  then show ?thesis using consensus_of [of c exts] by blast
next
  case False
  obtain ag cf' where f: "find_consensus c exts = (ag, cf')" by fastforce
  with False assms obtain cf'' reviewed where "cf' = Some cf''" "review_chunk yaml agent cf'' = Inr reviewed" "t \<in> set reviewed"
    by (auto simp: reconcile_chunk_def split: option.splits)
  moreover from this f have "cf_chunk cf'' = c" by (auto simp: find_consensus_eq Let_def split: if_splits)
  ultimately show ?thesis using reviewed_from by blast
qed

text \<open>Nothing is made up outside the agents' answers: every statement of the result was found by an
  extractor in one of the pieces, or stands in a reviewer's answer with the verdict to include it.
\<close>

theorem statements_have_source:
  assumes "extract_statements yaml agent dir es k n ov = Some (Inr (statements, conflicts))"
    and "chunk_all dir es n ov = Some (Inr chunks)" "t \<in> set statements"
  shows "\<exists>c\<in>set chunks.
    (\<exists>exts. extract_k_from_chunk yaml agent k c = Inr exts \<and> (\<exists>ss\<in>set exts. t \<in> set ss)) \<or>
    (\<exists>prompt response e. agent (''chunk_'' @ str_nat (ck_index c) @ ''/reviewer'') prompt = Inr response \<and>
       e \<in> set (parsed_or_none (parse_yaml_response yaml response)) \<and> lower_verdict e = Inr ''include'' \<and> t = entry_target e)"
proof -
  obtain all sss where s: "mapM (extract_k_from_chunk yaml agent k) chunks = Inr all"
    "reconcile_all yaml agent chunks all = Inr (sss, conflicts)" "merge_all yaml agent chunks sss = Inr statements"
    using extract_statements_steps [OF assms(1,2)] by blast
  have ne: "chunks \<noteq> []" using s(3) assms(3) by (auto simp: merge_all_def)
  obtain i where i: "i < length chunks" "t \<in> set (sss ! i)"
    using merged_from [OF s(3) assms(3)] by blast
  from mapM_nth [OF s(1)] i(1) have a: "length all = length chunks" "extract_k_from_chunk yaml agent k (chunks ! i) = Inr (all ! i)" by auto
  obtain cf where "reconcile_chunk yaml agent (chunks ! i, all ! i) = Inr (sss ! i, cf)"
    using reconcile_all_nth [OF s(2) a(1) i(1)] by blast
  then show ?thesis using reconciled_from [of yaml agent "chunks ! i" "all ! i" "sss ! i" cf t] i a(2) nth_mem by blast
qed

section \<open>A small book\<close>

text \<open>
  A book of two lines in pieces of two lines that overlap in one, and one agent, which finds a lemma in the first piece and the same
  lemma with a corollary in the second; the merger marks the lemma as a duplicate.
\<close>

definition small_dir :: "dir_entry list" where
  "small_dir = [\<lparr>de_name = ''a.md'', de_is_file = True, de_text = ''x'' @ [nl] @ ''y''\<rparr>]"

definition small_agent :: agent_reply where
  "small_agent i p = (if i = ''chunk_0/agent_0'' then Inr ''one'' else if i = ''chunk_1/agent_0'' then Inr ''two'' else Inr ''one'')"

definition small_yaml :: yaml_loader where
  "small_yaml s =
     (if s = ''one'' then Some (JArr [JObj [(''name'', JStr ''Lemma 1'')]])
      else if s = ''two'' then Some (JArr [JObj [(''name'', JStr ''Lem. 1'')], JObj [(''name'', JStr ''Cor. 2'')]])
      else None)"

definition small_chunks :: "chunk list" where
  "small_chunks = [\<lparr>ck_index = 0, ck_text = ''x'' @ [nl] @ ''y'', ck_start_line = 1, ck_end_line = 2\<rparr>,
     \<lparr>ck_index = 1, ck_text = ''y'', ck_start_line = 2, ck_end_line = 2\<rparr>]"

lemma small_run:
  "chunk_all [] small_dir 2 1 = Some (Inr small_chunks)"
  "extract_k_from_chunk small_yaml small_agent 1 (small_chunks ! 0) = Inr [[plain_target ''Lemma 1'']]"
  "extract_k_from_chunk small_yaml small_agent 1 (small_chunks ! 1) = Inr [[plain_target ''Lem. 1'', plain_target ''Cor. 2'']]"
  "extract_statements small_yaml small_agent [] small_dir 1 2 1 = Some (Inr ([plain_target ''Lemma 1'', plain_target ''Cor. 2''], []))"
proof -
  have "load_book [] small_dir = Inr [''x'', ''y'']" by code_simp
  moreover have "map (nth_chunk [''x'', ''y''] 2 1) [0..<chunk_count (length [''x'', ''y'']) (2 - 1)] = small_chunks" by code_simp
  ultimately show c: "chunk_all [] small_dir 2 1 = Some (Inr small_chunks)"
    using chunk_lines_map [of 1 2 "[''x'', ''y'']"] by (simp add: chunk_all_def)
  show e: "extract_k_from_chunk small_yaml small_agent 1 (small_chunks ! 0) = Inr [[plain_target ''Lemma 1'']]"
    "extract_k_from_chunk small_yaml small_agent 1 (small_chunks ! 1) = Inr [[plain_target ''Lem. 1'', plain_target ''Cor. 2'']]"
    by code_simp+
  have x: "mapM (extract_k_from_chunk small_yaml small_agent 1) small_chunks =
      Inr [[[plain_target ''Lemma 1'']], [[plain_target ''Lem. 1'', plain_target ''Cor. 2'']]]"
    using e by (simp add: small_chunks_def)
  have n: "normalize_statement_name ''Lemma 1'' = ''lemma 1''" "normalize_statement_name ''Lem. 1'' = ''lemma 1''"
    "normalize_statement_name ''Cor. 2'' = ''corollary 2''" by code_simp+
  have "index_by_name [plain_target ''Lemma 1''] = [(''lemma 1'', plain_target ''Lemma 1'')]"
    "index_by_name [plain_target ''Lem. 1'', plain_target ''Cor. 2''] =
      [(''lemma 1'', plain_target ''Lem. 1''), (''corollary 2'', plain_target ''Cor. 2'')]"
    by (simp_all add: index_by_name_def plain_target_def n)
  then have "find_consensus ch [[plain_target ''Lemma 1'']] = ([plain_target ''Lemma 1''], None)"
    "find_consensus ch [[plain_target ''Lem. 1'', plain_target ''Cor. 2'']] = ([plain_target ''Lem. 1'', plain_target ''Cor. 2''], None)" for ch
    by (simp_all add: find_consensus_eq sort_out_foldl all_names_def versions_of_def)
  then have rc: "reconcile_all small_yaml small_agent small_chunks [[[plain_target ''Lemma 1'']], [[plain_target ''Lem. 1'', plain_target ''Cor. 2'']]] =
      Inr ([[plain_target ''Lemma 1''], [plain_target ''Lem. 1'', plain_target ''Cor. 2'']], [])"
    by (simp add: reconcile_all_def reconcile_chunk_def small_chunks_def map_filter_simps)
  have p: "parsed_or_none (parse_yaml_response small_yaml ''one'') = [[(''name'', JStr ''Lemma 1'')]]" by code_simp
  have "duplicate_names [[(''name'', JStr ''Lemma 1'')]] = [''lemma 1'']"
    by (simp add: duplicate_names_def entry_duplicates_def str_or_def n lower_def NEW_VERDICTS_def)
  then have "merge_all small_yaml small_agent small_chunks [[plain_target ''Lemma 1''], [plain_target ''Lem. 1'', plain_target ''Cor. 2'']] =
      Inr [plain_target ''Lemma 1'', plain_target ''Cor. 2'']"
    by (simp add: merge_all_def process_pair_def merge_pair_def needs_merging_def small_agent_def small_chunks_def merge_id_def Let_def p
          plain_target_def n has_key_def dget_or_def)
  with x rc show "extract_statements small_yaml small_agent [] small_dir 1 2 1 = Some (Inr ([plain_target ''Lemma 1'', plain_target ''Cor. 2''], []))"
    by (simp add: extract_statements_def c)
qed

lemma small_names:
  "names_of [plain_target ''Lem. 1'', plain_target ''Cor. 2''] = {''lemma 1'', ''corollary 2''}"
proof -
  have "norm_name (plain_target ''Lem. 1'') = ''lemma 1''" "norm_name (plain_target ''Cor. 2'') = ''corollary 2''" by code_simp+
  then show ?thesis by (simp add: names_of_def)
qed

theorem unanimous_statement_survives_witness:
  "''corollary 2'' \<in> names_of [plain_target ''Lemma 1'', plain_target ''Cor. 2''] \<or>
    (\<exists>prompt response. 0 < (1 :: nat) \<and> small_agent (merge_id (small_chunks ! (1 - 1)) (small_chunks ! 1)) prompt = Inr response \<and>
       ''corollary 2'' \<in> set (duplicate_names (parsed_or_none (parse_yaml_response small_yaml response))))"
  by (rule unanimous_statement_survives [OF small_run(4) small_run(1) _ small_run(3)])
     (simp_all add: small_chunks_def small_names)

theorem statements_have_source_witness:
  "\<exists>c\<in>set small_chunks.
    (\<exists>exts. extract_k_from_chunk small_yaml small_agent 1 c = Inr exts \<and> (\<exists>ss\<in>set exts. plain_target ''Cor. 2'' \<in> set ss)) \<or>
    (\<exists>prompt response e. small_agent (''chunk_'' @ str_nat (ck_index c) @ ''/reviewer'') prompt = Inr response \<and>
       e \<in> set (parsed_or_none (parse_yaml_response small_yaml response)) \<and> lower_verdict e = Inr ''include'' \<and>
       plain_target ''Cor. 2'' = entry_target e)"
  by (rule statements_have_source [OF small_run(4) small_run(1)]) simp

end
