(* ===== verification/Json_Roundtrip.thy ===== *)
theory Json_Roundtrip
  imports Py_Json
begin

text \<open>
  What \<open>json.dumps\<close> prints \<open>json.loads\<close> reads back, for values whose objects have no key twice, as a Python
  dict has none.
\<close>

section \<open>Strings\<close>

lemma hex_val_digit: "n < 16 \<Longrightarrow> hex_val (hex_digit n) = Some n"
  by (simp add: hex_digit_def Let_def)

lemma parse_dump_char: "parse_chars (dump_char c @ cs) = pbind (parse_chars cs) (\<lambda>t r. Inr (c # t, r))"
proof -
  let ?n = "of_char c :: nat"
  have n: "?n < 256" by simp
  have c: "char_of ?n = c" by simp
  consider "c = CHR 0x22" | "c = CHR 0x5C" | "c = CHR 0x0A" | "c = CHR 0x0D" | "c = CHR 0x09" | "c = CHR 0x08" | "c = CHR 0x0C"
    | "c \<notin> {CHR 0x22, CHR 0x5C, CHR 0x0A, CHR 0x0D, CHR 0x09, CHR 0x08, CHR 0x0C}" by blast
  then show ?thesis
  proof cases
    case 8
    then have d: "dump_char c = (if ?n < 32 \<or> ?n = 127 then [CHR 0x5C, CHR ''u'', CHR ''0'', CHR ''0'', hex_digit (?n div 16), hex_digit (?n mod 16)] else [c])"
      using of_char_eq_iff [of c "CHR 0x0A", where ?'a = nat] of_char_eq_iff [of c "CHR 0x0D", where ?'a = nat]
        of_char_eq_iff [of c "CHR 0x09", where ?'a = nat] of_char_eq_iff [of c "CHR 0x08", where ?'a = nat]
        of_char_eq_iff [of c "CHR 0x0C", where ?'a = nat]
      by (simp add: dump_char_def Let_def)
    show ?thesis
    proof (cases "?n < 32 \<or> ?n = 127")
      case True
      then have h: "hex_val (hex_digit (?n div 16)) = Some (?n div 16)" "hex_val (hex_digit (?n mod 16)) = Some (?n mod 16)"
        using True by (fastforce intro: hex_val_digit simp del: hex_val.simps)+
      have z: "hex_val CHR ''0'' = Some 0" by simp
      have m: "?n div 16 < 8" "16 * (?n div 16) + ?n mod 16 = ?n" using True by auto
      from d True h z m c show ?thesis by (simp del: hex_val.simps)
    next
      case False
      with d 8 show ?thesis by (auto simp: not_less)
    qed
  qed (simp_all add: dump_char_def)
qed

lemma parse_dump_chars: "parse_chars (concat (map dump_char s) @ CHR 0x22 # rest) = Inr (s, rest)"
  by (induction s) (simp_all add: parse_dump_char del: parse_chars.simps, simp)

section \<open>Numbers\<close>

text \<open>What can follow a value inside a printed one.\<close>

definition follows :: "string \<Rightarrow> bool" where
  "follows rest \<longleftrightarrow> rest = [] \<or> hd rest \<in> {CHR '','', CHR '']'', CHR ''}''}"

lemma digit_char_zero: "d < 10 \<Longrightarrow> digit_char d = CHR ''0'' \<longleftrightarrow> d = 0"
proof
  assume d: "d < 10" "digit_char d = CHR ''0''"
  have "digit_val CHR ''0'' = 0" by (simp add: digit_val_def)
  with d show "d = 0" by (metis digit_val_char)
next
  show "d = 0 \<Longrightarrow> digit_char d = CHR ''0''" by (simp, code_simp)
qed

lemma str_nat_zero: "hd (str_nat n) = CHR ''0'' \<longleftrightarrow> n = 0"
proof (induction n rule: str_nat.induct)
  case (1 n)
  show ?case
  proof (cases "n < 10")
    case True
    then show ?thesis by (subst str_nat.simps) (simp add: digit_char_zero)
  next
    case False
    with 1 show ?thesis by (subst str_nat.simps) (simp add: hd_append)
  qed
qed

lemma parse_str_nat:
  assumes "follows rest"
  shows "takeWhile is_digit_char (str_nat n @ rest) = str_nat n" "dropWhile is_digit_char (str_nat n @ rest) = rest"
proof -
  have "list_all is_digit_char (str_nat n)" using isdigit_str_nat [of n] by (simp add: isdigit_def)
  moreover have "rest = [] \<or> \<not> is_digit_char (hd rest)" using assms by (auto simp: follows_def is_digit_char_def)
  ultimately show "takeWhile is_digit_char (str_nat n @ rest) = str_nat n" "dropWhile is_digit_char (str_nat n @ rest) = rest"
    by (cases rest; auto simp: list_all_iff takeWhile_append2 dropWhile_append2)+
qed

lemma parse_number_nat:
  assumes "follows rest"
  shows "parse_number (str_nat n @ rest) = Inr (JInt (int n), rest)"
    "parse_number (CHR ''-'' # str_nat n @ rest) = Inr (JInt (- int n), rest)"
proof -
  obtain c cs where s: "str_nat n = c # cs" by (cases "str_nat n") simp_all
  have dig: "is_digit_char c" using isdigit_str_nat [of n] s by (simp add: isdigit_def)
  have z: "c = CHR ''0'' \<Longrightarrow> n = 0 \<and> cs = []" using str_nat_zero [of n] s by (auto simp: str_nat.simps)
  have fr: "(case rest of c # d # _ \<Rightarrow> c = CHR ''.'' \<and> is_digit_char d | _ \<Rightarrow> False) = False"
    "(case rest of c # d # r \<Rightarrow> c \<in> set ''eE'' \<and> (is_digit_char d \<or> (d \<in> set ''+-'' \<and> r \<noteq> [] \<and> is_digit_char (hd r))) | _ \<Rightarrow> False) = False"
    using assms by (auto simp: follows_def split: list.splits)
  have nm: "c \<noteq> CHR ''-''" using dig by (auto simp: is_digit_char_def)
  have v: "nat_of_digits (c # cs) = n" using nat_of_digits_str_nat [of n] s by simp
  note p = parse_str_nat [OF assms, of n, unfolded s]
  show "parse_number (str_nat n @ rest) = Inr (JInt (int n), rest)"
    using fr z nm v p unfolding s by (auto simp: parse_number_def parse_digits_def startswith_def Let_def)
  show "parse_number (CHR ''-'' # str_nat n @ rest) = Inr (JInt (- int n), rest)"
    using fr z nm v p unfolding s by (auto simp: parse_number_def parse_digits_def startswith_def Let_def)
qed

section \<open>Values\<close>

text \<open>No object has a key twice.\<close>

fun unique_keys :: "json \<Rightarrow> bool" where
  "unique_keys (JArr xs) = list_all unique_keys xs"
| "unique_keys (JObj kvs) \<longleftrightarrow> distinct (map fst kvs) \<and> list_all (\<lambda>(k, v). unique_keys v) kvs"
| "unique_keys _ = True"

definition starts_value :: "char \<Rightarrow> bool" where
  "starts_value c \<longleftrightarrow> c \<in> set ''nft-[{'' \<or> c = CHR 0x22 \<or> is_digit_char c"

lemma dumps_start: "\<exists>c cs. dumps v = c # cs \<and> starts_value c"
proof (cases v)
  case (JInt i)
  obtain c cs where s: "str_nat (nat i) = c # cs" by (cases "str_nat (nat i)") simp_all
  then have "is_digit_char c" using isdigit_str_nat [of "nat i"] by (simp add: isdigit_def)
  then show ?thesis using JInt s by (auto simp: str_int_def starts_value_def)
qed (auto simp: starts_value_def dump_str_def)

lemma starts_value_facts:
  assumes "starts_value c"
  shows "c \<notin> {CHR '' '', CHR 0x09, CHR 0x0A, CHR 0x0D}" "c \<noteq> CHR '']''" "c \<noteq> CHR ''}''"
  using assms by (auto simp: starts_value_def is_digit_char_def)

lemma ws_dumps: "json_ws (dumps v @ rest) = dumps v @ rest" "json_ws (CHR '' '' # dumps v @ rest) = dumps v @ rest"
proof -
  obtain c cs where "dumps v = c # cs" "starts_value c" using dumps_start by blast
  then show "json_ws (dumps v @ rest) = dumps v @ rest" "json_ws (CHR '' '' # dumps v @ rest) = dumps v @ rest"
    using starts_value_facts [of c] by (auto simp: json_ws_def)
qed

lemma ws_mark: "c \<in> {CHR '','', CHR '']'', CHR ''}'', CHR '':'', CHR 0x22} \<Longrightarrow> json_ws (c # cs) = c # cs"
  by (auto simp: json_ws_def)

lemma parse_int:
  assumes "follows rest"
  shows "parse_value (Suc k) (str_int i @ rest) = Inr (JInt i, rest)"
proof -
  obtain c cs where s: "str_int i @ rest = c # cs" "c = CHR ''-'' \<or> is_digit_char c"
  proof -
    obtain c cs where n: "str_nat (nat i) = c # cs" by (cases "str_nat (nat i)") simp_all
    then have "is_digit_char c" using isdigit_str_nat [of "nat i"] by (simp add: isdigit_def)
    with n that show thesis by (cases "i < 0") (simp_all add: str_int_def)
  qed
  then have c: "c \<notin> {CHR 0x22, CHR ''{'', CHR ''['', CHR ''n'', CHR ''t'', CHR ''f'', CHR ''N'', CHR ''I''}"
    by (auto simp: is_digit_char_def)
  have "parse_value (Suc k) (str_int i @ rest) = parse_number (str_int i @ rest)"
    unfolding s(1) using c by (simp add: startswith_def)
  then show ?thesis using parse_number_nat [OF assms, of "nat i"] parse_number_nat [OF assms, of "nat (- i)"]
    by (simp add: str_int_def)
qed

lemma join_map_Cons:
  "join sep (map f (x # y # ys)) = f x @ sep @ join sep (map f (y # ys))" "join sep (map f [x]) = f x"
  by simp_all

abbreviation dump_member :: "string \<times> json \<Rightarrow> string" where
  "dump_member \<equiv> \<lambda>(k, v). dump_str k @ '': '' @ dumps v"

text \<open>The elements of an array and the members of an object, given what holds of each value.\<close>

definition reads_back :: "json \<Rightarrow> bool" where
  "reads_back v \<longleftrightarrow> (\<forall>k rest. length (dumps v) \<le> k \<longrightarrow> follows rest \<longrightarrow> parse_value k (dumps v @ rest) = Inr (v, rest))"

lemma parse_elements_back:
  assumes "\<And>x. x \<in> set xs \<Longrightarrow> reads_back x" "xs \<noteq> []" "length (join '', '' (map dumps xs)) + 1 \<le> k"
  shows "parse_elements k (join '', '' (map dumps xs) @ CHR '']'' # rest) = Inr (xs, rest)"
  using assms
proof (induction xs arbitrary: k)
  case (Cons x xs)
  obtain j where k: "k = Suc j" using Cons.prems(3) by (cases k) auto
  have x: "parse_value j (dumps x @ r) = Inr (x, r)" if "follows r" "length (dumps x) \<le> j" for r
    using Cons.prems(1) that by (simp add: reads_back_def)
  show ?case
  proof (cases xs)
    case Nil
    with Cons.prems(3) k x [of "CHR '']'' # rest"] show ?thesis by (simp add: follows_def ws_mark startswith_def)
  next
    case (Cons y ys)
    let ?r = "'', '' @ join '', '' (map dumps xs) @ CHR '']'' # rest"
    have l: "length (dumps x) \<le> j" "length (join '', '' (map dumps xs)) + 1 \<le> j" using Cons.prems(3) k Cons by auto
    have ws: "json_ws (CHR '' '' # join '', '' (map dumps xs) @ CHR '']'' # rest) = join '', '' (map dumps xs) @ CHR '']'' # rest"
      using ws_dumps(2) [of y] Cons by (cases ys) simp_all
    have ih: "parse_elements j (join '', '' (map dumps xs) @ CHR '']'' # rest) = Inr (xs, rest)"
      using Cons.IH [OF _ _ l(2)] Cons.prems(1) Cons by simp
    have s: "join '', '' (map dumps (x # xs)) @ CHR '']'' # rest = dumps x @ ?r" using Cons by simp
    have "parse_value j (dumps x @ ?r) = Inr (x, ?r)" by (rule x) (use l in \<open>simp_all add: follows_def\<close>)
    then show ?thesis unfolding s k using ws ih by (simp add: ws_mark startswith_def)
  qed
qed simp

lemma parse_members_back:
  assumes "\<And>kv. kv \<in> set kvs \<Longrightarrow> reads_back (snd kv)" "kvs \<noteq> []" "length (join '', '' (map dump_member kvs)) + 1 \<le> k"
    "distinct (map fst (d @ kvs))"
  shows "parse_members k d (join '', '' (map dump_member kvs) @ CHR ''}'' # rest) = Inr (d @ kvs, rest)"
  using assms
proof (induction kvs arbitrary: k d)
  case (Cons kv kvs)
  obtain n v where kv: "kv = (n, v)" by fastforce
  obtain j where k: "k = Suc j" using Cons.prems(3) by (cases k) auto
  have fresh: "dset d n v = d @ [(n, v)]" using Cons.prems(4) kv by (intro dset_fresh) (auto simp: map_of_eq_None_iff)
  have v: "parse_value j (dumps v @ r) = Inr (v, r)" if "follows r" "length (dumps v) \<le> j" for r
    using Cons.prems(1) [of kv] that kv by (simp add: reads_back_def)
  have one: "parse_members k d (dump_member kv @ r) =
      (if startswith r '','' then parse_members j (d @ [kv]) (json_ws (tl r))
       else if startswith r ''}'' then Inr (d @ [kv], tl r) else Inl Malformed)"
    if "follows r" "r \<noteq> []" "length (dump_member kv) \<le> j" for r
  proof -
    have "json_ws r = r" using that(1,2) by (cases r) (auto simp: follows_def ws_mark)
    moreover have "length (dumps v) \<le> j" using that(3) kv by simp
    moreover have "json_ws (CHR '' '' # dumps v @ r) = dumps v @ r" by (rule ws_dumps)
    moreover have "parse_chars (concat (map dump_char n) @ CHR 0x22 # '': '' @ dumps v @ r) = Inr (n, '': '' @ dumps v @ r)"
      by (rule parse_dump_chars)
    ultimately show ?thesis using v [OF that(1)] fresh
      unfolding k kv dump_str_def by (simp add: startswith_def ws_mark Let_def del: parse_chars.simps)
  qed
  show ?case
  proof (cases kvs)
    case Nil
    with Cons.prems(3) k one [of "CHR ''}'' # rest"] show ?thesis by (simp add: follows_def startswith_def split: prod.splits)
  next
    case (Cons y ys)
    let ?j = "join '', '' (map dump_member kvs)"
    have l: "length (dump_member kv) \<le> j" "length ?j + 1 \<le> j" using Cons.prems(3) k Cons by auto
    have ws: "json_ws (CHR '' '' # ?j @ CHR ''}'' # rest) = ?j @ CHR ''}'' # rest"
      using Cons by (cases ys; cases y) (simp_all add: dump_str_def json_ws_def)
    have "parse_members j (d @ [kv]) (?j @ CHR ''}'' # rest) = Inr ((d @ [kv]) @ kvs, rest)"
      using Cons.IH [of j "d @ [kv]"] Cons.prems(1,4) l(2) Cons by simp
    moreover have "join '', '' (map dump_member (kv # kvs)) @ CHR ''}'' # rest = dump_member kv @ '', '' @ ?j @ CHR ''}'' # rest"
      using Cons by simp
    ultimately show ?thesis using one [of "'', '' @ ?j @ CHR ''}'' # rest"] l(1) ws
      by (simp add: follows_def startswith_def del: parse_members.simps)
  qed
qed simp

lemma reads_back_atom:
  "reads_back JNull" "reads_back (JBool b)" "reads_back (JInt i)" "reads_back (JStr s)"
proof -
  have "parse_value (Suc k) (dump_str s @ rest) = Inr (JStr s, rest)" for k rest
    using parse_dump_chars [of s rest] by (simp add: dump_str_def del: parse_chars.simps)
  then show "reads_back (JStr s)" by (auto simp: reads_back_def dump_str_def gr0_conv_Suc dest!: Suc_le_D)
  show "reads_back (JInt i)" unfolding reads_back_def
  proof (intro allI impI)
    fix k rest
    assume "length (dumps (JInt i)) \<le> k" "follows rest"
    moreover have "length (dumps (JInt i)) \<noteq> 0" using dumps_start [of "JInt i"] by auto
    ultimately obtain j where "k = Suc j" by (cases k) auto
    then show "parse_value k (dumps (JInt i) @ rest) = Inr (JInt i, rest)" using parse_int [OF \<open>follows rest\<close>] by simp
  qed
qed (auto simp: reads_back_def startswith_def dest!: Suc_le_D)

lemma reads_back_all: "unique_keys v \<Longrightarrow> reads_back v"
proof (induction v rule: dumps.induct)
  case (5 xs)
  then have x: "\<And>x. x \<in> set xs \<Longrightarrow> reads_back x" by (simp add: list_all_iff)
  show ?case unfolding reads_back_def
  proof (intro allI impI)
    fix k rest
    assume l: "length (dumps (JArr xs)) \<le> k"
    then obtain j where k: "k = Suc j" by (cases k) auto
    show "parse_value k (dumps (JArr xs) @ rest) = Inr (JArr xs, rest)"
    proof (cases xs)
      case Nil
      then show ?thesis by (simp add: k json_ws_def startswith_def)
    next
      case (Cons y ys)
      let ?e = "join '', '' (map dumps xs) @ CHR '']'' # rest"
      obtain c cs where c: "dumps y = c # cs" "starts_value c" using dumps_start by blast
      have ws: "json_ws ?e = ?e" using ws_dumps(1) [of y] Cons by (cases ys) simp_all
      have hd: "\<not> startswith ?e '']''" using c starts_value_facts [OF c(2)] Cons by (cases ys) (simp_all add: startswith_def)
      have "parse_elements j ?e = Inr (xs, rest)" by (rule parse_elements_back) (use x l k Cons in simp_all)
      with ws hd show ?thesis unfolding k by (simp add: Let_def)
    qed
  qed
next
  case (6 kvs)
  then have x: "\<And>kv. kv \<in> set kvs \<Longrightarrow> reads_back (snd kv)" and d: "distinct (map fst ([] @ kvs))" by (auto simp: list_all_iff)
  show ?case unfolding reads_back_def
  proof (intro allI impI)
    fix k rest
    assume l: "length (dumps (JObj kvs)) \<le> k"
    then obtain j where k: "k = Suc j" by (cases k) auto
    show "parse_value k (dumps (JObj kvs) @ rest) = Inr (JObj kvs, rest)"
    proof (cases kvs)
      case Nil
      then show ?thesis by (simp add: k json_ws_def startswith_def)
    next
      case (Cons y ys)
      let ?e = "join '', '' (map dump_member kvs) @ CHR ''}'' # rest"
      have ws: "json_ws ?e = ?e" "\<not> startswith ?e ''}''"
        using Cons by (cases ys; cases y; simp add: dump_str_def json_ws_def startswith_def)+
      have "parse_members j [] ?e = Inr ([] @ kvs, rest)" by (rule parse_members_back [OF x]) (use d l k Cons in simp_all)
      with ws show ?thesis unfolding k by (simp add: Let_def del: parse_members.simps)
    qed
  qed
qed (rule reads_back_atom)+

text \<open>\<open>json.loads(json.dumps(v)) == v\<close>.\<close>

lemma loads_dumps: "unique_keys v \<Longrightarrow> loads msg (dumps v) = Inr v"
proof -
  assume "unique_keys v"
  then have "\<And>k. length (dumps v) \<le> k \<Longrightarrow> parse_value k (dumps v @ []) = Inr (v, [])"
    using reads_back_all [of v] unfolding reads_back_def follows_def by blast
  from this [of "2 * length (dumps v) + 1"] have "parse_value (2 * length (dumps v) + 1) (dumps v @ []) = Inr (v, [])" by simp
  moreover have "json_ws (dumps v) = dumps v" using ws_dumps(1) [of v "[]"] by simp
  moreover have "json_ws [] = []" by (simp add: json_ws_def)
  ultimately show ?thesis by (simp add: loads_def del: parse_value.simps)
qed

end
