(* ===== verification/Anthropic_Backend.thy ===== *)
theory Anthropic_Backend
  imports Inference
begin

text \<open>
  \<open>core/inference/sdk/anthropic.py\<close>: the backend for the service of Anthropic, where an answer is a list of
  content blocks and the results of tools are blocks of one user message. The service \<open>api\<close> answers a request and
  changes its own state; a stream is the list of the events it sends.
\<close>

section \<open>What the service sends\<close>

datatype answer_block =
    AnswerText string
  | AnswerThinking string
  | AnswerTool string string json
  | AnswerOther

record anthropic_usage =
  au_input :: "int option"
  au_output :: "int option"
  au_cache_read :: "int option"
  au_cache_creation :: "int option"

record anthropic_response =
  an_content :: "answer_block list"
  an_usage :: anthropic_usage
  an_model :: string
  an_id :: string
  an_stop :: "string option"

record anthropic_request =
  aq_model :: string
  aq_messages :: "message list"
  aq_max_tokens :: int
  aq_system :: "json option"
  aq_temperature :: "rat option"
  aq_top_p :: "rat option"
  aq_tools :: "json list option"

type_synonym 'w anthropic_api = "'w \<Rightarrow> anthropic_request \<Rightarrow> anthropic_response api_reply \<times> 'w"

record 'w anthropic =
  at_model :: string
  at_retries :: nat
  at_default_max :: int
  at_system :: string
  at_messages :: "message list"
  at_service :: 'w

section \<open>Conversions\<close>

definition schemas_to_anthropic :: "tool_schema list \<Rightarrow> json list" where
  "schemas_to_anthropic ts = map (\<lambda>t. JObj [(''name'', JStr (ts_name t)), (''description'', JStr (ts_description t)),
     (''input_schema'', ts_parameters t)]) ts"

definition map_stop_reason :: "string option \<Rightarrow> string" where
  "map_stop_reason reason =
     (if reason = Some ''end_turn'' then ''stop''
      else if reason = Some ''tool_use'' then ''tool_calls''
      else if reason = Some ''max_tokens'' then ''length''
      else (case reason of Some r \<Rightarrow> if r = [] then ''stop'' else r | None \<Rightarrow> ''stop''))"

section \<open>Cache breakpoints\<close>

definition ephemeral :: json where
  "ephemeral = JObj [(''type'', JStr ''ephemeral'')]"

text \<open>\<open>{**b, "cache_control": ...}\<close>; only a mapping can be unpacked.\<close>

definition annotate :: "json \<Rightarrow> json result" where
  "annotate b = (case b of JObj d \<Rightarrow> Inr (JObj (dset d ''cache_control'' ephemeral))
     | _ \<Rightarrow> Inl (TypeError ''object is not a mapping''))"

definition annotate_last :: "json list \<Rightarrow> json list result" where
  "annotate_last bs = rbind (annotate (last bs)) (\<lambda>b. Inr (butlast bs @ [b]))"

definition cached_text :: "string \<Rightarrow> json" where
  "cached_text s = JArr [JObj [(''type'', JStr ''text''), (''text'', JStr s), (''cache_control'', ephemeral)]]"

definition annotate_content :: "json \<Rightarrow> json result" where
  "annotate_content content =
     (case content of
        JStr s \<Rightarrow> Inr (cached_text s)
      | JArr bs \<Rightarrow> if bs = [] then Inr content else rbind (annotate_last bs) (\<lambda>bs'. Inr (JArr bs'))
      | _ \<Rightarrow> Inr content)"

definition annotate_message :: "message \<Rightarrow> message result" where
  "annotate_message m =
     (case dget m ''content'' of
        None \<Rightarrow> Inl (KeyError ''content'')
      | Some content \<Rightarrow> rbind (annotate_content content) (\<lambda>c. Inr (dset m ''content'' c)))"

definition cache_system :: "anthropic_request \<Rightarrow> anthropic_request result" where
  "cache_system rq =
     (case aq_system rq of
        None \<Rightarrow> Inr rq
      | Some sys \<Rightarrow> rbind (annotate_content sys) (\<lambda>s. Inr (rq\<lparr>aq_system := Some s\<rparr>)))"

definition cache_tools :: "anthropic_request \<Rightarrow> anthropic_request result" where
  "cache_tools rq =
     (case aq_tools rq of
        Some (t # ts) \<Rightarrow> rbind (annotate_last (t # ts)) (\<lambda>ts'. Inr (rq\<lparr>aq_tools := Some ts'\<rparr>))
      | _ \<Rightarrow> Inr rq)"

definition cache_messages :: "anthropic_request \<Rightarrow> anthropic_request result" where
  "cache_messages rq =
     (if aq_messages rq = [] then Inr rq
      else rbind (annotate_message (last (aq_messages rq))) (\<lambda>m. Inr (rq\<lparr>aq_messages := butlast (aq_messages rq) @ [m]\<rparr>)))"

definition apply_cache_breakpoints :: "cache_config \<Rightarrow> anthropic_request \<Rightarrow> anthropic_request result" where
  "apply_cache_breakpoints c rq =
     rbind (if cc_system c then cache_system rq else Inr rq) (\<lambda>rq.
     rbind (if cc_tools c then cache_tools rq else Inr rq) (\<lambda>rq.
     if cc_messages c then cache_messages rq else Inr rq))"

section \<open>The conversation\<close>

definition anthropic_add_user_message :: "string \<Rightarrow> 'w anthropic \<Rightarrow> 'w anthropic" where
  "anthropic_add_user_message content s = s\<lparr>at_messages := at_messages s @ [user_message content]\<rparr>"

definition result_block :: "tool_result \<Rightarrow> json" where
  "result_block r = JObj [(''type'', JStr ''tool_result''), (''tool_use_id'', JStr (tr_call_id r)),
     (''content'', JStr (tr_content r)), (''is_error'', JBool (tr_is_error r))]"

definition anthropic_add_tool_results :: "tool_result list \<Rightarrow> 'w anthropic \<Rightarrow> 'w anthropic" where
  "anthropic_add_tool_results rs s = s\<lparr>at_messages := at_messages s @
     [[(''role'', JStr ''user''), (''content'', JArr (map result_block rs))]]\<rparr>"

definition anthropic_replace_messages :: "message list \<Rightarrow> ('w anthropic, unit) eff" where
  "anthropic_replace_messages ms = modifyE (\<lambda>s. s\<lparr>at_messages := filter not_system ms\<rparr>)"

definition has_type :: "string \<Rightarrow> json \<Rightarrow> bool" where
  "has_type t b = (case b of JObj d \<Rightarrow> dget d ''type'' = Some (JStr t) | _ \<Rightarrow> False)"

text \<open>The messages \<open>cleanup_interrupted\<close> takes off the end.\<close>

definition anthropic_unfinished :: "message \<Rightarrow> bool" where
  "anthropic_unfinished m =
     (let role = dget_or m ''role'' (JStr ''''); content = dget_or m ''content'' (JStr '''')
      in (role = JStr ''user'' \<and> (case content of JArr bs \<Rightarrow> list_all (has_type ''tool_result'') bs | _ \<Rightarrow> False)) \<or>
         (role = JStr ''assistant'' \<and>
          ((case content of JArr bs \<Rightarrow> list_ex (has_type ''tool_use'') bs | _ \<Rightarrow> False) \<or>
           \<not> truthy content \<or> (case content of JStr s \<Rightarrow> strip s = [] | _ \<Rightarrow> False))))"

definition anthropic_cleanup_interrupted :: "'w anthropic \<Rightarrow> 'w anthropic" where
  "anthropic_cleanup_interrupted s = s\<lparr>at_messages := rev (dropWhile anthropic_unfinished (rev (at_messages s)))\<rparr>"

section \<open>A completion\<close>

text \<open>Arguments that do not parse are sent back as no arguments.\<close>

definition tool_input :: "(string \<Rightarrow> string) \<Rightarrow> string \<Rightarrow> json result" where
  "tool_input msg arguments =
     (if arguments = [] then Inr (JObj [])
      else case loads msg arguments of Inl (JSONDecodeError _) \<Rightarrow> Inr (JObj []) | r \<Rightarrow> r)"

definition tool_use_json :: "(string \<Rightarrow> string) \<Rightarrow> tool_call \<Rightarrow> json result" where
  "tool_use_json msg tc = rbind (tool_input msg (tc_arguments tc)) (\<lambda>i.
     Inr (JObj [(''type'', JStr ''tool_use''), (''id'', JStr (tc_id tc)), (''name'', JStr (tc_name tc)), (''input'', i)]))"

definition anthropic_message :: "(string \<Rightarrow> string) \<Rightarrow> string \<Rightarrow> string \<Rightarrow> tool_call list \<Rightarrow> message result" where
  "anthropic_message msg text thinking calls =
     rbind (mapM (tool_use_json msg) calls) (\<lambda>uses.
       let content = (if thinking = [] then [] else [JObj [(''type'', JStr ''thinking''), (''thinking'', JStr thinking)]]) @
             (if text = [] then [] else [JObj [(''type'', JStr ''text''), (''text'', JStr text)]]) @ uses
       in Inr [(''role'', JStr ''assistant''), (''content'', if content = [] then JStr text else JArr content)])"

definition append_assistant :: "(string \<Rightarrow> string) \<Rightarrow> string \<Rightarrow> string \<Rightarrow> tool_call list \<Rightarrow> ('w anthropic, unit) eff" where
  "append_assistant msg text thinking calls =
     bindE (liftE (anthropic_message msg text thinking calls)) (\<lambda>m. modifyE (\<lambda>s. s\<lparr>at_messages := at_messages s @ [m]\<rparr>))"

definition build_kwargs :: "inference_config \<Rightarrow> tool_schema list \<Rightarrow> 'w anthropic \<Rightarrow> anthropic_request result" where
  "build_kwargs config tools s =
     (let rq = \<lparr>aq_model = at_model s, aq_messages = at_messages s,
            aq_max_tokens = (case ic_max_tokens config of Some n \<Rightarrow> if n = 0 then at_default_max s else n | None \<Rightarrow> at_default_max s),
            aq_system = (if at_system s = [] then None else Some (JStr (at_system s))),
            aq_temperature = ic_temperature config, aq_top_p = ic_top_p config,
            aq_tools = (if tools = [] then None else Some (schemas_to_anthropic tools))\<rparr>
      in case ic_cache config of None \<Rightarrow> Inr rq | Some c \<Rightarrow> apply_cache_breakpoints c rq)"

definition or_zero :: "int option \<Rightarrow> int" where
  "or_zero n = (case n of Some v \<Rightarrow> v | None \<Rightarrow> 0)"

definition parse_usage :: "anthropic_usage \<Rightarrow> token_usage" where
  "parse_usage u =
     (let total_input = or_zero (au_input u) + or_zero (au_cache_read u) + or_zero (au_cache_creation u);
          out = or_zero (au_output u)
      in \<lparr>tu_input = total_input, tu_output = out, tu_cached = or_zero (au_cache_read u),
          tu_creation = or_zero (au_cache_creation u), tu_total = total_input + out\<rparr>)"

definition anthropic_raise :: "'r api_reply \<Rightarrow> 'r result" where
  "anthropic_raise r =
     (case r of
        Response x \<Rightarrow> Inr x
      | Transient e \<Rightarrow> Inl (APIError e)
      | ApiFailed e \<Rightarrow> Inl (APIError e)
      | BadRequest e \<Rightarrow> Inl (if is_prompt_too_long_message e then PromptTooLongError e else APIError e))"

definition create_message :: "'w anthropic_api \<Rightarrow> anthropic_request \<Rightarrow> ('w anthropic, anthropic_response) eff" where
  "create_message api rq = (\<lambda>s.
     case retry_on_exception (at_retries s) (\<lambda>w. api w rq) (at_service s) of
       (r, w) \<Rightarrow> (anthropic_raise r, s\<lparr>at_service := w\<rparr>))"

definition block_call :: "answer_block \<Rightarrow> tool_call list" where
  "block_call b = (case b of
     AnswerTool i n v \<Rightarrow> [\<lparr>tc_id = i, tc_name = n, tc_arguments = dumps v, tc_thought = [], tc_truncated = False\<rparr>] | _ \<Rightarrow> [])"

definition block_string :: "answer_block \<Rightarrow> string" where
  "block_string b = (case b of AnswerText t \<Rightarrow> t | _ \<Rightarrow> [])"

definition block_thinking :: "answer_block \<Rightarrow> string" where
  "block_thinking b = (case b of AnswerThinking t \<Rightarrow> t | _ \<Rightarrow> [])"

definition anthropic_turn :: "anthropic_response \<Rightarrow> turn_result" where
  "anthropic_turn r =
     \<lparr>tn_text = concat (map block_string (an_content r)), tn_thinking = concat (map block_thinking (an_content r)),
      tn_calls = concat (map block_call (an_content r)), tn_usage = parse_usage (an_usage r), tn_model = an_model r,
      tn_call_id = an_id r, tn_finish = map_stop_reason (an_stop r)\<rparr>"

definition anthropic_complete ::
  "'w anthropic_api \<Rightarrow> (string \<Rightarrow> string) \<Rightarrow> tool_schema list \<Rightarrow> inference_config \<Rightarrow> ('w anthropic, turn_result) eff" where
  "anthropic_complete api msg tools config =
     bindE (bindE (getsE (build_kwargs config tools)) liftE) (\<lambda>rq.
     bindE (create_message api rq) (\<lambda>response.
       let t = anthropic_turn response
       in seqE (append_assistant msg (tn_text t) (tn_thinking t) (tn_calls t)) (ret t)))"

definition anthropic_backend :: "'w anthropic_api \<Rightarrow> (string \<Rightarrow> string) \<Rightarrow> 'w anthropic backend" where
  "anthropic_backend api msg =
     \<lparr>complete = anthropic_complete api msg, add_user_message = anthropic_add_user_message,
      add_tool_results = anthropic_add_tool_results, set_system_prompt = (\<lambda>p s. s\<lparr>at_system := p\<rparr>),
      get_system_prompt = at_system, reset_history = (\<lambda>s. s\<lparr>at_messages := []\<rparr>),
      get_messages = (\<lambda>s. with_system (at_system s) (at_messages s)),
      replace_history = (\<lambda>t s. s\<lparr>at_messages := [user_message (summary_text t)]\<rparr>),
      replace_messages = anthropic_replace_messages, cleanup_interrupted = anthropic_cleanup_interrupted,
      model_name = at_model\<rparr>"

section \<open>A streamed answer\<close>

text \<open>The events of the stream that are looked at; a delta belongs to the block that was opened last.\<close>

datatype stream_event =
    BlockStart nat answer_block
  | TextDelta string
  | ThinkingDelta string
  | InputDelta string
  | BlockStop
  | MessageDelta "string option option" "anthropic_usage option"
  | OtherEvent

record stream_state =
  sm_text :: string
  sm_thinking :: string
  sm_calls :: "(nat, tool_call) dict"
  sm_index :: "nat option"
  sm_usage :: token_usage
  sm_finish :: string

definition stream_start :: stream_state where
  "stream_start = \<lparr>sm_text = [], sm_thinking = [], sm_calls = [], sm_index = None, sm_usage = no_usage, sm_finish = ''stop''\<rparr>"

text \<open>A step of the loop over the events.\<close>

definition stream_step :: "stream_event \<Rightarrow> stream_state \<Rightarrow> stream_state" where
  "stream_step ev s =
     (case ev of
        BlockStart idx (AnswerTool i n _) \<Rightarrow>
          s\<lparr>sm_calls := dset (sm_calls s) idx \<lparr>tc_id = i, tc_name = n, tc_arguments = [], tc_thought = [], tc_truncated = False\<rparr>,
            sm_index := Some idx\<rparr>
      | BlockStart idx _ \<Rightarrow> s
      | TextDelta t \<Rightarrow> s\<lparr>sm_text := sm_text s @ t\<rparr>
      | ThinkingDelta t \<Rightarrow> s\<lparr>sm_thinking := sm_thinking s @ t\<rparr>
      | InputDelta j \<Rightarrow>
          (case sm_index s of
             None \<Rightarrow> s
           | Some idx \<Rightarrow>
               (case dget (sm_calls s) idx of
                  None \<Rightarrow> s
                | Some tc \<Rightarrow> s\<lparr>sm_calls := dset (sm_calls s) idx \<lparr>tc_id = tc_id tc, tc_name = tc_name tc,
                    tc_arguments = tc_arguments tc @ j, tc_thought = [], tc_truncated = False\<rparr>\<rparr>))
      | BlockStop \<Rightarrow> s\<lparr>sm_index := None\<rparr>
      | MessageDelta reason u \<Rightarrow>
          s\<lparr>sm_finish := (case reason of Some r \<Rightarrow> map_stop_reason r | None \<Rightarrow> sm_finish s),
            sm_usage := (case u of Some v \<Rightarrow> parse_usage v | None \<Rightarrow> sm_usage s)\<rparr>
      | OtherEvent \<Rightarrow> s)"

definition mark_truncated :: "(string \<Rightarrow> string) \<Rightarrow> tool_call \<Rightarrow> tool_call result" where
  "mark_truncated msg tc =
     (if tc_arguments tc = [] then Inr tc
      else (case loads msg (tc_arguments tc) of
              Inr _ \<Rightarrow> Inr tc
            | Inl (JSONDecodeError _) \<Rightarrow> Inr (tc\<lparr>tc_truncated := True\<rparr>)
            | Inl e \<Rightarrow> Inl e))"

text \<open>
  What the agent sees of a stream that was read to its end: the last event it is handed. \<open>final\<close> is the usage of
  the final message.
\<close>

record stream_result =
  sr_text :: string
  sr_thinking :: string
  sr_calls :: "tool_call list"
  sr_usage :: token_usage
  sr_finish :: string

definition stream_end :: "(string \<Rightarrow> string) \<Rightarrow> anthropic_usage option \<Rightarrow> stream_state \<Rightarrow> stream_result result" where
  "stream_end msg final s =
     rbind (mapM (mark_truncated msg) (map (\<lambda>idx. the (dget (sm_calls s) idx)) (sort (dkeys (sm_calls s))))) (\<lambda>calls.
     Inr \<lparr>sr_text = sm_text s, sr_thinking = sm_thinking s, sr_calls = calls,
          sr_usage = (case final of Some u \<Rightarrow> parse_usage u | None \<Rightarrow> sm_usage s), sr_finish = sm_finish s\<rparr>)"

definition anthropic_stream ::
  "(string \<Rightarrow> string) \<Rightarrow> stream_event list \<Rightarrow> anthropic_usage option \<Rightarrow> ('w anthropic, stream_result) eff" where
  "anthropic_stream msg events final =
     bindE (liftE (stream_end msg final (foldl (\<lambda>s ev. stream_step ev s) stream_start events))) (\<lambda>r.
     seqE (append_assistant msg (sr_text r) (sr_thinking r) (sr_calls r)) (ret r))"

text \<open>The whole of \<open>stream\<close> for a stream that does not break off: connecting is what is tried again.\<close>

definition open_stream ::
  "('w \<Rightarrow> anthropic_request \<Rightarrow> (stream_event list \<times> anthropic_usage option) api_reply \<times> 'w) \<Rightarrow> (string \<Rightarrow> string) \<Rightarrow>
    tool_schema list \<Rightarrow> inference_config \<Rightarrow> ('w anthropic, stream_result) eff" where
  "open_stream api msg tools config =
     bindE (bindE (getsE (build_kwargs config tools)) liftE) (\<lambda>rq.
     bindE (\<lambda>s. case retry_on_exception (at_retries s) (\<lambda>w. api w rq) (at_service s) of
         (r, w) \<Rightarrow> (anthropic_raise r, s\<lparr>at_service := w\<rparr>)) (\<lambda>(events, final).
     anthropic_stream msg events final))"

end
