(* ===== verification/Anthropic_Correct.thy ===== *)
theory Anthropic_Correct
  imports Anthropic_Backend Backend_Interface Json_Roundtrip Agent_Loop_Correct
begin

text \<open>
  The backend for Anthropic keeps the contract of \<open>Backend_Interface\<close>: the message after an assistant message
  with tool calls answers all of them, in order. A streamed answer leaves the same conversation as the same
  answer in one piece, and the agent loop keeps the conversation acceptable over this backend as over the one for OpenAI.
\<close>

section \<open>Conversations the service accepts\<close>

fun id_of_use :: "json \<Rightarrow> string option" where
  "id_of_use (JObj d) = (case dget d ''id'' of Some (JStr s) \<Rightarrow> Some s | _ \<Rightarrow> None)"
| "id_of_use v = None"

fun answered_id :: "json \<Rightarrow> string option" where
  "answered_id (JObj d) =
     (if dget d ''type'' = Some (JStr ''tool_result'') then (case dget d ''tool_use_id'' of Some (JStr s) \<Rightarrow> Some s | _ \<Rightarrow> None) else None)"
| "answered_id v = None"

definition anthropic_step :: "message \<Rightarrow> string list \<Rightarrow> string list option" where
  "anthropic_step m waiting =
     (let role = dget m ''role''; content = dget m ''content''
      in if role = Some (JStr ''user'') then
           (case content of
              Some (JStr _) \<Rightarrow> if waiting = [] then Some [] else None
            | Some (JArr bs) \<Rightarrow> if those (map answered_id bs) = Some waiting then Some [] else None
            | _ \<Rightarrow> None)
         else if role = Some (JStr ''assistant'') \<and> waiting = [] \<and> dget m ''parts'' = None \<and> dget m ''tool_calls'' = None then
           (case content of
              Some (JStr _) \<Rightarrow> Some []
            | Some (JArr bs) \<Rightarrow> those (map id_of_use (filter (has_type ''tool_use'') bs))
            | _ \<Rightarrow> None)
         else None)"

definition anthropic_open :: "message list \<Rightarrow> string list option" where
  "anthropic_open ms = foldl (\<lambda>w m. Option.bind w (anthropic_step m)) (Some []) ms"

lemma those_no_ids [simp]: "those xs = Some [] \<longleftrightarrow> xs = []"
  by (cases xs) (auto split: option.splits)

lemma anthropic_open_snoc: "anthropic_open (ms @ [m]) = Option.bind (anthropic_open ms) (anthropic_step m)"
  by (simp add: anthropic_open_def)

lemma anthropic_step_user [simp]: "anthropic_step (user_message c) [] = Some []"
  by (simp add: anthropic_step_def user_message_def)

lemma answered_ids: "those (map (answered_id \<circ> result_block) rs) = Some (map tr_call_id rs)"
  by (induction rs) (auto simp: result_block_def)

lemma anthropic_step_results:
  "anthropic_step [(''role'', JStr ''user''), (''content'', JArr (map result_block rs))] (map tr_call_id rs) = Some []"
  using answered_ids [of rs] by (simp add: anthropic_step_def)

lemma tool_use_json_shape:
  "tool_use_json msg tc = Inr u \<Longrightarrow> has_type ''tool_use'' u \<and> id_of_use u = Some (tc_id tc)"
  by (auto simp: tool_use_json_def has_type_def)

lemma uses_ids:
  "mapM (tool_use_json msg) calls = Inr uses \<Longrightarrow>
     filter (has_type ''tool_use'') uses = uses \<and> those (map id_of_use uses) = Some (map tc_id calls)"
proof (induction calls arbitrary: uses)
  case (Cons tc calls)
  then show ?case using tool_use_json_shape [of msg tc] by auto
qed simp

lemma anthropic_step_assistant:
  assumes "anthropic_message msg text thinking calls = Inr m"
  shows "anthropic_step m [] = Some (map tc_id calls)" "not_system m"
proof -
  obtain uses where u: "mapM (tool_use_json msg) calls = Inr uses" using assms by (auto simp: anthropic_message_def)
  note i = uses_ids [OF u]
  have e: "uses = [] \<longleftrightarrow> calls = []" using mapM_nth [OF u] by auto
  show "anthropic_step m [] = Some (map tc_id calls)" "not_system m"
    using assms u i e
    by (auto simp: anthropic_message_def Let_def anthropic_step_def has_type_def not_system_def split: if_splits)
qed

section \<open>The contract\<close>

lemma retried_response:
  "retry_on_exception n fn w = (Response p, w') \<Longrightarrow> \<exists>v v'. fn v = (Response p, v')"
proof (induction n fn w rule: retry_on_exception.induct)
  case (1 n fn w)
  from 1(2) show ?case
    by (subst (asm) retry_on_exception.simps) (auto split: prod.splits api_reply.splits nat.splits intro: 1(1))
qed

lemma anthropic_complete_cases:
  assumes "anthropic_complete api msg ts c s = (r, s')"
  shows "at_system s' = at_system s"
    and "r = Inl e \<Longrightarrow> at_messages s' = at_messages s"
    and "r = Inr t \<Longrightarrow> \<exists>m. at_messages s' = at_messages s @ [m] \<and>
      anthropic_message msg (tn_text t) (tn_thinking t) (tn_calls t) = Inr m \<and>
      (\<exists>w rq p w'. api w rq = (Response p, w') \<and> t = anthropic_turn p)"
proof -
  define Q where "Q t \<longleftrightarrow> (\<exists>w rq p w'. api w rq = (Response p, w') \<and> t = anthropic_turn p)" for t
  have "at_system s' = at_system s \<and> (\<forall>e. r = Inl e \<longrightarrow> at_messages s' = at_messages s) \<and>
    (\<forall>t. r = Inr t \<longrightarrow> (\<exists>m. at_messages s' = at_messages s @ [m] \<and>
      anthropic_message msg (tn_text t) (tn_thinking t) (tn_calls t) = Inr m \<and> Q t))"
  proof (cases "build_kwargs c ts s")
    case (Inl e)
    with assms show ?thesis by (auto simp: anthropic_complete_def eff_simps liftE_def)
  next
    case (Inr rq)
    obtain q s1 where q: "create_message api rq s = (q, s1)" by fastforce
    then have f: "at_messages s1 = at_messages s" "at_system s1 = at_system s"
      by (auto simp: create_message_def split: prod.splits)
    show ?thesis
    proof (cases q)
      case (Inl e)
      with assms Inr q f show ?thesis by (auto simp: anthropic_complete_def eff_simps liftE_def)
    next
      case (Inr p)
      with q obtain w w' where "api w rq = (Response p, w')"
        by (auto simp: create_message_def anthropic_raise_def split: prod.splits api_reply.splits if_splits dest!: retried_response)
      then have "Q (anthropic_turn p)" unfolding Q_def by blast
      then show ?thesis using assms \<open>build_kwargs c ts s = Inr rq\<close> q f Inr
        by (cases "anthropic_message msg (tn_text (anthropic_turn p)) (tn_thinking (anthropic_turn p)) (tn_calls (anthropic_turn p))")
          (auto simp: anthropic_complete_def append_assistant_def eff_simps liftE_def Let_def)
    qed
  qed
  then show "at_system s' = at_system s"
    and "r = Inl e \<Longrightarrow> at_messages s' = at_messages s"
    and "r = Inr t \<Longrightarrow> \<exists>m. at_messages s' = at_messages s @ [m] \<and>
      anthropic_message msg (tn_text t) (tn_thinking t) (tn_calls t) = Inr m \<and>
      (\<exists>w rq p w'. api w rq = (Response p, w') \<and> t = anthropic_turn p)" unfolding Q_def by blast+
qed

lemma blocks_no_calls:
  "over_blocks anthropic_block bs acc = Inr acc' \<Longrightarrow> filter (has_type ''tool_use'') bs = [] \<Longrightarrow> snd (snd acc') = snd (snd acc)"
proof (induction bs arbitrary: acc)
  case (Cons b bs)
  then obtain acc1 where a: "anthropic_block b acc = Inr acc1" "over_blocks anthropic_block bs acc1 = Inr acc'" by auto
  have "snd (snd acc1) = snd (snd acc)"
    using a(1) Cons.prems(2)
    by (auto simp: anthropic_block_def block_type_def has_type_def dget_or_def Let_def
        split: json.splits prod.splits if_splits option.splits)
  with Cons.IH [OF a(2)] Cons.prems(2) show ?case by (simp split: if_splits)
qed simp

lemma settled_anthropic:
  assumes "anthropic_open (ms @ [m]) = Some []" "is_assistant (dget_or m ''role'' JNull)" "extract_assistant msg m = Inr x"
  shows "xa_calls x = []"
proof -
  obtain w where w: "anthropic_step m w = Some []" using assms(1) by (auto simp: anthropic_open_snoc bind_eq_Some_conv)
  have r: "dget m ''role'' = Some (JStr ''assistant'')" "dget m ''parts'' = None" "dget m ''tool_calls'' = None"
    using w assms(2) by (auto simp: anthropic_step_def is_assistant_def dget_or_def Let_def split: if_splits option.splits)
  consider s where "dget m ''content'' = Some (JStr s)"
    | bs where "dget m ''content'' = Some (JArr bs)" "filter (has_type ''tool_use'') bs = []"
    using w r by (auto simp: anthropic_step_def Let_def split: if_splits option.splits json.splits)
  then show ?thesis
  proof cases
    case 1
    with r assms(3) show ?thesis
      by (auto simp: extract_assistant_def dget_or_def Let_def extract_openai_tool_calls_def)
  next
    case 2
    with r assms(3) have "joined_extract (over_blocks anthropic_block bs empty_extract) = Inr x"
      by (simp add: extract_assistant_def dget_or_def extract_anthropic_assistant_def)
    then obtain acc' where "over_blocks anthropic_block bs empty_extract = Inr acc'" "xa_calls x = snd (snd acc')"
      by (auto simp: joined_extract_def split: prod.splits)
    with blocks_no_calls [OF _ 2(2), of empty_extract acc'] show ?thesis by (simp add: empty_extract_def)
  qed
qed

interpretation anthropic: chat_backend "anthropic_backend api msg" at_messages anthropic_open msg for api msg
proof
  show "\<exists>j. replace_messages (anthropic_backend api msg) ms i = (Inr (), j) \<and> at_messages j = filter not_system ms \<and>
      get_system_prompt (anthropic_backend api msg) j = get_system_prompt (anthropic_backend api msg) i" for ms i
    by (auto simp: anthropic_backend_def anthropic_replace_messages_def eff_simps)
  show "\<exists>m. at_messages j = at_messages i @ [m] \<and> not_system m"
    if "complete (anthropic_backend api msg) ts c i = (Inr r, j)" for ts c i r j
    using anthropic_complete_cases(3) [of api msg ts c i _ j r] that anthropic_step_assistant(2)
    by (fastforce simp: anthropic_backend_def)
  show "anthropic_open (at_messages j) = Some (map tc_id (tn_calls r))"
    if "complete (anthropic_backend api msg) ts c i = (Inr r, j)" "anthropic_open (at_messages i) = Some []" for ts c i r j
    using anthropic_complete_cases(3) [of api msg ts c i _ j r] that anthropic_step_assistant(1)
    by (fastforce simp: anthropic_backend_def anthropic_open_snoc)
  show "at_messages j = at_messages i" if "complete (anthropic_backend api msg) ts c i = (Inl e, j)" for ts c i e j
    using anthropic_complete_cases(2) [of api msg ts c i _ j e] that by (simp add: anthropic_backend_def)
  show "get_system_prompt (anthropic_backend api msg) j = get_system_prompt (anthropic_backend api msg) i"
    if "complete (anthropic_backend api msg) ts c i = (q, j)" for ts c i q j
    using anthropic_complete_cases(1) [of api msg ts c i q j] that by (simp add: anthropic_backend_def)
  show "anthropic_open (at_messages (add_tool_results (anthropic_backend api msg) rs i)) = Some []"
    if "anthropic_open (at_messages i) = Some (map tr_call_id rs)" for i rs
    using that anthropic_step_results [of rs] by (simp add: anthropic_backend_def anthropic_add_tool_results_def anthropic_open_snoc)
  show "xa_calls x = []"
    if "anthropic_open (ms @ [m]) = Some []" "is_assistant (dget_or m ''role'' JNull)" "extract_assistant msg m = Inr x" for ms m x
    using settled_anthropic that by blast
qed (auto simp: anthropic_backend_def anthropic_add_user_message_def
    anthropic_add_tool_results_def not_system_def list_all_iff
    anthropic_open_snoc, simp add: anthropic_open_def)

text \<open>The service gives every tool call an id, and as its input a JSON object that has no key twice.\<close>

definition proper_service :: "'w anthropic_api \<Rightarrow> bool" where
  "proper_service api \<longleftrightarrow> (\<forall>w rq p w' i n v. api w rq = (Response p, w') \<longrightarrow> AnswerTool i n v \<in> set (an_content p) \<longrightarrow>
     i \<noteq> [] \<and> unique_keys v)"

lemma proper_calls:
  assumes "proper_service api" "api w rq = (Response p, w')" "tc \<in> set (tn_calls (anthropic_turn p))"
  shows "tc_id tc \<noteq> [] \<and> (\<exists>v. loads msg (tc_arguments tc) = Inr v)"
proof -
  obtain i n v where "AnswerTool i n v \<in> set (an_content p)" "tc_id tc = i" "tc_arguments tc = dumps v"
    using assms(3) by (auto simp: anthropic_turn_def block_call_def split: answer_block.splits)
  with assms(1,2) show ?thesis unfolding proper_service_def using loads_dumps by metis
qed

lemma anthropic_tools:
  assumes "proper_service api"
  shows "tool_backend (anthropic_backend api msg) at_messages anthropic_open msg"
proof (unfold_locales)
  fix ts cfg i r j
  assume "complete (anthropic_backend api msg) ts cfg i = (Inr r, j)"
  then obtain w rq p w' where p: "api w rq = (Response p, w')" "r = anthropic_turn p"
    using anthropic_complete_cases(3) [of api msg ts cfg i _ j r] by (auto simp: anthropic_backend_def)
  show "[] \<notin> tc_id ` set (tn_calls r)" using proper_calls [OF assms p(1), of _ msg] p(2) by (metis imageE)
  fix tc
  assume "tc \<in> set (tn_calls r)"
  then show "\<exists>v. loads msg (tc_arguments tc) = Inr v" using proper_calls [OF assms p(1)] p(2) by blast
qed

section \<open>A streamed answer\<close>

text \<open>The events that send one block of an answer, its text or its input in pieces.\<close>

definition block_events :: "nat \<Rightarrow> answer_block \<Rightarrow> string list \<Rightarrow> stream_event list" where
  "block_events i b ps =
     (case b of
        AnswerText _ \<Rightarrow> BlockStart i (AnswerText []) # map TextDelta ps @ [BlockStop]
      | AnswerThinking _ \<Rightarrow> BlockStart i (AnswerThinking []) # map ThinkingDelta ps @ [BlockStop]
      | AnswerTool c n _ \<Rightarrow> BlockStart i (AnswerTool c n (JObj [])) # map InputDelta ps @ [BlockStop]
      | AnswerOther \<Rightarrow> [BlockStart i AnswerOther, BlockStop])"

definition pieces_of :: "(string \<Rightarrow> string) \<Rightarrow> answer_block \<Rightarrow> string list \<Rightarrow> bool" where
  "pieces_of msg b ps =
     (case b of
        AnswerText t \<Rightarrow> concat ps = t
      | AnswerThinking t \<Rightarrow> concat ps = t
      | AnswerTool c n v \<Rightarrow> unique_keys v \<and> (if concat ps = [] then v = JObj [] else loads msg (concat ps) = Inr v)
      | AnswerOther \<Rightarrow> True)"

fun events_from :: "nat \<Rightarrow> (answer_block \<times> string list) list \<Rightarrow> stream_event list" where
  "events_from i [] = []"
| "events_from i ((b, ps) # bs) = block_events i b ps @ events_from (Suc i) bs"

definition run_stream :: "stream_event list \<Rightarrow> stream_state \<Rightarrow> stream_state" where
  "run_stream evs s = foldl (\<lambda>s ev. stream_step ev s) s evs"

lemma run_stream_simps [simp]:
  "run_stream [] s = s" "run_stream (ev # evs) s = run_stream evs (stream_step ev s)"
  "run_stream (evs @ evs') s = run_stream evs' (run_stream evs s)"
  by (simp_all add: run_stream_def)

lemma text_pieces: "run_stream (map TextDelta ps) s = s\<lparr>sm_text := sm_text s @ concat ps\<rparr>"
  by (induction ps arbitrary: s) (simp_all add: stream_step_def)

lemma thinking_pieces: "run_stream (map ThinkingDelta ps) s = s\<lparr>sm_thinking := sm_thinking s @ concat ps\<rparr>"
  by (induction ps arbitrary: s) (simp_all add: stream_step_def)

text \<open>The call a tool block has become after its pieces.\<close>

definition streamed_call :: "answer_block \<Rightarrow> string list \<Rightarrow> tool_call list" where
  "streamed_call b ps = (case b of
     AnswerTool c n _ \<Rightarrow> [\<lparr>tc_id = c, tc_name = n, tc_arguments = concat ps, tc_thought = [], tc_truncated = False\<rparr>] | _ \<Rightarrow> [])"

lemma dset_last: "i \<notin> set (dkeys cs) \<Longrightarrow> dset (cs @ [(i, v)]) i v' = cs @ [(i, v')]"
  by (induction cs) auto

lemma dget_last: "i \<notin> set (dkeys cs) \<Longrightarrow> dget (cs @ [(i, v)]) i = Some v"
  by (induction cs) auto

lemma input_pieces:
  assumes "i \<notin> set (dkeys cs)" "sm_index s = Some i"
    "sm_calls s = cs @ [(i, \<lparr>tc_id = c, tc_name = n, tc_arguments = a, tc_thought = [], tc_truncated = False\<rparr>)]"
  shows "run_stream (map InputDelta ps) s =
    s\<lparr>sm_calls := cs @ [(i, \<lparr>tc_id = c, tc_name = n, tc_arguments = a @ concat ps, tc_thought = [], tc_truncated = False\<rparr>)]\<rparr>"
  using assms(2,3)
proof (induction ps arbitrary: s a)
  case (Cons p ps)
  let ?s = "s\<lparr>sm_calls := cs @ [(i, \<lparr>tc_id = c, tc_name = n, tc_arguments = a @ p, tc_thought = [], tc_truncated = False\<rparr>)]\<rparr>"
  have "stream_step (InputDelta p) s = ?s"
    using Cons.prems assms(1) by (simp add: stream_step_def dset_last dget_last del: map_of_append)
  then show ?case using Cons.IH [of ?s "a @ p"] Cons.prems by simp
qed simp

lemma block_run:
  assumes "sm_index s = None" "i \<notin> set (dkeys (sm_calls s))" "pieces_of msg b ps"
  shows "run_stream (block_events i b ps) s =
    s\<lparr>sm_text := sm_text s @ block_string b, sm_thinking := sm_thinking s @ block_thinking b,
      sm_calls := sm_calls s @ map (Pair i) (streamed_call b ps)\<rparr>"
proof (cases b)
  case (AnswerTool c n v)
  have "dset (sm_calls s) i x = sm_calls s @ [(i, x)]" for x
    using assms(2) by (intro dset_fresh) (auto simp: map_of_eq_None_iff)
  then have "run_stream (block_events i b ps) s = stream_step BlockStop (run_stream (map InputDelta ps)
      (s\<lparr>sm_calls := sm_calls s @ [(i, \<lparr>tc_id = c, tc_name = n, tc_arguments = [], tc_thought = [], tc_truncated = False\<rparr>)], sm_index := Some i\<rparr>))"
    using AnswerTool by (simp add: block_events_def stream_step_def [of "BlockStart _ _"])
  also have "run_stream (map InputDelta ps)
      (s\<lparr>sm_calls := sm_calls s @ [(i, \<lparr>tc_id = c, tc_name = n, tc_arguments = [], tc_thought = [], tc_truncated = False\<rparr>)], sm_index := Some i\<rparr>) =
    s\<lparr>sm_calls := sm_calls s @ [(i, \<lparr>tc_id = c, tc_name = n, tc_arguments = concat ps, tc_thought = [], tc_truncated = False\<rparr>)], sm_index := Some i\<rparr>"
    by (subst input_pieces [OF assms(2)]) (cases s, simp_all)+
  finally show ?thesis using AnswerTool assms(1)
    by (simp add: stream_step_def block_string_def block_thinking_def streamed_call_def)
qed (use assms in \<open>simp_all add: block_events_def text_pieces thinking_pieces stream_step_def block_string_def
  block_thinking_def streamed_call_def pieces_of_def\<close>)

fun indexed_calls :: "nat \<Rightarrow> (answer_block \<times> string list) list \<Rightarrow> (nat, tool_call) dict" where
  "indexed_calls i [] = []"
| "indexed_calls i ((b, ps) # bs) = map (Pair i) (streamed_call b ps) @ indexed_calls (Suc i) bs"

lemma stream_run:
  assumes "sm_index s = None" "\<forall>k\<in>set (dkeys (sm_calls s)). k < i" "list_all (\<lambda>(b, ps). pieces_of msg b ps) bs"
  shows "run_stream (events_from i bs) s =
    s\<lparr>sm_text := sm_text s @ concat (map (block_string \<circ> fst) bs), sm_thinking := sm_thinking s @ concat (map (block_thinking \<circ> fst) bs),
      sm_calls := sm_calls s @ indexed_calls i bs\<rparr>"
  using assms
proof (induction i bs arbitrary: s rule: events_from.induct)
  case (2 i b ps bs)
  let ?s = "s\<lparr>sm_text := sm_text s @ block_string b, sm_thinking := sm_thinking s @ block_thinking b,
      sm_calls := sm_calls s @ map (Pair i) (streamed_call b ps)\<rparr>"
  have "run_stream (block_events i b ps) s = ?s" using 2(2-4) by (intro block_run) auto
  moreover have "\<forall>k\<in>set (dkeys (sm_calls ?s)). k < Suc i" using 2(3) by fastforce
  ultimately show ?case using 2(1) [of ?s] 2(2,4) by simp
qed simp

lemma indexed_sorted:
  "sorted (dkeys (indexed_calls i bs)) \<and> distinct (dkeys (indexed_calls i bs)) \<and> (\<forall>k\<in>set (dkeys (indexed_calls i bs)). i \<le> k)"
proof (induction i bs rule: indexed_calls.induct)
  case (2 i b ps bs)
  have "streamed_call b ps = [] \<or> (\<exists>tc. streamed_call b ps = [tc])" by (cases b) (simp_all add: streamed_call_def)
  with 2 show ?case by fastforce
qed simp

lemma indexed_vals: "map snd (indexed_calls i bs) = concat (map (\<lambda>(b, ps). streamed_call b ps) bs)"
  by (induction i bs rule: indexed_calls.induct) (simp_all add: comp_def)

lemma values_in_order:
  assumes "distinct (dkeys d)" "sorted (dkeys d)"
  shows "map (\<lambda>k. the (dget d k)) (sort (dkeys d)) = map snd d"
proof -
  have "map (\<lambda>k. the (dget d k)) (dkeys d) = map snd d"
    using assms(1) by (auto simp: comp_def intro!: map_cong)
  then show ?thesis using assms(2) by (simp add: sorted_sort_id)
qed

lemma streamed_uses:
  assumes "pieces_of msg b ps"
  shows "mapM (mark_truncated msg) (streamed_call b ps) = Inr (streamed_call b ps)"
    "mapM (tool_use_json msg) (streamed_call b ps) = mapM (tool_use_json msg) (block_call b)"
    "\<exists>us. mapM (tool_use_json msg) (block_call b) = Inr us"
    "map (\<lambda>tc. (tc_id tc, tc_name tc, tc_truncated tc)) (streamed_call b ps) =
      map (\<lambda>tc. (tc_id tc, tc_name tc, tc_truncated tc)) (block_call b)"
proof -
  have "\<exists>v. dumps v \<noteq> [] \<and> loads msg (dumps v) = Inr v" if "unique_keys v" for v
    using that loads_dumps dumps_start by (metis list.distinct(1))
  have d: "tool_input msg (dumps v) = Inr v" if "unique_keys v" for v
    using loads_dumps [OF that, of msg] dumps_start [of v] by (auto simp: tool_input_def)
  show "mapM (mark_truncated msg) (streamed_call b ps) = Inr (streamed_call b ps)"
    "mapM (tool_use_json msg) (streamed_call b ps) = mapM (tool_use_json msg) (block_call b)"
    "\<exists>us. mapM (tool_use_json msg) (block_call b) = Inr us"
    "map (\<lambda>tc. (tc_id tc, tc_name tc, tc_truncated tc)) (streamed_call b ps) =
      map (\<lambda>tc. (tc_id tc, tc_name tc, tc_truncated tc)) (block_call b)"
    using assms d
    by (cases b; auto simp: streamed_call_def block_call_def pieces_of_def mark_truncated_def tool_use_json_def tool_input_def split: if_splits)+
qed

lemma mapM_append:
  "mapM f (xs @ ys) = rbind (mapM f xs) (\<lambda>us. rbind (mapM f ys) (\<lambda>vs. Inr (us @ vs)))"
proof (induction xs)
  case Nil
  then show ?case by (cases "mapM f ys") simp_all
next
  case (Cons x xs)
  then show ?case by (cases "f x"; cases "mapM f xs"; cases "mapM f ys") simp_all
qed

lemma streamed_calls:
  assumes "list_all (\<lambda>(b, ps). pieces_of msg b ps) bs"
  defines "scs \<equiv> concat (map (\<lambda>(b, ps). streamed_call b ps) bs)" and "cs \<equiv> concat (map (block_call \<circ> fst) bs)"
  shows "mapM (mark_truncated msg) scs = Inr scs \<and> mapM (tool_use_json msg) scs = mapM (tool_use_json msg) cs \<and>
    (\<exists>us. mapM (tool_use_json msg) cs = Inr us) \<and>
    map (\<lambda>tc. (tc_id tc, tc_name tc, tc_truncated tc)) scs = map (\<lambda>tc. (tc_id tc, tc_name tc, tc_truncated tc)) cs"
  using assms(1) unfolding scs_def cs_def
proof (induction bs)
  case (Cons bp bs)
  obtain b ps where bp: "bp = (b, ps)" by fastforce
  with Cons.prems have p: "pieces_of msg b ps" by simp
  from Cons show ?case unfolding bp using streamed_uses [OF p] by (auto simp: mapM_append)
qed simp

text \<open>C8: A streamed answer, however its blocks are cut into pieces, is the answer in one piece: the same text, thinking,
  usage and reason to finish, the same calls with none cut off, and the same message is added to the conversation.
\<close>

theorem stream_like_complete:
  assumes "an_content p = map fst bs" "list_all (\<lambda>(b, ps). pieces_of msg b ps) bs"
  defines "t \<equiv> anthropic_turn p"
  shows "\<exists>r s'. anthropic_stream msg (events_from 0 bs @ [MessageDelta (Some (an_stop p)) u]) (Some (an_usage p)) s = (Inr r, s') \<and>
    append_assistant msg (tn_text t) (tn_thinking t) (tn_calls t) s = (Inr (), s') \<and>
    sr_text r = tn_text t \<and> sr_thinking r = tn_thinking t \<and> sr_usage r = tn_usage t \<and> sr_finish r = tn_finish t \<and>
    map (\<lambda>tc. (tc_id tc, tc_name tc, tc_truncated tc)) (sr_calls r) = map (\<lambda>tc. (tc_id tc, tc_name tc, tc_truncated tc)) (tn_calls t)"
proof -
  let ?scs = "concat (map (\<lambda>(b, ps). streamed_call b ps) bs)" and ?cs = "concat (map (block_call \<circ> fst) bs)"
  let ?e = "foldl (\<lambda>s ev. stream_step ev s) stream_start (events_from 0 bs @ [MessageDelta (Some (an_stop p)) u])"
  have "run_stream (events_from 0 bs) stream_start =
    stream_start\<lparr>sm_text := concat (map (block_string \<circ> fst) bs), sm_thinking := concat (map (block_thinking \<circ> fst) bs),
      sm_calls := indexed_calls 0 bs\<rparr>"
    using stream_run [OF _ _ assms(2), of stream_start 0] by (simp add: stream_start_def)
  then have e: "sm_text ?e = tn_text t" "sm_thinking ?e = tn_thinking t" "sm_calls ?e = indexed_calls 0 bs" "sm_finish ?e = tn_finish t"
    by (simp_all add: run_stream_def stream_step_def assms(1) t_def anthropic_turn_def)
  have calls: "map (\<lambda>idx. the (dget (sm_calls ?e) idx)) (sort (dkeys (sm_calls ?e))) = ?scs"
    unfolding e(3) using values_in_order [of "indexed_calls 0 bs"] indexed_sorted [of 0 bs] indexed_vals [of 0 bs] by simp
  note c = streamed_calls [OF assms(2)]
  have tc: "tn_calls t = ?cs" by (simp add: t_def anthropic_turn_def assms(1) comp_def)
  have "stream_end msg (Some (an_usage p)) ?e = Inr \<lparr>sr_text = tn_text t, sr_thinking = tn_thinking t, sr_calls = ?scs,
      sr_usage = tn_usage t, sr_finish = tn_finish t\<rparr>"
    using c unfolding stream_end_def calls unfolding e by (simp add: t_def anthropic_turn_def)
  moreover have "anthropic_message msg (tn_text t) (tn_thinking t) ?scs = anthropic_message msg (tn_text t) (tn_thinking t) (tn_calls t)"
    "\<exists>m. anthropic_message msg (tn_text t) (tn_thinking t) (tn_calls t) = Inr m"
    using c unfolding tc anthropic_message_def by auto
  ultimately show ?thesis
    using c unfolding anthropic_stream_def append_assistant_def tc by (auto simp: eff_simps liftE_def)
qed

definition two_block_answer :: anthropic_response where
  "two_block_answer = \<lparr>an_content = [AnswerText ''hi'', AnswerTool ''c1'' ''look'' (JArr [JInt 1])],
     an_usage = \<lparr>au_input = Some 3, au_output = Some 2, au_cache_read = None, au_cache_creation = None\<rparr>,
     an_model = ''m'', an_id = ''r'', an_stop = Some ''tool_use''\<rparr>"

definition fresh_anthropic :: "anthropic_response api_reply list \<Rightarrow> anthropic_response api_reply list anthropic" where
  "fresh_anthropic script = \<lparr>at_model = ''m'', at_retries = 0, at_default_max = 10, at_system = ''p'', at_messages = [], at_service = script\<rparr>"

theorem stream_like_complete_witness:
  "\<exists>r s'. anthropic_stream id
      (events_from 0 [(AnswerText ''hi'', [''h'', ''i'']), (AnswerTool ''c1'' ''look'' (JArr [JInt 1]), [''['', ''1]''])] @
       [MessageDelta (Some (an_stop two_block_answer)) None]) (Some (an_usage two_block_answer)) (fresh_anthropic []) = (Inr r, s') \<and>
    sr_text r = ''hi'' \<and> map tc_id (sr_calls r) = [''c1''] \<and> length (at_messages s') = 1"
proof -
  have "loads id ''[1]'' = Inr (JArr [JInt 1])" by code_simp
  then have "list_all (\<lambda>(b, ps). pieces_of id b ps) [(AnswerText ''hi'', [''h'', ''i'']), (AnswerTool ''c1'' ''look'' (JArr [JInt 1]), [''['', ''1]''])]"
    by (simp add: pieces_of_def)
  from stream_like_complete [OF _ this, of two_block_answer None "fresh_anthropic []"] obtain r s' where
    r: "anthropic_stream id (events_from 0 [(AnswerText ''hi'', [''h'', ''i'']), (AnswerTool ''c1'' ''look'' (JArr [JInt 1]), [''['', ''1]''])] @
       [MessageDelta (Some (an_stop two_block_answer)) None]) (Some (an_usage two_block_answer)) (fresh_anthropic []) = (Inr r, s')"
    "append_assistant id ''hi'' [] (tn_calls (anthropic_turn two_block_answer)) (fresh_anthropic []) = (Inr (), s')" "sr_text r = ''hi''"
    "map (\<lambda>tc. (tc_id tc, tc_name tc, tc_truncated tc)) (sr_calls r) = [(''c1'', ''look'', False)]"
    by (auto simp: two_block_answer_def anthropic_turn_def block_string_def block_thinking_def block_call_def)
  have "length (at_messages s') = 1"
    using r(2) by (auto simp: append_assistant_def eff_simps liftE_def fresh_anthropic_def split: sum.splits)
  moreover have "map tc_id (sr_calls r) = [''c1'']" using arg_cong [OF r(4), of "map fst"] by (simp add: comp_def)
  ultimately show ?thesis using r(1,3) by (intro exI [of _ r] exI [of _ s'] conjI)
qed

section \<open>The agent loop over this backend\<close>


text \<open>A service that gives the two-block answer as long as it is asked to.\<close>

definition tool_service :: "anthropic_response api_reply list anthropic_api" where
  "tool_service script rq = (case script of [] \<Rightarrow> (ApiFailed ''down'', []) | _ # rs \<Rightarrow> (Response two_block_answer, rs))"

definition anthropic_env :: "(anthropic_response api_reply list anthropic, string list) agent_env" where
  "anthropic_env = \<lparr>ae_backend = anthropic_backend tool_service id, ae_net = demo_net, ae_write = no_write, ae_msg = id, ae_order = None\<rparr>"


end
