(* ===== verification/Constrained_Tracker.thy ===== *)
theory Constrained_Tracker
  imports Item_Tracker Py_Json
begin

text \<open>
  \<open>autoform/bot/tools/task_tracker/core.py\<close>, the item tracker as agents see it, and the tools of
  \<open>server.py\<close> next to it. Only pending and failed items of certain flavors can be changed, and an item no worker has
  tried is taken out of the tracker when it is deleted.
\<close>

section \<open>The guarded tracker\<close>

definition MUTABLE_STATUSES :: "string list" where
  "MUTABLE_STATUSES = [PENDING, FAILED]"

text \<open>The flavors of a frozenset are in the order in which it is iterated over; without flavors everything can be changed.\<close>

record constrained =
  ct_tracker :: tracker
  ct_mutable_flavors :: "string list option"
  ct_default_flavor :: string

definition new_constrained :: "tracker \<Rightarrow> string list option \<Rightarrow> string option \<Rightarrow> constrained result" where
  "new_constrained t flavors dflt =
     (let made = (\<lambda>d. Inr \<lparr>ct_tracker = t, ct_mutable_flavors = flavors, ct_default_flavor = d\<rparr>)
      in case dflt of
           Some d \<Rightarrow> made d
         | None \<Rightarrow> (case flavors of
               None \<Rightarrow> made ''task''
             | Some [] \<Rightarrow> Inl (RuntimeError ''StopIteration'')
             | Some (f # _) \<Rightarrow> made f))"

definition check_mutable :: "constrained \<Rightarrow> item \<Rightarrow> string option" where
  "check_mutable c i =
     (if it_status i \<notin> set MUTABLE_STATUSES
      then Some (''Error: task '' @ it_id i @ '' is '' @ it_status i @ '' '' @ em_dash @ '' only pending or failed tasks can be modified.'')
      else case ct_mutable_flavors c of
             None \<Rightarrow> None
           | Some flavors \<Rightarrow>
               (if it_flavor i \<notin> set flavors
                then Some (''Error: item '' @ it_id i @ '' (flavor='' @ it_flavor i @ '') is read-only for this agent.'')
                else None))"

definition task_not_found :: "string \<Rightarrow> string" where
  "task_not_found item_id = ''Error: task '' @ item_id @ '' not found.''"

definition constrained_add ::
  "constrained \<Rightarrow> string \<Rightarrow> string \<Rightarrow> string list \<Rightarrow> (string, json) dict \<Rightarrow> string option \<Rightarrow> (string \<times> constrained) result" where
  "constrained_add c title description depends_on metadata item_id =
     rbind (add (ct_tracker c) title description (map IdStr depends_on) metadata (map_option IdStr item_id) None None
       (Some (ct_default_flavor c))) (\<lambda>(k, t). Inr (k, c\<lparr>ct_tracker := t\<rparr>))"

text \<open>The guard of \<open>update\<close> and \<open>delete\<close>: what is done with the item when it can be changed.\<close>

definition guarded :: "constrained \<Rightarrow> string \<Rightarrow> (item \<Rightarrow> string \<times> tracker) \<Rightarrow> string \<times> constrained" where
  "guarded c item_id f =
     (case get (ct_tracker c) (IdStr item_id) of
        None \<Rightarrow> (task_not_found item_id, c)
      | Some i \<Rightarrow>
          (case check_mutable c i of
             Some err \<Rightarrow> (err, c)
           | None \<Rightarrow> (case f i of (message, t) \<Rightarrow> (message, c\<lparr>ct_tracker := t\<rparr>))))"

definition constrained_update ::
  "constrained \<Rightarrow> string \<Rightarrow> string option \<Rightarrow> string option \<Rightarrow> string list option \<Rightarrow> (string, json) dict option \<Rightarrow>
    string \<times> constrained" where
  "constrained_update c item_id title description depends_on metadata =
     guarded c item_id (\<lambda>_. update (ct_tracker c) (IdStr item_id)
       (no_update\<lparr>ua_title := title, ua_description := description, ua_depends_on := map_option (map IdStr) depends_on,
          ua_metadata := metadata\<rparr>))"

definition remove_dependency :: "string \<Rightarrow> (string, item) dict \<Rightarrow> string \<Rightarrow> (string, item) dict" where
  "remove_dependency key its child =
     dmodify its child (\<lambda>i. i\<lparr>it_depends_on := filter (\<lambda>d. d \<noteq> key) (it_depends_on i)\<rparr>)"

definition purge :: "tracker \<Rightarrow> string \<Rightarrow> string \<times> tracker" where
  "purge t item_id =
     (case dget (tk_items t) item_id of
        None \<Rightarrow> (task_not_found item_id, t)
      | Some i \<Rightarrow>
          let its1 = foldl (remove_dependent item_id) (tk_items t) (it_depends_on i);
              children = (case dget its1 item_id of Some j \<Rightarrow> it_dependents j | None \<Rightarrow> []);
              its2 = foldl (remove_dependency item_id) its1 children
          in (''Task '' @ item_id @ '' removed (0 attempts '' @ em_dash @ '' purged from DAG).'', save (t\<lparr>tk_items := ddel its2 item_id\<rparr>)))"

definition constrained_delete :: "constrained \<Rightarrow> string \<Rightarrow> string \<times> constrained" where
  "constrained_delete c item_id =
     guarded c item_id (\<lambda>i.
       if it_attempts i = 0 then purge (ct_tracker c) item_id
       else update (ct_tracker c) (IdStr item_id) (no_update\<lparr>ua_status := Some DELETED\<rparr>))"

section \<open>The tools\<close>

text \<open>\<open>json.dumps\<close> with an indentation of two; \<open>n\<close> is the indentation of the line the value starts on.\<close>

definition new_line :: "nat \<Rightarrow> string" where
  "new_line n = [CHR 0x0A] @ replicate n (CHR '' '')"

fun dumps_indented :: "nat \<Rightarrow> json \<Rightarrow> string" where
  "dumps_indented n (JArr xs) =
     (if xs = [] then ''[]''
      else ''['' @ new_line (n + 2) @ join ('','' @ new_line (n + 2)) (map (dumps_indented (n + 2)) xs) @ new_line n @ '']'')"
| "dumps_indented n (JObj kvs) =
     (if kvs = [] then ''{}''
      else ''{'' @ new_line (n + 2) @
        join ('','' @ new_line (n + 2)) (map (\<lambda>(k, v). dump_str k @ '': '' @ dumps_indented (n + 2) v) kvs) @ new_line n @ ''}'')"
| "dumps_indented n v = dumps v"

definition compact_item :: "item \<Rightarrow> json" where
  "compact_item i = (case item_json i of JObj d \<Rightarrow> JObj (filter (\<lambda>(k, _). k \<noteq> ''description'') d) | j \<Rightarrow> j)"

definition list_items_tool :: "constrained \<Rightarrow> string option \<Rightarrow> string option \<Rightarrow> bool \<Rightarrow> string" where
  "list_items_tool c status query ready_only =
     (let items = (if ready_only
            then (case query of None \<Rightarrow> ready (ct_tracker c) | Some q \<Rightarrow> filter (matches_query q) (ready (ct_tracker c)))
            else list_items (ct_tracker c) status None query)
      in if items = [] then ''No tasks found.'' else dumps_indented 0 (JArr (map compact_item items)))"

definition get_item_tool :: "constrained \<Rightarrow> string \<Rightarrow> string" where
  "get_item_tool c item_id =
     (case get (ct_tracker c) (IdStr item_id) of
        None \<Rightarrow> task_not_found item_id
      | Some i \<Rightarrow> dumps_indented 0 (item_json i))"

definition add_item_tool ::
  "constrained \<Rightarrow> string \<Rightarrow> string \<Rightarrow> string list \<Rightarrow> (string, json) dict \<Rightarrow> string option \<Rightarrow> (string \<times> constrained) result" where
  "add_item_tool c title description depends_on metadata item_id =
     (case constrained_add c title description depends_on metadata item_id of
        Inr (k, c') \<Rightarrow> Inr (''Task '' @ k @ '' added: '' @ title, c')
      | Inl (ValueError e) \<Rightarrow> Inr (''Error: '' @ e, c)
      | Inl e \<Rightarrow> Inl e)"

definition dispatch_task_tool :: "(string \<Rightarrow> 's \<Rightarrow> string \<times> 's) option \<Rightarrow> string \<Rightarrow> 's \<Rightarrow> string \<times> 's" where
  "dispatch_task_tool dispatch_fn task_id s =
     (case dispatch_fn of
        None \<Rightarrow> (''Error: dispatch not available (DAGRunner not connected).'', s)
      | Some f \<Rightarrow> f task_id s)"

definition dispatch_ready_tool :: "('s \<Rightarrow> nat \<times> 's) option \<Rightarrow> 's \<Rightarrow> string \<times> 's" where
  "dispatch_ready_tool dispatch_ready_fn s =
     (case dispatch_ready_fn of
        None \<Rightarrow> (''Error: dispatch not available (DAGRunner not connected).'', s)
      | Some f \<Rightarrow> (case f s of (n, s') \<Rightarrow>
          (if n = 0 then ''No tasks dispatched (none ready or no available slots).''
           else ''Dispatched '' @ str_nat n @ '' task(s).'', s')))"

section \<open>Histories\<close>

text \<open>The calls of an agent that can change the tracker; one that raises changes nothing.\<close>

datatype tracker_call =
    CallAdd string string "string list" "(string, json) dict" "string option"
  | CallUpdate string "string option" "string option" "string list option" "(string, json) dict option"
  | CallDelete string

fun run_tracker_call :: "constrained \<Rightarrow> tracker_call \<Rightarrow> constrained" where
  "run_tracker_call c (CallAdd ti de ds md k) = (case add_item_tool c ti de ds md k of Inr (_, c') \<Rightarrow> c' | Inl _ \<Rightarrow> c)"
| "run_tracker_call c (CallUpdate k ti de ds md) = snd (constrained_update c k ti de ds md)"
| "run_tracker_call c (CallDelete k) = snd (constrained_delete c k)"

definition run_tracker_calls :: "constrained \<Rightarrow> tracker_call list \<Rightarrow> constrained" where
  "run_tracker_calls = foldl run_tracker_call"

end
