(* ===== verification/Tracker_Removal.thy ===== *)
theory Tracker_Removal
  imports Constrained_Tracker Item_Tracker_Correct
begin

text \<open>
  Taking items out of a tracker, as the guarded tracker and the preparation of a fresh run do it: the edges to and
  from the removed items go with them. The structural invariant is kept, and what is ready afterwards is what would be ready had
  the items been marked as deleted. The agents' calls leave protected items as they are.
\<close>

section \<open>Removing items\<close>

definition without_edges :: "string list \<Rightarrow> item \<Rightarrow> item" where
  "without_edges ks i =
     i\<lparr>it_depends_on := filter (\<lambda>d. d \<notin> set ks) (it_depends_on i), it_dependents := filter (\<lambda>d. d \<notin> set ks) (it_dependents i)\<rparr>"

definition drop_items :: "string list \<Rightarrow> (string, item) dict \<Rightarrow> (string, item) dict" where
  "drop_items ks its = map (\<lambda>(k, i). (k, without_edges ks i)) (filter (\<lambda>(k, _). k \<notin> set ks) its)"

lemma without_edges_simps [simp]:
  "it_id (without_edges ks i) = it_id i" "it_status (without_edges ks i) = it_status i" "it_flavor (without_edges ks i) = it_flavor i"
  "it_depends_on (without_edges ks i) = filter (\<lambda>d. d \<notin> set ks) (it_depends_on i)"
  "it_dependents (without_edges ks i) = filter (\<lambda>d. d \<notin> set ks) (it_dependents i)"
  by (simp_all add: without_edges_def)

lemma map_of_filter_keys: "map_of (filter (\<lambda>(k, _). P k) d) k = (if P k then map_of d k else None)"
  by (induction d) auto

lemma map_of_drop_items [simp]:
  "map_of (drop_items ks its) k = (if k \<in> set ks then None else map_option (without_edges ks) (map_of its k))"
  by (simp add: drop_items_def map_of_map_pairs map_of_filter_keys)

lemma keys_drop_items: "map fst (drop_items ks its) = filter (\<lambda>k. k \<notin> set ks) (map fst its)"
  by (induction its) (auto simp: drop_items_def)

lemma edge_drop_items: "edge (drop_items ks its) k d \<longleftrightarrow> k \<notin> set ks \<and> d \<notin> set ks \<and> edge its k d"
  by (auto simp: edge_def split: option.splits)

lemma back_edge_drop_items: "back_edge (drop_items ks its) d k \<longleftrightarrow> k \<notin> set ks \<and> d \<notin> set ks \<and> back_edge its d k"
  by (auto simp: back_edge_def split: option.splits)

lemma wf_items_drop: "wf_items its \<Longrightarrow> wf_items (drop_items ks its)"
  unfolding wf_items_def edge_drop_items back_edge_drop_items
  by (auto simp: wf_dict_def keys_drop_items split: if_splits)

lemma wf_tracker_drop: "wf_tracker t \<Longrightarrow> wf_tracker (t\<lparr>tk_items := drop_items ks (tk_items t)\<rparr>)"
  by (auto simp: wf_tracker_def wf_items_drop wf_counters_def)

lemma dict_eqI:
  "map fst a = map fst b \<Longrightarrow> wf_dict a \<Longrightarrow> (\<And>k. map_of a k = map_of b k) \<Longrightarrow> a = b"
proof (induction a arbitrary: b)
  case (Cons x a)
  then obtain y b' where b: "b = y # b'" by (cases b) auto
  obtain k v where x: "x = (k, v)" by (cases x)
  obtain w where y: "y = (k, w)" using Cons.prems(1) b x by (cases y) auto
  have "v = w" using Cons.prems(3) [of k] b x y by simp
  moreover have "map_of a j = map_of b' j" for j
  proof (cases "j = k")
    case True
    have "k \<notin> fst ` set a" using Cons.prems(2) x by (simp add: wf_dict_def)
    moreover have "fst ` set a = fst ` set b'" using Cons.prems(1) b by (metis list.set_map list.simps(9) list.inject)
    ultimately show ?thesis using True by (metis map_of_eq_None_iff)
  next
    case False
    then show ?thesis using Cons.prems(3) [of j] b x y by simp
  qed
  moreover have "map fst a = map fst b'" "wf_dict a" using Cons.prems(1,2) b x by (simp_all add: wf_dict_def)
  ultimately show ?case using Cons.IH b x y by simp
qed simp

section \<open>What is ready after a removal\<close>

text \<open>The items marked as deleted instead.\<close>

definition mark_deleted :: "string list \<Rightarrow> (string, item) dict \<Rightarrow> (string, item) dict" where
  "mark_deleted ks its = map (\<lambda>(k, i). (k, if k \<in> set ks then i\<lparr>it_status := DELETED\<rparr> else i)) its"

lemma map_of_mark_deleted [simp]:
  "map_of (mark_deleted ks its) k = map_option (\<lambda>i. if k \<in> set ks then i\<lparr>it_status := DELETED\<rparr> else i) (map_of its k)"
  by (simp add: mark_deleted_def map_of_map_values)

lemma insort_key_map: "(\<And>x. f (g x) = f x) \<Longrightarrow> insort_key f (g x) (map g xs) = map g (insort_key f x xs)"
  by (induction xs) simp_all

lemma sort_key_map: "(\<And>x. f (g x) = f x) \<Longrightarrow> sort_key f (map g xs) = map g (sort_key f xs)"
  by (induction xs) (simp_all add: insort_key_map)

lemma stored_deps:
  assumes "wf_items its" "i \<in> set (dvals its)" "d \<in> set (it_depends_on i)"
  obtains j where "map_of its d = Some j"
proof -
  have "map_of its (it_id i) = Some i" using assms(1,2) stored_iff by blast
  then have "edge its (it_id i) d" using assms(3) by (simp add: edge_def)
  then have "back_edge its d (it_id i)" using assms(1) by (simp add: wf_items_def)
  then show thesis using that by (auto simp: back_edge_def split: option.splits)
qed

lemma dvals_drop:
  assumes "wf_items its"
  shows "dvals (drop_items ks its) = map (without_edges ks) (filter (\<lambda>i. it_id i \<notin> set ks) (dvals its))"
proof -
  have "it_id i = k" if "(k, i) \<in> set its" for k i
    using that assms by (auto simp: wf_items_def dest: wf_dict_mapD)
  then have "filter (\<lambda>x. fst x \<notin> set ks) its = filter (\<lambda>x. it_id (snd x) \<notin> set ks) its"
    by (intro filter_cong) auto
  then show ?thesis by (simp add: drop_items_def case_prod_beta' filter_map comp_def)
qed

lemma sorted_items_drop:
  assumes "wf_items (tk_items t)"
  shows "sorted_items (t\<lparr>tk_items := drop_items ks (tk_items t)\<rparr>) =
    map (without_edges ks) (filter (\<lambda>i. it_id i \<notin> set ks) (sorted_items t))"
  by (simp add: sorted_items_def dvals_drop [OF assms] sort_key_map sort_key_of_def filter_sort)

lemma sorted_items_mark:
  assumes "wf_items (tk_items t)"
  shows "sorted_items (t\<lparr>tk_items := mark_deleted ks (tk_items t)\<rparr>) =
    map (\<lambda>i. if it_id i \<in> set ks then i\<lparr>it_status := DELETED\<rparr> else i) (sorted_items t)"
proof -
  have "it_id i = k" if "(k, i) \<in> set (tk_items t)" for k i
    using that assms by (auto simp: wf_items_def dest: wf_dict_mapD)
  then have "dvals (mark_deleted ks (tk_items t)) =
      map (\<lambda>i. if it_id i \<in> set ks then i\<lparr>it_status := DELETED\<rparr> else i) (dvals (tk_items t))"
    by (auto simp: mark_deleted_def case_prod_beta')
  moreover have "sort_key_of (if it_id i \<in> set ks then i\<lparr>it_status := DELETED\<rparr> else i) = sort_key_of i" for i
    by (simp add: sort_key_of_def)
  ultimately show ?thesis by (simp add: sorted_items_def sort_key_map del: map_map)
qed

text \<open>What is ready, seen by the ids, is the same whether items are removed or marked as deleted.\<close>

lemma ready_drop:
  assumes "wf_items (tk_items t)"
  shows "map it_id (ready (t\<lparr>tk_items := drop_items ks (tk_items t)\<rparr>)) =
    map it_id (ready (t\<lparr>tk_items := mark_deleted ks (tk_items t)\<rparr>))"
proof -
  let ?a = "t\<lparr>tk_items := drop_items ks (tk_items t)\<rparr>" and ?b = "t\<lparr>tk_items := mark_deleted ks (tk_items t)\<rparr>"
  let ?m = "\<lambda>i. if it_id i \<in> set ks then i\<lparr>it_status := DELETED\<rparr> else i"
  have dep: "list_all (terminal_dep ?a) (filter (\<lambda>d. d \<notin> set ks) (it_depends_on i)) = list_all (terminal_dep ?b) (it_depends_on i)"
    if "i \<in> set (sorted_items t)" for i
  proof -
    have "(d \<notin> set ks \<longrightarrow> terminal_dep ?a d) = terminal_dep ?b d" if "d \<in> set (it_depends_on i)" for d
      using stored_deps [OF assms _ that] \<open>i \<in> set (sorted_items t)\<close>
      by (force simp: terminal_dep_def TERMINAL_def split: option.splits)
    then show ?thesis by (auto simp: list_all_iff)
  qed
  have "filter (\<lambda>i. it_id i \<notin> set ks \<and> it_status i = PENDING \<and> list_all (terminal_dep ?a) (filter (\<lambda>d. d \<notin> set ks) (it_depends_on i))) (sorted_items t) =
      filter (\<lambda>i. it_status (?m i) = PENDING \<and> list_all (terminal_dep ?b) (it_depends_on (?m i))) (sorted_items t)" (is "?l = ?r")
    using dep by (intro filter_cong) (auto simp: status_defs)
  then have "map it_id ?l = map it_id ?r" by simp
  moreover have "map it_id ?r = map (it_id \<circ> ?m) ?r" by (rule map_cong) auto
  ultimately show ?thesis
    unfolding ready_def sorted_items_drop [OF assms] sorted_items_mark [OF assms]
    by (simp add: filter_map comp_def conj_commute conj_left_commute cong: map_cong)
qed

end
