(* ===== verification/Constrained_Correct.thy ===== *)
theory Constrained_Correct
  imports Tracker_Removal
begin

text \<open>
  The guarded tracker: a deletion has the effect of marking the item, whether the item is kept or not, and
  no sequence of calls changes an item that is not the agent's to change, except that its dependencies on items
  the agent may delete can go.
\<close>

section \<open>Deleting an item\<close>

lemma map_of_remove_dependencies:
  "map_of (foldl (remove_dependency key) its ds) k =
     map_option (\<lambda>j. if k \<in> set ds then j\<lparr>it_depends_on := filter (\<lambda>d. d \<noteq> key) (it_depends_on j)\<rparr> else j) (map_of its k)"
proof (induction ds arbitrary: its)
  case Nil
  then show ?case by (simp add: option.map_ident)
next
  case (Cons d ds)
  then show ?case by (cases "map_of its k") (auto simp: remove_dependency_def)
qed

lemma keys_remove_dependencies [simp]: "map fst (foldl (remove_dependency key) its ds) = map fst its"
  by (induction ds arbitrary: its) (auto simp: remove_dependency_def)

lemma filter_noop: "k \<notin> set xs \<Longrightarrow> filter (\<lambda>d. d \<noteq> k) xs = xs"
  by (rule filter_True) auto

lemma purge_drops:
  assumes wf: "wf_items (tk_items t)" and i: "map_of (tk_items t) k = Some i"
  shows "snd (purge t k) = save (t\<lparr>tk_items := drop_items [k] (tk_items t)\<rparr>)"
proof -
  let ?its = "tk_items t"
  let ?its1 = "foldl (remove_dependent k) ?its (it_depends_on i)"
  have "\<not> edge ?its k k" using wf unfolding wf_items_def by blast
  then have self: "k \<notin> set (it_depends_on i)" using i by (simp add: edge_def)
  then have c: "(case map_of ?its1 k of Some j \<Rightarrow> it_dependents j | None \<Rightarrow> []) = it_dependents i"
    using i by (simp add: map_of_remove_dependents)
  let ?its2 = "foldl (remove_dependency k) ?its1 (it_dependents i)"
  have "ddel ?its2 k = drop_items [k] ?its"
  proof (rule dict_eqI)
    show "map fst (ddel ?its2 k) = map fst (drop_items [k] ?its)"
      by (simp add: delete_keys keys_drop_items removeAll_filter_not_eq) (metis (full_types))
    have "wf_dict ?its2" using wf by (simp add: wf_items_def wf_dict_def)
    then show "wf_dict (ddel ?its2 k)" by simp
    fix x
    show "map_of (ddel ?its2 k) x = map_of (drop_items [k] ?its) x"
    proof (cases "x = k \<or> map_of ?its x = None")
      case True
      then show ?thesis by (auto simp: map_of_remove_dependents map_of_remove_dependencies)
    next
      case False
      then obtain j where x: "x \<noteq> k" "map_of ?its x = Some j" by auto
      have sym: "edge ?its k x = back_edge ?its x k" "edge ?its x k = back_edge ?its k x"
        using wf by (simp_all add: wf_items_def)
      then have "x \<in> set (it_depends_on i) \<longleftrightarrow> k \<in> set (it_dependents j)" "x \<in> set (it_dependents i) \<longleftrightarrow> k \<in> set (it_depends_on j)"
        using x i by (simp_all add: edge_def back_edge_def)
      then show ?thesis using x
        by (auto simp: map_of_remove_dependents map_of_remove_dependencies without_edges_def filter_noop)
    qed
  qed
  then show ?thesis using i c by (simp add: purge_def Let_def)
qed

lemma update_deleted:
  assumes wf: "wf_items (tk_items t)" and i: "map_of (tk_items t) k = Some i"
  shows "snd (update t (IdStr k) (no_update\<lparr>ua_status := Some DELETED\<rparr>)) = save (t\<lparr>tk_items := mark_deleted [k] (tk_items t)\<rparr>)"
proof -
  have "dmodify (dmodify (tk_items t) k (set_owner (no_update\<lparr>ua_status := Some DELETED\<rparr>))) k (set_fields (no_update\<lparr>ua_status := Some DELETED\<rparr>))
    = mark_deleted [k] (tk_items t)"
    by (auto simp: dmodify_def mark_deleted_def set_owner_def set_fields_def no_update_def Let_def)
  then show ?thesis using i
    by (simp add: update_def update_error_def owner_error_def deps_error_def status_error_def no_update_def STATUSES_def Let_def)
qed

lemma save_ready [simp]: "ready (save t) = ready t"
  by (simp add: ready_def terminal_dep_def [abs_def] sorted_items_def)

text \<open>C22: Deleting an item through the guarded tracker makes exactly those items ready, in the same order, that are ready when the
  item is marked as deleted, although an item that was never tried is taken out of the tracker with all its edges.
\<close>

theorem delete_ready_as_marked:
  assumes "wf_tracker (ct_tracker c)" "get (ct_tracker c) (IdStr k) = Some i" "check_mutable c i = None"
  shows "map it_id (ready (ct_tracker (snd (constrained_delete c k)))) =
    map it_id (ready (snd (update (ct_tracker c) (IdStr k) (no_update\<lparr>ua_status := Some DELETED\<rparr>))))"
proof -
  have wf: "wf_items (tk_items (ct_tracker c))" and i: "map_of (tk_items (ct_tracker c)) k = Some i"
    using assms(1,2) by (simp_all add: wf_tracker_def get_def)
  show ?thesis
    using assms(2,3) purge_drops [OF wf i] update_deleted [OF wf i] ready_drop [OF wf, of "[k]"]
    by (auto simp: constrained_delete_def guarded_def split: prod.splits)
qed

definition guarded_demo :: constrained where
  "guarded_demo = \<lparr>ct_tracker = run_ops (empty_tracker ''task'')
      [OpAdd ''a'' [] [] [] None None None None, OpAdd ''b'' [] [IdInt 1] [] None None None None,
       OpAdd ''c'' [] [IdInt 1] [] None None None (Some ''goal'')],
     ct_mutable_flavors = Some [''task''], ct_default_flavor = ''task''\<rparr>"

lemma guarded_demo_wf: "wf_tracker (ct_tracker guarded_demo)"
  by (simp add: guarded_demo_def tracker_wf_run)

theorem delete_ready_as_marked_witness:
  "map it_id (ready (ct_tracker (snd (constrained_delete guarded_demo ''1'')))) = [''2'', ''3'']"
proof -
  obtain i where i: "get (ct_tracker guarded_demo) (IdStr ''1'') = Some i" "check_mutable guarded_demo i = None"
  proof -
    have "(case get (ct_tracker guarded_demo) (IdStr ''1'') of None \<Rightarrow> False | Some i \<Rightarrow> check_mutable guarded_demo i = None)"
      by code_simp
    then show thesis using that by (auto split: option.splits)
  qed
  have "map it_id (ready (snd (update (ct_tracker guarded_demo) (IdStr ''1'') (no_update\<lparr>ua_status := Some DELETED\<rparr>)))) = [''2'', ''3'']"
    by code_simp
  then show ?thesis using delete_ready_as_marked [OF guarded_demo_wf i] by simp
qed

section \<open>What an agent cannot change\<close>

text \<open>
  An item is carried over: all its fields but the edges are as before, and of its dependencies at most some
  that the agent may change are gone.
\<close>

definition carried :: "constrained \<Rightarrow> item \<Rightarrow> item \<Rightarrow> bool" where
  "carried c i j \<longleftrightarrow> j = i\<lparr>it_depends_on := it_depends_on j, it_dependents := it_dependents j\<rparr> \<and>
     (\<exists>gone. it_depends_on j = filter (\<lambda>d. d \<notin> gone) (it_depends_on i) \<and>
       (\<forall>d \<in> gone \<inter> set (it_depends_on i). \<exists>m. get (ct_tracker c) (IdStr d) = Some m \<and> check_mutable c m = None))"

lemma carriedI:
  assumes "j = i\<lparr>it_depends_on := filter (\<lambda>d. d \<notin> gone) (it_depends_on i), it_dependents := dt\<rparr>"
    "\<And>d. d \<in> gone \<Longrightarrow> \<exists>m. get (ct_tracker c) (IdStr d) = Some m \<and> check_mutable c m = None"
  shows "carried c i j"
  unfolding carried_def by (intro conjI exI [of _ gone]) (use assms in auto)

lemma carried_refl: "carried c i i"
  by (rule carriedI [where gone = "{}" and dt = "it_dependents i"]) simp_all

lemma carried_dependents: "carried c i (i\<lparr>it_dependents := dt\<rparr>)"
  by (rule carriedI [where gone = "{}" and dt = dt]) simp_all

lemma update_other:
  assumes "map_of (tk_items t) k = Some i" "k \<noteq> m"
  shows "\<exists>dt. map_of (tk_items (snd (update t (IdStr m) a))) k = Some (i\<lparr>it_dependents := dt\<rparr>)"
proof -
  have same: "\<exists>dt. Some i = Some (i\<lparr>it_dependents := dt\<rparr>)" by (rule exI [of _ "it_dependents i"]) simp
  show ?thesis
    using assms same
    by (auto simp: update_def Let_def set_edges_def map_of_remove_dependents map_of_add_dependents split: option.splits if_splits)
qed

lemma check_mutable_edges [simp]: "check_mutable c (i\<lparr>it_depends_on := dp, it_dependents := dt\<rparr>) = check_mutable c i"
  by (simp add: check_mutable_def split: option.split)

lemma carried_protected: "carried c i j \<Longrightarrow> check_mutable c j = check_mutable c i"
  by (metis carried_def check_mutable_edges)

lemma snd_guarded:
  "snd (guarded c k f) = (case get (ct_tracker c) (IdStr k) of None \<Rightarrow> c
     | Some i \<Rightarrow> if check_mutable c i = None then c\<lparr>ct_tracker := snd (f i)\<rparr> else c)"
  by (auto simp: guarded_def split: option.splits prod.splits)

lemma call_wf:
  assumes wf: "wf_tracker (ct_tracker c)"
  shows "wf_tracker (ct_tracker (run_tracker_call c call)) \<and> ct_mutable_flavors (run_tracker_call c call) = ct_mutable_flavors c"
proof (cases call)
  case (CallAdd ti de ds md k)
  then show ?thesis using wf
    by (auto simp: add_item_tool_def constrained_add_def dest: add_wf split: sum.splits py_error.splits)
next
  case (CallUpdate k ti de ds md)
  then show ?thesis using wf by (auto simp: constrained_update_def snd_guarded update_wf split: option.splits)
next
  case (CallDelete k)
  have "wf_tracker (snd (purge (ct_tracker c) k))" if "map_of (tk_items (ct_tracker c)) k = Some i" for i
    using wf that purge_drops by (simp add: wf_tracker_drop wf_tracker_def [of "ct_tracker c"])
  with CallDelete show ?thesis using wf
    by (auto simp: constrained_delete_def snd_guarded get_def update_wf split: option.splits)
qed

lemma call_carries:
  assumes wf: "wf_tracker (ct_tracker c)" and i: "get (ct_tracker c) (IdStr k) = Some i" and p: "check_mutable c i \<noteq> None"
  shows "\<exists>j. get (ct_tracker (run_tracker_call c call)) (IdStr k) = Some j \<and> carried c i j"
proof (cases call)
  case (CallAdd ti de ds md a)
  show ?thesis
  proof (cases "constrained_add c ti de ds md a")
    case (Inl e)
    then have "run_tracker_call c call = c" by (auto simp: CallAdd add_item_tool_def split: py_error.splits)
    then show ?thesis using i carried_refl by auto
  next
    case (Inr r)
    then obtain k' t' where t': "add (ct_tracker c) ti de (map IdStr ds) md (map_option IdStr a) None None (Some (ct_default_flavor c)) = Inr (k', t')"
      "run_tracker_call c call = c\<lparr>ct_tracker := t'\<rparr>"
      by (auto simp: CallAdd constrained_add_def add_item_tool_def)
    then obtain t1 where c1: "choose_id (ct_tracker c) (map_option IdStr a) = Inr (k', t1)"
      and t1: "t' = save (insert_item t1 (new_item k' ti de (or_default (Some (ct_default_flavor c)) (tk_default_flavor t1)) ds None None md))"
      by (auto simp: add_def Let_def comp_def split: if_splits)
    have "map_of (tk_items (ct_tracker c)) k' = None" "tk_items t1 = tk_items (ct_tracker c)"
      using choose_id_Inr [OF c1] wf by (simp_all add: wf_tracker_def)
    then show ?thesis using i carried_dependents
      by (auto simp: t'(2) t1 get_def insert_item_def new_item_def map_of_add_dependents)
  qed
next
  case (CallUpdate m ti de ds md)
  show ?thesis
  proof (cases "m = k")
    case True
    then show ?thesis using CallUpdate i p carried_refl by (auto simp: constrained_update_def snd_guarded)
  next
    case False
    then show ?thesis
      using CallUpdate i update_other [of "ct_tracker c" k i m] carried_refl carried_dependents
      by (fastforce simp: constrained_update_def snd_guarded get_def split: option.splits)
  qed
next
  case (CallDelete m)
  show ?thesis
  proof (cases "m = k \<or> get (ct_tracker c) (IdStr m) = None \<or> check_mutable c (the (get (ct_tracker c) (IdStr m))) \<noteq> None")
    case True
    then have "run_tracker_call c call = c"
      using CallDelete i p by (auto simp: constrained_delete_def snd_guarded split: option.splits)
    then show ?thesis using i carried_refl by auto
  next
    case False
    then obtain l where l: "m \<noteq> k" "get (ct_tracker c) (IdStr m) = Some l" "check_mutable c l = None" by auto
    show ?thesis
    proof (cases "it_attempts l = 0")
      case True
      then have "tk_items (ct_tracker (run_tracker_call c call)) = drop_items [m] (tk_items (ct_tracker c))"
        using CallDelete l purge_drops [of "ct_tracker c" m l] wf
        by (simp add: constrained_delete_def snd_guarded get_def wf_tracker_def)
      moreover have "carried c i (without_edges [m] i)"
        by (rule carriedI [where gone = "{m}"]) (use l(2,3) in \<open>auto simp: without_edges_def\<close>)
      ultimately show ?thesis using i l(1) by (simp add: get_def)
    next
      case False
      then show ?thesis
        using CallDelete i l update_other [of "ct_tracker c" k i m] carried_dependents
        by (fastforce simp: constrained_delete_def snd_guarded get_def)
    qed
  qed
qed

lemma check_mutable_flavors: "ct_mutable_flavors c' = ct_mutable_flavors c \<Longrightarrow> check_mutable c' i = check_mutable c i"
  by (simp add: check_mutable_def)

lemma carried_step:
  assumes wf: "wf_tracker (ct_tracker c)" and i: "get (ct_tracker c) (IdStr k) = Some i"
    and j: "carried c i j" and l: "carried (run_tracker_call c call) j l"
  shows "carried c i l"
proof -
  let ?c = "run_tracker_call c call"
  obtain g1 where g1: "it_depends_on j = filter (\<lambda>d. d \<notin> g1) (it_depends_on i)"
    "\<forall>d \<in> g1 \<inter> set (it_depends_on i). \<exists>m. get (ct_tracker c) (IdStr d) = Some m \<and> check_mutable c m = None"
    using j by (auto simp: carried_def)
  obtain g2 where g2: "it_depends_on l = filter (\<lambda>d. d \<notin> g2) (it_depends_on j)"
    "\<forall>d \<in> g2 \<inter> set (it_depends_on j). \<exists>m. get (ct_tracker ?c) (IdStr d) = Some m \<and> check_mutable ?c m = None"
    using l by (auto simp: carried_def)
  have "\<exists>m. get (ct_tracker c) (IdStr d) = Some m \<and> check_mutable c m = None"
    if d: "d \<in> (g1 \<union> g2) \<inter> set (it_depends_on i)" for d
  proof (cases "d \<in> g1")
    case False
    then have "d \<in> g2 \<inter> set (it_depends_on j)" using d g1(1) by simp
    then obtain m' where m': "get (ct_tracker ?c) (IdStr d) = Some m'" "check_mutable ?c m' = None" using g2(2) by blast
    have "i \<in> set (dvals (tk_items (ct_tracker c)))" using i by (force simp: get_def dest: map_of_SomeD)
    then obtain m where m: "get (ct_tracker c) (IdStr d) = Some m"
      using stored_deps [of "tk_items (ct_tracker c)" i d] wf d by (auto simp: wf_tracker_def get_def)
    have "check_mutable c m = None"
    proof (rule ccontr)
      assume "check_mutable c m \<noteq> None"
      from call_carries [OF wf m this, of call] m'(1) have "carried c m m'" by auto
      then show False
        using m'(2) \<open>check_mutable c m \<noteq> None\<close> call_wf [OF wf] check_mutable_flavors carried_protected by metis
    qed
    then show ?thesis using m by blast
  qed (use d g1(2) in blast)
  moreover have "l = i\<lparr>it_depends_on := it_depends_on l, it_dependents := it_dependents l\<rparr>"
    using j l by (cases i; cases j; cases l) (simp add: carried_def)
  moreover have "it_depends_on l = filter (\<lambda>d. d \<notin> g1 \<union> g2) (it_depends_on i)"
    by (simp add: g1(1) g2(1) conj_commute cong: filter_cong)
  ultimately show ?thesis unfolding carried_def by blast
qed

lemma calls_carry:
  assumes "wf_tracker (ct_tracker c)" "get (ct_tracker c) (IdStr k) = Some i" "check_mutable c i \<noteq> None"
  shows "\<exists>j. get (ct_tracker (run_tracker_calls c calls)) (IdStr k) = Some j \<and> carried c i j"
  using assms
proof (induction calls arbitrary: c i)
  case Nil
  then show ?case using carried_refl by (auto simp: run_tracker_calls_def)
next
  case (Cons call calls)
  let ?c = "run_tracker_call c call"
  obtain j where j: "get (ct_tracker ?c) (IdStr k) = Some j" "carried c i j"
    using call_carries [OF Cons.prems] by blast
  have w: "wf_tracker (ct_tracker ?c)" "ct_mutable_flavors ?c = ct_mutable_flavors c" using call_wf Cons.prems(1) by auto
  have "check_mutable ?c j \<noteq> None"
    using Cons.prems(3) carried_protected [OF j(2)] check_mutable_flavors [OF w(2)] by simp
  from Cons.IH [OF w(1) j(1) this] obtain l where
    "get (ct_tracker (run_tracker_calls ?c calls)) (IdStr k) = Some l" "carried ?c j l" by blast
  then show ?case
    using carried_step [OF Cons.prems(1,2) j(2)] by (auto simp: run_tracker_calls_def)
qed



text \<open>The agents' calls keep the structural invariant of the tracker.\<close>

lemma calls_wf: "wf_tracker (ct_tracker c) \<Longrightarrow> wf_tracker (ct_tracker (run_tracker_calls c calls))"
  by (induction calls arbitrary: c) (simp_all add: run_tracker_calls_def call_wf)

end
