(* ===== verification/Run_Archive.thy ===== *)
theory Run_Archive
  imports Item_Tracker Py_Float
begin

text \<open>
  \<open>autoform/bot/archive.py\<close>: the trace store that keeps the whole conversation of an agent across compactions, the
  pruning of finished items, the usage of the traces that are deleted, and the preparation of a fresh run, on the files of
  the run's directory; and the category of a trace as \<open>autoform/visualizer/app.py\<close> computes it.
\<close>

section \<open>The archive of traces\<close>

text \<open>
  A trace with its messages, of type \<open>'m\<close>, and all its other fields, of type \<open>'b\<close>; a trace of steps has no
  messages. A file of the archive is such a trace or cannot be read.
\<close>

record ('m, 'b) saved_trace =
  sv_id :: string
  sv_messages :: "'m list option"
  sv_status :: string
  sv_body :: 'b

datatype ('m, 'b) trace_file = Readable 'b "'m list option" | Unreadable

record ('m, 'b) archive_store =
  as_live :: "(string, ('m, 'b) trace_file) dict"
  as_files :: "(string, ('m, 'b) trace_file) dict"
  as_messages :: "(string, 'm list) dict"
  as_counts :: "(string, nat) dict"

text \<open>The first encounter of a trace: the messages of its file, or those of the trace.\<close>

definition first_encounter :: "string \<Rightarrow> 'm list \<Rightarrow> ('m, 'b) archive_store \<Rightarrow> ('m, 'b) archive_store" where
  "first_encounter k messages s =
     (if has_key (as_messages s) k then s
      else s\<lparr>as_messages := dset (as_messages s) k (case dget (as_files s) k of
               Some (Readable _ archived) \<Rightarrow> (case archived of Some ms \<Rightarrow> ms | None \<Rightarrow> [])
             | _ \<Rightarrow> messages),
             as_counts := dset (as_counts s) k (length messages)\<rparr>)"

definition append_new :: "string \<Rightarrow> 'm list \<Rightarrow> ('m, 'b) archive_store \<Rightarrow> ('m, 'b) archive_store" where
  "append_new k messages s =
     (let prev_count = dget_or (as_counts s) k 0; old = dget_or (as_messages s) k [];
          new = (if prev_count < length messages then drop prev_count messages
                 else if length messages < prev_count then drop 1 messages
                 else [])
      in s\<lparr>as_messages := dset (as_messages s) k (old @ new), as_counts := dset (as_counts s) k (length messages)\<rparr>)"

definition save_archived :: "('m, 'b) saved_trace \<Rightarrow> ('m, 'b) archive_store \<Rightarrow> ('m, 'b) archive_store" where
  "save_archived tr s0 =
     (let k = sv_id tr; s = s0\<lparr>as_live := dset (as_live s0) k (Readable (sv_body tr) (sv_messages tr))\<rparr>
      in case sv_messages tr of
           None \<Rightarrow> s\<lparr>as_files := dset (as_files s) k (Readable (sv_body tr) None)\<rparr>
         | Some messages \<Rightarrow>
             let s1 = append_new k messages (first_encounter k messages s);
                 s2 = s1\<lparr>as_files := dset (as_files s1) k (Readable (sv_body tr) (Some (dget_or (as_messages s1) k [])))\<rparr>
             in if sv_status tr = ''running'' then s2
                else s2\<lparr>as_messages := ddel (as_messages s2) k, as_counts := ddel (as_counts s2) k\<rparr>)"

section \<open>Pruning finished items\<close>

definition TERMINAL_STATUSES :: "string list" where
  "TERMINAL_STATUSES = [''completed'', ''deleted'']"

definition get_field :: "json \<Rightarrow> string \<Rightarrow> json result" where
  "get_field j k = (case j of JObj d \<Rightarrow> Inr (dget_or d k JNull) | _ \<Rightarrow> Inl (AttributeError ''get''))"

definition item_id_of :: "json \<Rightarrow> string result" where
  "item_id_of j =
     (case j of
        JObj d \<Rightarrow> (case dget d ''id'' of Some v \<Rightarrow> Inr (str_json v) | None \<Rightarrow> Inl (KeyError ''id''))
      | _ \<Rightarrow> Inl (TypeError ''not subscriptable with a string''))"

definition has_terminal_status :: "json \<Rightarrow> bool result" where
  "has_terminal_status j =
     rbind (get_field j ''status'') (\<lambda>st. case st of
         JStr s \<Rightarrow> Inr (s \<in> set TERMINAL_STATUSES)
       | JArr _ \<Rightarrow> Inl (TypeError ''unhashable type'')
       | JObj _ \<Rightarrow> Inl (TypeError ''unhashable type'')
       | _ \<Rightarrow> Inr False)"

definition pruned_id :: "json \<Rightarrow> string list result" where
  "pruned_id j = rbind (has_terminal_status j) (\<lambda>b. if b then rbind (item_id_of j) (\<lambda>k. Inr [k]) else Inr [])"

definition pruned_ids_of :: "json list \<Rightarrow> string list result" where
  "pruned_ids_of items = rbind (mapM pruned_id items) (\<lambda>ids. Inr (remdups (concat ids)))"

text \<open>One of the edge lists of an item that is kept.\<close>

definition clean_edges :: "string list \<Rightarrow> string \<Rightarrow> (string, json) dict \<Rightarrow> (string, json) dict result" where
  "clean_edges pruned key d =
     rbind (as_list (dget_or d key (JArr []))) (\<lambda>ds. Inr (dset d key (JArr (filter (\<lambda>x. str_json x \<notin> set pruned) ds))))"

definition clean_item :: "string list \<Rightarrow> json \<Rightarrow> json result" where
  "clean_item pruned j =
     rbind (as_obj j) (\<lambda>d. rbind (clean_edges pruned ''depends_on'' d) (\<lambda>d. rbind (clean_edges pruned ''dependents'' d) (\<lambda>d. Inr (JObj d))))"

definition keep_item :: "string list \<Rightarrow> json \<Rightarrow> json list result" where
  "keep_item pruned j = rbind (item_id_of j) (\<lambda>k. Inr (if k \<in> set pruned then [] else [j]))"

text \<open>The pruned ids, and the new data if there are any.\<close>

definition prune_dag :: "json \<Rightarrow> (string list \<times> json option) result" where
  "prune_dag dag =
     (case dag of
        JObj d \<Rightarrow>
          rbind (as_list (dget_or d ''items'' (JArr []))) (\<lambda>items.
          rbind (pruned_ids_of items) (\<lambda>pruned.
          if pruned = [] then Inr ([], None)
          else rbind (mapM (keep_item pruned) items) (\<lambda>kept.
            rbind (mapM (clean_item pruned) (concat kept)) (\<lambda>cleaned.
            Inr (pruned, Some (JObj (dset d ''items'' (JArr cleaned))))))))
      | _ \<Rightarrow> Inl (AttributeError ''get''))"

section \<open>Usage\<close>

text \<open>The parts of a path beneath the directory of the traces.\<close>

definition categorize_trace :: "string list \<Rightarrow> string" where
  "categorize_trace parts =
     (if parts = [''orchestrator.json''] then ''orchestrator''
      else if hd parts = ''tasks'' \<and> 2 \<le> length parts
      then (let fname = last parts
            in if fname = ''analyzer.json'' then ''analyzers''
               else if contains fname ''worker'' then ''workers''
               else if contains fname ''reviewer'' then ''reviewers''
               else ''other'')
      else if hd parts = ''readers'' then ''readers''
      else if hd parts \<in> {''eval'', ''judge''} then ''eval''
      else if hd parts = ''merge_eval'' then ''merge_eval''
      else ''other'')"

text \<open>The category to which \<open>_load_run_data\<close> of the visualizer adds the cost of a trace.\<close>

definition visualizer_category :: "string list \<Rightarrow> string" where
  "visualizer_category parts =
     (if parts = [''orchestrator.json''] then ''orchestrator''
      else if length parts < 3 \<or> hd parts \<noteq> ''tasks''
      then (if hd parts = ''readers'' then ''readers''
            else if hd parts \<in> {''merge_eval'', ''merge_batches''} then ''merge_eval''
            else if hd parts \<in> {''eval'', ''judge''} then ''eval''
            else ''other'')
      else (let fname = last parts
            in if fname = ''analyzer.json'' then ''analyzers''
               else if contains fname ''worker'' then ''workers''
               else if contains fname ''reviewer'' then ''reviewers''
               else ''other''))"

text \<open>What the snapshot reads of a trace: the cost and the tokens of its summary, if it has one, and the calls.\<close>

record usage_call =
  uc_model :: string
  uc_input :: int
  uc_output :: int
  uc_cached :: int
  uc_creation :: int
  uc_cost :: "rat option"

record trace_usage =
  tu_summary :: "(rat \<times> int) option"
  tu_calls :: "usage_call list"

record model_stats =
  ms_input :: int
  ms_output :: int
  ms_cache_read :: int
  ms_cache_creation :: int
  ms_cost :: rat

record usage_snapshot =
  us_timestamp :: string
  us_cost :: rat
  us_tokens :: int
  us_categories :: "(string, rat) dict"
  us_models :: "(string, model_stats) dict"

definition CATEGORIES :: "string list" where
  "CATEGORIES = [''workers'', ''reviewers'', ''orchestrator'', ''analyzers'', ''readers'', ''eval'', ''merge_eval'', ''other'']"

definition no_stats :: model_stats where
  "no_stats = \<lparr>ms_input = 0, ms_output = 0, ms_cache_read = 0, ms_cache_creation = 0, ms_cost = 0\<rparr>"

definition count_call :: "(string, model_stats) dict \<Rightarrow> usage_call \<Rightarrow> (string, model_stats) dict" where
  "count_call stats c =
     (let m = dget_or stats (uc_model c) no_stats
      in dset stats (uc_model c) \<lparr>ms_input = ms_input m + uc_input c, ms_output = ms_output m + uc_output c,
           ms_cache_read = ms_cache_read m + uc_cached c, ms_cache_creation = ms_cache_creation m + uc_creation c,
           ms_cost = flt (ms_cost m + (case uc_cost c of Some x \<Rightarrow> x | None \<Rightarrow> 0))\<rparr>)"

text \<open>A file is given with the parts of its path and what can be read of it.\<close>

definition count_trace :: "usage_snapshot \<Rightarrow> string list \<times> trace_usage option \<Rightarrow> usage_snapshot" where
  "count_trace u f =
     (case f of (parts, content) \<Rightarrow>
        if last parts = ''steps.json'' then u
        else (case content of
            None \<Rightarrow> u
          | Some tr \<Rightarrow> (case tu_summary tr of
              None \<Rightarrow> u
            | Some (cost, tokens) \<Rightarrow>
                u\<lparr>us_cost := flt (us_cost u + cost), us_tokens := us_tokens u + tokens,
                  us_categories := dmodify (us_categories u) (categorize_trace parts) (\<lambda>x. flt (x + cost)),
                  us_models := foldl count_call (us_models u) (tu_calls tr)\<rparr>)))"

definition compute_usage_snapshot :: "(string list \<times> trace_usage option) list \<Rightarrow> string \<Rightarrow> usage_snapshot" where
  "compute_usage_snapshot files timestamp =
     (let u = foldl count_trace \<lparr>us_timestamp = timestamp, us_cost = 0, us_tokens = 0,
                us_categories = map (\<lambda>c. (c, 0)) CATEGORIES, us_models = []\<rparr> files
      in u\<lparr>us_cost := py_round (us_cost u) 4\<rparr>)"

section \<open>The files of a run\<close>

text \<open>
  The files beneath the run's directory, each under the parts of its path; a directory is there when a file is in
  it. What a file holds is a value, the usage of a trace, a usage snapshot, or anything else.
\<close>

datatype run_file = JsonFile json | TraceFile trace_usage | UsageFile usage_snapshot | OtherFile string

type_synonym run_files = "(string list, run_file) dict"

definition beneath :: "string list \<Rightarrow> string list \<Rightarrow> bool" where
  "beneath dir p = (take (length dir) p = dir \<and> length dir < length p)"

definition dir_exists :: "string list \<Rightarrow> run_files \<Rightarrow> bool" where
  "dir_exists dir fs = list_ex (beneath dir) (dkeys fs)"

definition rmtree :: "string list \<Rightarrow> run_files \<Rightarrow> run_files" where
  "rmtree dir fs = filter (\<lambda>(p, _). \<not> beneath dir p) fs"

text \<open>\<open>shutil.move\<close> of a directory: into the destination when that is a directory.\<close>

definition move_dir :: "string list \<Rightarrow> string list \<Rightarrow> run_files \<Rightarrow> run_files" where
  "move_dir src dest fs =
     (let to = (if dir_exists dest fs then dest @ [last src] else dest)
      in foldl (\<lambda>acc (p, c). dset acc (to @ drop (length src) p) c) (rmtree src fs) (filter (\<lambda>(p, _). beneath src p) fs))"

definition copy_file :: "string list \<Rightarrow> string list \<Rightarrow> run_files \<Rightarrow> run_files" where
  "copy_file src dest fs = (case dget fs src of Some c \<Rightarrow> dset fs dest c | None \<Rightarrow> fs)"

definition json_files :: "string list \<Rightarrow> run_files \<Rightarrow> string list list" where
  "json_files dir fs = filter (\<lambda>p. beneath dir p \<and> endswith (last p) ''.json'') (dkeys fs)"

text \<open>\<open>archive_reports\<close>: every report of a round, with the number of the round in its name.\<close>

definition round_name :: "nat \<Rightarrow> string \<Rightarrow> string" where
  "round_name n name = take (length name - 5) name @ ''_round'' @ str_nat n @ ''.json''"

definition report_paths :: "string list \<Rightarrow> run_files \<Rightarrow> string list list" where
  "report_paths dir fs = filter (\<lambda>p. butlast p = dir \<and> p \<noteq> [] \<and> endswith (last p) ''.json'') (dkeys fs)"

definition archive_reports :: "string list \<Rightarrow> string list \<Rightarrow> nat \<Rightarrow> run_files \<Rightarrow> run_files" where
  "archive_reports reports archive round_num fs =
     foldl (\<lambda>acc p. copy_file p (archive @ [round_name round_num (last p)]) acc) fs (report_paths reports fs)"

definition archive_skills :: "string list \<Rightarrow> string list \<Rightarrow> string \<Rightarrow> run_files \<Rightarrow> run_files" where
  "archive_skills skills archive task_id fs =
     (let src = skills @ [''tasks'', task_id]; dest = archive @ [''tasks'', task_id]
      in if \<not> dir_exists src fs then fs
         else foldl (\<lambda>acc (p, c). dset acc (dest @ drop (length src) p) c) (rmtree dest fs) (filter (\<lambda>(p, _). beneath src p) fs))"

section \<open>Preparing a fresh run\<close>

definition read_trace :: "run_files \<Rightarrow> string list \<Rightarrow> trace_usage option" where
  "read_trace fs p = (case dget fs p of Some (TraceFile u) \<Rightarrow> Some u | _ \<Rightarrow> None)"

definition TRACE_DIRS :: "string list" where
  "TRACE_DIRS = [''eval'', ''merge_eval'', ''merge_batches'', ''readers'']"

definition dirs_to_delete :: "run_files \<Rightarrow> string list" where
  "dirs_to_delete fs = filter (\<lambda>d. dir_exists [''traces'', d] fs) TRACE_DIRS"

definition files_to_snapshot :: "string list \<Rightarrow> run_files \<Rightarrow> string list list" where
  "files_to_snapshot pruned fs =
     (if has_key fs [''traces'', ''orchestrator.json''] then [[''traces'', ''orchestrator.json'']] else []) @
     concat (map (\<lambda>k. json_files [''traces'', ''tasks'', k] fs) pruned) @
     concat (map (\<lambda>d. json_files [''traces'', d] fs) (dirs_to_delete fs))"

definition save_usage :: "string \<Rightarrow> string list \<Rightarrow> run_files \<Rightarrow> run_files" where
  "save_usage ts pruned fs =
     (let files = files_to_snapshot pruned fs
      in if files = [] then fs
         else dset fs [''archive'', ''usage_snapshot_'' @ ts @ ''.json'']
           (UsageFile (compute_usage_snapshot (map (\<lambda>p. (tl p, read_trace fs p)) files) ts)))"

definition archive_orchestrator :: "string \<Rightarrow> run_files \<Rightarrow> run_files" where
  "archive_orchestrator ts fs =
     (let p = [''traces'', ''orchestrator.json'']
      in if has_key fs p then ddel (copy_file p [''archive'', ''orchestrator_'' @ ts @ ''.json''] fs) p else fs)"

definition delete_task_files :: "run_files \<Rightarrow> string \<Rightarrow> run_files" where
  "delete_task_files fs k = ddel (rmtree [''traces'', ''tasks'', k] fs) [''reports'', ''task_reports'', k @ ''.json'']"

definition clear_trace_dir :: "string \<Rightarrow> run_files \<Rightarrow> string \<Rightarrow> run_files" where
  "clear_trace_dir ts fs d =
     (if d = ''eval'' then move_dir [''traces'', d] [''archive'', ''traces'', ''eval_'' @ ts] fs else rmtree [''traces'', d] fs)"

definition move_merge_reports :: "string \<Rightarrow> run_files \<Rightarrow> run_files" where
  "move_merge_reports ts fs =
     (if dir_exists [''reports'', ''merge_reports''] fs
      then move_dir [''reports'', ''merge_reports''] [''archive'', ''reports'', ''merge_reports_'' @ ts] fs else fs)"

text \<open>The directories of \<open>eval_reports\<close>; \<open>latest\<close> is the name of the directory the link \<open>latest\<close> leads to.\<close>

definition eval_report_dirs :: "run_files \<Rightarrow> string list" where
  "eval_report_dirs fs =
     remdups (map (\<lambda>p. p ! 2) (filter (\<lambda>p. beneath [''reports'', ''eval_reports''] p \<and> 3 < length p) (dkeys fs)))"

definition move_eval_reports :: "string \<Rightarrow> string option \<Rightarrow> run_files \<Rightarrow> run_files" where
  "move_eval_reports ts latest fs =
     foldl (\<lambda>acc d. move_dir [''reports'', ''eval_reports'', d] [''archive'', ''reports'', ''eval_reports_'' @ ts, d] acc) fs
       (filter (\<lambda>d. Some d \<noteq> latest) (eval_report_dirs fs))"

text \<open>The steps after the pruning; the directories of traces are those that are there before anything is moved.\<close>

definition clear_run :: "string \<Rightarrow> string option \<Rightarrow> string list \<Rightarrow> run_files \<Rightarrow> run_files" where
  "clear_run ts latest pruned fs =
     move_eval_reports ts latest (move_merge_reports ts
       (foldl (clear_trace_dir ts)
         (foldl delete_task_files (archive_orchestrator ts (save_usage ts pruned fs)) pruned)
         (dirs_to_delete fs)))"

definition store_dag :: "string \<Rightarrow> json option \<Rightarrow> run_files \<Rightarrow> run_files" where
  "store_dag ts pruned_dag fs =
     (let fs' = copy_file [''dag.json''] [''archive'', ''dag_'' @ ts @ ''.json''] fs
      in case pruned_dag of Some d \<Rightarrow> dset fs' [''dag.json''] (JsonFile d) | None \<Rightarrow> fs')"

text \<open>\<open>pruned_ids\<close> is a set: \<open>order\<close> is the order in which it is iterated over. Ids have no slash.\<close>

definition prepare_fresh_run ::
  "(string list \<Rightarrow> string list) \<Rightarrow> string \<Rightarrow> string option \<Rightarrow> run_files \<Rightarrow> run_files result" where
  "prepare_fresh_run order ts latest fs =
     (case dget fs [''dag.json''] of
        None \<Rightarrow> Inr fs
      | Some (JsonFile dag) \<Rightarrow>
          rbind (prune_dag dag) (\<lambda>(ids, pruned_dag).
            Inr (clear_run ts latest (order ids) (ddel (rmtree [''tool-results''] (store_dag ts pruned_dag fs)) [''stats.json''])))
      | Some _ \<Rightarrow> Inl (JSONDecodeError ''dag.json''))"

end
