(* ===== verification/Run_Archive_Correct.thy ===== *)
theory Run_Archive_Correct
  imports Run_Archive Tracker_Removal "HOL-Library.Sublist"
begin

text \<open>
  The archive of a run: what it keeps of a conversation and what it misses after a restart, the effect of the
  pruning on the tracker that is loaded next, the categories of traces, and the files a fresh run leaves alone.
\<close>

section \<open>The conversation in the archive\<close>

definition archived :: "('m, 'b) archive_store \<Rightarrow> string \<Rightarrow> 'm list" where
  "archived s k = (case dget (as_files s) k of Some (Readable _ (Some ms)) \<Rightarrow> ms | _ \<Rightarrow> [])"

text \<open>
  After some saves of a running trace: the cache and the file agree, the count is that of the last messages, and these but
  for the first end the archive.
\<close>

definition tracks :: "string \<Rightarrow> 'm list \<Rightarrow> ('m, 'b) archive_store \<Rightarrow> bool" where
  "tracks k ms s \<longleftrightarrow> dget (as_messages s) k = Some (archived s k) \<and> dget (as_counts s) k = Some (length ms) \<and>
     suffix (drop 1 ms) (archived s k)"

definition running :: "string \<Rightarrow> 'm list \<times> 'b \<Rightarrow> ('m, 'b) saved_trace" where
  "running k m = \<lparr>sv_id = k, sv_messages = Some (fst m), sv_status = ''running'', sv_body = snd m\<rparr>"

text \<open>A conversation grows at its end, or a compaction makes it shorter.\<close>

definition continues :: "'m list \<Rightarrow> 'm list \<Rightarrow> bool" where
  "continues ms ms' \<longleftrightarrow> prefix ms ms' \<or> length ms' < length ms"

lemma save_running:
  assumes "dget (as_messages s) k = Some a" "dget (as_counts s) k = Some n"
  shows "archived (save_archived (running k (ms, b)) s) k =
      a @ (if n < length ms then drop n ms else if length ms < n then drop 1 ms else [])"
    "dget (as_messages (save_archived (running k (ms, b)) s)) k = Some (archived (save_archived (running k (ms, b)) s) k)"
    "dget (as_counts (save_archived (running k (ms, b)) s)) k = Some (length ms)"
  using assms
  by (simp_all add: save_archived_def running_def first_encounter_def append_new_def has_key_def Let_def archived_def dget_or_def)

lemma save_tracks:
  assumes "tracks k ms s" "continues ms ms'"
  shows "tracks k ms' (save_archived (running k (ms', b)) s) \<and> prefix (archived s k) (archived (save_archived (running k (ms', b)) s) k)"
proof -
  note sv = save_running [of s k "archived s k" "length ms" ms' b]
  have s: "dget (as_messages s) k = Some (archived s k)" "dget (as_counts s) k = Some (length ms)" "suffix (drop 1 ms) (archived s k)"
    using assms(1) by (simp_all add: tracks_def)
  have "suffix (drop 1 ms') (archived s k @ (if length ms < length ms' then drop (length ms) ms' else if length ms' < length ms then drop 1 ms' else []))"
  proof (cases "length ms' < length ms")
    case True
    then show ?thesis by (simp add: suffix_def)
  next
    case False
    then obtain new where "ms' = ms @ new" using assms(2) by (auto simp: continues_def prefix_def)
    moreover have "suffix (drop 1 new) (archived s k @ new)"
      unfolding suffix_def by (rule exI [of _ "archived s k @ take 1 new"]) simp
    ultimately show ?thesis using s(3) by (cases ms) (auto simp: suffix_def)
  qed
  then show ?thesis using sv [OF s(1,2)] by (simp add: tracks_def)
qed

lemma first_save_tracks:
  assumes "\<not> has_key (as_messages s) k" "dget (as_files s) k = None"
  shows "tracks k ms (save_archived (running k (ms, b)) s)" "archived (save_archived (running k (ms, b)) s) k = ms"
  using assms
  by (simp_all add: tracks_def save_archived_def running_def first_encounter_def append_new_def has_key_def Let_def archived_def
      dget_or_def suffix_drop)

definition save_all :: "string \<Rightarrow> ('m list \<times> 'b) list \<Rightarrow> ('m, 'b) archive_store \<Rightarrow> ('m, 'b) archive_store" where
  "save_all k ms s = foldl (\<lambda>s m. save_archived (running k m) s) s ms"

lemma save_all_archives:
  assumes "tracks k ms s" "successively (\<lambda>a b. continues (fst a) (fst b)) ((ms, b0) # saves)"
  shows "prefix (archived s k) (archived (save_all k saves s) k) \<and>
    (\<forall>(ms', b) \<in> set saves. subseq (drop 1 ms') (archived (save_all k saves s) k))"
  using assms
proof (induction saves arbitrary: ms b0 s)
  case Nil
  then show ?case by (simp add: save_all_def)
next
  case (Cons m saves)
  obtain ms' b where m: "m = (ms', b)" by (cases m)
  let ?s = "save_archived (running k (ms', b)) s"
  have t: "tracks k ms' ?s" "prefix (archived s k) (archived ?s k)" using save_tracks Cons.prems m by fastforce+
  have "successively (\<lambda>a b. continues (fst a) (fst b)) ((ms', b) # saves)" using Cons.prems(2) m by simp
  from Cons.IH [OF t(1) this]
  have ih: "prefix (archived ?s k) (archived (save_all k saves ?s) k)"
    "\<forall>(ms', b) \<in> set saves. subseq (drop 1 ms') (archived (save_all k saves ?s) k)" by auto
  have "suffix (drop 1 ms') (archived ?s k)" using t(1) by (simp add: tracks_def)
  then have "subseq (drop 1 ms') (archived (save_all k saves ?s) k)"
    using ih(1) by (meson prefix_imp_subseq subseq_order.trans suffix_imp_subseq)
  moreover have "save_all k (m # saves) s = save_all k saves ?s" by (simp add: save_all_def m)
  ultimately show ?case using ih t(2) m by (auto intro: prefix_order.trans)
qed


definition no_archive :: "(string, unit) archive_store" where
  "no_archive = \<lparr>as_live = [], as_files = [], as_messages = [], as_counts = []\<rparr>"


text \<open>The first save of a trace that is not cached (the process started again, or the trace was finished and
  goes on) writes the messages the archive had, and none of those added since: the comparison with the count is meant to run
  on this save too, but the count was set to the present length just before.
\<close>

theorem first_save_adds_nothing:
  assumes "\<not> has_key (as_messages s) (sv_id tr)" "dget (as_files s) (sv_id tr) = Some (Readable b0 (Some old))" "sv_messages tr = Some ms"
  shows "archived (save_archived tr s) (sv_id tr) = old"
  using assms by (simp add: save_archived_def first_encounter_def append_new_def has_key_def Let_def archived_def dget_or_def)

definition finished_and_resumed :: "(string, unit) archive_store" where
  "finished_and_resumed = foldl (\<lambda>s tr. save_archived tr s) no_archive
     [\<lparr>sv_id = ''t'', sv_messages = Some [''p'', ''a''], sv_status = ''completed'', sv_body = ()\<rparr>]"

theorem first_save_adds_nothing_witness:
  "archived (save_archived (running ''t'' ([''p'', ''a'', ''b'', ''c''], ())) finished_and_resumed) ''t'' = [''p'', ''a'']"
proof -
  have "\<not> has_key (as_messages finished_and_resumed) ''t''" "dget (as_files finished_and_resumed) ''t'' = Some (Readable () (Some [''p'', ''a'']))"
    by code_simp+
  then show ?thesis
    using first_save_adds_nothing [of finished_and_resumed "running ''t'' ([''p'', ''a'', ''b'', ''c''], ())"] by (simp add: running_def)
qed

section \<open>Pruning and the tracker\<close>

text \<open>The ids of the finished items, in the order of the tracker.\<close>

definition finished_ids :: "tracker \<Rightarrow> string list" where
  "finished_ids t = map it_id (filter (\<lambda>i. it_status i \<in> set TERMINAL) (dvals (tk_items t)))"

lemma clean_item_json: "clean_item ks (item_json i) = Inr (item_json (without_edges ks i))"
  by (simp add: clean_item_def clean_edges_def item_json_def dget_or_def filter_map comp_def without_edges_def)

lemma terminal_item_json [simp]: "has_terminal_status (item_json i) = Inr (it_status i \<in> set TERMINAL)"
  by (simp add: has_terminal_status_def get_field_def item_json_def dget_or_def TERMINAL_STATUSES_def TERMINAL_def status_defs)

lemma id_item_json [simp]: "item_id_of (item_json i) = Inr (it_id i)"
  by (simp add: item_id_of_def item_json_def)

lemma mapM_map: "mapM f (map g xs) = mapM (\<lambda>x. f (g x)) xs"
  by (induction xs) simp_all

lemma mapM_pure: "mapM (\<lambda>x. Inr (h x)) xs = Inr (map h xs)"
  by (induction xs) simp_all

lemma concat_singletons: "concat (map (\<lambda>x. if P x then [f x] else []) xs) = map f (filter P xs)"
  by (induction xs) simp_all

lemma concat_others: "concat (map (\<lambda>x. if P x then [] else [f x]) xs) = map f (filter (\<lambda>x. \<not> P x) xs)"
  by (induction xs) simp_all

lemma prune_saved:
  assumes "wf_tracker t" "tk_disk (save t) = Some j"
  shows "prune_dag j = Inr (finished_ids t, if finished_ids t = [] then None
     else tk_disk (save (t\<lparr>tk_items := drop_items (finished_ids t) (tk_items t)\<rparr>)))"
proof -
  let ?is = "dvals (tk_items t)" let ?js = "map item_json ?is" and ?ks = "finished_ids t"
  have wf: "wf_items (tk_items t)" using assms(1) by (simp add: wf_tracker_def)
  have key: "it_id i = k" if "(k, i) \<in> set (tk_items t)" for k i
    using that wf by (auto simp: wf_items_def dest: wf_dict_mapD)
  then have "map it_id ?is = dkeys (tk_items t)" by auto
  then have "distinct (map it_id ?is)" using wf by (metis wf_items_def wf_dict_def)
  then have dist: "remdups ?ks = ?ks" unfolding finished_ids_def by (intro distinct_remdups_id distinct_map_filter)
  have "pruned_ids_of ?js = Inr ?ks"
    using dist unfolding finished_ids_def
    by (simp add: pruned_ids_of_def mapM_map [of _ item_json] pruned_id_def if_distrib [of Inr, symmetric] mapM_pure concat_singletons
        cong: if_cong del: map_map)
  moreover have "mapM (keep_item ?ks) ?js = Inr (map (\<lambda>i. if it_id i \<in> set ?ks then [] else [item_json i]) ?is)"
    by (simp add: mapM_map keep_item_def if_distrib [of Inr, symmetric] mapM_pure)
  moreover have "mapM (clean_item ?ks) (map item_json is) = Inr (map (\<lambda>i. item_json (without_edges ?ks i)) is)" for "is"
    by (simp add: mapM_map clean_item_json mapM_pure)
  ultimately show ?thesis
    using assms(2) by (auto simp: save_def prune_dag_def dget_or_def concat_others dvals_drop [OF wf] simp del: map_map)
      (simp add: comp_def)
qed

lemma finished_iff:
  assumes "wf_items (tk_items t)"
  shows "k \<in> set (finished_ids t) \<longleftrightarrow> (\<exists>i. map_of (tk_items t) k = Some i \<and> it_status i \<in> set TERMINAL)"
proof
  assume "k \<in> set (finished_ids t)"
  then obtain i where "i \<in> set (dvals (tk_items t))" "it_id i = k" "it_status i \<in> set TERMINAL"
    unfolding finished_ids_def set_map [of it_id] set_filter by blast
  then show "\<exists>i. map_of (tk_items t) k = Some i \<and> it_status i \<in> set TERMINAL" using stored_iff [OF assms] by blast
next
  assume "\<exists>i. map_of (tk_items t) k = Some i \<and> it_status i \<in> set TERMINAL"
  then obtain i where i: "map_of (tk_items t) k = Some i" "it_status i \<in> set TERMINAL" by blast
  then have "it_id i = k" using assms by (simp add: wf_items_def)
  then have "i \<in> set (dvals (tk_items t))" using i stored_iff [OF assms, of i] by simp
  then show "k \<in> set (finished_ids t)"
    unfolding finished_ids_def set_map [of it_id] set_filter using i(2) \<open>it_id i = k\<close> by blast
qed

lemma ready_mark_finished:
  assumes "wf_items (tk_items t)"
  shows "map it_id (ready (t\<lparr>tk_items := mark_deleted (finished_ids t) (tk_items t)\<rparr>)) = map it_id (ready t)"
proof -
  let ?ks = "finished_ids t" let ?b = "t\<lparr>tk_items := mark_deleted ?ks (tk_items t)\<rparr>"
  let ?m = "\<lambda>i. if it_id i \<in> set ?ks then i\<lparr>it_status := DELETED\<rparr> else i"
  have fin: "it_id i \<in> set ?ks \<longleftrightarrow> it_status i \<in> set TERMINAL" if "i \<in> set (sorted_items t)" for i
    using that stored_iff [OF assms, of i] finished_iff [OF assms, of "it_id i"] by (simp del: set_map)
  have dep: "terminal_dep ?b = terminal_dep t"
    using finished_iff [OF assms] by (auto simp: fun_eq_iff terminal_dep_def TERMINAL_def split: option.split)
  have "filter (\<lambda>i. it_status (?m i) = PENDING \<and> list_all (terminal_dep t) (it_depends_on (?m i))) (sorted_items t) =
      filter (\<lambda>i. it_status i = PENDING \<and> list_all (terminal_dep t) (it_depends_on i)) (sorted_items t)" (is "?l = ?r")
    using fin by (intro filter_cong) (auto simp: TERMINAL_def status_defs)
  then have "map (it_id \<circ> ?m) ?l = map (it_id \<circ> ?m) ?r" by simp
  moreover have "map (it_id \<circ> ?m) ?r = map it_id ?r" by (rule map_cong) auto
  ultimately show ?thesis
    unfolding ready_def sorted_items_mark [OF assms] dep by (simp add: filter_map comp_def)
qed

text \<open>C21: After any history of the tracker, the pruning of its file removes exactly the completed and deleted items; the
  tracker that is loaded from the new file has the others unchanged but for the edges to the removed ones, keeps
  the counter of ids, and has the same items ready in the same order.
\<close>

theorem pruned_tracker_loads:
  assumes "t = run_ops (empty_tracker fl) ops" "tk_disk (save t) = Some j" "prune_dag j = Inr (ks, Some j')"
  shows "set ks = {k. \<exists>i. get t (IdStr k) = Some i \<and> it_status i \<in> {COMPLETED, DELETED}} \<and>
    (\<exists>t'. load fl (Some j') = Inr t' \<and> tk_items t' = drop_items ks (tk_items t) \<and> tk_next_id t' = tk_next_id t \<and>
      map it_id (ready t') = map it_id (ready t))"
proof -
  have wft: "wf_tracker t" by (simp add: assms(1) tracker_wf_run)
  then have wf: "wf_items (tk_items t)" by (simp add: wf_tracker_def)
  let ?t = "t\<lparr>tk_items := drop_items (finished_ids t) (tk_items t)\<rparr>"
  have ks: "ks = finished_ids t" "tk_disk (save ?t) = Some j'"
    using prune_saved [OF wft assms(2)] assms(3) by (auto split: if_splits)
  have "load (tk_default_flavor ?t) (tk_disk (save ?t)) = Inr (save ?t)"
    by (rule load_save [OF wf_tracker_drop [OF wft]])
  moreover have "tk_default_flavor ?t = fl" using assms(1) by (simp add: empty_tracker_def)
  ultimately have "load fl (Some j') = Inr (save ?t)" by (simp add: ks(2))
  moreover have "map it_id (ready (save ?t)) = map it_id (ready t)"
    using ready_drop [OF wf] ready_mark_finished [OF wf] by (simp add: ready_def terminal_dep_def [abs_def] sorted_items_def)
  moreover have "set ks = {k. \<exists>i. get t (IdStr k) = Some i \<and> it_status i \<in> {COMPLETED, DELETED}}"
    using finished_iff [OF wf] by (auto simp: ks(1) get_def TERMINAL_def)
  ultimately show ?thesis using ks(1) by auto
qed

definition half_done :: "tracker_op list" where
  "half_done = [OpAdd ''a'' [] [] [] None None None None, OpAdd ''b'' [] [IdInt 1] [] None None None None, OpRecord ''1'' True]"

theorem pruned_tracker_loads_witness:
  "\<exists>j'. prune_dag (the (tk_disk (save (run_ops (empty_tracker ''task'') half_done)))) = Inr ([''1''], Some j') \<and>
     (\<exists>t'. load ''task'' (Some j') = Inr t' \<and> map it_id (ready t') = [''2''])"
proof -
  define t where "t = run_ops (empty_tracker ''task'') half_done"
  have wf: "wf_tracker t" unfolding t_def by (rule tracker_wf_run)
  obtain j where j: "tk_disk (save t) = Some j" by (simp add: save_def)
  have ids: "finished_ids t = [''1'']" unfolding t_def by code_simp
  obtain j' where p: "prune_dag j = Inr ([''1''], Some j')" using prune_saved [OF wf j] ids by (simp add: save_def)
  have "map it_id (ready t) = [''2'']" unfolding t_def by code_simp
  with pruned_tracker_loads [OF t_def j p] have "\<exists>t'. load ''task'' (Some j') = Inr t' \<and> map it_id (ready t') = [''2'']" by metis
  with j p show ?thesis unfolding t_def [symmetric] by simp
qed

section \<open>Categories and totals\<close>

text \<open>The archive and the visualizer agree on the category of a trace but for two cases: a trace of the merge queue's
  evaluations counts as \<open>other\<close> in the archive, and one directly below \<open>tasks\<close> as \<open>other\<close> in the visualizer.
\<close>

theorem categories_agree:
  assumes "parts \<noteq> []"
  shows "categorize_trace parts =
    (if hd parts = ''merge_batches'' then ''other''
     else if hd parts = ''tasks'' \<and> length parts = 2 then categorize_trace (''tasks'' # ''t'' # tl parts)
     else visualizer_category parts)"
proof (cases "hd parts = ''tasks'' \<and> length parts = 2")
  case True
  then have "last (''tasks'' # ''t'' # tl parts) = last parts" by (cases parts) (auto simp: length_Suc_conv numeral_2_eq_2)
  moreover have "parts \<noteq> [''orchestrator.json'']" using True by auto
  ultimately show ?thesis using True by (simp add: categorize_trace_def)
next
  case False
  have "length parts \<noteq> 0" using assms by simp
  then have "length parts = 1 \<or> length parts = 2 \<or> 3 \<le> length parts" by linarith
  then show ?thesis
  proof (cases "parts = [''orchestrator.json'']")
    case True
    then show ?thesis by (simp add: categorize_trace_def visualizer_category_def)
  next
    case other: False
    with \<open>length parts = 1 \<or> length parts = 2 \<or> 3 \<le> length parts\<close> False show ?thesis
      by (auto simp: categorize_trace_def visualizer_category_def Let_def)
  qed
qed

theorem categories_agree_witness:
  "categorize_trace [''merge_batches'', ''a'', ''b.json''] = ''other'' \<and> visualizer_category [''merge_batches'', ''a'', ''b.json''] = ''merge_eval''"
  using categories_agree [of "[''merge_batches'', ''a'', ''b.json'']"] by (simp add: visualizer_category_def)

lemma category_known: "categorize_trace parts \<in> set CATEGORIES"
  by (simp add: categorize_trace_def CATEGORIES_def Let_def)

definition tokens_of :: "string list \<times> trace_usage option \<Rightarrow> int" where
  "tokens_of f = (case f of
     (parts, Some tr) \<Rightarrow> (if last parts = ''steps.json'' then 0 else case tu_summary tr of Some (_, n) \<Rightarrow> n | None \<Rightarrow> 0)
   | _ \<Rightarrow> 0)"

lemma count_trace_tokens: "us_tokens (count_trace u f) = us_tokens u + tokens_of f"
  by (auto simp: count_trace_def tokens_of_def split: prod.splits option.splits)

lemma snapshot_tokens: "us_tokens (compute_usage_snapshot files ts) = sum_list (map tokens_of files)"
proof -
  have "us_tokens (foldl count_trace u files) = us_tokens u + sum_list (map tokens_of files)" for u
    by (induction files arbitrary: u) (simp_all add: count_trace_tokens)
  then show ?thesis by (simp add: compute_usage_snapshot_def Let_def)
qed

section \<open>The files of a fresh run\<close>

lemma map_of_rmtree [simp]: "map_of (rmtree dir fs) p = (if beneath dir p then None else map_of fs p)"
  unfolding rmtree_def by (induction fs) auto

lemma map_of_foldl_dset:
  "p \<notin> (\<lambda>x. f (fst x)) ` set xs \<Longrightarrow> map_of (foldl (\<lambda>acc (k, c). dset acc (f k) c) fs xs) p = map_of fs p"
  by (induction xs arbitrary: fs) (auto split: prod.splits)

lemma map_of_move_dir:
  assumes "\<not> beneath src p" "\<not> beneath dest p"
  shows "map_of (move_dir src dest fs) p = map_of fs p"
proof -
  have "beneath dest (dest @ drop (length src) q)" "beneath dest (dest @ last src # drop (length src) q)" if "beneath src q" for q
    using that by (auto simp: beneath_def)
  then have "p \<notin> (\<lambda>x. (if dir_exists dest fs then dest @ [last src] else dest) @ drop (length src) (fst x)) ` set (filter (\<lambda>(p, _). beneath src p) fs)"
    using assms(2) by auto
  then show ?thesis
    unfolding move_dir_def Let_def by (subst map_of_foldl_dset) (simp_all add: assms(1))
qed

lemma map_of_copy_file [simp]: "map_of (copy_file a b fs) p = (if p = b \<and> map_of fs a \<noteq> None then map_of fs a else map_of fs p)"
  by (auto simp: copy_file_def split: option.splits)

text \<open>A file that no step touches: not in a directory that is removed or moved, not itself removed, and not in the archive.\<close>

definition left_alone :: "string list \<Rightarrow> string list \<Rightarrow> bool" where
  "left_alone pruned p \<longleftrightarrow> p \<notin> {[''dag.json''], [''stats.json''], [''traces'', ''orchestrator.json'']} \<and>
     hd p \<noteq> ''archive'' \<and> \<not> beneath [''tool-results''] p \<and> list_all (\<lambda>d. \<not> beneath [''traces'', d] p) TRACE_DIRS \<and>
     \<not> beneath [''reports'', ''merge_reports''] p \<and> \<not> beneath [''reports'', ''eval_reports''] p \<and>
     list_all (\<lambda>k. \<not> beneath [''traces'', ''tasks'', k] p \<and> p \<noteq> [''reports'', ''task_reports'', k @ ''.json'']) pruned"

lemma beneath_hd: "hd p \<noteq> x \<Longrightarrow> \<not> beneath (x # xs) p"
  by (cases p) (auto simp: beneath_def)

lemma beneath_prefix: "beneath dir p \<longleftrightarrow> strict_prefix dir p"
  unfolding beneath_def strict_prefix_def prefix_def by (metis append_eq_conv_conj length_append less_add_same_cancel1 length_greater_0_conv append_Nil2)

lemma beneath_deeper: "\<not> beneath [a, b] p \<Longrightarrow> \<not> beneath [a, b, c] p"
  unfolding beneath_prefix by (metis append_Cons append_Nil strict_prefix_def prefix_order.less_trans prefixI list.inject list.distinct(1))

lemma map_of_save_usage: "hd p \<noteq> ''archive'' \<Longrightarrow> map_of (save_usage ts pruned fs) p = map_of fs p"
  by (auto simp: save_usage_def Let_def)

lemma map_of_delete_tasks:
  "list_all (\<lambda>k. \<not> beneath [''traces'', ''tasks'', k] p \<and> p \<noteq> [''reports'', ''task_reports'', k @ ''.json'']) ks \<Longrightarrow>
     map_of (foldl delete_task_files fs ks) p = map_of fs p"
  by (induction ks arbitrary: fs) (auto simp: delete_task_files_def)

lemma map_of_clear_dirs:
  "list_all (\<lambda>d. \<not> beneath [''traces'', d] p) dirs \<Longrightarrow> hd p \<noteq> ''archive'' \<Longrightarrow>
     map_of (foldl (clear_trace_dir ts) fs dirs) p = map_of fs p"
  by (induction dirs arbitrary: fs) (auto simp: clear_trace_dir_def map_of_move_dir beneath_hd)

lemma map_of_move_evals:
  "\<not> beneath [''reports'', ''eval_reports''] p \<Longrightarrow> hd p \<noteq> ''archive'' \<Longrightarrow>
     map_of (foldl (\<lambda>acc d. move_dir [''reports'', ''eval_reports'', d] [''archive'', ''reports'', ''eval_reports_'' @ ts, d] acc) fs ds) p = map_of fs p"
  by (induction ds arbitrary: fs) (auto simp: map_of_move_dir beneath_hd beneath_deeper)

text \<open>A fresh run leaves every file alone that is not a trace or report of a finished task, a trace of the orchestrator or of an
  evaluation, a report of a merge or an evaluation, a result of a tool or the statistics; in particular the traces and
  reports of the tasks that are still open.
\<close>

theorem fresh_run_leaves_alone:
  assumes "prepare_fresh_run order ts latest fs = Inr fs'" "map_of fs [''dag.json''] = Some (JsonFile dag)"
    "prune_dag dag = Inr (pruned, new)" "set (order pruned) = set pruned" "left_alone pruned p"
  shows "map_of fs' p = map_of fs p"
proof -
  have l: "list_all (\<lambda>k. \<not> beneath [''traces'', ''tasks'', k] p \<and> p \<noteq> [''reports'', ''task_reports'', k @ ''.json'']) (order pruned)"
    using assms(4,5) by (simp add: left_alone_def list_all_iff)
  have d: "list_all (\<lambda>d. \<not> beneath [''traces'', d] p) (dirs_to_delete fs1)" for fs1
    using assms(5) by (simp add: left_alone_def list_all_iff dirs_to_delete_def)
  have h: "hd p \<noteq> ''archive''" "\<not> beneath [''reports'', ''eval_reports''] p" "\<not> beneath [''reports'', ''merge_reports''] p"
    "\<not> beneath [''tool-results''] p" "p \<noteq> [''dag.json'']" "p \<noteq> [''stats.json'']" "p \<noteq> [''traces'', ''orchestrator.json'']"
    using assms(5) by (simp_all add: left_alone_def)
  have a: "p \<noteq> ''archive'' # xs" for xs using h(1) by auto
  have o: "map_of (archive_orchestrator ts fs1) p = map_of fs1 p" for fs1
    using h(7) a by (simp add: archive_orchestrator_def Let_def)
  have m: "map_of (move_merge_reports ts fs1) p = map_of fs1 p" for fs1
    using h by (simp add: move_merge_reports_def map_of_move_dir beneath_hd)
  have e: "map_of (move_eval_reports ts latest fs1) p = map_of fs1 p" for fs1
    unfolding move_eval_reports_def by (rule map_of_move_evals [OF h(2,1)])
  have c: "map_of (clear_run ts latest (order pruned) fs1) p = map_of fs1 p" for fs1
    unfolding clear_run_def e m map_of_clear_dirs [OF d h(1)] map_of_delete_tasks [OF l] o by (rule map_of_save_usage [OF h(1)])
  have "map_of (store_dag ts new fs) p = map_of fs p"
    using h(5) a by (simp add: store_dag_def Let_def split: option.split)
  moreover have "fs' = clear_run ts latest (order pruned) (ddel (rmtree [''tool-results''] (store_dag ts new fs)) [''stats.json''])"
    using assms(1,2,3) by (simp add: prepare_fresh_run_def)
  ultimately show ?thesis using h(4,6) by (simp add: c)
qed

definition old_run :: run_files where
  "old_run = [([''dag.json''], JsonFile (JObj [(''items'', JArr
       [JObj [(''id'', JStr ''1''), (''status'', JStr ''completed'')], JObj [(''id'', JStr ''2''), (''status'', JStr ''pending'')]])])),
     ([''traces'', ''tasks'', ''1'', ''a.json''], OtherFile ''x''), ([''traces'', ''tasks'', ''2'', ''a.json''], OtherFile ''y'')]"

theorem fresh_run_leaves_alone_witness:
  "\<exists>fs'. prepare_fresh_run id ''now'' None old_run = Inr fs' \<and> map_of fs' [''traces'', ''tasks'', ''2'', ''a.json''] = Some (OtherFile ''y'')"
proof -
  obtain dag where dag: "map_of old_run [''dag.json''] = Some (JsonFile dag)" by (simp add: old_run_def)
  have "map_option (\<lambda>f. case f of JsonFile j \<Rightarrow> map_sum id fst (prune_dag j) | _ \<Rightarrow> Inr []) (map_of old_run [''dag.json'']) = Some (Inr [''1''])"
    by code_simp
  then obtain new where p: "prune_dag dag = Inr ([''1''], new)" using dag by (cases "prune_dag dag") auto
  then obtain fs' where r: "prepare_fresh_run id ''now'' None old_run = Inr fs'" using dag by (simp add: prepare_fresh_run_def)
  have "left_alone [''1''] [''traces'', ''tasks'', ''2'', ''a.json'']" by code_simp
  from fresh_run_leaves_alone [OF r dag p _ this] r show ?thesis by (simp add: old_run_def)
qed

end
