(* ===== verification/Zmq_Channel.thy ===== *)
theory Zmq_Channel
  imports Py_Regex Goal_Tracker Agent_Pool
begin

text \<open>
  \<open>core/coordination/multinode/zmq_queue.py\<close>: rank and host of a process from its environment, the list of nodes of a SLURM
  job, and the server's end of the channel with the buffer of messages put back. The socket is the sequence of what its
  polls find. At the end, the handshake of \<open>autoform/bot/main.py\<close> with the workers that start up.
\<close>

section \<open>The environment\<close>

type_synonym process_env = "(string, string) dict"

definition get_rank :: "process_env \<Rightarrow> int result" where
  "get_rank env = py_int (dget_or env ''SLURM_PROCID'' (dget_or env ''RANK'' ''0''))"

definition get_world_size :: "process_env \<Rightarrow> int result" where
  "get_world_size env = py_int (dget_or env ''SLURM_NTASKS'' (dget_or env ''WORLD_SIZE'' ''1''))"

definition get_master_port :: "process_env \<Rightarrow> int result" where
  "get_master_port env = py_int (dget_or env ''MASTER_PORT'' ''29500'')"

definition is_distributed :: "process_env \<Rightarrow> bool result" where
  "is_distributed env = rbind (get_world_size env) (\<lambda>n. Inr (1 < n))"

text \<open>The segments between the commas outside brackets.\<close>

record segmenting =
  sg_segments :: "string list"
  sg_current :: string
  sg_depth :: int

definition segment_char :: "segmenting \<Rightarrow> char \<Rightarrow> segmenting" where
  "segment_char s ch =
     (if ch = CHR ''['' then s\<lparr>sg_depth := sg_depth s + 1, sg_current := sg_current s @ [ch]\<rparr>
      else if ch = CHR '']'' then s\<lparr>sg_depth := sg_depth s - 1, sg_current := sg_current s @ [ch]\<rparr>
      else if ch = CHR '','' \<and> sg_depth s = 0
      then s\<lparr>sg_segments := sg_segments s @ [strip (sg_current s)], sg_current := []\<rparr>
      else s\<lparr>sg_current := sg_current s @ [ch]\<rparr>)"

definition segments :: "string \<Rightarrow> string list" where
  "segments nodelist =
     (let s = foldl segment_char \<lparr>sg_segments = [], sg_current = [], sg_depth = 0\<rparr> nodelist
      in if sg_current s = [] then sg_segments s else sg_segments s @ [strip (sg_current s)])"

definition BRACKET_RE :: re where
  "BRACKET_RE = cat [Grp 1 (many_lazy (none_of [nl])), chr (CHR ''[''), Grp 2 (some (none_of '']'')), chr (CHR '']''), Grp 3 (many (none_of [nl])), eol]"

text \<open>\<open>str.zfill\<close>: zeros after a sign.\<close>

definition zfill :: "nat \<Rightarrow> string \<Rightarrow> string" where
  "zfill width s =
     (let fill = replicate (width - length s) (CHR ''0'')
      in if startswith s ''-'' \<or> startswith s ''+'' then take 1 s @ fill @ drop 1 s else fill @ s)"

definition split_once :: "char \<Rightarrow> string \<Rightarrow> string \<times> string" where
  "split_once c s = (takeWhile (\<lambda>x. x \<noteq> c) s, drop 1 (dropWhile (\<lambda>x. x \<noteq> c) s))"

definition expand_part :: "string \<Rightarrow> string \<Rightarrow> string \<Rightarrow> string list result" where
  "expand_part prefix suffix part0 =
     (let part = strip part0
      in if CHR ''-'' \<in> set part
         then (case split_once (CHR ''-'') part of (start_s, end_s) \<Rightarrow>
           rbind (py_int start_s) (\<lambda>a. rbind (py_int end_s) (\<lambda>b.
           Inr (map (\<lambda>n. prefix @ zfill (length start_s) (str_int n) @ suffix) [a..b]))))
         else Inr [prefix @ part @ suffix])"

definition expand_segment :: "string \<Rightarrow> string list result" where
  "expand_segment segment =
     (case re_match_start BRACKET_RE segment of
        None \<Rightarrow> Inr (if segment = [] then [] else [segment])
      | Some m \<Rightarrow> rbind (mapM (expand_part (group m 1) (group m 3)) (split_char (CHR '','') (group m 2))) (\<lambda>ns. Inr (concat ns)))"

definition parse_nodelist :: "string \<Rightarrow> string list result" where
  "parse_nodelist nodelist = rbind (mapM expand_segment (segments nodelist)) (\<lambda>ns. Inr (concat ns))"

definition get_master_addr :: "process_env \<Rightarrow> string result" where
  "get_master_addr env =
     (let addr = dget_or env ''MASTER_ADDR'' []; nodelist = dget_or env ''SLURM_NODELIST'' []
      in if addr \<noteq> [] then Inr addr
         else if nodelist = [] then Inr ''localhost''
         else rbind (parse_nodelist nodelist) (\<lambda>nodes. Inr (case nodes of [] \<Rightarrow> ''localhost'' | n # _ \<Rightarrow> n)))"

section \<open>The server\<close>

text \<open>
  \<open>zs_polls\<close> is what the coming polls of the socket find: nothing within the time, or a message with the identity of
  its sender.
\<close>

type_synonym channel_msg = "(string, json) dict"

record zmq_server =
  zs_polls :: "(string \<times> channel_msg) option list"
  zs_identities :: "(int, string) dict"
  zs_buffer :: "(int \<times> channel_msg) list"
  zs_sent :: "(string \<times> channel_msg) list"

definition new_server :: "(string \<times> channel_msg) option list \<Rightarrow> zmq_server" where
  "new_server polls = \<lparr>zs_polls = polls, zs_identities = [], zs_buffer = [], zs_sent = []\<rparr>"

definition zmq_send :: "zmq_server \<Rightarrow> int \<Rightarrow> channel_msg \<Rightarrow> zmq_server result" where
  "zmq_send s rank msg =
     (case dget (zs_identities s) rank of
        None \<Rightarrow> Inl (KeyError (str_int rank))
      | Some identity \<Rightarrow> Inr (s\<lparr>zs_sent := zs_sent s @ [(identity, msg)]\<rparr>))"

definition requeue :: "zmq_server \<Rightarrow> int \<Rightarrow> channel_msg \<Rightarrow> zmq_server" where
  "requeue s rank msg = s\<lparr>zs_buffer := zs_buffer s @ [(rank, msg)]\<rparr>"

definition rank_of :: "channel_msg \<Rightarrow> int result" where
  "rank_of msg =
     (case dget_or msg ''rank'' (JInt (-1)) of
        JInt n \<Rightarrow> Inr n
      | JBool b \<Rightarrow> Inr (if b then 1 else 0)
      | JStr t \<Rightarrow> py_int t
      | _ \<Rightarrow> Inl (TypeError ''int() argument''))"

definition zmq_recv :: "zmq_server \<Rightarrow> ((int \<times> channel_msg) option \<times> zmq_server) result" where
  "zmq_recv s =
     (case zs_buffer s of
        m # rest \<Rightarrow> Inr (Some m, s\<lparr>zs_buffer := rest\<rparr>)
      | [] \<Rightarrow> (case zs_polls s of
            [] \<Rightarrow> Inr (None, s)
          | None # polls \<Rightarrow> Inr (None, s\<lparr>zs_polls := polls\<rparr>)
          | Some (identity, msg) # polls \<Rightarrow>
              rbind (rank_of msg) (\<lambda>rank.
              Inr (Some (rank, msg), s\<lparr>zs_polls := polls,
                zs_identities := (if 0 \<le> rank then dset (zs_identities s) rank identity else zs_identities s)\<rparr>))))"

section \<open>The workers check in\<close>

definition ready_msg :: "string \<Rightarrow> channel_msg" where
  "ready_msg run_id = [(''type'', JStr ''ready''), (''run_id'', JStr run_id)]"

definition is_waiting :: "channel_msg \<Rightarrow> bool" where
  "is_waiting msg = (dget msg ''type'' = Some (JStr ''waiting''))"

text \<open>
  The loop of \<open>run\<close> that answers the workers; the first argument is how often it goes round before the deadline has
  passed. The result is the set of the signaled ranks.
\<close>

fun check_in :: "nat \<Rightarrow> string \<Rightarrow> nat \<Rightarrow> int list \<Rightarrow> zmq_server \<Rightarrow> (int list \<times> zmq_server) result" where
  "check_in 0 run_id world_size signaled s = Inr (signaled, s)"
| "check_in (Suc n) run_id world_size signaled s =
     (if world_size \<le> length signaled then Inr (signaled, s)
      else rbind (zmq_recv s) (\<lambda>(received, s).
        case received of
          None \<Rightarrow> check_in n run_id world_size signaled s
        | Some (r, msg) \<Rightarrow>
            if is_waiting msg
            then rbind (zmq_send s r (ready_msg run_id)) (\<lambda>s. check_in n run_id world_size (set_add r signaled) s)
            else check_in n run_id world_size signaled (requeue s r msg)))"

text \<open>The worker's side of it: the run id of the message that lets it go on.\<close>

fun await_ready :: "string option \<Rightarrow> channel_msg option list \<Rightarrow> json option option" where
  "await_ready run_id [] = None"
| "await_ready run_id (m # ms) =
     (case m of
        None \<Rightarrow> await_ready run_id ms
      | Some msg \<Rightarrow>
          (if dget msg ''type'' = Some (JStr ''ready'')
           then Some (case run_id of Some r \<Rightarrow> Some (JStr r) | None \<Rightarrow> dget msg ''run_id'')
           else await_ready run_id ms))"

section \<open>Who gets through\<close>

text \<open>C27: A message that is not a check-in is put back and taken again at once: from then on the loop reads nothing
  from the socket, however often it goes round, and no further worker is let in before the deadline. A worker that
  was let in early and registers is enough.
\<close>

theorem check_in_stuck:
  assumes "zs_buffer s = [(r, msg)]" "\<not> is_waiting msg" "length signaled < world_size"
  shows "check_in n run_id world_size signaled s = Inr (signaled, s)"
  using assms
proof (induction n)
  case (Suc n)
  then have "zmq_recv s = Inr (Some (r, msg), s\<lparr>zs_buffer := []\<rparr>)" "requeue (s\<lparr>zs_buffer := []\<rparr>) r msg = s"
    by (simp_all add: zmq_recv_def requeue_def)
  then show ?case using Suc by simp
qed simp

definition waiting_from :: "int \<Rightarrow> channel_msg" where
  "waiting_from r = [(''type'', JStr ''waiting''), (''rank'', JInt r)]"

definition register_from :: "int \<Rightarrow> channel_msg" where
  "register_from r = [(''type'', JStr ''register''), (''rank'', JInt r), (''capacity'', JInt 4)]"

definition early_bird :: zmq_server where
  "early_bird = new_server [Some (''1'', waiting_from 1), Some (''1'', register_from 1), Some (''2'', waiting_from 2)]"

theorem check_in_stuck_witness:
  "\<forall>n. \<exists>s. check_in (2 + n) ''r'' 2 [] early_bird = Inr ([1], s) \<and> zs_polls s = [Some (''2'', waiting_from 2)]"
proof (rule allI)
  fix n
  let ?s = "\<lparr>zs_polls = [Some (''2'', waiting_from 2)], zs_identities = [(1, ''1'')], zs_buffer = [(1, register_from 1)],
      zs_sent = [(''1'', ready_msg ''r'')]\<rparr>"
  have "check_in (2 + n) ''r'' 2 [] early_bird = check_in n ''r'' 2 [1] ?s"
    by (simp add: numeral_2_eq_2 early_bird_def new_server_def zmq_recv_def rank_of_def dget_or_def waiting_from_def register_from_def
        is_waiting_def zmq_send_def set_add_def requeue_def)
  also have "\<dots> = Inr ([1], ?s)"
  proof (rule check_in_stuck)
    show "\<not> is_waiting (register_from 1)" by code_simp
  qed simp_all
  finally have c: "check_in (2 + n) ''r'' 2 [] early_bird = Inr ([1], ?s)" .
  show "\<exists>s. check_in (2 + n) ''r'' 2 [] early_bird = Inr ([1], s) \<and> zs_polls s = [Some (''2'', waiting_from 2)]"
    by (rule exI [of _ ?s], rule conjI [OF c]) simp
qed

text \<open>Polls that find nothing or the check-in of a rank, under the identity a client takes.\<close>

definition checks_in :: "(string \<times> channel_msg) option \<Rightarrow> bool" where
  "checks_in p = (case p of None \<Rightarrow> True
     | Some (i, msg) \<Rightarrow> is_waiting msg \<and> (case dget msg ''rank'' of Some (JInt r) \<Rightarrow> 0 \<le> r \<and> i = str_int r | _ \<Rightarrow> False))"

definition rank_in :: "(string \<times> channel_msg) option \<Rightarrow> int list" where
  "rank_in p = (case p of Some (_, msg) \<Rightarrow> (case dget msg ''rank'' of Some (JInt r) \<Rightarrow> [r] | _ \<Rightarrow> []) | None \<Rightarrow> [])"

definition ranks_in :: "(string \<times> channel_msg) option list \<Rightarrow> int list" where
  "ranks_in polls = concat (map rank_in polls)"

lemma set_add_simps [simp]: "set (set_add x xs) = insert x (set xs)" "distinct (set_add x xs) = distinct xs"
  by (auto simp: set_add_def)

lemma length_set_add: "length (set_add x xs) \<le> Suc (length xs)"
  by (simp add: set_add_def)

lemma recv_check_in:
  assumes "zs_buffer s = []" "zs_polls s = Some (i, msg) # polls" "checks_in (Some (i, msg))"
  obtains r where "rank_in (Some (i, msg)) = [r]" "is_waiting msg"
    "zmq_recv s = Inr (Some (r, msg), s\<lparr>zs_polls := polls, zs_identities := dset (zs_identities s) r (str_int r)\<rparr>)"
  using assms by (auto simp: checks_in_def rank_in_def zmq_recv_def rank_of_def dget_or_def split: option.splits json.splits)



end
