(* ===== verification/Worker_Node.thy ===== *)
theory Worker_Node
  imports Agent_Pool Dist_Executor
begin

text \<open>
  The workers of a distributed run: \<open>WorkerNode\<close> of \<open>core/coordination/multinode/nodes.py\<close>, its restarts and its event loop,
  and \<open>LeanWorkerNode\<close> of \<open>autoform/bot/worker_node.py\<close>, which runs a task with agents of its pool and sends the
  result to the coordinator. A task is split at the point where it waits for the agents.
\<close>

section \<open>Restarts\<close>

definition MAX_RESTARTS :: nat where "MAX_RESTARTS = 5"

text \<open>The calls of \<open>run\<close>, each with the number of restarts before it.\<close>

datatype node_call = Initialize nat | Serve nat | Shutdown nat | Sleep nat

text \<open>
  What \<open>initialize\<close>, \<open>_serve\<close> and \<open>shutdown\<close> do after \<open>k\<close> restarts; an exception, a cancellation included, ends
  the loop, and the node is shut down when it was initialized. The result is the calls that were made and the exception that
  gets out.
\<close>

definition after_exception :: "(nat \<Rightarrow> unit result) \<Rightarrow> nat \<Rightarrow> bool \<Rightarrow> node_call list \<Rightarrow> node_call list \<times> unit result" where
  "after_exception stop k initialized calls = (if initialized then (calls @ [Shutdown k], stop k) else (calls, Inr ()))"

function worker_run ::
  "(nat \<Rightarrow> unit result) \<Rightarrow> (nat \<Rightarrow> bool result) \<Rightarrow> (nat \<Rightarrow> unit result) \<Rightarrow> nat \<Rightarrow> node_call list \<Rightarrow> node_call list \<times> unit result" where
  "worker_run start serve stop k calls =
     (case start k of
        Inl e \<Rightarrow> after_exception stop k False (calls @ [Initialize k])
      | Inr _ \<Rightarrow>
          (case serve k of
             Inl e \<Rightarrow> after_exception stop k True (calls @ [Initialize k, Serve k])
           | Inr restart \<Rightarrow>
               (case stop k of
                  Inl e \<Rightarrow> after_exception stop k True (calls @ [Initialize k, Serve k, Shutdown k])
                | Inr _ \<Rightarrow>
                    (let calls' = calls @ [Initialize k, Serve k, Shutdown k]
                     in if \<not> restart \<or> MAX_RESTARTS \<le> k then (calls', Inr ())
                        else worker_run start serve stop (Suc k) (calls' @ [Sleep (min (2 ^ Suc k) 60)])))))"
  by pat_completeness auto
termination
  by (relation "measure (\<lambda>(_, _, _, k, _). Suc MAX_RESTARTS - k)") (auto simp: MAX_RESTARTS_def)

declare worker_run.simps [simp del]

section \<open>Tasks\<close>

text \<open>
  \<open>wn_running\<close> are the agents of each task that waits for them, and \<open>wn_escalation\<close> the task an agent's escalations are
  logged under. \<open>wn_queue\<close> is what the sender will send.
\<close>

record worker_node =
  wn_rank :: int
  wn_pool :: agent_pool
  wn_running :: "(string, string list) dict"
  wn_escalation :: "(string, string option) dict"
  wn_queue :: "worker_msg list"

definition node_capacity :: "worker_node \<Rightarrow> nat" where
  "node_capacity w = length (available (wn_pool w))"

fun cause_value :: "failure_cause \<Rightarrow> string" where
  "cause_value CauseTask = ''task''"
| "cause_value CauseInfrastructure = ''infrastructure''"

definition node_failure :: "worker_node \<Rightarrow> string \<Rightarrow> string \<Rightarrow> result_msg" where
  "node_failure w task_id err =
     \<lparr>rm_task_id = task_id, rm_success = Some False, rm_winner_id = None, rm_error = Some err,
      rm_failure_cause = Some (cause_value CauseInfrastructure), rm_pre_merge_hash = None, rm_post_merge_hash = None,
      rm_capacity = Some (int (node_capacity w))\<rparr>"

definition node_result :: "worker_node \<Rightarrow> string \<Rightarrow> concurrent_result \<Rightarrow> result_msg" where
  "node_result w task_id r =
     \<lparr>rm_task_id = task_id, rm_success = Some (cr_success r), rm_winner_id = cr_winner_id r, rm_error = cr_error r,
      rm_failure_cause = map_option cause_value (cr_failure_cause r), rm_pre_merge_hash = cr_pre_merge_hash r,
      rm_post_merge_hash = cr_post_merge_hash r, rm_capacity = Some (int (node_capacity w))\<rparr>"

definition send_result :: "result_msg \<Rightarrow> worker_node \<Rightarrow> worker_node" where
  "send_result m w = w\<lparr>wn_queue := wn_queue w @ [WResult m]\<rparr>"

definition log_under :: "string option \<Rightarrow> string list \<Rightarrow> worker_node \<Rightarrow> worker_node" where
  "log_under task_id agents w = w\<lparr>wn_escalation := foldl (\<lambda>d a. dset d a task_id) (wn_escalation w) agents\<rparr>"

text \<open>The task arrives: it is acknowledged, and takes its agents.\<close>

definition task_arrives :: "task_msg \<Rightarrow> worker_node \<Rightarrow> worker_node" where
  "task_arrives m w0 =
     (let w = w0\<lparr>wn_queue := wn_queue w0 @ [WAck (Some (tm_task_id m))]\<rparr>
      in case checkout (wn_pool w) (tm_n_agents m) of
           (agents, pool) \<Rightarrow>
             (if agents = [] then send_result (node_failure w (tm_task_id m) ''No agents available'') w
              else log_under (Some (tm_task_id m)) agents
                (w\<lparr>wn_pool := pool, wn_running := wn_running w @ [(tm_task_id m, agents)]\<rparr>)))"

text \<open>The workflow of the task with the given agents returns, or raises.\<close>

definition task_ends :: "string \<Rightarrow> string list \<Rightarrow> concurrent_result result \<Rightarrow> worker_node \<Rightarrow> worker_node" where
  "task_ends task_id agents outcome w0 =
     (let w1 = log_under None agents w0;
          w = w1\<lparr>wn_pool := checkin (wn_pool w1) agents, wn_running := remove1 (task_id, agents) (wn_running w1)\<rparr>
      in send_result (case outcome of Inl e \<Rightarrow> node_failure w task_id (err_text e) | Inr r \<Rightarrow> node_result w task_id r) w)"

datatype node_event = Arrives task_msg | Ends string "string list" "concurrent_result result"

text \<open>A task can end only when it runs.\<close>

fun node_step :: "worker_node \<Rightarrow> node_event \<Rightarrow> worker_node" where
  "node_step w (Arrives m) = task_arrives m w"
| "node_step w (Ends k as r) = (if (k, as) \<in> set (wn_running w) then task_ends k as r w else w)"

definition new_node :: "int \<Rightarrow> agent_pool \<Rightarrow> worker_node" where
  "new_node rank pool =
     \<lparr>wn_rank = rank, wn_pool = pool, wn_running = [], wn_escalation = [], wn_queue = [WRegister (int (length (available pool)))]\<rparr>"

definition run_node :: "worker_node \<Rightarrow> node_event list \<Rightarrow> worker_node" where
  "run_node = foldl node_step"

section \<open>Restarts are bounded and every start is stopped\<close>

lemma worker_run_calls:
  assumes "k \<le> MAX_RESTARTS"
  shows "\<exists>later. fst (worker_run start serve stop k calls) = calls @ later \<and>
    length (filter (\<lambda>c. case c of Initialize _ \<Rightarrow> True | _ \<Rightarrow> False) later) \<le> Suc MAX_RESTARTS - k \<and>
    (\<forall>j. Initialize j \<in> set later \<longrightarrow> start j = Inr () \<longrightarrow> Shutdown j \<in> set later)"
  using assms
proof (induction start serve stop k calls rule: worker_run.induct)
  case (1 start serve stop k calls)
  show ?case
  proof (cases "start k = Inr () \<and> serve k = Inr True \<and> stop k = Inr () \<and> k < MAX_RESTARTS")
    case True
    let ?calls = "calls @ [Initialize k, Serve k, Shutdown k, Sleep (min (2 ^ Suc k) 60)]"
    have "worker_run start serve stop k calls = worker_run start serve stop (Suc k) ?calls"
      using True by (subst worker_run.simps) (simp add: Let_def)
    moreover obtain later where "fst (worker_run start serve stop (Suc k) ?calls) = ?calls @ later"
      "length (filter (\<lambda>c. case c of Initialize _ \<Rightarrow> True | _ \<Rightarrow> False) later) \<le> Suc MAX_RESTARTS - Suc k"
      "\<forall>j. Initialize j \<in> set later \<longrightarrow> start j = Inr () \<longrightarrow> Shutdown j \<in> set later"
      using "1.IH" [OF _ _ _ refl] True by fastforce
    ultimately show ?thesis using True
      by (intro exI [of _ "[Initialize k, Serve k, Shutdown k, Sleep (min (2 ^ Suc k) 60)] @ later"]) auto
  next
    case False
    then show ?thesis using "1.prems"
      by (subst (1) worker_run.simps) (auto simp: after_exception_def Let_def split: sum.splits)
  qed
qed

text \<open>However initialization, the event loop and the shutdown behave, a worker node is initialized at most six times, and
  every initialization that succeeded is followed by a shutdown.
\<close>

theorem worker_restarts_bounded:
  "length (filter (\<lambda>c. case c of Initialize _ \<Rightarrow> True | _ \<Rightarrow> False) (fst (worker_run start serve stop 0 []))) \<le> 6 \<and>
   {j. Initialize j \<in> set (fst (worker_run start serve stop 0 [])) \<and> start j = Inr ()} \<subseteq>
     {j. Shutdown j \<in> set (fst (worker_run start serve stop 0 []))}"
  using worker_run_calls [of 0 start serve stop "[]"] by (auto simp: MAX_RESTARTS_def)

section \<open>Results and agents\<close>

text \<open>C29: The coordinator reads from the message of a worker exactly the result the workflow had, whatever it was.
\<close>

theorem result_message_roundtrip: "result_of_msg (node_result w task_id r) = Inr r"
  by (cases r; cases "cr_failure_cause r"; cases "the (cr_failure_cause r)") (auto simp: result_of_msg_def node_result_def)

text \<open>The agents of the running tasks are the busy ones, each of one task.\<close>

definition node_inv :: "worker_node \<Rightarrow> bool" where
  "node_inv w \<longleftrightarrow> wf_pool (wn_pool w) \<and> distinct (concat (map snd (wn_running w))) \<and>
     set (concat (map snd (wn_running w))) = set (ap_busy (wn_pool w))"

lemma log_under_simps [simp]:
  "wn_pool (log_under k as w) = wn_pool w" "wn_running (log_under k as w) = wn_running w" "wn_queue (log_under k as w) = wn_queue w"
  by (simp_all add: log_under_def)

lemma send_result_simps [simp]:
  "wn_pool (send_result m w) = wn_pool w" "wn_running (send_result m w) = wn_running w"
  "wn_queue (send_result m w) = wn_queue w @ [WResult m]"
  by (simp_all add: send_result_def)

lemma checkout_distinct: "wf_pool p \<Longrightarrow> checkout p n = (as, p') \<Longrightarrow> distinct as"
  by (auto simp: wf_pool_def checkout_def slice_to_def available_def Let_def)

lemma arrives_inv:
  assumes "node_inv w" shows "node_inv (task_arrives m w)"
proof -
  obtain as p where c: "checkout (wn_pool w) (tm_n_agents m) = (as, p)" by (cases "checkout (wn_pool w) (tm_n_agents m)")
  have "distinct as" "wf_pool p" using assms checkout_distinct [OF _ c] checkout_wf [OF _ c] by (auto simp: node_inv_def)
  then show ?thesis using assms checkout_taken [OF c] c by (auto simp: task_arrives_def node_inv_def Let_def)
qed

lemma ends_inv:
  assumes "node_inv w" "(k, as) \<in> set (wn_running w)" shows "node_inv (task_ends k as r w)"
proof -
  obtain xs ys where run: "wn_running w = xs @ (k, as) # ys" "(k, as) \<notin> set xs"
    using split_list_first [OF assms(2)] by blast
  then have rm: "remove1 (k, as) (wn_running w) = xs @ ys" by (simp add: remove1_append)
  define X Y where "X = set (concat (map snd xs))" and "Y = set (concat (map snd ys))"
  have d: "distinct (concat (map snd (xs @ ys)))" "X \<inter> set as = {}" "Y \<inter> set as = {}" "X \<union> set as \<union> Y = set (ap_busy (wn_pool w))"
    using assms(1) run(1) by (auto simp: node_inv_def X_def Y_def)
  have "set (concat (map snd (xs @ ys))) = X \<union> Y" by (simp add: X_def Y_def)
  also have "\<dots> = set (ap_busy (checkin (wn_pool w) as))" using d by (auto simp: checkin_def)
  finally show ?thesis using assms(1) d(1)
    by (simp add: task_ends_def node_inv_def Let_def checkin_wf rm del: set_concat)
qed

lemma step_inv: "node_inv w \<Longrightarrow> node_inv (node_step w ev)"
  by (cases ev) (auto simp: arrives_inv ends_inv)

lemma run_node_inv: "node_inv w \<Longrightarrow> node_inv (run_node w evs)"
  unfolding run_node_def by (induction evs arbitrary: w) (auto simp: step_inv)

text \<open>C26: In whatever order tasks arrive at a worker and end, an agent works on at most one of them, exactly the agents of the
  running tasks are busy, and when none runs every agent is available again.
\<close>

theorem node_agents_accounted:
  assumes "wf_pool pool" "ap_busy pool = []"
  shows "distinct (concat (map snd (wn_running (run_node (new_node rank pool) evs)))) \<and>
    set (available (wn_pool (run_node (new_node rank pool) evs))) =
      set (ap_agents (wn_pool (run_node (new_node rank pool) evs))) - set (concat (map snd (wn_running (run_node (new_node rank pool) evs))))"
proof -
  have "node_inv (new_node rank pool)" using assms by (simp add: node_inv_def new_node_def)
  from run_node_inv [OF this, of evs] show ?thesis unfolding node_inv_def by (metis available_set)
qed

definition two_agents :: agent_pool where
  "two_agents = new_pool [''a'', ''b''] None"

definition task_for :: "string \<Rightarrow> int \<Rightarrow> task_msg" where
  "task_for k n = \<lparr>tm_task_id = k, tm_title = [], tm_description = [], tm_attempt_number = 1, tm_n_agents = n, tm_metadata = []\<rparr>"

theorem node_agents_accounted_witness:
  "set (available (wn_pool (run_node (new_node 1 two_agents) [Arrives (task_for ''x'' 1), Arrives (task_for ''y'' 5), Ends ''x'' [''a''] (Inl IndexError)]))) = {''a''}"
proof -
  let ?w = "run_node (new_node 1 two_agents) [Arrives (task_for ''x'' 1), Arrives (task_for ''y'' 5), Ends ''x'' [''a''] (Inl IndexError)]"
  have "wn_running ?w = [(''y'', [''b''])]" "ap_agents (wn_pool ?w) = [''a'', ''b'']" by code_simp+
  moreover have "wf_pool two_agents" "ap_busy two_agents = []" by (simp_all add: two_agents_def wf_pool_def new_pool_def)
  ultimately show ?thesis
    using node_agents_accounted [of two_agents 1 "[Arrives (task_for ''x'' 1), Arrives (task_for ''y'' 5), Ends ''x'' [''a''] (Inl IndexError)]"]
    by auto
qed

end
