(* ===== verification/Lean_Workflow.thy ===== *)
theory Lean_Workflow
  imports Concurrent_Agents Merge_Queue "HOL-Library.List_Lexorder"
begin

text \<open>
  \<open>autoform/bot/concurrent.py\<close>: what the Lean pipeline puts in the place of the build, the review and the merge of
  \<open>core/coordination/concurrent_agents.py\<close>, and the root module that imports all files of the library. The answers of
  agents, the outcome of \<open>lake\<close> and of the merge queue are arguments.
\<close>

section \<open>The root module\<close>

text \<open>The directory of the repository, with paths below it as their parts; \<open>None\<close> is a file that is not there.\<close>

record lean_repo =
  lr_lib_name :: "string option"
  lr_lib_files :: "string list list"
  lr_is_dir :: bool
  lr_root :: "string option"

definition lean_module :: "string list \<Rightarrow> string" where
  "lean_module parts =
     (let p = join ''/'' parts; q = (if endswith p ''.lean'' then take (length p - 5) p else p)
      in map (\<lambda>c. if c = CHR ''/'' then CHR ''.'' else c) q)"

definition root_content :: "string list list \<Rightarrow> string" where
  "root_content files =
     (if files = [] then [] else join [nl] (map (\<lambda>f. ''import '' @ lean_module f) (sort files)) @ [nl])"

text \<open>The new repository, and whether the root module was written and committed.\<close>

definition update_root_imports :: "lean_repo \<Rightarrow> lean_repo \<times> bool" where
  "update_root_imports r =
     (case lr_lib_name r of
        None \<Rightarrow> (r, False)
      | Some lib \<Rightarrow>
          (if \<not> lr_is_dir r then (r, False)
           else let files = filter (\<lambda>p. endswith (last p) ''.lean'') (lr_lib_files r); content = root_content files
                in if lr_root r = Some content then (r, False) else (r\<lparr>lr_root := Some content\<rparr>, True)))"

section \<open>Build\<close>

record lake_outcome =
  lk_returncode :: int
  lk_stdout :: string
  lk_stderr :: string

definition HALF :: nat where "HALF = 1500"

definition build_feedback :: "string \<Rightarrow> string" where
  "build_feedback output =
     (if length output \<le> HALF * 2 then output
      else take HALF output @ nlnl @ ''... ['' @ str_nat (length output - HALF * 2) @ '' chars truncated] ...'' @ nlnl @
        drop (length output - HALF) output)"

definition lean_build :: "agent \<Rightarrow> lake_outcome result \<Rightarrow> (bool \<times> string) result" where
  "lean_build ag outcome =
     (case ag_worktree ag of
        None \<Rightarrow> Inr (True, [])
      | Some [] \<Rightarrow> Inr (True, [])
      | Some _ \<Rightarrow> rbind outcome (\<lambda>r.
          if lk_returncode r \<noteq> 0 then Inr (False, build_feedback (lk_stdout r @ lk_stderr r)) else Inr (True, [])))"

text \<open>The build of the merge queue, \<open>_lake_build\<close> of \<open>main.py\<close>.\<close>

definition staging_build :: "lake_outcome \<Rightarrow> bool \<times> string" where
  "staging_build r = (if lk_returncode r \<noteq> 0 then (False, take 3000 (lk_stdout r @ lk_stderr r)) else (True, []))"

section \<open>Review\<close>

text \<open>The answers of the reviewer and, when there is one, of the quality inspector.\<close>

definition inspected_ok :: "string option \<Rightarrow> bool" where
  "inspected_ok answer = (case answer of None \<Rightarrow> True | Some a \<Rightarrow> a = [] \<or> approves a)"

definition reviewed_ok :: "string option \<Rightarrow> bool" where
  "reviewed_ok answer = (case answer of None \<Rightarrow> False | Some a \<Rightarrow> a \<noteq> [] \<and> approves a)"

definition headed :: "string \<Rightarrow> string option \<Rightarrow> string list" where
  "headed title answer = (case answer of None \<Rightarrow> [] | Some a \<Rightarrow> if a = [] then [] else [title @ [nl] @ a])"

definition lean_verdict :: "string option \<Rightarrow> string option \<Rightarrow> bool \<times> string" where
  "lean_verdict review_answer inspect_answer =
     (let combined = join nlnl (headed ''--- Correctness Review ---'' review_answer @ headed ''--- Quality Inspection ---'' inspect_answer)
      in if \<not> reviewed_ok review_answer then (False, combined)
         else if \<not> inspected_ok inspect_answer then (False, combined)
         else (True, combined))"

definition lean_review :: "agent option \<Rightarrow> string option result \<Rightarrow> string option result option \<Rightarrow> (bool \<times> string) result" where
  "lean_review reviewer answer inspect =
     (case reviewer of
        None \<Rightarrow> Inr (True, [])
      | Some _ \<Rightarrow>
          rbind answer (\<lambda>review_answer.
          rbind (case inspect of Some i \<Rightarrow> i | None \<Rightarrow> Inr None) (\<lambda>inspect_answer.
          Inr (lean_verdict review_answer inspect_answer))))"

text \<open>The prompts; a worktree that is not set is \<open>unknown\<close>, and \<open>title\<close> is the objective of the task.\<close>

definition place_of :: "agent \<Rightarrow> string" where
  "place_of ag = (case ag_worktree ag of None \<Rightarrow> ''unknown'' | Some wt \<Rightarrow> wt)"

definition task_lines :: "string \<Rightarrow> task \<Rightarrow> string" where
  "task_lines title task =
     ''Task ID: '' @ ts_id task @ [nl] @ ''Objective: '' @ title @ [nl] @ ''Original task: '' @ ts_description task @ nlnl"

definition lean_review_prompt :: "agent \<Rightarrow> string \<Rightarrow> task \<Rightarrow> string" where
  "lean_review_prompt ag title task =
     ''Review the changes in this worktree: '' @ place_of ag @ nlnl @ task_lines title task @
     ''NOTE: Compilation has already been verified by the build step. '' @
     ''Do NOT run lake build or lean_diagnostic_messages.'' @ nlnl @
     ''## Review Steps'' @ nlnl @
     ''1. **Check the diff**: Run `git diff HEAD~1` in bash to see changes'' @ [nl] @
     ''2. **Read the original source**: Open the relevant section in `book/` (LaTeX or Markdown) and read the '' @
     ''theorem/definition statement directly '' @ em_dash @ '' do not rely on the task prompt'' @ [CHR 0x27] @ ''s description of it.'' @ [nl] @
     ''3. **Verify the statement matches**: The Lean statement must match the book'' @ [CHR 0x27] @ ''s statement exactly. '' @
     ''Extra hypotheses not in the book are deviations '' @ em_dash @ '' reject unless they are provably redundant.'' @ [nl] @
     ''4. **Check proof approach**: Is the proof strategy sound?'' @ [nl] @
     ''5. **Check for remaining sorry**: Are there any sorry'' @ [CHR 0x27] @ ''s that should have been proved?'' @ nlnl @
     ''## Response Format'' @ nlnl @
     ''APPROVED: <brief reason>  or  REJECTED: <specific, actionable feedback>''"

definition lean_inspect_prompt :: "agent \<Rightarrow> string \<Rightarrow> task \<Rightarrow> string" where
  "lean_inspect_prompt ag title task =
     ''Inspect the code quality of the changes in this worktree: '' @ place_of ag @ nlnl @ task_lines title task @
     ''NOTE: Compilation has already been verified. Do NOT run lake build.'' @ nlnl @
     ''and evaluate them against the Mathlib conventions in your system prompt.'' @ nlnl @
     ''APPROVED: <brief reason>  or  REJECTED: <specific, actionable feedback>''"

section \<open>Merge\<close>

text \<open>The outcome of the merge queue as that of \<open>_do_merge\<close>; without a client or a worktree the base class merges.\<close>

definition queue_outcome :: "merge_result \<Rightarrow> merge_attempt" where
  "queue_outcome r =
     (if mr_status r = MERGED
      then \<lparr>at_landed = True, at_pre_hash = mr_pre_hash r, at_post_hash = mr_post_hash r, at_failure = None\<rparr>
      else \<lparr>at_landed = False, at_pre_hash = None, at_post_hash = None, at_failure = mr_error r\<rparr>)"

definition lean_do_merge :: "(agent \<Rightarrow> merge_result) option \<Rightarrow> 'w ca \<Rightarrow> agent \<Rightarrow> ('w, merge_attempt) eff" where
  "lean_do_merge client ca ag =
     (case client of
        None \<Rightarrow> do_merge ca ag
      | Some answer_of \<Rightarrow>
          (case ag_worktree ag of
             None \<Rightarrow> do_merge ca ag
           | Some wt \<Rightarrow> if wt = [] then do_merge ca ag else ret (queue_outcome (answer_of ag))))"

section \<open>What a passed review means\<close>

text \<open>Work with a reviewer passes the review exactly when the reviewer answered with the word \<open>APPROVED\<close> in it, and the
  inspector, when there is one and it answered at all, did too: an inspector that gives no answer does not hold it up.
\<close>

theorem lean_review_passes_iff:
  "(\<exists>feedback. lean_review (Some rv) (Inr answer) inspect = Inr (True, feedback)) \<longleftrightarrow>
     (\<exists>a. answer = Some a \<and> contains (upper a) ''APPROVED'') \<and>
     (inspect = None \<or> inspect = Some (Inr None) \<or> inspect = Some (Inr (Some [])) \<or>
       (\<exists>b. inspect = Some (Inr (Some b)) \<and> contains (upper b) ''APPROVED''))"
proof -
  have "\<not> contains (upper []) ''APPROVED''" by code_simp
  then have r: "reviewed_ok answer \<longleftrightarrow> (\<exists>a. answer = Some a \<and> contains (upper a) ''APPROVED'')"
    by (auto simp: reviewed_ok_def approves_def split: option.splits)
  have i: "inspected_ok b \<longleftrightarrow> b = None \<or> b = Some [] \<or> (\<exists>c. b = Some c \<and> contains (upper c) ''APPROVED'')" for b
    by (auto simp: inspected_ok_def approves_def split: option.splits)
  show ?thesis
  proof (cases inspect)
    case None
    then show ?thesis by (auto simp: lean_review_def lean_verdict_def r i Let_def)
  next
    case (Some x)
    then show ?thesis by (cases x) (auto simp: lean_review_def lean_verdict_def r i Let_def)
  qed
qed

text \<open>The root module imports every file of the library once it was updated, and a second update changes nothing.\<close>

lemma root_stable: "update_root_imports (fst (update_root_imports r)) = (fst (update_root_imports r), False)"
  by (auto simp: update_root_imports_def Let_def split: option.splits)

lemma build_feedback_bounded: "length (build_feedback output) \<le> 3000 + 30 + length (str_nat (length output))"
proof -
  have "length (str_nat m) \<le> length (str_nat n)" if "m \<le> n" for m n
    using that
  proof (induction n arbitrary: m rule: str_nat.induct)
    case (1 n)
    show ?case
    proof (cases "m < 10")
      case True
      then show ?thesis by (subst (1) str_nat.simps) (simp add: Suc_le_eq)
    next
      case False
      then have "m div 10 \<le> n div 10" "\<not> n < 10" using 1 by (auto simp: div_le_mono)
      then show ?thesis using 1(1) False by (subst (1 2) str_nat.simps) simp
    qed
  qed
  from this [of "length output - 3000" "length output"] show ?thesis
    by (auto simp: build_feedback_def HALF_def nlnl_def)
qed

end
