(* ===== verification/Orchestrator_Rounds.thy ===== *)
theory Orchestrator_Rounds
  imports Run_Archive Executor_Interface Py_Json
begin

text \<open>
  The rounds of the coordinator: \<open>_orchestrator_loop\<close> of \<open>autoform/bot/coordinator.py\<close>, the reports that
  \<open>autoform/bot/analysis.py\<close> writes when a task ends and \<open>autoform/bot/tools/reports/core.py\<close> loads, and the notifications of the merge
  evaluation. The loop is split at the point where it waits for the orchestrator; what other coroutines do in between are events of
  their own. What the orchestrator, an analyzer or the file system does is an argument of the event.
\<close>

section \<open>State\<close>

text \<open>
  The reports by the name of their file, the archive by the name of the file there, the ids of the tasks with a skill
  folder, with an analyzer, and with an analysis that is running.
\<close>

datatype phase = Waiting | Calling string

record rounds =
  or_tracker :: tracker
  or_goals :: "tracker option"
  or_queue :: "string list"
  or_reports :: "(string, json) dict"
  or_archive :: "(string, json) dict"
  or_skills :: "string list"
  or_analyzers :: "string list"
  or_pending :: "string list"
  or_round :: nat
  or_phase :: phase

text \<open>\<open>initialize\<close>: what was in progress when the process stopped is pending again; the loop starts by waking itself.\<close>

definition start_rounds :: "tracker \<Rightarrow> tracker option \<Rightarrow> (string, json) dict \<Rightarrow> rounds" where
  "start_rounds t goals reports =
     \<lparr>or_tracker = bulk_transition t IN_PROGRESS PENDING, or_goals = goals, or_queue = [''__startup__''], or_reports = reports,
      or_archive = [], or_skills = [], or_analyzers = [], or_pending = [], or_round = 0, or_phase = Waiting\<rparr>"

text \<open>\<open>_populate_test_tasks\<close>, with the name of the library \<open>_read_lib_name\<close> finds.\<close>

definition pad3 :: "nat \<Rightarrow> string" where
  "pad3 i = replicate (3 - length (str_nat i)) (CHR ''0'') @ str_nat i"

definition fence3 :: string where "fence3 = replicate 3 (CHR 0x60)"

definition test_description :: "string \<Rightarrow> nat \<Rightarrow> string" where
  "test_description lib i =
     ''Create a file '' @ [CHR 0x60] @ lib @ ''/Test'' @ pad3 i @ ''.lean'' @ [CHR 0x60] @ '' containing exactly:'' @ [nl, nl] @
     fence3 @ ''lean'' @ [nl] @ ''def test'' @ pad3 i @ '' : Nat := '' @ str_nat i @ [nl] @ fence3 @ [nl, nl] @
     ''Then commit the file with git.''"

definition add_test_task :: "string \<Rightarrow> tracker \<Rightarrow> nat \<Rightarrow> tracker" where
  "add_test_task lib t i =
     (let task_id = ''test-'' @ pad3 i
      in case get t (IdStr task_id) of
           Some _ \<Rightarrow> t
         | None \<Rightarrow> (case add t (''Test task '' @ str_nat i) (test_description lib i) [] [] (Some (IdStr task_id)) None None None of
               Inr (_, t') \<Rightarrow> t' | Inl _ \<Rightarrow> t))"

definition populate_test_tasks :: "string \<Rightarrow> nat \<Rightarrow> tracker \<Rightarrow> tracker" where
  "populate_test_tasks lib n t = foldl (add_test_task lib) t [0..<n]"

section \<open>Reports\<close>

definition write_report :: "string \<Rightarrow> string \<Rightarrow> string \<Rightarrow> rounds \<Rightarrow> rounds" where
  "write_report task_id status reason s =
     s\<lparr>or_reports := dset (or_reports s) (task_id @ ''.json'')
         (JObj [(''task_id'', JStr task_id), (''status'', JStr status), (''reason'', JStr reason)])\<rparr>"

definition notify :: "string \<Rightarrow> rounds \<Rightarrow> rounds" where
  "notify msg s = s\<lparr>or_queue := or_queue s @ [msg]\<rparr>"

text \<open>The result is \<open>None\<close> when the runner hands over something that is not a \<open>ConcurrentResult\<close>.\<close>

definition on_task_complete :: "string \<Rightarrow> concurrent_result option \<Rightarrow> rounds \<Rightarrow> rounds" where
  "on_task_complete task_id result s =
     (case result of
        Some r \<Rightarrow>
          if cr_failure_cause r = Some CauseInfrastructure
          then notify task_id (write_report task_id ''error''
                 (''Infrastructure failure: '' @ (case cr_error r of Some e \<Rightarrow> e | None \<Rightarrow> ''None'')) s)
          else if cr_success r then notify task_id (write_report task_id ''completed'' ''Task succeeded'' s)
          else s\<lparr>or_pending := or_pending s @ [task_id]\<rparr>
      | None \<Rightarrow> s\<lparr>or_pending := or_pending s @ [task_id]\<rparr>)"

text \<open>
  How an analysis ends: without a trace store it does nothing; it crashes, before or after its agent was made; or it
  finishes, with the report the analyzer wrote, if it wrote one.
\<close>

datatype analysis = NoTraceStore | Crashed bool | Finished "json option"

definition analyzed :: "string \<Rightarrow> bool \<Rightarrow> rounds \<Rightarrow> rounds" where
  "analyzed task_id made s =
     s\<lparr>or_skills := set_add task_id (or_skills s),
       or_analyzers := (if made then set_add task_id (or_analyzers s) else or_analyzers s)\<rparr>"

definition analysis_ends :: "string \<Rightarrow> analysis \<Rightarrow> rounds \<Rightarrow> rounds" where
  "analysis_ends task_id outcome s0 =
     (let s = s0\<lparr>or_pending := remove1 task_id (or_pending s0)\<rparr>
      in notify task_id (case outcome of
           NoTraceStore \<Rightarrow> s
         | Crashed made \<Rightarrow> write_report task_id ''error'' ''Trace analyzer crashed'' (analyzed task_id made s)
         | Finished None \<Rightarrow> analyzed task_id True s
         | Finished (Some report) \<Rightarrow> (analyzed task_id True s)\<lparr>or_reports := dset (or_reports s) (task_id @ ''.json'') report\<rparr>))"

definition load_reports :: "rounds \<Rightarrow> json list" where
  "load_reports s = map (\<lambda>k. the (dget (or_reports s) k)) (sort (dkeys (or_reports s)))"

section \<open>Skill folders\<close>

definition OPEN_STATUSES :: "string list" where
  "OPEN_STATUSES = [PENDING, IN_PROGRESS, FAILED]"

definition sync_folder :: "item \<Rightarrow> string list \<Rightarrow> string list" where
  "sync_folder i skills =
     (if it_status i \<in> set OPEN_STATUSES then set_add (it_id i) skills
      else if it_status i \<in> set TERMINAL then removeAll (it_id i) skills
      else skills)"

definition sync_skill_folders :: "rounds \<Rightarrow> rounds" where
  "sync_skill_folders s = s\<lparr>or_skills := foldl (\<lambda>sk i. sync_folder i sk) (or_skills s) (list_items (or_tracker s) None None None)\<rparr>"

definition close_analyzer :: "item \<Rightarrow> string list \<Rightarrow> string list" where
  "close_analyzer i analyzers = (if it_status i \<in> set TERMINAL then removeAll (it_id i) analyzers else analyzers)"

text \<open>\<open>sync\<close> of the analyzers.\<close>

definition sync_analyzers :: "rounds \<Rightarrow> rounds" where
  "sync_analyzers s =
     (let s' = sync_skill_folders s
      in s'\<lparr>or_analyzers := foldl (\<lambda>a i. close_analyzer i a) (or_analyzers s') (list_items (or_tracker s') None None None)\<rparr>)"

section \<open>The prompt of a round\<close>

definition STARTUP_PROMPT :: string where
  "STARTUP_PROMPT =
     ''Review the current DAG state and update the plan. '' @ ''Call load_reports() then get_dag_status() first.'' @ [nl, nl] @
     ''If all tasks are completed, carefully verify coverage: read the book and compare against '' @
     ''the git log and codebase. Check if any definitions, theorems, or propositions from the '' @
     ''book are missing from the formalization. If anything was dropped or deferred, create '' @
     ''new tasks for the missing parts. Only stop if every result in the book is covered.''"

definition goal_counts :: "tracker \<Rightarrow> string" where
  "goal_counts g =
     (let gs = summary g; n = (\<lambda>k. str_nat (dget_or (ts_counts gs) k 0))
      in n ''completed'' @ ''/'' @ str_nat (ts_total gs) @ '' completed, '' @ n ''failed'' @ '' failed, '' @ n ''pending'' @ '' pending.'')"

definition reports_prompt :: "rounds \<Rightarrow> string list \<Rightarrow> string" where
  "reports_prompt s regular =
     ''New reports landed for tasks: '' @ join '', '' regular @ ''. '' @
     ''Call load_reports() then get_dag_status(), then update the DAG accordingly.'' @
     (case or_goals s of
        None \<Rightarrow> []
      | Some g \<Rightarrow> [nl, nl] @ ''**Goal scorecard: '' @ goal_counts g @ '' Failed tasks in DAG: '' @
          str_nat (length (list_items (or_tracker s) (Some ''failed'') None None)) @ ''.** Act on every failed task NOW.'')"

definition MERGE_EVAL :: string where "MERGE_EVAL = ''__merge_eval__:''"

text \<open>\<open>s.split(":", 3)\<close>, and the notification \<open>main.py\<close> puts into the queue.\<close>

fun split_max :: "char \<Rightarrow> nat \<Rightarrow> string \<Rightarrow> string list" where
  "split_max c 0 s = [s]"
| "split_max c (Suc n) s =
     (if c \<in> set s then takeWhile (\<lambda>x. x \<noteq> c) s # split_max c n (drop 1 (dropWhile (\<lambda>x. x \<noteq> c) s)) else [s])"

definition merge_eval_msg :: "string \<Rightarrow> string \<Rightarrow> string list \<Rightarrow> string" where
  "merge_eval_msg batch_id report fix_tasks =
     MERGE_EVAL @ batch_id @ '':'' @ report @ (if fix_tasks = [] then [] else '':'' @ join '','' fix_tasks)"

definition read_merge_eval :: "string \<Rightarrow> (string \<times> string \<times> string) result" where
  "read_merge_eval msg =
     (case split_max (CHR '':'') 3 msg of
        [_, batch_id, report] \<Rightarrow> Inr (batch_id, report, [])
      | [_, batch_id, report, fixes] \<Rightarrow> Inr (batch_id, report, fixes)
      | _ \<Rightarrow> Inl IndexError)"

definition merge_eval_prompt :: "rounds \<Rightarrow> string \<Rightarrow> string result" where
  "merge_eval_prompt s msg =
     rbind (read_merge_eval msg) (\<lambda>(batch_id, report, fixes). Inr (
       ''Merge eval completed for task '' @ batch_id @ ''. '' @ ''A report is available at: '' @ report @ [nl] @
       ''Check list_goals() to see updated goal statuses. '' @
       ''Read the report with your filesystem tools for details on affected targets.'' @
       (if fixes = [] then []
        else [nl, nl] @ ''Fix tasks have been auto-created: '' @ fixes @ ''. '' @
          ''Review them with get_item() and dispatch when ready. '' @
          ''Do NOT create your own fix tasks for the same goals '' @ em_dash @ '' '' @
          ''the auto-created tasks already cover them. '' @
          ''Do NOT ignore them '' @ em_dash @ '' nothing is out of scope. '' @
          ''If the task is granular enough, the workers can handle it '' @ em_dash @ '' dispatch it. '' @
          ''If they fail, you can update or delete them.'') @
       (case or_goals s of
          None \<Rightarrow> []
        | Some g \<Rightarrow> [nl, nl] @ ''**Goal scorecard: '' @ goal_counts g @ ''** '' @
            ''Act on every failed goal and every failed task NOW '' @ em_dash @ '' '' @
            ''update, split, or delete and replace. Nothing is out of scope.'')))"

definition round_prompt :: "rounds \<Rightarrow> string list \<Rightarrow> string result" where
  "round_prompt s task_ids =
     (if task_ids = [''__startup__''] then Inr STARTUP_PROMPT
      else
        let merge_evals = filter (\<lambda>t. startswith t MERGE_EVAL) task_ids; regular = filter (\<lambda>t. \<not> startswith t ''__'') task_ids
        in rbind (mapM (merge_eval_prompt s) merge_evals) (\<lambda>parts.
           Inr (join [nl, nl] ((if regular = [] then [] else [reports_prompt s regular]) @ parts))))"

section \<open>The loop\<close>

text \<open>The queue has something: it is emptied, the analyzers are synchronized, and the orchestrator is called.\<close>

definition round_begins :: "rounds \<Rightarrow> rounds result" where
  "round_begins s =
     (if or_queue s = [] \<or> or_phase s \<noteq> Waiting then Inr s
      else let s' = sync_analyzers (s\<lparr>or_queue := []\<rparr>)
           in rbind (round_prompt s' (or_queue s)) (\<lambda>prompt. Inr (s'\<lparr>or_phase := Calling prompt\<rparr>)))"

definition archive_name :: "nat \<Rightarrow> string \<Rightarrow> string" where
  "archive_name n name = round_name n name"

definition archive_all :: "nat \<Rightarrow> (string, json) dict \<Rightarrow> (string, json) dict \<Rightarrow> (string, json) dict" where
  "archive_all n reports archive = foldl (\<lambda>a (name, r). dset a (archive_name n name) r) archive reports"

text \<open>The call returns: every report is archived and removed.\<close>

definition round_ends :: "rounds \<Rightarrow> rounds" where
  "round_ends s =
     (case or_phase s of
        Waiting \<Rightarrow> s
      | Calling _ \<Rightarrow>
          let n = Suc (or_round s)
          in sync_skill_folders (s\<lparr>or_round := n, or_archive := archive_all n (or_reports s) (or_archive s), or_reports := [],
               or_phase := Waiting\<rparr>))"

datatype round_event =
    TaskDone string "concurrent_result option"
  | AnalysisDone string analysis
  | MergeEvalDone string string "string list"
  | TrackerChanges "tracker_op list"
  | RoundBegins
  | RoundEnds

fun round_step :: "rounds \<Rightarrow> round_event \<Rightarrow> rounds result" where
  "round_step s (TaskDone k r) = Inr (on_task_complete k r s)"
| "round_step s (AnalysisDone k r) = Inr (if k \<in> set (or_pending s) then analysis_ends k r s else s)"
| "round_step s (MergeEvalDone b r fs) = Inr (notify (merge_eval_msg b r fs) s)"
| "round_step s (TrackerChanges ops) = Inr (s\<lparr>or_tracker := run_ops (or_tracker s) ops\<rparr>)"
| "round_step s RoundBegins = round_begins s"
| "round_step s RoundEnds = Inr (round_ends s)"

fun run_rounds :: "rounds \<Rightarrow> round_event list \<Rightarrow> rounds result" where
  "run_rounds s [] = Inr s"
| "run_rounds s (ev # evs) = rbind (round_step s ev) (\<lambda>s'. run_rounds s' evs)"

section \<open>The archive keeps every report\<close>

lemma takeWhile_digits: "isdigit d \<Longrightarrow> \<not> is_digit_char c \<Longrightarrow> takeWhile is_digit_char (rev d @ c # r) = rev d"
  by (subst takeWhile_append2) (auto simp: isdigit_def list_all_iff)

lemma round_name_inject:
  assumes "round_name m a = round_name n b"
  shows "m = n \<and> take (length a - 5) a = take (length b - 5) b"
proof -
  let ?x = "take (length a - 5) a" and ?y = "take (length b - 5) b"
  have e: "?x @ ''_round'' @ str_nat m = ?y @ ''_round'' @ str_nat n"
    using assms unfolding round_name_def by (metis append.assoc append_same_eq)
  have tw: "takeWhile is_digit_char (rev (x @ ''_round'' @ str_nat k)) = rev (str_nat k)" for x k
    using takeWhile_digits [OF isdigit_str_nat, of "CHR ''d''" k "rev (x @ ''_roun'')"] by (simp add: is_digit_char_def)
  have "rev (str_nat m) = rev (str_nat n)" using tw [of ?x m] tw [of ?y n] by (simp only: e)
  then have s: "str_nat m = str_nat n" by simp
  then have "m = n" by (metis nat_of_digits_str_nat)
  then show ?thesis using e by simp
qed

lemma json_name: "endswith a ''.json'' \<Longrightarrow> a = take (length a - 5) a @ ''.json''"
proof -
  assume "endswith a ''.json''"
  then have "rev (take (length ''.json'') (rev a)) = ''.json''" by (simp add: endswith_def startswith_def)
  then have "drop (length a - 5) a = ''.json''" by (simp add: rev_take eval_nat_numeral)
  then show ?thesis by (metis append_take_drop_id)
qed

lemma archive_other:
  "name \<notin> archive_name n ` fst ` set reports \<Longrightarrow> map_of (archive_all n reports archive) name = map_of archive name"
  unfolding archive_all_def by (induction reports arbitrary: archive) (auto split: prod.splits)

lemma archive_stored:
  "distinct (map fst reports) \<Longrightarrow> \<forall>k \<in> fst ` set reports. endswith k ''.json'' \<Longrightarrow> (k, r) \<in> set reports \<Longrightarrow>
     map_of (archive_all n reports archive) (archive_name n k) = Some r"
proof (induction reports arbitrary: archive)
  case (Cons x reports)
  obtain j q where x: "x = (j, q)" by (cases x)
  have step: "archive_all n (x # reports) archive = archive_all n reports (dset archive (archive_name n j) q)"
    by (simp add: archive_all_def x)
  show ?case
  proof (cases "(k, r) \<in> set reports")
    case True
    then show ?thesis using Cons.IH Cons.prems by (simp add: step)
  next
    case False
    then have k: "k = j" "r = q" using Cons.prems(3) x by auto
    have "archive_name n j \<notin> archive_name n ` fst ` set reports"
    proof
      assume "archive_name n j \<in> archive_name n ` fst ` set reports"
      then obtain i where i: "i \<in> fst ` set reports" "archive_name n j = archive_name n i" by blast
      then have "take (length j - 5) j = take (length i - 5) i" using round_name_inject [of n j n i] by (simp add: archive_name_def)
      moreover have "endswith j ''.json''" "endswith i ''.json''" using Cons.prems(2) x i(1) by auto
      ultimately have "i = j" using json_name by metis
      then show False using i(1) Cons.prems(1) x by auto
    qed
    then show ?thesis by (simp add: step k archive_other)
  qed
qed simp

text \<open>The names of the archive are of rounds that are over, and every report is a JSON file.\<close>

definition rounds_inv :: "rounds \<Rightarrow> bool" where
  "rounds_inv s \<longleftrightarrow> wf_dict (or_reports s) \<and> (\<forall>k \<in> set (dkeys (or_reports s)). endswith k ''.json'') \<and>
     (\<forall>name \<in> set (dkeys (or_archive s)). \<exists>m k. m \<le> or_round s \<and> name = round_name m k)"

lemma endswith_append [simp]: "endswith (a @ b) b"
  by (simp add: endswith_def startswith_def)

lemma keys_dset: "set (map fst (AList.update k v d)) = insert k (set (map fst d))"
  by (induction d) auto

lemma rounds_inv_frame:
  "or_reports s' = or_reports s \<Longrightarrow> or_archive s' = or_archive s \<Longrightarrow> or_round s' = or_round s \<Longrightarrow> rounds_inv s \<Longrightarrow> rounds_inv s'"
  by (simp add: rounds_inv_def)

lemma write_inv:
  "rounds_inv s \<Longrightarrow> or_archive s' = or_archive s \<Longrightarrow> or_round s' = or_round s \<Longrightarrow>
     or_reports s' = or_reports s \<or> (\<exists>r. or_reports s' = dset (or_reports s) (k @ ''.json'') r) \<Longrightarrow> rounds_inv s'"
  by (elim disjE exE) (simp_all add: rounds_inv_def keys_dset del: set_map)

lemmas rounds_frame = write_report_def notify_def analyzed_def sync_skill_folders_def sync_analyzers_def Let_def

lemma begins_frame:
  "round_begins s = Inr s' \<Longrightarrow> or_reports s' = or_reports s \<and> or_archive s' = or_archive s \<and> or_round s' = or_round s"
  by (auto simp: round_begins_def rounds_frame split: if_splits)

lemma keys_archive_all: "set (dkeys (archive_all n reports archive)) = set (dkeys archive) \<union> archive_name n ` set (dkeys reports)"
  unfolding archive_all_def by (induction reports arbitrary: archive) (auto simp: keys_dset simp del: set_map split: prod.splits)

lemma round_ends_inv:
  assumes "rounds_inv s"
  shows "rounds_inv (round_ends s) \<and> (\<forall>name r. map_of (or_archive s) name = Some r \<longrightarrow> map_of (or_archive (round_ends s)) name = Some r)"
proof (cases "or_phase s")
  case Waiting
  then show ?thesis using assms by (simp add: round_ends_def)
next
  case (Calling p)
  let ?n = "Suc (or_round s)"
  have e: "or_archive (round_ends s) = archive_all ?n (or_reports s) (or_archive s)" "or_reports (round_ends s) = []" "or_round (round_ends s) = ?n"
    using Calling by (simp_all add: round_ends_def rounds_frame)
  have "map_of (archive_all ?n (or_reports s) (or_archive s)) name = Some r" if "map_of (or_archive s) name = Some r" for name r
  proof -
    have "name \<in> set (dkeys (or_archive s))" using that by (metis map_of_in_keys set_map)
    then obtain m k where "m \<le> or_round s" "name = round_name m k" using assms unfolding rounds_inv_def by blast
    then have "name \<notin> archive_name ?n ` fst ` set (or_reports s)" using round_name_inject by (fastforce simp: archive_name_def)
    then show ?thesis using that by (simp add: archive_other)
  qed
  moreover have "\<exists>m k. m \<le> ?n \<and> name = round_name m k" if "name \<in> set (dkeys (archive_all ?n (or_reports s) (or_archive s)))" for name
    using that assms unfolding keys_archive_all rounds_inv_def archive_name_def by (meson Un_iff imageE le_SucI order_refl)
  ultimately show ?thesis by (simp add: rounds_inv_def e del: set_map)
qed

lemma round_step_inv:
  assumes "rounds_inv s" "round_step s ev = Inr s'"
  shows "rounds_inv s' \<and> (\<forall>name r. map_of (or_archive s) name = Some r \<longrightarrow> map_of (or_archive s') name = Some r)"
proof (cases ev)
  case RoundEnds
  then show ?thesis using assms round_ends_inv by auto
next
  case RoundBegins
  then show ?thesis using assms begins_frame [of s s'] rounds_inv_frame [of s' s] by auto
next
  case (TaskDone k r)
  have c: "or_archive (on_task_complete k r s) = or_archive s" "or_round (on_task_complete k r s) = or_round s"
    "or_reports (on_task_complete k r s) = or_reports s \<or> (\<exists>j. or_reports (on_task_complete k r s) = dset (or_reports s) (k @ ''.json'') j)"
    by (auto simp: on_task_complete_def rounds_frame split: option.splits)
  then have "rounds_inv (on_task_complete k r s)" by (intro write_inv [OF assms(1)])
  then show ?thesis using assms(2) TaskDone c(1) by simp
next
  case (AnalysisDone k r)
  have c: "or_archive (analysis_ends k r s) = or_archive s" "or_round (analysis_ends k r s) = or_round s"
    "or_reports (analysis_ends k r s) = or_reports s \<or> (\<exists>j. or_reports (analysis_ends k r s) = dset (or_reports s) (k @ ''.json'') j)"
    by (auto simp: analysis_ends_def rounds_frame split: analysis.splits option.splits)
  then have "rounds_inv (analysis_ends k r s)" by (intro write_inv [OF assms(1)])
  then show ?thesis using assms AnalysisDone c(1) by (simp split: if_splits)
next
  case (MergeEvalDone b r fs)
  then show ?thesis using assms(2) rounds_inv_frame [OF _ _ _ assms(1), of s'] by (auto simp: notify_def)
next
  case (TrackerChanges ops)
  then show ?thesis using assms(2) rounds_inv_frame [OF _ _ _ assms(1), of s'] by auto
qed

lemma run_inv:
  "rounds_inv s \<Longrightarrow> run_rounds s evs = Inr s' \<Longrightarrow>
     rounds_inv s' \<and> (\<forall>name r. map_of (or_archive s) name = Some r \<longrightarrow> map_of (or_archive s') name = Some r)"
proof (induction evs arbitrary: s)
  case (Cons ev evs)
  then obtain s1 where "round_step s ev = Inr s1" "run_rounds s1 evs = Inr s'" by auto
  then show ?case using Cons.IH round_step_inv [OF Cons.prems(1)] by blast
qed simp

lemma run_from_start:
  assumes "run_rounds (start_rounds t goals []) evs = Inr s" shows "rounds_inv s"
proof -
  have "rounds_inv (start_rounds t goals [])" by (simp add: rounds_inv_def start_rounds_def)
  then show ?thesis using run_inv assms by blast
qed

text \<open>C24: A report that is there when the orchestrator's call of a round returns is in the archive from then on, under its
  name and the number of the round, whatever happens later.
\<close>

theorem reports_archived:
  assumes "run_rounds (start_rounds t goals []) evs = Inr s" "or_phase s = Calling p" "map_of (or_reports s) k = Some r"
    "run_rounds s (RoundEnds # later) = Inr s'"
  shows "map_of (or_archive s') (round_name (Suc (or_round s)) k) = Some r"
proof -
  have inv: "rounds_inv s" by (rule run_from_start [OF assms(1)])
  then have "map_of (archive_all (Suc (or_round s)) (or_reports s) (or_archive s)) (archive_name (Suc (or_round s)) k) = Some r"
    using assms(3) by (intro archive_stored) (auto simp: rounds_inv_def wf_dict_def dest: map_of_SomeD)
  then have "map_of (or_archive (round_ends s)) (round_name (Suc (or_round s)) k) = Some r"
    using assms(2) by (simp add: round_ends_def rounds_frame archive_name_def)
  moreover have "rounds_inv (round_ends s)" using round_ends_inv [OF inv] by blast
  moreover have "run_rounds (round_ends s) later = Inr s'" using assms(4) by simp
  ultimately show ?thesis using run_inv by blast
qed

text \<open>For the witnesses: a run and the further run it allows, with the call that is under way in between.\<close>

lemma called_run:
  assumes "(case f of Inl _ \<Rightarrow> False | Inr s \<Rightarrow> or_phase s \<noteq> Waiting \<and> P s \<and> (case g s of Inl _ \<Rightarrow> False | Inr _ \<Rightarrow> True))"
  obtains s s' p where "f = Inr s" "or_phase s = Calling p" "P s" "g s = Inr s'"
proof (cases f)
  case (Inl e)
  then show ?thesis using assms by simp
next
  case (Inr s)
  then obtain p where p: "or_phase s = Calling p" using assms by (cases "or_phase s") auto
  show ?thesis using assms Inr p that by (cases "g s") auto
qed

definition some_result :: "bool \<Rightarrow> concurrent_result" where
  "some_result ok = \<lparr>cr_success = ok, cr_winner_id = None, cr_error = None, cr_failure_cause = None,
     cr_pre_merge_hash = None, cr_post_merge_hash = None\<rparr>"

theorem reports_archived_witness:
  "\<exists>s s'. run_rounds (start_rounds (empty_tracker ''task'') None []) [TaskDone ''a'' (Some (some_result True)), RoundBegins] = Inr s \<and>
     run_rounds s [RoundEnds, RoundBegins] = Inr s' \<and>
     map_of (or_archive s') ''a_round1.json'' = map_of (or_reports s) ''a.json'' \<and> map_of (or_reports s) ''a.json'' \<noteq> None"
proof -
  let ?run = "run_rounds (start_rounds (empty_tracker ''task'') None []) [TaskDone ''a'' (Some (some_result True)), RoundBegins]"
  have "(case ?run of Inl _ \<Rightarrow> False | Inr s \<Rightarrow> or_phase s \<noteq> Waiting \<and> (or_round s = 0 \<and> map_of (or_reports s) ''a.json'' \<noteq> None) \<and>
      (case run_rounds s [RoundEnds, RoundBegins] of Inl _ \<Rightarrow> False | Inr _ \<Rightarrow> True))" by code_simp
  then obtain s s' p where s: "?run = Inr s" "or_phase s = Calling p" "or_round s = 0 \<and> map_of (or_reports s) ''a.json'' \<noteq> None"
    "run_rounds s [RoundEnds, RoundBegins] = Inr s'" by (rule called_run)
  then obtain r where r: "map_of (or_reports s) ''a.json'' = Some r" by (cases "map_of (or_reports s) ''a.json''") simp_all
  have "round_name (Suc 0) ''a.json'' = ''a_round1.json''" by code_simp
  then have "map_of (or_archive s') ''a_round1.json'' = Some r" using reports_archived [OF s(1,2) r s(4)] s(3) by simp
  then show ?thesis using s(1,4) r by (intro exI [of _ s] exI [of _ s']) (simp del: run_rounds.simps)
qed

section \<open>Every end of a task is announced\<close>

lemma contains_append_right: "contains s q \<Longrightarrow> contains (p @ s) q"
  by (induction p) auto

lemma startswith_contains: "startswith s q \<Longrightarrow> contains s q"
  by (cases s) (auto simp: startswith_def)

lemma contains_append_left: "contains s q \<Longrightarrow> contains (s @ p) q"
proof (induction s)
  case Nil
  then show ?case by (cases p) (auto simp: startswith_def)
next
  case (Cons c s)
  have "startswith ((c # s) @ p) q" if "startswith (c # s) q"
  proof -
    have "c # s = q @ drop (length q) (c # s)" using that unfolding startswith_def by (metis append_take_drop_id)
    then have e: "(c # s) @ p = q @ drop (length q) (c # s) @ p" by (metis append.assoc)
    show ?thesis unfolding e startswith_def by simp
  qed
  then show ?case using Cons by auto
qed

lemma contains_join: "x \<in> set xs \<Longrightarrow> contains (join sep xs) x"
proof (induction sep xs rule: join.induct)
  case (2 sep s)
  then show ?case by (simp add: startswith_contains startswith_def)
next
  case (3 sep s t ts)
  show ?case
  proof (cases "x = s")
    case True
    have "startswith (s @ sep @ join sep (t # ts)) s" by (simp add: startswith_def)
    then show ?thesis using True startswith_contains by simp
  next
    case False
    then show ?thesis using 3 by (simp add: contains_append_right)
  qed
qed simp

lemma contains_trans: "contains s t \<Longrightarrow> contains t q \<Longrightarrow> contains s q"
proof (induction s)
  case Nil
  then show ?case by simp
next
  case (Cons c s)
  show ?case
  proof (cases "startswith (c # s) t")
    case True
    then obtain r where "c # s = t @ r" unfolding startswith_def by (metis append_take_drop_id)
    then show ?thesis using contains_append_left [OF Cons.prems(2), of r] by simp
  next
    case False
    then show ?thesis using Cons by simp
  qed
qed

lemma reports_prompt_names: "k \<in> set regular \<Longrightarrow> contains (reports_prompt s regular) k"
  unfolding reports_prompt_def by (intro contains_append_right contains_append_left contains_join)

lemma round_names:
  assumes "round_prompt s ids = Inr prompt" "ids \<noteq> [''__startup__'']" "k \<in> set ids" "\<not> startswith k ''__''"
  shows "contains prompt k"
proof -
  let ?regular = "filter (\<lambda>t. \<not> startswith t ''__'') ids"
  have k: "k \<in> set ?regular" using assms(3,4) by simp
  then have "?regular \<noteq> []" by (metis list.set(1) empty_iff)
  then obtain parts where "prompt = join [nl, nl] ((reports_prompt s ?regular) # parts)"
    using assms(1,2) by (auto simp: round_prompt_def Let_def)
  then have "contains prompt (reports_prompt s ?regular)" using contains_join [OF list.set_intros(1)] by simp
  then show ?thesis using contains_trans reports_prompt_names [OF k] by blast
qed



end
