(* ===== verification/Filesystem_Tools.thy ===== *)
theory Filesystem_Tools
  imports Py_Strings
begin

text \<open>
  \<open>tools/files/filesystem/core.py\<close>: the file operations of agents, which are confined to directories. The file system is a
  dictionary from absolute paths, as lists of names, to files, directories and symbolic links; what Python's \<open>pathlib\<close> and the
  calls of the system do with a path is written out over it. The process may read and write everything, so that only
  the checks of the code stand between an agent and a file. The lines of a unified diff and compiled patterns are arguments.
\<close>

section \<open>The file system\<close>

type_synonym fpath = "string list"

datatype fnode = FileNode string | DirNode | LinkNode string

type_synonym files = "(fpath, fnode) dict"

definition node_at :: "files \<Rightarrow> fpath \<Rightarrow> fnode option" where
  "node_at fs p = (if p = [] then Some DirNode else dget fs p)"

fun is_file_node :: "fnode option \<Rightarrow> bool" where
  "is_file_node (Some (FileNode _)) = True"
| "is_file_node _ = False"

definition path_str :: "fpath \<Rightarrow> string" where
  "path_str p = ''/'' @ join ''/'' p"

definition path_parts :: "string \<Rightarrow> fpath" where
  "path_parts raw = filter (\<lambda>x. x \<noteq> [] \<and> x \<noteq> ''.'') (split_char (CHR ''/'') raw)"

definition is_abs :: "string \<Rightarrow> bool" where
  "is_abs raw = startswith raw ''/''"

text \<open>The exceptions of system calls, with their texts.\<close>

definition errno_text :: "string \<Rightarrow> fpath \<Rightarrow> string" where
  "errno_text msg p = msg @ '': '' @ repr_str (path_str p)"

definition no_such_file :: "fpath \<Rightarrow> py_error" where
  "no_such_file p = FileNotFoundError (errno_text ''[Errno 2] No such file or directory'' p)"

definition not_a_directory :: "fpath \<Rightarrow> py_error" where
  "not_a_directory p = OSError (errno_text ''[Errno 20] Not a directory'' p)"

definition is_a_directory :: "fpath \<Rightarrow> py_error" where
  "is_a_directory p = OSError (errno_text ''[Errno 21] Is a directory'' p)"

definition absent_error :: "files \<Rightarrow> fpath \<Rightarrow> py_error" where
  "absent_error fs p =
     (if list_ex (\<lambda>i. is_file_node (node_at fs (take i p))) [0..<length p] then not_a_directory p else no_such_file p)"

subsection \<open>Resolution of paths\<close>

text \<open>\<open>os.path.normpath\<close>, which takes the name before \<open>..\<close> away.\<close>

fun normalize :: "fpath \<Rightarrow> fpath \<Rightarrow> fpath" where
  "normalize acc [] = rev acc"
| "normalize acc (x # xs) = (if x = ''..'' then normalize (tl acc) xs else normalize (x # acc) xs)"

text \<open>
  \<open>posixpath._joinrealpath\<close>: the path as far as it is resolved, whether there was no loop, and the links seen with what
  they lead to, \<open>None\<close> while that is not known. The first argument bounds the depth of links in links; each of them is
  another link of the file system.
\<close>

type_synonym seen = "(fpath, fpath option) dict"

fun join_real :: "nat \<Rightarrow> files \<Rightarrow> fpath \<Rightarrow> fpath \<Rightarrow> seen \<Rightarrow> fpath \<times> bool \<times> seen" where
  "join_real n fs path [] seen = (path, True, seen)"
| "join_real n fs path (x # rest) seen =
     (if x = ''..'' then join_real n fs (butlast path) rest seen
      else let new = path @ [x]
        in case node_at fs new of
             Some (LinkNode target) \<Rightarrow>
               (case dget seen new of
                  Some (Some q) \<Rightarrow> join_real n fs q rest seen
                | Some None \<Rightarrow> (new @ rest, False, seen)
                | None \<Rightarrow>
                    (case n of
                       0 \<Rightarrow> (new @ rest, False, seen)
                     | Suc m \<Rightarrow>
                         (case join_real m fs (if is_abs target then [] else path) (path_parts target) (dset seen new None) of
                            (q, ok, seen') \<Rightarrow>
                              if ok then join_real n fs q rest (dset seen' new (Some q)) else (q @ rest, False, seen'))))
           | _ \<Rightarrow> join_real n fs new rest seen)"

definition realpath :: "files \<Rightarrow> fpath \<Rightarrow> fpath \<Rightarrow> fpath \<times> bool" where
  "realpath fs start p = (case join_real (Suc (length fs)) fs start p [] of (q, ok, _) \<Rightarrow> (normalize [] q, ok))"

text \<open>
  \<open>Path.resolve\<close>, as up to Python 3.12: a loop of links is an error when the result cannot be looked at because of it. When
  it can, because \<open>..\<close> follows the loop, the path is only half resolved, which the model does not cover.
\<close>

definition resolve_path :: "files \<Rightarrow> fpath \<Rightarrow> string \<Rightarrow> fpath result" where
  "resolve_path fs cwd raw =
     (if CHR 0x00 \<in> set raw then Inl (ValueError ''embedded null byte'')
      else case realpath fs (if is_abs raw then [] else cwd) (path_parts raw) of
        (p, True) \<Rightarrow> Inr p
      | (p, False) \<Rightarrow>
          if snd (realpath fs [] p) then Inl (OutsideModel ''path through a loop'')
          else Inl (RuntimeError (''Symlink loop from '' @ repr_str (path_str p))))"

text \<open>
  \<open>os.path.normpath(Path(raw).absolute())\<close>; a path with exactly two slashes in front has a root of its own.
\<close>

type_synonym rooted = "bool \<times> fpath"

definition normalized :: "fpath \<Rightarrow> string \<Rightarrow> rooted" where
  "normalized cwd raw =
     (startswith raw ''//'' \<and> \<not> startswith raw ''///'', normalize [] (if is_abs raw then path_parts raw else cwd @ path_parts raw))"

definition within :: "rooted \<Rightarrow> rooted \<Rightarrow> bool" where
  "within p d = (fst p = fst d \<and> take (length (snd d)) (snd p) = snd d)"

text \<open>What a path leads to, links followed.\<close>

definition kind_at :: "files \<Rightarrow> fpath \<Rightarrow> fnode option" where
  "kind_at fs p = (case realpath fs [] p of (q, ok) \<Rightarrow> if ok then node_at fs q else None)"

definition is_dir :: "files \<Rightarrow> fpath \<Rightarrow> bool" where
  "is_dir fs p = (kind_at fs p = Some DirNode)"

subsection \<open>System calls\<close>

text \<open>\<open>read_text\<close> turns every end of a line into a newline; the flag says that the last character was a carriage return.\<close>

fun universal :: "bool \<Rightarrow> string \<Rightarrow> string" where
  "universal b [] = []"
| "universal b (c # s) =
     (if c = CHR 0x0D then nl # universal True s
      else if c = nl \<and> b then universal False s
      else c # universal False s)"

definition read_text :: "files \<Rightarrow> fpath \<Rightarrow> string result" where
  "read_text fs p =
     (case kind_at fs p of
        Some (FileNode c) \<Rightarrow> Inr (universal False c)
      | Some _ \<Rightarrow> Inl (is_a_directory p)
      | None \<Rightarrow> Inl (absent_error fs p))"

definition write_text :: "files \<Rightarrow> fpath \<Rightarrow> string \<Rightarrow> files result" where
  "write_text fs p c =
     (case node_at fs p of
        Some (FileNode _) \<Rightarrow> Inr (dset fs p (FileNode c))
      | Some DirNode \<Rightarrow> Inl (is_a_directory p)
      | Some (LinkNode _) \<Rightarrow> Inl (OutsideModel ''link in a resolved path'')
      | None \<Rightarrow> if node_at fs (butlast p) = Some DirNode then Inr (dset fs p (FileNode c)) else Inl (absent_error fs p))"

definition make_dir :: "files \<Rightarrow> fpath \<Rightarrow> files" where
  "make_dir fs p = (if node_at fs p = None then dset fs p DirNode else fs)"

definition mkdir_parents :: "files \<Rightarrow> fpath \<Rightarrow> files result" where
  "mkdir_parents fs p =
     (if is_file_node (node_at fs p) then Inl (OSError (errno_text ''[Errno 17] File exists'' p))
      else if list_ex (\<lambda>i. is_file_node (node_at fs (take i p))) [0..<length p] then Inl (not_a_directory p)
      else Inr (foldl (\<lambda>fs i. make_dir fs (take i p)) fs [1..<Suc (length p)]))"

definition below :: "fpath \<Rightarrow> fpath \<Rightarrow> bool" where
  "below d p = (take (length d) p = d)"

definition moved :: "fpath \<Rightarrow> fpath \<Rightarrow> fpath \<Rightarrow> fpath" where
  "moved src dst p = (if below src p then dst @ drop (length src) p else p)"

text \<open>\<open>rename\<close>: a file replaces a file, and a directory an empty directory.\<close>

definition rename_text :: "string \<Rightarrow> fpath \<Rightarrow> fpath \<Rightarrow> string" where
  "rename_text msg src dst = errno_text msg src @ '' -> '' @ repr_str (path_str dst)"

definition rename_absent :: "files \<Rightarrow> fpath \<Rightarrow> fpath \<Rightarrow> fpath \<Rightarrow> py_error" where
  "rename_absent fs p src dst =
     (case absent_error fs p of
        FileNotFoundError _ \<Rightarrow> FileNotFoundError (rename_text ''[Errno 2] No such file or directory'' src dst)
      | _ \<Rightarrow> OSError (rename_text ''[Errno 20] Not a directory'' src dst))"

definition rename_error :: "files \<Rightarrow> fpath \<Rightarrow> fpath \<Rightarrow> py_error option" where
  "rename_error fs src dst =
     (let err = (\<lambda>msg. Some (OSError (rename_text msg src dst))) in
      case node_at fs src of
        None \<Rightarrow> Some (rename_absent fs src src dst)
      | Some n \<Rightarrow>
          if node_at fs (butlast dst) \<noteq> Some DirNode then Some (rename_absent fs dst src dst)
          else if src = [] \<or> dst = [] then err ''[Errno 16] Device or resource busy''
          else if src = dst then None
          else if below src dst then err ''[Errno 22] Invalid argument''
          else if below dst src then err ''[Errno 39] Directory not empty''
          else (case node_at fs dst of
              None \<Rightarrow> None
            | Some m \<Rightarrow>
                if n = DirNode \<and> m \<noteq> DirNode then err ''[Errno 20] Not a directory''
                else if n \<noteq> DirNode \<and> m = DirNode then err ''[Errno 21] Is a directory''
                else if list_ex (\<lambda>(q, _). below dst q \<and> q \<noteq> dst) fs then err ''[Errno 39] Directory not empty''
                else None))"

definition rename :: "files \<Rightarrow> fpath \<Rightarrow> fpath \<Rightarrow> files result" where
  "rename fs src dst =
     (case rename_error fs src dst of
        Some e \<Rightarrow> Inl e
      | None \<Rightarrow> Inr (if src = dst then fs else map (\<lambda>(p, n). (moved src dst p, n)) (AList.delete dst fs)))"

definition entry_names :: "files \<Rightarrow> fpath \<Rightarrow> string list" where
  "entry_names fs p = map (last \<circ> fst) (filter (\<lambda>(q, _). q \<noteq> [] \<and> butlast q = p) fs)"

text \<open>\<open>os.walk\<close>, which goes into directories but not into links; the names in the order of the file system.\<close>

fun walk :: "nat \<Rightarrow> files \<Rightarrow> fpath \<Rightarrow> (fpath \<times> string list) list" where
  "walk 0 fs p = []"
| "walk (Suc n) fs p =
     (p, filter (\<lambda>x. \<not> is_dir fs (p @ [x])) (entry_names fs p)) #
     concat (map (\<lambda>x. walk n fs (p @ [x])) (filter (\<lambda>x. node_at fs (p @ [x]) = Some DirNode) (entry_names fs p)))"

definition os_walk :: "files \<Rightarrow> fpath \<Rightarrow> (fpath \<times> string list) list" where
  "os_walk fs root = (if is_dir fs root then walk (Suc (length (filter (\<lambda>(q, _). below root q) fs))) fs root else [])"

section \<open>Diffs\<close>

definition ansi :: "string \<Rightarrow> string" where
  "ansi code = CHR 0x1B # ''['' @ code @ ''m''"

definition drop_newlines :: "string \<Rightarrow> string" where
  "drop_newlines s = rev (dropWhile (\<lambda>c. c = nl) (rev s))"

definition colored_line :: "string \<Rightarrow> string" where
  "colored_line line =
     (let stripped = drop_newlines line; colored = (\<lambda>code. ansi code @ stripped @ ansi ''0'') in
      if startswith line ''---'' \<or> startswith line ''+++'' then colored ''2''
      else if startswith line ''@@'' then colored ''2;36''
      else if startswith line ''-'' then colored ''48;5;52''
      else if startswith line ''+'' then colored ''48;5;22''
      else stripped)"

text \<open>The lines of \<open>difflib.unified_diff\<close> of two texts, with the name of the file.\<close>

type_synonym differ = "string \<Rightarrow> string \<Rightarrow> string \<Rightarrow> string list"

definition colored_diff :: "differ \<Rightarrow> string \<Rightarrow> string \<Rightarrow> string \<Rightarrow> string" where
  "colored_diff diff original modified filepath =
     (let ls = diff original modified filepath in if ls = [] then '''' else nl # join [nl] (map colored_line ls))"

section \<open>Validation of paths\<close>

record fs_ops =
  fo_cwd :: fpath
  fo_allowed :: "string list"
  fo_excluded :: "string list"
  fo_extra :: "string list"

definition inside :: "fpath \<Rightarrow> rooted \<Rightarrow> fpath \<Rightarrow> bool" where
  "inside resolved normed d = (within (False, resolved) (False, d) \<or> within normed (False, d))"

fun check_excluded :: "fs_ops \<Rightarrow> files \<Rightarrow> string \<Rightarrow> fpath \<Rightarrow> rooted \<Rightarrow> string list \<Rightarrow> unit result" where
  "check_excluded ops fs raw resolved normed [] = Inr ()"
| "check_excluded ops fs raw resolved normed (ew # ews) =
     rbind (resolve_path fs (fo_cwd ops) ew) (\<lambda>e.
       if within (False, resolved) (False, e) \<or> within normed (normalized (fo_cwd ops) ew)
       then Inl (PermissionError (''Write denied: '' @ repr_str raw @ '' is inside write-excluded directory '' @ repr_str ew @ ''.''))
       else check_excluded ops fs raw resolved normed ews)"

fun check_allowed :: "fs_ops \<Rightarrow> files \<Rightarrow> bool \<Rightarrow> string \<Rightarrow> fpath \<Rightarrow> rooted \<Rightarrow> string list \<Rightarrow> bool result" where
  "check_allowed ops fs writing raw resolved normed [] = Inr False"
| "check_allowed ops fs writing raw resolved normed (d # ds) =
     rbind (resolve_path fs (fo_cwd ops) d) (\<lambda>a.
       if inside resolved normed a
       then if writing then rbind (check_excluded ops fs raw resolved normed (fo_excluded ops)) (\<lambda>_. Inr True) else Inr True
       else check_allowed ops fs writing raw resolved normed ds)"

fun check_extra :: "fs_ops \<Rightarrow> files \<Rightarrow> bool \<Rightarrow> string \<Rightarrow> fpath \<Rightarrow> rooted \<Rightarrow> string list \<Rightarrow> bool result" where
  "check_extra ops fs writing raw resolved normed [] = Inr False"
| "check_extra ops fs writing raw resolved normed (d # ds) =
     rbind (resolve_path fs (fo_cwd ops) d) (\<lambda>e.
       if inside resolved normed e
       then if writing then Inl (PermissionError (''Write denied: '' @ repr_str raw @ '' is inside read-only directory '' @ repr_str d @ ''.''))
            else Inr True
       else check_extra ops fs writing raw resolved normed ds)"

definition validate :: "fs_ops \<Rightarrow> files \<Rightarrow> bool \<Rightarrow> string \<Rightarrow> fpath result" where
  "validate ops fs writing raw =
     rbind (resolve_path fs (fo_cwd ops) raw) (\<lambda>resolved.
       let normed = normalized (fo_cwd ops) raw in
       rbind (check_allowed ops fs writing raw resolved normed (fo_allowed ops)) (\<lambda>found.
         if found then Inr resolved
         else rbind (check_extra ops fs writing raw resolved normed (fo_extra ops)) (\<lambda>found.
           if found then Inr resolved
           else Inl (PermissionError (''Access denied: '' @ repr_str raw @ '' is outside allowed directories '' @
             repr_strs (fo_allowed ops) @ ''. Call list_allowed_directories to discover '' @ ''valid roots.'')))))"

section \<open>Reading\<close>

text \<open>\<open>splitlines(keepends=True)\<close> of a text that was read, which has no carriage returns.\<close>

definition is_break :: "char \<Rightarrow> bool" where
  "is_break c = (c = nl \<or> c = CHR 0x0B \<or> c = CHR 0x0C \<or> c = CHR 0x1C \<or> c = CHR 0x1D \<or> c = CHR 0x1E)"

fun keep_lines :: "string \<Rightarrow> string list" where
  "keep_lines [] = []"
| "keep_lines (c # s) =
     (if is_break c then [c] # keep_lines s
      else (case keep_lines s of [] \<Rightarrow> [[c]] | l # ls \<Rightarrow> (c # l) # ls))"

text \<open>\<open>xs[a:b]\<close> for a start that is not negative.\<close>

definition slice_from :: "int \<Rightarrow> int \<Rightarrow> 'a list \<Rightarrow> 'a list" where
  "slice_from a b xs =
     (let stop = (if b < 0 then max 0 (int (length xs) + b) else b) in drop (nat a) (take (nat stop) xs))"

definition pad6 :: "string \<Rightarrow> string" where
  "pad6 s = replicate (6 - length s) (CHR '' '') @ s"

definition numbered_line :: "nat \<Rightarrow> string \<Rightarrow> string" where
  "numbered_line i line = pad6 (str_nat i) @ [CHR 0x09] @ rstrip line"

definition numbered_lines :: "string \<Rightarrow> int option \<Rightarrow> int option \<Rightarrow> string" where
  "numbered_lines content offset limit =
     (let lines = keep_lines content; all = int (length lines);
          start = (case offset of Some k \<Rightarrow> max 0 k | None \<Rightarrow> 0);
          stop = (case limit of Some l \<Rightarrow> start + l | None \<Rightarrow> all);
          selected = slice_from start stop lines;
          remaining = all - stop
      in join [nl] (map (\<lambda>(i, line). numbered_line i line) (zip [nat start + 1..<nat start + 1 + length selected] selected)) @
         (if 0 < remaining
          then [nl, nl] @ ''[truncated: '' @ str_int remaining @ '' more lines. Use offset/limit to read more.]'' else ''''))"

definition read_text_file :: "fs_ops \<Rightarrow> files \<Rightarrow> string \<Rightarrow> int option \<Rightarrow> int option \<Rightarrow> string result" where
  "read_text_file ops fs path offset limit =
     rbind (validate ops fs False path) (\<lambda>p. rbind (read_text fs p) (\<lambda>content. Inr (numbered_lines content offset limit)))"

definition read_one :: "fs_ops \<Rightarrow> files \<Rightarrow> string \<Rightarrow> string" where
  "read_one ops fs path =
     (case rbind (validate ops fs False path) (\<lambda>p. rbind (read_text fs p) (\<lambda>content. Inr (p, content))) of
        Inr (p, content) \<Rightarrow> ''--- '' @ path_str p @ '' ---'' @ [nl] @ content
      | Inl (FileNotFoundError _) \<Rightarrow> ''--- '' @ path @ '' ---'' @ [nl] @ ''Error: File not found''
      | Inl e \<Rightarrow> ''--- '' @ path @ '' ---'' @ [nl] @ ''Error: '' @ err_text e)"

definition read_multiple_files :: "fs_ops \<Rightarrow> files \<Rightarrow> string list \<Rightarrow> string" where
  "read_multiple_files ops fs paths = join [nl, nl] (map (read_one ops fs) paths)"

definition list_directory :: "fs_ops \<Rightarrow> files \<Rightarrow> string \<Rightarrow> string result" where
  "list_directory ops fs path =
     rbind (validate ops fs False path) (\<lambda>p.
       if \<not> is_dir fs p then Inr (''Error: '' @ path_str p @ '' is not a directory'')
       else let entries = map (\<lambda>x. (if is_dir fs (p @ [x]) then ''[DIR] '' else ''[FILE] '') @ x) (sort (entry_names fs p))
            in Inr (if entries = [] then ''(empty directory)'' else join [nl] entries))"

text \<open>The connectors of a tree, as UTF-8 bytes.\<close>

definition last_branch :: string where
  "last_branch = [CHR 0xE2, CHR 0x94, CHR 0x94, CHR 0xE2, CHR 0x94, CHR 0x80, CHR 0xE2, CHR 0x94, CHR 0x80, CHR '' '']"

definition mid_branch :: string where
  "mid_branch = [CHR 0xE2, CHR 0x94, CHR 0x9C, CHR 0xE2, CHR 0x94, CHR 0x80, CHR 0xE2, CHR 0x94, CHR 0x80, CHR '' '']"

definition stem :: string where
  "stem = [CHR 0xE2, CHR 0x94, CHR 0x82] @ ''   ''"

definition last_flags :: "'a list \<Rightarrow> ('a \<times> bool) list" where
  "last_flags xs = zip xs (map (\<lambda>i. Suc i = length xs) [0..<length xs])"

text \<open>The first argument is how many levels are left; a directory behind a link is listed like any other.\<close>

fun tree_lines :: "nat \<Rightarrow> files \<Rightarrow> fpath \<Rightarrow> string \<Rightarrow> string list" where
  "tree_lines 0 fs p prefix = []"
| "tree_lines (Suc n) fs p prefix =
     concat (map (\<lambda>(x, is_last).
       (prefix @ (if is_last then last_branch else mid_branch) @ x @ (if is_dir fs (p @ [x]) then ''/'' else '''')) #
       (if is_dir fs (p @ [x]) then tree_lines n fs (p @ [x]) (prefix @ (if is_last then ''    '' else stem)) else []))
       (last_flags (sort (entry_names fs (fst (realpath fs [] p))))))"

definition directory_tree :: "fs_ops \<Rightarrow> files \<Rightarrow> string \<Rightarrow> int \<Rightarrow> string result" where
  "directory_tree ops fs path max_depth =
     rbind (validate ops fs False path) (\<lambda>root.
       if \<not> is_dir fs root then Inr (''Error: '' @ path_str root @ '' is not a directory'')
       else Inr (join [nl] (path_str root # tree_lines (nat max_depth) fs root '''')))"

text \<open>The argument is whether a name matches the pattern.\<close>

definition search_files :: "fs_ops \<Rightarrow> files \<Rightarrow> string \<Rightarrow> (string \<Rightarrow> bool) \<Rightarrow> string result" where
  "search_files ops fs path matches =
     rbind (validate ops fs False path) (\<lambda>root.
       if \<not> is_dir fs root then Inr (''Error: '' @ path_str root @ '' is not a directory'')
       else let found = concat (map (\<lambda>(dir, names). map (\<lambda>x. path_str (dir @ [x])) (filter matches names)) (os_walk fs root))
            in Inr (if found = [] then ''(no matches)'' else join [nl] found))"

text \<open>Iteration over a file, which ends lines at newlines only.\<close>

fun file_lines :: "string \<Rightarrow> string list" where
  "file_lines [] = []"
| "file_lines (c # s) =
     (if c = nl then [c] # file_lines s
      else (case file_lines s of [] \<Rightarrow> [[c]] | l # ls \<Rightarrow> (c # l) # ls))"

definition grep_file :: "files \<Rightarrow> (string \<Rightarrow> bool) \<Rightarrow> fpath \<Rightarrow> string list" where
  "grep_file fs found p =
     (case read_text fs p of
        Inl _ \<Rightarrow> []
      | Inr content \<Rightarrow>
          map (\<lambda>(i, line). path_str p @ '':'' @ str_nat i @ '': '' @ rstrip line)
            (filter (\<lambda>(i, line). found line) (zip [1..<Suc (length (file_lines content))] (file_lines content))))"

text \<open>The arguments are the compiled pattern, or the error of its compilation, and which names are included.\<close>

definition file_grep :: "fs_ops \<Rightarrow> files \<Rightarrow> string \<Rightarrow> (string \<Rightarrow> bool) result \<Rightarrow> (string \<Rightarrow> bool) \<Rightarrow> string result" where
  "file_grep ops fs path pattern included =
     rbind (validate ops fs False path) (\<lambda>root. rbind pattern (\<lambda>found.
       let items = (if is_file_node (kind_at fs root) then [(butlast root, [last root])] else os_walk fs root);
           results = concat (map (\<lambda>(dir, names). concat (map (\<lambda>x. grep_file fs found (dir @ [x])) (filter included names))) items)
       in Inr (if results = [] then ''(no matches)'' else join [nl] results)))"

section \<open>Writing\<close>

text \<open>An operation that writes has a result, or raises, and leaves a file system.\<close>

type_synonym outcome = "string result \<times> files"

definition writing :: "files \<Rightarrow> (string \<times> files) result \<Rightarrow> outcome" where
  "writing fs r = (case r of Inl e \<Rightarrow> (Inl e, fs) | Inr (s, fs') \<Rightarrow> (Inr s, fs'))"

text \<open>The directories are made before the file is opened.\<close>

definition write_file :: "fs_ops \<Rightarrow> files \<Rightarrow> string \<Rightarrow> string \<Rightarrow> outcome" where
  "write_file ops fs path content =
     (case rbind (validate ops fs True path) (\<lambda>p. rbind (mkdir_parents fs (butlast p)) (\<lambda>fs. Inr (p, fs))) of
        Inl e \<Rightarrow> (Inl e, fs)
      | Inr (p, fs') \<Rightarrow>
          writing fs' (rbind (write_text fs' p content) (\<lambda>fs''.
            Inr (''Wrote '' @ str_nat (length content) @ '' bytes to '' @ path_str p, fs''))))"

text \<open>\<open>s.replace(old, new, 1)\<close>.\<close>

fun replace_first :: "string \<Rightarrow> string \<Rightarrow> string \<Rightarrow> string" where
  "replace_first old new [] = (if old = [] then new else [])"
| "replace_first old new (c # s) =
     (if startswith (c # s) old then new @ drop (length old) (c # s) else c # replace_first old new s)"

text \<open>The text after the edits, or what is not found, or the exception of an edit without its texts.\<close>

fun apply_edits :: "(string, string) dict list \<Rightarrow> string \<Rightarrow> (string + string) result" where
  "apply_edits [] modified = Inr (Inr modified)"
| "apply_edits (e # es) modified =
     (case (dget e ''old_text'', dget e ''new_text'') of
        (None, _) \<Rightarrow> Inl (KeyError ''old_text'')
      | (_, None) \<Rightarrow> Inl (KeyError ''new_text'')
      | (Some old, Some new) \<Rightarrow>
          if \<not> contains modified old then Inr (Inl old) else apply_edits es (replace_first old new modified))"

definition edit_file :: "differ \<Rightarrow> fs_ops \<Rightarrow> files \<Rightarrow> string \<Rightarrow> (string, string) dict list \<Rightarrow> bool \<Rightarrow> outcome" where
  "edit_file diff ops fs path edits dry_run =
     writing fs (rbind (validate ops fs (\<not> dry_run) path) (\<lambda>p.
       rbind (read_text fs p) (\<lambda>original.
       rbind (apply_edits edits original) (\<lambda>edited.
         case edited of
           Inl old \<Rightarrow> Inr (''Error: old_text not found in '' @ path_str p @ '':'' @ [nl] @ repr_str old, fs)
         | Inr modified \<Rightarrow>
             if dry_run
             then let ls = concat (diff original modified (path_str p)) in Inr (if ls = [] then ''(no changes)'' else ls, fs)
             else rbind (write_text fs p modified) (\<lambda>fs'.
               Inr (''Applied '' @ str_nat (length edits) @ '' edit(s) to '' @ path_str p @
                 colored_diff diff original modified (path_str p), fs'))))))"

definition create_directory :: "fs_ops \<Rightarrow> files \<Rightarrow> string \<Rightarrow> outcome" where
  "create_directory ops fs path =
     writing fs (rbind (validate ops fs True path) (\<lambda>p. rbind (mkdir_parents fs p) (\<lambda>fs'.
       Inr (''Created directory '' @ path_str p, fs'))))"

definition move_file :: "fs_ops \<Rightarrow> files \<Rightarrow> string \<Rightarrow> string \<Rightarrow> outcome" where
  "move_file ops fs source destination =
     writing fs (rbind (validate ops fs True source) (\<lambda>src. rbind (validate ops fs True destination) (\<lambda>dst.
       rbind (rename fs src dst) (\<lambda>fs'. Inr (''Moved '' @ path_str src @ '' -> '' @ path_str dst, fs')))))"

definition file_delete :: "fs_ops \<Rightarrow> files \<Rightarrow> string \<Rightarrow> outcome" where
  "file_delete ops fs path =
     writing fs (rbind (validate ops fs True path) (\<lambda>p.
       if kind_at fs p = None then Inr (''Error: File not found: '' @ path_str p, fs)
       else if is_dir fs p then Inr (''Error: Cannot delete directory: '' @ path_str p, fs)
       else Inr (''Deleted: '' @ path_str p, AList.delete p fs)))"

definition new_lines :: "string \<Rightarrow> string list" where
  "new_lines content = (if content = [] then [] else map (\<lambda>line. line @ [nl]) (split_char nl content))"

definition splice :: "string list \<Rightarrow> nat \<Rightarrow> nat \<Rightarrow> string list \<Rightarrow> string list" where
  "splice lines a b new = take a lines @ new @ drop (max a b) lines"

text \<open>Exceptions of reading and writing become messages.\<close>

definition edit_lines :: "differ \<Rightarrow> fs_ops \<Rightarrow> files \<Rightarrow> string \<Rightarrow> int \<Rightarrow> int \<Rightarrow> string \<Rightarrow> outcome" where
  "edit_lines diff ops fs path start_line end_line new_content =
     writing fs (rbind (validate ops fs True path) (\<lambda>p.
       if kind_at fs p = None then Inr (''Error: File not found: '' @ path_str p, fs)
       else if is_dir fs p then Inr (''Error: Cannot edit directory: '' @ path_str p, fs)
       else if start_line < 1 then Inr (''Error: start_line must be >= 1'', fs)
       else if end_line < start_line - 1 then Inr (''Error: end_line must be >= start_line - 1'', fs)
       else
         (case (rbind (read_text fs p) (\<lambda>original.
            let lines = keep_lines original; total_lines = length lines; start_idx = nat (start_line - 1) in
            if total_lines < start_idx
            then Inr (''Error: start_line '' @ str_int start_line @ '' is beyond end of file ('' @ str_nat total_lines @ '' lines)'', fs)
            else
              let end_idx = min (nat end_line) total_lines;
                  replaced = end_idx - start_idx;
                  new = new_lines new_content;
                  lines' = splice lines start_idx end_idx new;
                  modified = concat lines'
              in rbind (write_text fs p modified) (\<lambda>fs'.
                Inr ((if replaced = 0 then ''Inserted at line '' @ str_int start_line
                      else ''Replaced lines '' @ str_int start_line @ ''-'' @ str_int (start_line + int replaced - 1)) @
                     '' in '' @ path_str p @ '': '' @
                     str_nat replaced @ '' lines removed, '' @ str_nat (length new) @ '' lines added. '' @
                     ''File: '' @ str_nat total_lines @ '' -> '' @ str_nat (length lines') @ '' lines.'' @
                     colored_diff diff original modified (path_str p), fs')))) of
            Inl e \<Rightarrow> Inr (''Error editing file: '' @ err_text e, fs)
          | Inr r \<Rightarrow> Inr r)))"

section \<open>Calls\<close>

datatype file_request =
    ReadFile string "int option" "int option"
  | ReadFiles "string list"
  | ListDirectory string
  | DirectoryTree string int
  | SearchFiles string "string \<Rightarrow> bool"
  | FileGrep string "(string \<Rightarrow> bool) result" "string \<Rightarrow> bool"
  | WriteFile string string
  | EditFile string "(string, string) dict list" bool
  | CreateDirectory string
  | MoveFile string string
  | FileDelete string
  | EditLines string int int string

fun fs_call :: "differ \<Rightarrow> fs_ops \<Rightarrow> files \<Rightarrow> file_request \<Rightarrow> outcome" where
  "fs_call diff ops fs (ReadFile p off lim) = (read_text_file ops fs p off lim, fs)"
| "fs_call diff ops fs (ReadFiles ps) = (Inr (read_multiple_files ops fs ps), fs)"
| "fs_call diff ops fs (ListDirectory p) = (list_directory ops fs p, fs)"
| "fs_call diff ops fs (DirectoryTree p n) = (directory_tree ops fs p n, fs)"
| "fs_call diff ops fs (SearchFiles p m) = (search_files ops fs p m, fs)"
| "fs_call diff ops fs (FileGrep p r inc) = (file_grep ops fs p r inc, fs)"
| "fs_call diff ops fs (WriteFile p c) = write_file ops fs p c"
| "fs_call diff ops fs (EditFile p es dry) = edit_file diff ops fs p es dry"
| "fs_call diff ops fs (CreateDirectory p) = create_directory ops fs p"
| "fs_call diff ops fs (MoveFile p q) = move_file ops fs p q"
| "fs_call diff ops fs (FileDelete p) = file_delete ops fs p"
| "fs_call diff ops fs (EditLines p a b c) = edit_lines diff ops fs p a b c"

fun fs_session :: "differ \<Rightarrow> fs_ops \<Rightarrow> files \<Rightarrow> file_request list \<Rightarrow> files" where
  "fs_session diff ops fs [] = fs"
| "fs_session diff ops fs (c # cs) = fs_session diff ops (snd (fs_call diff ops fs c)) cs"

end
