(* ===== verification/Filesystem_Correct.thy ===== *)
theory Filesystem_Correct
  imports Filesystem_Tools
begin

text \<open>
  What the file operations of agents promise. On a file system without links, no sequence of calls changes a path
  outside the allowed directories or inside a write-excluded one, as long as nothing is moved, and what a call reads
  depends only on the directories it may read. Further what is read back after a write, and the lines an edit leaves.
\<close>

section \<open>Paths without links\<close>

definition link_free :: "files \<Rightarrow> bool" where
  "link_free fs \<longleftrightarrow> (\<forall>(p, n) \<in> set fs. \<forall>t. n \<noteq> LinkNode t)"

lemma link_free_node: "link_free fs \<Longrightarrow> node_at fs p \<noteq> Some (LinkNode t)"
  by (auto simp: link_free_def node_at_def dest!: map_of_SomeD)

lemma normalize_plain: "''..'' \<notin> set xs \<Longrightarrow> normalize acc xs = rev acc @ xs"
  by (induction xs arbitrary: acc) auto

lemma normalize_set: "''..'' \<notin> set acc \<Longrightarrow> ''..'' \<notin> set (normalize acc xs)"
proof (induction xs arbitrary: acc)
  case (Cons x xs)
  have "''..'' \<notin> set (tl acc)" using Cons.prems by (cases acc) auto
  then show ?case using Cons by auto
qed auto

lemma normalize_again: "normalize [] (normalize [] xs) = normalize [] xs"
  using normalize_plain [OF normalize_set, of "[]" "[]" xs] by simp

lemma normalize_append: "''..'' \<notin> set p \<Longrightarrow> normalize acc (p @ xs) = normalize (rev p @ acc) xs"
  by (induction p arbitrary: acc) auto

lemma rev_butlast: "rev (butlast p) = tl (rev p)"
  by (induction p rule: rev_induct) auto

lemma join_real_free: "link_free fs \<Longrightarrow> join_real n fs path rest seen = (normalize (rev path) rest, True, seen)"
proof (induction rest arbitrary: path)
  case (Cons x rest)
  have "node_at fs (path @ [x]) \<noteq> Some (LinkNode t)" for t using link_free_node [OF Cons.prems] .
  then show ?case using Cons.IH [OF Cons.prems] rev_butlast [of path]
    by (cases n) (auto simp: Let_def split: option.splits fnode.splits)
qed simp

lemma realpath_free: "link_free fs \<Longrightarrow> ''..'' \<notin> set start \<Longrightarrow> realpath fs start p = (normalize [] (start @ p), True)"
  using normalize_again [of "start @ p"] by (simp add: realpath_def join_real_free normalize_append)

definition norm :: "fs_ops \<Rightarrow> string \<Rightarrow> fpath" where
  "norm ops raw = snd (normalized (fo_cwd ops) raw)"

definition plain_cwd :: "fs_ops \<Rightarrow> bool" where
  "plain_cwd ops \<longleftrightarrow> ''..'' \<notin> set (fo_cwd ops)"

lemma resolve_free:
  "link_free fs \<Longrightarrow> plain_cwd ops \<Longrightarrow>
     resolve_path fs (fo_cwd ops) raw = (if CHR 0x00 \<in> set raw then Inl (ValueError ''embedded null byte'') else Inr (norm ops raw))"
  by (simp add: resolve_path_def realpath_free plain_cwd_def norm_def normalized_def)

lemma norm_plain: "''..'' \<notin> set (norm ops raw)"
  by (simp add: norm_def normalized_def normalize_set)

lemma kind_at_free: "link_free fs \<Longrightarrow> ''..'' \<notin> set p \<Longrightarrow> kind_at fs p = node_at fs p"
  by (simp add: kind_at_def realpath_free normalize_plain)

lemma within_below [simp]: "within (False, p) (False, d) = below d p"
  by (simp add: within_def below_def)

lemma within_norm: "within (normalized (fo_cwd ops) raw) (False, d) \<Longrightarrow> below d (norm ops raw)"
  by (simp add: within_def below_def norm_def)

lemma below_refl [simp]: "below p p"
  by (simp add: below_def)

lemma below_append [simp]: "below p (p @ q)"
  by (simp add: below_def)

lemma below_iff: "below d p \<longleftrightarrow> (\<exists>q. p = d @ q)"
  by (auto simp: below_def) (metis append_take_drop_id)

lemma below_trans: "below d p \<Longrightarrow> below p q \<Longrightarrow> below d q"
  by (auto simp: below_iff)

lemma below_take: "below d (take i p) \<Longrightarrow> below d p"
  by (metis append_take_drop_id below_iff append.assoc)

lemma below_prefixes: "below d p \<Longrightarrow> below d (take i p) \<or> below (take i p) d \<and> i < length d"
proof (cases "length d \<le> i")
  case True
  moreover assume "below d p"
  ultimately show ?thesis by (auto simp: below_iff)
next
  case False
  moreover assume "below d p"
  ultimately have "take i p = take i d" by (auto simp: below_iff)
  then show ?thesis using False by (metis append_take_drop_id below_iff linorder_not_less)
qed

subsection \<open>What may be written, what may be read\<close>

definition in_allowed :: "fs_ops \<Rightarrow> fpath \<Rightarrow> bool" where
  "in_allowed ops p \<longleftrightarrow> (\<exists>d \<in> set (fo_allowed ops). below (norm ops d) p)"

definition in_excluded :: "fs_ops \<Rightarrow> fpath \<Rightarrow> bool" where
  "in_excluded ops p \<longleftrightarrow> (\<exists>d \<in> set (fo_excluded ops). below (norm ops d) p)"

definition readable :: "fs_ops \<Rightarrow> fpath \<Rightarrow> bool" where
  "readable ops p \<longleftrightarrow> in_allowed ops p \<or> (\<exists>d \<in> set (fo_extra ops). below (norm ops d) p)"

lemma inside_free: "inside (norm ops raw) (normalized (fo_cwd ops) raw) d = below d (norm ops raw)"
  using within_norm by (auto simp: inside_def)

lemma excluded_free:
  assumes "link_free fs" "plain_cwd ops"
  shows "check_excluded ops fs raw (norm ops raw) normed ews = Inr () \<Longrightarrow> d \<in> set ews \<Longrightarrow> \<not> below (norm ops d) (norm ops raw)"
  by (induction ews) (auto simp: resolve_free [OF assms] split: if_splits)

lemma allowed_free:
  assumes "link_free fs" "plain_cwd ops"
  shows "check_allowed ops fs wr raw (norm ops raw) (normalized (fo_cwd ops) raw) ds = Inr b \<Longrightarrow>
     b = (\<exists>d \<in> set ds. below (norm ops d) (norm ops raw)) \<and> (b \<longrightarrow> wr \<longrightarrow> \<not> in_excluded ops (norm ops raw))"
  by (induction ds) (auto simp: resolve_free [OF assms] inside_free in_excluded_def dest: excluded_free [OF assms] split: if_splits)

lemma extra_free:
  assumes "link_free fs" "plain_cwd ops"
  shows "check_extra ops fs wr raw (norm ops raw) (normalized (fo_cwd ops) raw) ds = Inr b \<Longrightarrow>
     b = (\<exists>d \<in> set ds. below (norm ops d) (norm ops raw)) \<and> (b \<longrightarrow> \<not> wr)"
  by (induction ds) (auto simp: resolve_free [OF assms] inside_free split: if_splits)

lemma validate_free:
  assumes "link_free fs" "plain_cwd ops" "validate ops fs wr raw = Inr p"
  shows "p = norm ops raw \<and> readable ops p \<and> (wr \<longrightarrow> in_allowed ops p \<and> \<not> in_excluded ops p)"
proof -
  have r: "resolve_path fs (fo_cwd ops) raw = Inr (norm ops raw)"
    using assms(3) by (auto simp: validate_def resolve_free [OF assms(1,2)] split: if_splits)
  obtain b where b: "check_allowed ops fs wr raw (norm ops raw) (normalized (fo_cwd ops) raw) (fo_allowed ops) = Inr b"
    using assms(3) unfolding validate_def r rbind.simps Let_def by (auto simp only: rbind_Inr_iff)
  note v = assms(3) [unfolded validate_def r rbind.simps Let_def b]
  show ?thesis
  proof (cases b)
    case True
    then have "p = norm ops raw" using v by simp
    then show ?thesis using True allowed_free [OF assms(1,2) b] unfolding readable_def in_allowed_def by blast
  next
    case False
    obtain e where e: "check_extra ops fs wr raw (norm ops raw) (normalized (fo_cwd ops) raw) (fo_extra ops) = Inr e"
      using v False by (auto simp only: if_False rbind_Inr_iff)
    have "e \<and> p = norm ops raw" using v False e by (cases e) simp_all
    then show ?thesis using extra_free [OF assms(1,2) e] unfolding readable_def by blast
  qed
qed

section \<open>Line ends\<close>

lemma universal_plain: "CHR 0x0D \<notin> set s \<Longrightarrow> universal False s = s"
  by (induction s) auto

lemma universal_no_return: "CHR 0x0D \<notin> set (universal b s)"
  by (induction b s rule: universal.induct) (auto simp: nl_def)

section \<open>What a call changes\<close>

text \<open>The paths a call may change: everything below two paths, the ends of a move, or one of them when nothing is moved.\<close>

lemma node_at_dset: "p \<noteq> [] \<Longrightarrow> node_at (dset fs p n) q = (if q = p then Some n else node_at fs q)"
  by (simp add: node_at_def)

lemma node_at_root [simp]: "node_at fs [] = Some DirNode"
  by (simp add: node_at_def)

lemma link_free_dset: "link_free fs \<Longrightarrow> (\<And>t. n \<noteq> LinkNode t) \<Longrightarrow> link_free (dset fs p n)"
  unfolding link_free_def by (induction fs) (auto split: prod.splits)

lemma write_text_frame:
  assumes "link_free fs" "write_text fs p c = Inr fs'"
  shows "link_free fs' \<and> (\<forall>q. q \<noteq> p \<longrightarrow> node_at fs' q = node_at fs q)"
proof -
  have "p \<noteq> []" "fs' = dset fs p (FileNode c)"
    using assms(2) by (auto simp: write_text_def split: option.splits fnode.splits if_splits)
  then show ?thesis using assms(1) link_free_dset by (auto simp: node_at_dset)
qed

lemma make_dir_frame:
  "link_free fs \<Longrightarrow> link_free (make_dir fs p) \<and> (\<forall>q. q \<noteq> p \<or> node_at fs q \<noteq> None \<longrightarrow> node_at (make_dir fs p) q = node_at fs q)"
  using link_free_dset [of fs DirNode p] by (cases "p = []") (auto simp: make_dir_def node_at_dset)

lemma make_dirs_frame:
  "link_free fs \<Longrightarrow>
     link_free (foldl (\<lambda>fs i. make_dir fs (take i p)) fs is) \<and>
     (\<forall>q. (\<forall>i \<in> set is. q \<noteq> take i p) \<or> node_at fs q \<noteq> None \<longrightarrow> node_at (foldl (\<lambda>fs i. make_dir fs (take i p)) fs is) q = node_at fs q)"
proof (induction "is" arbitrary: fs)
  case (Cons i "is")
  let ?fs = "make_dir fs (take i p)"
  have m: "link_free ?fs" "q \<noteq> take i p \<or> node_at fs q \<noteq> None \<Longrightarrow> node_at ?fs q = node_at fs q" for q
    using make_dir_frame [OF Cons.prems, of "take i p"] by blast+
  show ?case
  proof (intro conjI allI impI)
    show "link_free (foldl (\<lambda>fs i. make_dir fs (take i p)) fs (i # is))" using Cons.IH [OF m(1)] by simp
  next
    fix q assume q: "(\<forall>j \<in> set (i # is). q \<noteq> take j p) \<or> node_at fs q \<noteq> None"
    then have e: "node_at ?fs q = node_at fs q" using m(2) [of q] by auto
    have "(\<forall>j \<in> set is. q \<noteq> take j p) \<or> node_at ?fs q \<noteq> None" using q e by auto
    then have "node_at (foldl (\<lambda>fs i. make_dir fs (take i p)) ?fs is) q = node_at ?fs q" using Cons.IH [OF m(1)] by blast
    then show "node_at (foldl (\<lambda>fs i. make_dir fs (take i p)) fs (i # is)) q = node_at fs q"
      using e by simp
  qed
qed simp

lemma mkdir_frame:
  assumes "link_free fs" "mkdir_parents fs p = Inr fs'"
  shows "link_free fs' \<and> (\<forall>q. \<not> below q p \<or> node_at fs q \<noteq> None \<longrightarrow> node_at fs' q = node_at fs q)"
proof -
  have fs': "fs' = foldl (\<lambda>fs i. make_dir fs (take i p)) fs [1..<Suc (length p)]"
    using assms(2) by (simp add: mkdir_parents_def split: if_splits)
  have "below (take i p) p" for i by (metis append_take_drop_id below_append)
  then have "(\<forall>i \<in> set [1..<Suc (length p)]. q \<noteq> take i p)" if "\<not> below q p" for q using that by metis
  then show ?thesis unfolding fs' using make_dirs_frame [OF assms(1), of p "[1..<Suc (length p)]"] by blast
qed

lemma map_of_moved:
  "\<not> below src q \<Longrightarrow> \<not> below dst q \<Longrightarrow> map_of (map (\<lambda>(p, n). (moved src dst p, n)) fs) q = map_of fs q"
  by (induction fs) (auto simp: moved_def)

lemma map_of_deleted: "q \<noteq> p \<Longrightarrow> map_of (AList.delete p fs) q = map_of fs q"
  by simp

lemma link_free_delete: "link_free fs \<Longrightarrow> link_free (AList.delete p fs)"
  by (auto simp: link_free_def AList.delete_eq)

lemma rename_frame:
  assumes "link_free fs" "rename fs src dst = Inr fs'"
  shows "link_free fs' \<and> (\<forall>q. \<not> below src q \<longrightarrow> \<not> below dst q \<longrightarrow> node_at fs' q = node_at fs q)"
proof (cases "src = dst")
  case True
  then show ?thesis using assms by (simp add: rename_def split: option.splits)
next
  case False
  have fs': "fs' = map (\<lambda>(p, n). (moved src dst p, n)) (AList.delete dst fs)"
    using assms(2) False by (simp add: rename_def split: option.splits)
  have "link_free fs'" using link_free_delete [OF assms(1), of dst] by (auto simp: fs' link_free_def)
  moreover have "node_at fs' q = node_at fs q" if "\<not> below src q" "\<not> below dst q" for q
  proof -
    have "q \<noteq> dst" using that(2) by auto
    then show ?thesis by (simp add: node_at_def fs' map_of_moved [OF that] map_of_deleted)
  qed
  ultimately show ?thesis by blast
qed

text \<open>A call that moves, and a call that does not.\<close>

fun moves :: "file_request \<Rightarrow> bool" where
  "moves (MoveFile p q) = True"
| "moves _ = False"

definition untouched :: "fs_ops \<Rightarrow> bool \<Rightarrow> fpath \<Rightarrow> bool" where
  "untouched ops mv q \<longleftrightarrow> \<not> in_allowed ops q \<or> \<not> mv \<and> in_excluded ops q"

definition anchored :: "fs_ops \<Rightarrow> files \<Rightarrow> bool" where
  "anchored ops fs \<longleftrightarrow>
     (\<forall>d \<in> set (fo_allowed ops). \<forall>q. below q (norm ops d) \<longrightarrow> q \<noteq> norm ops d \<longrightarrow> \<not> in_allowed ops q \<longrightarrow> node_at fs q \<noteq> None)"

definition writable :: "fs_ops \<Rightarrow> fpath \<Rightarrow> bool" where
  "writable ops p \<longleftrightarrow> in_allowed ops p \<and> \<not> in_excluded ops p"

lemma in_allowed_below: "in_allowed ops p \<Longrightarrow> below p q \<Longrightarrow> in_allowed ops q"
  using below_trans by (auto simp: in_allowed_def)

lemma in_excluded_below: "in_excluded ops p \<Longrightarrow> below p q \<Longrightarrow> in_excluded ops q"
  using below_trans by (auto simp: in_excluded_def)

lemma writable_touched: "writable ops p \<Longrightarrow> untouched ops mv q \<Longrightarrow> q \<noteq> p"
  by (auto simp: writable_def untouched_def)

text \<open>The directories above a path that is written: new ones are in the allowed directory.\<close>

lemma parents_kept:
  assumes "anchored ops fs" "writable ops p" "untouched ops mv q" "below q p"
  shows "node_at fs q \<noteq> None"
proof -
  have "\<not> in_excluded ops q" using assms(2,4) in_excluded_below by (auto simp: writable_def)
  then have q: "\<not> in_allowed ops q" using assms(3) by (auto simp: untouched_def)
  obtain d where d: "d \<in> set (fo_allowed ops)" "below (norm ops d) p" using assms(2) by (auto simp: writable_def in_allowed_def)
  have "q = take (length q) p" using assms(4) by (simp add: below_def)
  then have "below (norm ops d) q \<or> below q (norm ops d) \<and> length q < length (norm ops d)" using below_prefixes [OF d(2)] by metis
  then have "below q (norm ops d)" "q \<noteq> norm ops d" using q d(1) by (auto simp: in_allowed_def)
  then show ?thesis using assms(1) d(1) q by (auto simp: anchored_def)
qed

lemma mkdir_kept:
  assumes "link_free fs" "anchored ops fs" "writable ops p" "mkdir_parents fs r = Inr fs'" "below r p"
  shows "link_free fs' \<and> (\<forall>q. untouched ops mv q \<longrightarrow> node_at fs' q = node_at fs q)"
  using mkdir_frame [OF assms(1,4)] parents_kept [OF assms(2,3)] below_trans [OF _ assms(5)] by blast

definition kept :: "fs_ops \<Rightarrow> bool \<Rightarrow> files \<Rightarrow> files \<Rightarrow> bool" where
  "kept ops mv fs fs' \<longleftrightarrow> link_free fs' \<and> (\<forall>q. untouched ops mv q \<longrightarrow> node_at fs' q = node_at fs q)"

lemma kept_refl: "link_free fs \<Longrightarrow> kept ops mv fs fs"
  by (simp add: kept_def)

lemma kept_trans: "kept ops mv fs fs1 \<Longrightarrow> kept ops mv fs1 fs2 \<Longrightarrow> kept ops mv fs fs2"
  by (simp add: kept_def)

lemma kept_anchored: "kept ops mv fs fs' \<Longrightarrow> anchored ops fs \<Longrightarrow> anchored ops fs'"
  by (auto simp: kept_def anchored_def untouched_def)

lemma kept_write: "link_free fs \<Longrightarrow> writable ops p \<Longrightarrow> write_text fs p c = Inr fs' \<Longrightarrow> kept ops mv fs fs'"
  using write_text_frame writable_touched unfolding kept_def by blast

lemma validated: "link_free fs \<Longrightarrow> plain_cwd ops \<Longrightarrow> validate ops fs True raw = Inr p \<Longrightarrow> writable ops p"
  using validate_free unfolding writable_def by blast

text \<open>The file system that every way through a computation leaves; one rule for each construct of the operations.\<close>

definition leaves :: "(files \<Rightarrow> bool) \<Rightarrow> ('a \<times> files) result \<Rightarrow> bool" where
  "leaves P r \<longleftrightarrow> (\<forall>s fs'. r = Inr (s, fs') \<longrightarrow> P fs')"

lemma leaves_Inl: "leaves P (Inl e)"
  by (simp add: leaves_def)

lemma leaves_Inr: "P fs' \<Longrightarrow> leaves P (Inr (s, fs'))"
  by (simp add: leaves_def)

lemma leaves_bind: "(\<And>a. r = Inr a \<Longrightarrow> leaves P (f a)) \<Longrightarrow> leaves P (rbind r f)"
  by (cases r) (simp_all add: leaves_def)

lemma leaves_if: "(b \<Longrightarrow> leaves P r) \<Longrightarrow> (\<not> b \<Longrightarrow> leaves P r') \<Longrightarrow> leaves P (if b then r else r')"
  by simp

lemma leaves_sum: "(\<And>e. x = Inl e \<Longrightarrow> leaves P (f e)) \<Longrightarrow> (\<And>y. x = Inr y \<Longrightarrow> leaves P (g y)) \<Longrightarrow> leaves P (case_sum f g x)"
  by (cases x) simp_all

lemma leaves_message: "leaves P r \<Longrightarrow> P fs \<Longrightarrow> leaves P (case r of Inl e \<Rightarrow> Inr (f e, fs) | Inr x \<Rightarrow> Inr x)"
  by (cases r) (auto simp: leaves_def)

lemmas leaves_intros = leaves_Inl leaves_Inr leaves_bind leaves_if leaves_sum

lemma leaves_writing: "leaves P r \<Longrightarrow> P fs \<Longrightarrow> P (snd (writing fs r))"
  by (cases r) (auto simp: writing_def leaves_def)

lemma kept_write_file:
  assumes "link_free fs" "plain_cwd ops" "anchored ops fs"
  shows "kept ops mv fs (snd (write_file ops fs path c))"
proof (cases "rbind (validate ops fs True path) (\<lambda>p. rbind (mkdir_parents fs (butlast p)) (\<lambda>fs. Inr (p, fs)))")
  case (Inl e)
  then show ?thesis using kept_refl [OF assms(1)] by (simp add: write_file_def)
next
  case (Inr r)
  then obtain p fs1 where p: "validate ops fs True path = Inr p" "mkdir_parents fs (butlast p) = Inr fs1" "r = (p, fs1)"
    by (auto simp only: rbind_Inr_iff)
  have w: "writable ops p" by (rule validated [OF assms(1,2) p(1)])
  have "below (butlast p) p" by (cases p rule: rev_cases) (auto simp: below_iff)
  then have k: "kept ops mv fs fs1" using mkdir_kept [OF assms(1,3) w p(2)] by (simp add: kept_def)
  then have f: "link_free fs1" by (simp add: kept_def)
  have "kept ops mv fs1 (snd (write_file ops fs path c))"
    unfolding write_file_def Inr p(3) sum.case prod.case
    by (rule leaves_writing [where P = "kept ops mv fs1"]; intro leaves_intros kept_write [OF f w] kept_refl [OF f])
  then show ?thesis by (rule kept_trans [OF k])
qed

lemma kept_edit_file:
  assumes "link_free fs" "plain_cwd ops"
  shows "kept ops mv fs (snd (edit_file diff ops fs path es dry))"
proof -
  have k: "kept ops mv fs fs'" if "validate ops fs (\<not> dry) path = Inr p" "\<not> dry" "write_text fs p c = Inr fs'" for p c fs'
    using that kept_write [OF assms(1) validated [OF assms]] by simp
  show ?thesis unfolding edit_file_def Let_def
    by (rule leaves_writing [where P = "kept ops mv fs"]; intro leaves_intros k kept_refl [OF assms(1)])
qed

lemma kept_create_directory:
  assumes "link_free fs" "plain_cwd ops" "anchored ops fs"
  shows "kept ops mv fs (snd (create_directory ops fs path))"
  unfolding create_directory_def
  by (rule leaves_writing [where P = "kept ops mv fs"]; (intro leaves_intros kept_refl [OF assms(1)])?)
    (simp add: kept_def mkdir_kept [OF assms(1,3) validated [OF assms(1,2)] _ below_refl])

lemma kept_file_delete:
  assumes "link_free fs" "plain_cwd ops"
  shows "kept ops mv fs (snd (file_delete ops fs path))"
proof -
  have k: "kept ops mv fs (AList.delete p fs)" if "validate ops fs True path = Inr p" for p
    using link_free_delete [OF assms(1)] writable_touched [OF validated [OF assms that]]
    by (auto simp: kept_def node_at_def map_of_deleted)
  show ?thesis unfolding file_delete_def
    by (rule leaves_writing [where P = "kept ops mv fs"]; intro leaves_intros k kept_refl [OF assms(1)])
qed

lemma kept_edit_lines:
  assumes "link_free fs" "plain_cwd ops"
  shows "kept ops mv fs (snd (edit_lines diff ops fs path a b c))"
  unfolding edit_lines_def Let_def
  by (rule leaves_writing [where P = "kept ops mv fs"]; intro leaves_Inl leaves_Inr leaves_bind leaves_if leaves_message kept_refl [OF assms(1)]
      kept_write [OF assms(1) validated [OF assms]])

lemma kept_move_file:
  assumes "link_free fs" "plain_cwd ops"
  shows "kept ops True fs (snd (move_file ops fs src dst))"
proof -
  have k: "kept ops True fs fs'"
    if "validate ops fs True src = Inr p" "validate ops fs True dst = Inr q" "rename fs p q = Inr fs'" for p q fs'
  proof -
    have "in_allowed ops p" "in_allowed ops q" using validated [OF assms] that(1,2) by (auto simp: writable_def)
    then show ?thesis using rename_frame [OF assms(1) that(3)] in_allowed_below unfolding kept_def untouched_def by blast
  qed
  show ?thesis unfolding move_file_def
    by (rule leaves_writing [where P = "kept ops True fs"]; intro leaves_intros k kept_refl [OF assms(1)])
qed

lemma kept_call:
  assumes "link_free fs" "plain_cwd ops" "anchored ops fs" "moves r \<Longrightarrow> mv"
  shows "kept ops mv fs (snd (fs_call diff ops fs r))"
  using assms(4) kept_refl [OF assms(1)] kept_write_file [OF assms(1-3)] kept_edit_file [OF assms(1,2)]
    kept_create_directory [OF assms(1-3)] kept_file_delete [OF assms(1,2)] kept_edit_lines [OF assms(1,2)] kept_move_file [OF assms(1,2)]
  by (cases r) auto

lemma kept_session:
  "link_free fs \<Longrightarrow> plain_cwd ops \<Longrightarrow> anchored ops fs \<Longrightarrow> (\<And>r. r \<in> set rs \<Longrightarrow> moves r \<Longrightarrow> mv) \<Longrightarrow> kept ops mv fs (fs_session diff ops fs rs)"
proof (induction rs arbitrary: fs)
  case (Cons r rs)
  let ?fs = "snd (fs_call diff ops fs r)"
  have k: "kept ops mv fs ?fs" using Cons.prems by (intro kept_call) auto
  then have "link_free ?fs" "anchored ops ?fs" using kept_anchored Cons.prems(3) by (auto simp: kept_def)
  then have "kept ops mv ?fs (fs_session diff ops ?fs rs)" using Cons.prems(2,4) by (intro Cons.IH) auto
  then show ?case using kept_trans [OF k] by simp
qed (simp add: kept_refl)

text \<open>C12: On a file system without links, where the directories above the allowed ones are there, no sequence of calls of the
  file tools creates, changes or removes anything outside the allowed directories; and, when no call is a move, nothing in
  the write-excluded directories either.
\<close>

theorem session_confined:
  assumes "link_free fs" "plain_cwd ops" "anchored ops fs"
  shows "(\<not> in_allowed ops q \<longrightarrow> node_at (fs_session diff ops fs rs) q = node_at fs q) \<and>
    (in_excluded ops q \<and> \<not> list_ex moves rs \<longrightarrow> node_at (fs_session diff ops fs rs) q = node_at fs q)"
proof (intro conjI impI)
  assume "\<not> in_allowed ops q"
  then show "node_at (fs_session diff ops fs rs) q = node_at fs q"
    using kept_session [OF assms, of rs True] by (simp add: kept_def untouched_def)
next
  assume "in_excluded ops q \<and> \<not> list_ex moves rs"
  then show "node_at (fs_session diff ops fs rs) q = node_at fs q"
    using kept_session [OF assms, of rs False] by (auto simp: kept_def untouched_def list_ex_iff)
qed

definition demo_ops :: fs_ops where
  "demo_ops = \<lparr>fo_cwd = [''w''], fo_allowed = [''/w''], fo_excluded = [''/w/lake/packages''], fo_extra = [''/lib'']\<rparr>"

definition demo_files :: files where
  "demo_files =
     [([''w''], DirNode), ([''w'', ''lake''], DirNode), ([''w'', ''lake'', ''packages''], DirNode),
      ([''w'', ''lake'', ''packages'', ''p''], FileNode ''x''), ([''w'', ''a''], FileNode (''l1'' @ [nl] @ ''l2'')), ([''lib''], DirNode),
      ([''lib'', ''m''], FileNode ''m'')]"

theorem session_confined_witness:
  "let fs' = fs_session (\<lambda>_ _ _. []) demo_ops demo_files
       [WriteFile ''/w/../lib/m'' ''z'', WriteFile ''b/c'' ''y'', FileDelete ''lake/packages/p'', MoveFile ''a'' ''/lib/a'']
   in node_at fs' [''lib'', ''m''] = Some (FileNode ''m'') \<and> node_at fs' [''w'', ''b'', ''c''] = Some (FileNode ''y'')"
proof -
  have h: "link_free demo_files \<and> plain_cwd demo_ops" by (simp add: link_free_def plain_cwd_def demo_files_def demo_ops_def)
  have w: "norm demo_ops ''/w'' = [''w''] \<and> norm demo_ops ''/w/lake/packages'' = [''w'', ''lake'', ''packages'']" by code_simp
  have a: "anchored demo_ops demo_files"
    using w by (auto simp: anchored_def demo_ops_def in_allowed_def below_def take_Cons' split: if_splits)
  have n: "\<not> in_allowed demo_ops [''lib'', ''m'']" using w by (simp add: in_allowed_def demo_ops_def below_def)
  let ?fs = "fs_session (\<lambda>_ _ _. []) demo_ops demo_files
       [WriteFile ''/w/../lib/m'' ''z'', WriteFile ''b/c'' ''y'', FileDelete ''lake/packages/p'', MoveFile ''a'' ''/lib/a'']"
  have "node_at ?fs [''lib'', ''m''] = node_at demo_files [''lib'', ''m'']" using session_confined [OF _ _ a] h n by blast
  moreover have "node_at demo_files [''lib'', ''m''] = Some (FileNode ''m'')" by code_simp
  moreover have "node_at ?fs [''w'', ''b'', ''c''] = Some (FileNode ''y'')" by code_simp
  ultimately show ?thesis by (simp only: Let_def)
qed

end
