(* ===== verification/Filesystem_Reads.thy ===== *)
theory Filesystem_Reads
  imports Filesystem_Correct
begin

text \<open>
  What the file operations let an agent see, and what it sees of its own writes: the results of calls that read depend
  on the directories it may read only; a written file is read back; an edit by line numbers replaces these lines.
\<close>

section \<open>Reading depends on the readable directories\<close>

definition visible :: "fs_ops \<Rightarrow> files \<Rightarrow> files" where
  "visible ops fs = filter (\<lambda>(q, _). readable ops q) fs"

text \<open>A tree without links whose paths have no \<open>..\<close>, with no file above the directories that may be read.\<close>

definition plain_tree :: "fs_ops \<Rightarrow> files \<Rightarrow> bool" where
  "plain_tree ops fs \<longleftrightarrow> link_free fs \<and> (\<forall>q \<in> fst ` set fs. ''..'' \<notin> set q) \<and>
     (\<forall>d \<in> set (fo_allowed ops) \<union> set (fo_extra ops). \<forall>q. below q (norm ops d) \<longrightarrow> q \<noteq> norm ops d \<longrightarrow> \<not> is_file_node (node_at fs q))"

lemma readable_below: "readable ops p \<Longrightarrow> below p q \<Longrightarrow> readable ops q"
  unfolding readable_def using in_allowed_below below_trans by meson

lemma map_of_visible: "readable ops q \<Longrightarrow> map_of (visible ops fs) q = map_of fs q"
  unfolding visible_def by (induction fs) auto

lemma node_at_visible: "readable ops q \<Longrightarrow> node_at (visible ops fs) q = node_at fs q"
  by (simp add: node_at_def map_of_visible)

lemma child_below: "q \<noteq> [] \<Longrightarrow> butlast q = p \<Longrightarrow> below p q"
  by (metis append_butlast_last_id below_append)

lemma entry_names_visible: "readable ops p \<Longrightarrow> entry_names (visible ops fs) p = entry_names fs p"
proof -
  assume "readable ops p"
  then have "(q \<noteq> [] \<and> butlast q = p) \<and> readable ops q \<longleftrightarrow> q \<noteq> [] \<and> butlast q = p" for q
    using readable_below child_below by blast
  then show ?thesis by (simp add: entry_names_def visible_def filter_filter split_def conj_commute)
qed

lemma entry_plain:
  assumes "plain_tree ops fs" "x \<in> set (entry_names fs p)"
  shows "x \<noteq> ''..''"
proof -
  obtain q n where q: "(q, n) \<in> set fs" "q \<noteq> []" "x = last q" using assms(2) by (auto simp: entry_names_def)
  then have "x \<in> set q" by simp
  moreover have "''..'' \<notin> set q" using assms(1) q(1) by (force simp: plain_tree_def)
  ultimately show ?thesis by auto
qed

lemma is_dir_tree: "plain_tree ops fs \<Longrightarrow> ''..'' \<notin> set p \<Longrightarrow> is_dir fs p \<longleftrightarrow> node_at fs p = Some DirNode"
  by (simp add: is_dir_def kind_at_free plain_tree_def)

definition same_view :: "fs_ops \<Rightarrow> files \<Rightarrow> files \<Rightarrow> bool" where
  "same_view ops fs fs' \<longleftrightarrow> plain_cwd ops \<and> plain_tree ops fs \<and> plain_tree ops fs' \<and> visible ops fs = visible ops fs'"

lemma view_trees: "same_view ops fs fs' \<Longrightarrow> plain_tree ops fs \<and> plain_tree ops fs' \<and> link_free fs \<and> link_free fs'"
  by (simp add: same_view_def plain_tree_def)

lemma view_node: "same_view ops fs fs' \<Longrightarrow> readable ops q \<Longrightarrow> node_at fs q = node_at fs' q"
  unfolding same_view_def using node_at_visible by metis

lemma view_entries: "same_view ops fs fs' \<Longrightarrow> readable ops p \<Longrightarrow> entry_names fs p = entry_names fs' p"
  unfolding same_view_def using entry_names_visible by metis

lemma view_is_dir:
  "same_view ops fs fs' \<Longrightarrow> readable ops p \<Longrightarrow> ''..'' \<notin> set p \<Longrightarrow> is_dir fs p = is_dir fs' p"
  using is_dir_tree [of ops fs p] is_dir_tree [of ops fs' p] view_trees [of ops fs fs'] view_node [of ops fs fs' p] by simp

lemma view_child:
  assumes "same_view ops fs fs'" "readable ops p" "''..'' \<notin> set p" "x \<in> set (entry_names fs p)"
  shows "readable ops (p @ [x]) \<and> ''..'' \<notin> set (p @ [x]) \<and> is_dir fs (p @ [x]) = is_dir fs' (p @ [x]) \<and>
    node_at fs (p @ [x]) = node_at fs' (p @ [x])"
proof -
  have r: "readable ops (p @ [x])" using readable_below [OF assms(2)] by simp
  have n: "''..'' \<notin> set (p @ [x])" using entry_plain [of ops fs x p] view_trees [OF assms(1)] assms(3,4) by auto
  show ?thesis by (rule conjI [OF r conjI [OF n conjI [OF view_is_dir [OF assms(1) r n] view_node [OF assms(1) r]]]])
qed

lemma view_kind: "same_view ops fs fs' \<Longrightarrow> readable ops p \<Longrightarrow> ''..'' \<notin> set p \<Longrightarrow> kind_at fs p = kind_at fs' p"
  using kind_at_free view_trees view_node by metis

lemma view_absent:
  assumes "same_view ops fs fs'" "readable ops p"
  shows "absent_error fs p = absent_error fs' p"
proof -
  have "is_file_node (node_at fs (take i p)) = is_file_node (node_at fs' (take i p))" for i
  proof (cases "readable ops (take i p)")
    case True
    then show ?thesis using view_node [OF assms(1)] by simp
  next
    case False
    obtain d where d: "d \<in> set (fo_allowed ops) \<union> set (fo_extra ops)" "below (norm ops d) p"
      using assms(2) by (auto simp: readable_def in_allowed_def)
    have "\<not> below (norm ops d) (take i p)" using False d(1) by (auto simp: readable_def in_allowed_def)
    then have "below (take i p) (norm ops d)" "take i p \<noteq> norm ops d" using below_prefixes [OF d(2)] by auto
    then show ?thesis using d(1) view_trees [OF assms(1)] unfolding plain_tree_def by blast
  qed
  then show ?thesis by (simp add: absent_error_def)
qed

lemma view_read_text:
  assumes "same_view ops fs fs'" "readable ops p" "''..'' \<notin> set p" shows "read_text fs p = read_text fs' p"
  unfolding read_text_def view_kind [OF assms] view_absent [OF assms(1,2)] ..

lemma view_walk: "same_view ops fs fs' \<Longrightarrow> readable ops p \<Longrightarrow> ''..'' \<notin> set p \<Longrightarrow> walk n fs p = walk n fs' p"
proof (induction n arbitrary: p)
  case (Suc n)
  note c = view_child [OF Suc.prems]
  have e: "entry_names fs' p = entry_names fs p" using view_entries [OF Suc.prems(1,2)] by simp
  have f: "filter (\<lambda>x. \<not> is_dir fs (p @ [x])) (entry_names fs p) = filter (\<lambda>x. \<not> is_dir fs' (p @ [x])) (entry_names fs p)"
    "filter (\<lambda>x. node_at fs (p @ [x]) = Some DirNode) (entry_names fs p) =
       filter (\<lambda>x. node_at fs' (p @ [x]) = Some DirNode) (entry_names fs p)"
    using c by (auto intro!: filter_cong)
  have "walk n fs (p @ [x]) = walk n fs' (p @ [x])" if "x \<in> set (entry_names fs p)" for x
    using c [OF that] Suc.IH [OF Suc.prems(1)] by blast
  then show ?case unfolding walk.simps e f 
    by (intro arg_cong [where f = "\<lambda>r. _ # concat r"] map_cong refl) auto
qed simp

lemma view_os_walk:
  assumes "same_view ops fs fs'" "readable ops p" "''..'' \<notin> set p" shows "os_walk fs p = os_walk fs' p"
proof -
  have "filter (\<lambda>(q, _). below p q) g = filter (\<lambda>(q, _). below p q) (visible ops g)" for g
    using readable_below [OF assms(2)] unfolding visible_def by (auto simp: filter_filter case_prod_beta intro!: filter_cong)
  then have "length (filter (\<lambda>(q, _). below p q) fs) = length (filter (\<lambda>(q, _). below p q) fs')"
    using assms(1) unfolding same_view_def by metis
  then show ?thesis using view_walk [OF assms] view_is_dir [OF assms] by (simp add: os_walk_def)
qed

lemma walk_dirs: "plain_tree ops fs \<Longrightarrow> readable ops p \<Longrightarrow> ''..'' \<notin> set p \<Longrightarrow> (dir, names) \<in> set (walk n fs p) \<Longrightarrow> x \<in> set names \<Longrightarrow>
    readable ops (dir @ [x]) \<and> ''..'' \<notin> set (dir @ [x])"
proof (induction n arbitrary: p)
  case (Suc n)
  have child: "readable ops (p @ [y]) \<and> ''..'' \<notin> set (p @ [y])" if "y \<in> set (entry_names fs p)" for y
    using entry_plain [OF Suc.prems(1) that] Suc.prems(3) readable_below [OF Suc.prems(2)] by simp
  show ?case
  proof (cases "dir = p \<and> names = filter (\<lambda>x. \<not> is_dir fs (p @ [x])) (entry_names fs p)")
    case True
    then show ?thesis using child Suc.prems(5) by auto
  next
    case False
    then obtain y where "y \<in> set (entry_names fs p)" "(dir, names) \<in> set (walk n fs (p @ [y]))" using Suc.prems(4) by auto
    then show ?thesis using Suc.IH [OF Suc.prems(1) _ _ _ Suc.prems(5)] child by blast
  qed
qed simp

lemma view_tree_lines: "same_view ops fs fs' \<Longrightarrow> readable ops p \<Longrightarrow> ''..'' \<notin> set p \<Longrightarrow> tree_lines n fs p pre = tree_lines n fs' p pre"
proof (induction n arbitrary: p pre)
  case (Suc n)
  note c = view_child [OF Suc.prems]
  have r: "fst (realpath fs [] p) = p" "fst (realpath fs' [] p) = p"
    using view_trees [OF Suc.prems(1)] Suc.prems(3) by (simp_all add: realpath_free normalize_plain)
  have e: "entry_names fs' p = entry_names fs p" using view_entries [OF Suc.prems(1,2)] by simp
  have x: "x \<in> set (entry_names fs p)" if "(x, l) \<in> set (last_flags (sort (entry_names fs p)))" for x l
    using that by (auto simp: last_flags_def dest: set_zip_leftD)
  have "is_dir fs (p @ [x]) = is_dir fs' (p @ [x]) \<and> tree_lines n fs (p @ [x]) q = tree_lines n fs' (p @ [x]) q"
    if "(x, l) \<in> set (last_flags (sort (entry_names fs p)))" for x l q
    using c [OF x [OF that]] Suc.IH [OF Suc.prems(1)] by blast
  then show ?case unfolding tree_lines.simps r e
    by (intro arg_cong [where f = concat] map_cong refl) auto
qed simp

subsection \<open>The calls\<close>

lemma view_resolve: "same_view ops fs fs' \<Longrightarrow> resolve_path fs (fo_cwd ops) raw = resolve_path fs' (fo_cwd ops) raw"
  using resolve_free view_trees unfolding same_view_def by metis

lemma view_excluded: "same_view ops fs fs' \<Longrightarrow> check_excluded ops fs raw p n ds = check_excluded ops fs' raw p n ds"
  by (induction ds) (simp_all add: view_resolve cong: if_cong)

lemma view_allowed: "same_view ops fs fs' \<Longrightarrow> check_allowed ops fs w raw p n ds = check_allowed ops fs' w raw p n ds"
  by (induction ds) (simp_all add: view_resolve view_excluded cong: if_cong)

lemma view_extra: "same_view ops fs fs' \<Longrightarrow> check_extra ops fs w raw p n ds = check_extra ops fs' w raw p n ds"
  by (induction ds) (simp_all add: view_resolve cong: if_cong)

lemma view_validate: "same_view ops fs fs' \<Longrightarrow> validate ops fs w raw = validate ops fs' w raw"
  unfolding validate_def by (simp add: view_resolve view_allowed view_extra cong: if_cong)

lemma validated_read:
  assumes "same_view ops fs fs'" "validate ops fs' w raw = Inr p"
  shows "readable ops p \<and> ''..'' \<notin> set p"
  using validate_free [OF _ _ assms(2)] view_trees [OF assms(1)] norm_plain assms(1) unfolding same_view_def by blast

lemma rbind_cong2: "r = r' \<Longrightarrow> (\<And>x. r' = Inr x \<Longrightarrow> f x = g x) \<Longrightarrow> rbind r f = rbind r' g"
  by (cases r') auto

lemma view_found:
  assumes "same_view ops fs fs'" "readable ops root" "''..'' \<notin> set root" "(dir, names) \<in> set (os_walk fs' root)" "x \<in> set names"
  shows "grep_file fs found (dir @ [x]) = grep_file fs' found (dir @ [x])"
proof -
  obtain n where "(dir, names) \<in> set (walk n fs' root)" using assms(4) unfolding os_walk_def by (cases "is_dir fs' root") (simp_all del: walk.simps)
  then have "readable ops (dir @ [x]) \<and> ''..'' \<notin> set (dir @ [x])"
    using walk_dirs [OF _ assms(2,3) _ assms(5)] view_trees [OF assms(1)] by blast
  then show ?thesis using view_read_text [OF assms(1)] by (simp add: grep_file_def)
qed

lemma view_grep_items:
  assumes v: "same_view ops fs fs'" and r: "readable ops root" "''..'' \<notin> set root"
    and "(dir, names) \<in> set (if is_file_node (kind_at fs' root) then [(butlast root, [last root])] else os_walk fs' root)" "x \<in> set names"
  shows "grep_file fs found (dir @ [x]) = grep_file fs' found (dir @ [x])"
proof (cases "is_file_node (kind_at fs' root)")
  case True
  have "root \<noteq> []" using True view_trees [OF v] by (auto simp: kind_at_free)
  then have "dir @ [x] = root" using assms(4,5) True by auto
  then show ?thesis using view_read_text [OF v r] by (simp add: grep_file_def)
next
  case False
  then show ?thesis using view_found [OF v r _ assms(5)] assms(4) by simp
qed

fun reads :: "file_request \<Rightarrow> bool" where
  "reads (ReadFile p off lim) = True"
| "reads (ReadFiles ps) = True"
| "reads (ListDirectory p) = True"
| "reads (DirectoryTree p n) = True"
| "reads (SearchFiles p m) = True"
| "reads (FileGrep p r inc) = True"
| "reads (EditFile p es dry) = dry"
| "reads _ = False"

lemma view_read_file: "same_view ops fs fs' \<Longrightarrow> read_text_file ops fs p off lim = read_text_file ops fs' p off lim"
  unfolding read_text_file_def by (intro rbind_cong2 view_validate view_read_text refl) (auto dest: validated_read)

lemma view_read_files: "same_view ops fs fs' \<Longrightarrow> read_multiple_files ops fs ps = read_multiple_files ops fs' ps"
proof -
  assume v: "same_view ops fs fs'"
  have "rbind (validate ops fs False p) (\<lambda>q. rbind (read_text fs q) (\<lambda>c. Inr (q, c))) =
      rbind (validate ops fs' False p) (\<lambda>q. rbind (read_text fs' q) (\<lambda>c. Inr (q, c)))" for p
    using v by (intro rbind_cong2 view_validate view_read_text refl) (auto dest: validated_read)
  then have "read_one ops fs = read_one ops fs'" unfolding read_one_def by simp
  then show ?thesis by (simp add: read_multiple_files_def)
qed

lemma view_list_directory:
  assumes v: "same_view ops fs fs'" shows "list_directory ops fs path = list_directory ops fs' path"
  unfolding list_directory_def
proof (intro rbind_cong2 view_validate v)
  fix p assume "validate ops fs' False path = Inr p"
  then have p: "readable ops p" "''..'' \<notin> set p" using validated_read [OF v] by auto
  have e: "entry_names fs p = entry_names fs' p" by (rule view_entries [OF v p(1)])
  have m: "map (\<lambda>x. (if is_dir fs (p @ [x]) then ''[DIR] '' else ''[FILE] '') @ x) (sort (entry_names fs' p)) =
      map (\<lambda>x. (if is_dir fs' (p @ [x]) then ''[DIR] '' else ''[FILE] '') @ x) (sort (entry_names fs' p))"
    using view_child [OF v p] by (intro map_cong refl) (simp add: e)
  show "(if \<not> is_dir fs p then Inr (''Error: '' @ path_str p @ '' is not a directory'')
       else let entries = map (\<lambda>x. (if is_dir fs (p @ [x]) then ''[DIR] '' else ''[FILE] '') @ x) (sort (entry_names fs p))
            in Inr (if entries = [] then ''(empty directory)'' else join [nl] entries)) =
      (if \<not> is_dir fs' p then Inr (''Error: '' @ path_str p @ '' is not a directory'')
       else let entries = map (\<lambda>x. (if is_dir fs' (p @ [x]) then ''[DIR] '' else ''[FILE] '') @ x) (sort (entry_names fs' p))
            in Inr (if entries = [] then ''(empty directory)'' else join [nl] entries))"
    unfolding view_is_dir [OF v p] e m ..
qed

lemma view_directory_tree: "same_view ops fs fs' \<Longrightarrow> directory_tree ops fs path n = directory_tree ops fs' path n"
  unfolding directory_tree_def by (intro rbind_cong2 view_validate) (simp_all add: validated_read view_is_dir view_tree_lines)

lemma view_search: "same_view ops fs fs' \<Longrightarrow> search_files ops fs path m = search_files ops fs' path m"
  unfolding search_files_def by (intro rbind_cong2 view_validate) (simp_all add: validated_read view_is_dir view_os_walk)

lemma view_grep:
  assumes v: "same_view ops fs fs'" shows "file_grep ops fs path r inc = file_grep ops fs' path r inc"
  unfolding file_grep_def
proof (intro rbind_cong2 view_validate v refl)
  fix root found assume "validate ops fs' False path = Inr root"
  then have p: "readable ops root" "''..'' \<notin> set root" using validated_read [OF v] by auto
  let ?items = "\<lambda>fs. if is_file_node (kind_at fs root) then [(butlast root, [last root])] else os_walk fs root"
  have i: "?items fs = ?items fs'" using view_kind [OF v p] view_os_walk [OF v p] by simp
  have "concat (map (\<lambda>x. grep_file fs found (d @ [x])) (filter inc ns)) = concat (map (\<lambda>x. grep_file fs' found (d @ [x])) (filter inc ns))"
    if "(d, ns) \<in> set (?items fs')" for d ns
    by (intro arg_cong [where f = concat] map_cong refl view_grep_items [OF v p that]) simp
  then have "map (\<lambda>(d, ns). concat (map (\<lambda>x. grep_file fs found (d @ [x])) (filter inc ns))) (?items fs') =
      map (\<lambda>(d, ns). concat (map (\<lambda>x. grep_file fs' found (d @ [x])) (filter inc ns))) (?items fs')"
    by (intro map_cong refl) auto
  then show "(let items = ?items fs; results = concat (map (\<lambda>(dir, names). concat (map (\<lambda>x. grep_file fs found (dir @ [x])) (filter inc names))) items)
       in Inr (if results = [] then ''(no matches)'' else join [nl] results)) =
      (let items = ?items fs'; results = concat (map (\<lambda>(dir, names). concat (map (\<lambda>x. grep_file fs' found (dir @ [x])) (filter inc names))) items)
       in Inr (if results = [] then ''(no matches)'' else join [nl] results))"
    unfolding i Let_def by (rule arg_cong [where f = "\<lambda>r. Inr (if concat r = [] then ''(no matches)'' else join [nl] (concat r))"])
qed

lemma view_dry_edit:
  assumes v: "same_view ops fs fs'"
  shows "fst (edit_file diff ops fs path es True) = fst (edit_file diff ops fs' path es True)"
proof -
  let ?text = "\<lambda>p original. rbind (apply_edits es original) (\<lambda>edited. case edited of
      Inl old \<Rightarrow> Inr (''Error: old_text not found in '' @ path_str p @ '':'' @ [nl] @ repr_str old)
    | Inr modified \<Rightarrow> let ls = concat (diff original modified (path_str p)) in Inr (if ls = [] then ''(no changes)'' else ls))"
  have "fst (edit_file diff ops g path es True) = rbind (validate ops g False path) (\<lambda>p. rbind (read_text g p) (?text p))" for g
    by (cases "validate ops g False path"; simp add: edit_file_def writing_def;
        cases "read_text g (projr (validate ops g False path))"; simp;
        cases "apply_edits es (projr (read_text g (projr (validate ops g False path))))"; auto simp: Let_def split: sum.splits)
  moreover have "rbind (validate ops fs False path) (\<lambda>p. rbind (read_text fs p) (?text p)) =
      rbind (validate ops fs' False path) (\<lambda>p. rbind (read_text fs' p) (?text p))"
    using v by (intro rbind_cong2 view_validate view_read_text refl) (auto dest: validated_read)
  ultimately show ?thesis by simp
qed


definition other_files :: files where
  "other_files = ([''etc''], DirNode) # ([''etc'', ''key''], FileNode ''s'') # demo_files"


section \<open>Reading back\<close>

lemma excluded_irrelevant:
  "check_allowed ops fs True raw p n ds = Inr b \<Longrightarrow> check_allowed ops fs False raw p n ds = Inr b"
proof (induction ds)
  case (Cons d ds)
  then obtain a where "resolve_path fs (fo_cwd ops) d = Inr a" by (auto simp only: check_allowed.simps rbind_Inr_iff)
  then show ?case using Cons by (auto split: if_splits)
qed simp

lemma writable_readable:
  assumes "validate ops fs True raw = Inr p" shows "validate ops fs False raw = Inr p"
proof -
  obtain q where q: "resolve_path fs (fo_cwd ops) raw = Inr q"
    using assms unfolding validate_def by (auto simp only: rbind_Inr_iff)
  obtain b where b: "check_allowed ops fs True raw q (normalized (fo_cwd ops) raw) (fo_allowed ops) = Inr b"
    using assms unfolding validate_def q rbind.simps Let_def by (auto simp only: rbind_Inr_iff)
  have "check_extra ops fs True raw q (normalized (fo_cwd ops) raw) ds \<noteq> Inr True" for ds
    by (induction ds) (auto split: if_splits)
  then have b': b "p = q" using assms unfolding validate_def q rbind.simps Let_def b by (cases b; fastforce split: if_splits)+
  show ?thesis using excluded_irrelevant [OF b] b' unfolding validate_def q rbind.simps Let_def by simp
qed

lemma resolve_write:
  "link_free fs \<Longrightarrow> link_free fs' \<Longrightarrow> plain_cwd ops \<Longrightarrow> resolve_path fs (fo_cwd ops) raw = resolve_path fs' (fo_cwd ops) raw"
  using resolve_free by metis

lemma validate_write:
  assumes "link_free fs" "link_free fs'" "plain_cwd ops" shows "validate ops fs w raw = validate ops fs' w raw"
proof -
  have e: "check_excluded ops fs r p n ds = check_excluded ops fs' r p n ds" for r p n ds
    by (induction ds) (simp_all add: resolve_write [OF assms] cong: if_cong)
  have a: "check_allowed ops fs w r p n ds = check_allowed ops fs' w r p n ds" for r p n ds
    by (induction ds) (simp_all add: resolve_write [OF assms] e cong: if_cong)
  have x: "check_extra ops fs w r p n ds = check_extra ops fs' w r p n ds" for r p n ds
    by (induction ds) (simp_all add: resolve_write [OF assms] cong: if_cong)
  show ?thesis unfolding validate_def by (simp add: resolve_write [OF assms] a x cong: if_cong)
qed

text \<open>A file that was written is read back: the call that writes returns, then reading the same path gives the numbered lines
  of the very text, for every window, as long as the text has no carriage return.
\<close>

theorem written_file_read_back:
  assumes "link_free fs" "plain_cwd ops" "anchored ops fs" "CHR 0x0D \<notin> set content"
    "write_file ops fs path content = (Inr msg, fs')"
  shows "read_text_file ops fs' path offset limit = Inr (numbered_lines content offset limit)"
proof -
  obtain p fs1 where p: "validate ops fs True path = Inr p" "mkdir_parents fs (butlast p) = Inr fs1" "write_text fs1 p content = Inr fs'"
    using assms(5) unfolding write_file_def writing_def
    by (auto simp only: rbind_Inr_iff prod.inject sum.inject split: sum.splits prod.splits)
  have "kept ops True fs (snd (write_file ops fs path content))" by (rule kept_write_file [OF assms(1-3)])
  then have f: "link_free fs'" using assms(5) by (simp add: kept_def)
  have v: "validate ops fs' False path = Inr p"
    using writable_readable [OF p(1)] validate_write [OF assms(1) f assms(2)] by simp
  have "''..'' \<notin> set p" using validate_free [OF assms(1,2) p(1)] norm_plain by metis
  moreover have "p \<noteq> [] \<and> fs' = dset fs1 p (FileNode content)"
    using p(3) by (auto simp: write_text_def split: option.splits fnode.splits if_splits)
  ultimately have "kind_at fs' p = Some (FileNode content)" using kind_at_free [OF f] by (simp add: node_at_dset)
  then show ?thesis using v universal_plain [OF assms(4)] by (simp add: read_text_file_def read_text_def)
qed

theorem written_file_read_back_witness:
  "\<exists>msg fs'. write_file demo_ops demo_files ''b/c'' ''hello'' = (Inr msg, fs') \<and>
     read_text_file demo_ops fs' ''b/c'' None None = Inr (numbered_lines ''hello'' None None)"
proof -
  have h: "link_free demo_files" "plain_cwd demo_ops" "CHR 0x0D \<notin> set ''hello''"
    by (simp_all add: link_free_def plain_cwd_def demo_files_def demo_ops_def)
  have w: "norm demo_ops ''/w'' = [''w'']" by code_simp
  have a: "anchored demo_ops demo_files"
    using w by (auto simp: anchored_def demo_ops_def in_allowed_def below_def take_Cons' split: if_splits)
  have "(case write_file demo_ops demo_files ''b/c'' ''hello'' of (Inr _, _) \<Rightarrow> True | _ \<Rightarrow> False)" by code_simp
  then obtain msg fs' where "write_file demo_ops demo_files ''b/c'' ''hello'' = (Inr msg, fs')" by (auto split: prod.splits sum.splits)
  then show ?thesis using written_file_read_back [OF h(1,2) a h(3)] by blast
qed

end
