(* ===== verification/Filesystem_Edits.thy ===== *)
theory Filesystem_Edits
  imports Filesystem_Correct
begin

text \<open>
  Edits of files by the tools of agents: the lines that an edit by line numbers leaves, what becomes of line ends, and
  two ways around the directories an agent may not write.
\<close>

section \<open>Lines\<close>

definition one_line :: "string \<Rightarrow> bool" where
  "one_line l \<longleftrightarrow> l \<noteq> [] \<and> (\<forall>c \<in> set (butlast l). \<not> is_break c)"

definition ended :: "string \<Rightarrow> bool" where
  "ended l \<longleftrightarrow> l \<noteq> [] \<and> is_break (last l)"

text \<open>Lines that are the lines of the text they make: all but the last have an end.\<close>

fun proper_lines :: "string list \<Rightarrow> bool" where
  "proper_lines [] = True"
| "proper_lines [l] = one_line l"
| "proper_lines (l # k # ls) = (one_line l \<and> ended l \<and> proper_lines (k # ls))"

lemma proper_keep_lines: "proper_lines (keep_lines s)"
proof (induction s)
  case (Cons c s)
  show ?case
  proof (cases "is_break c")
    case True
    then show ?thesis using Cons by (cases "keep_lines s") (auto simp: one_line_def ended_def)
  next
    case False
    show ?thesis
    proof (cases "keep_lines s")
      case Nil
      then show ?thesis using False by (simp add: one_line_def)
    next
      case (Cons l ls)
      then show ?thesis using False \<open>proper_lines (keep_lines s)\<close> by (cases ls) (auto simp: one_line_def ended_def)
    qed
  qed
qed simp

lemma concat_keep_lines [simp]: "concat (keep_lines s) = s"
  by (induction s) (auto split: list.splits)

lemma keep_ended: "one_line l \<Longrightarrow> ended l \<Longrightarrow> keep_lines (l @ s) = l # keep_lines s"
proof (induction l)
  case (Cons c l)
  show ?case
  proof (cases l)
    case Nil
    then show ?thesis using Cons.prems by (simp add: ended_def)
  next
    case (Cons d k)
    then have "one_line l" "ended l" "\<not> is_break c" using Cons.prems by (auto simp: one_line_def ended_def)
    then show ?thesis using Cons.IH by simp
  qed
qed (simp add: one_line_def)

lemma keep_one_line: "one_line l \<Longrightarrow> keep_lines l = [l]"
proof (induction l)
  case (Cons c l)
  show ?case
  proof (cases l)
    case Nil
    then show ?thesis by simp
  next
    case (Cons d k)
    then have "one_line l" "\<not> is_break c" using Cons.prems by (auto simp: one_line_def)
    then show ?thesis using Cons.IH by simp
  qed
qed (simp add: one_line_def)

lemma keep_lines_concat: "proper_lines ls \<Longrightarrow> keep_lines (concat ls) = ls"
  by (induction ls rule: proper_lines.induct) (auto simp: keep_one_line keep_ended)

lemma proper_drop: "proper_lines ls \<Longrightarrow> proper_lines (drop n ls)"
proof (induction n arbitrary: ls)
  case (Suc n)
  then show ?case by (cases ls rule: proper_lines.cases) auto
qed simp

lemma proper_ended_append: "\<forall>l \<in> set xs. one_line l \<and> ended l \<Longrightarrow> proper_lines ys \<Longrightarrow> proper_lines (xs @ ys)"
proof (induction xs)
  case (Cons x xs)
  then show ?case by (cases "xs @ ys") auto
qed simp

lemma proper_take_ended:
  "proper_lines ls \<Longrightarrow> n < length ls \<or> ls = [] \<or> ended (last ls) \<Longrightarrow> \<forall>l \<in> set (take n ls). one_line l \<and> ended l"
proof (induction ls arbitrary: n rule: proper_lines.induct)
  case (2 l)
  then show ?case by (cases n) auto
next
  case (3 l k ls)
  then show ?case by (cases n) auto
qed simp

lemma new_lines_proper:
  assumes "\<forall>c \<in> set content. is_break c \<longrightarrow> c = nl"
  shows "\<forall>l \<in> set (new_lines content). one_line l \<and> ended l"
proof -
  have "set p \<subseteq> set content - {nl}" if "p \<in> set (split_char nl content)" for p
    using that
  proof (induction content arbitrary: p)
    case (Cons c s)
    obtain q qs where q: "split_char nl s = q # qs" by (cases "split_char nl s") auto
    then show ?case using Cons by (fastforce split: if_splits)
  qed simp
  then show ?thesis using assms by (auto simp: new_lines_def one_line_def ended_def is_break_def)
qed


lemma demo_valid: "validate demo_ops demo_files True ''a'' = Inr [''w'', ''a'']"
  by code_simp


text \<open>Behind a last line without an end, nothing separates the new text from it: an insertion at the line after it changes
  that line, though the answer says that a line was added.
\<close>

theorem insertion_joins_last_line:
  "edit_lines (\<lambda>_ _ _. []) demo_ops demo_files ''a'' 3 2 ''x'' =
    (Inr ''Inserted at line 3 in /w/a: 0 lines removed, 1 lines added. File: 2 -> 3 lines.'',
     dset demo_files [''w'', ''a''] (FileNode (''l1'' @ [nl] @ ''l2x'' @ [nl])))"
  by code_simp

section \<open>Line ends\<close>

lemma set_replace_first: "set (replace_first old new s) \<subseteq> set new \<union> set s"
proof (induction s)
  case (Cons c s)
  have "set (drop (length old) (c # s)) \<subseteq> set (c # s)" by (rule set_drop_subset)
  then show ?case using Cons by auto
qed auto

lemma edits_no_return:
  "apply_edits es s = Inr (Inr m) \<Longrightarrow> CHR 0x0D \<notin> set s \<Longrightarrow>
     \<forall>e \<in> set es. \<forall>new. dget e ''new_text'' = Some new \<longrightarrow> CHR 0x0D \<notin> set new \<Longrightarrow> CHR 0x0D \<notin> set m"
proof (induction es arbitrary: s)
  case (Cons e es)
  then obtain old new where e: "dget e ''old_text'' = Some old" "dget e ''new_text'' = Some new"
    "apply_edits es (replace_first old new s) = Inr (Inr m)"
    by (auto split: option.splits if_splits)
  have "CHR 0x0D \<notin> set (replace_first old new s)" using set_replace_first [of old new s] Cons.prems(2,3) e(2) by auto
  then show ?case using Cons.IH [OF e(3)] Cons.prems(3) by simp
qed simp

text \<open>An edit of a piece of text takes every carriage return out of the whole file: after an edit that was applied, and whose
  new texts have none, the file has none, whatever it had before and however small the piece is.
\<close>

theorem edit_drops_returns:
  assumes "edit_file diff ops fs path es False = (Inr msg, fs')" "fs' \<noteq> fs" "validate ops fs True path = Inr p"
    "\<forall>e \<in> set es. \<forall>new. dget e ''new_text'' = Some new \<longrightarrow> CHR 0x0D \<notin> set new"
  shows "\<exists>c. node_at fs' p = Some (FileNode c) \<and> CHR 0x0D \<notin> set c"
proof -
  obtain t where t: "read_text fs p = Inr t"
    using assms(1) unfolding edit_file_def writing_def by (auto simp: assms(3) split: sum.splits)
  obtain y where y: "apply_edits es t = Inr y"
    using assms(1) unfolding edit_file_def writing_def by (cases "apply_edits es t") (auto simp: assms(3) t)
  obtain m where m: "apply_edits es t = Inr (Inr m)" "write_text fs p m = Inr fs'"
    using assms(1,2) y unfolding edit_file_def writing_def by (cases y; cases "write_text fs p (projr y)") (auto simp: assms(3) t)
  have "CHR 0x0D \<notin> set t" using t universal_no_return by (auto simp: read_text_def split: option.splits fnode.splits)
  then have "CHR 0x0D \<notin> set m" using edits_no_return [OF m(1)] assms(4) by blast
  moreover have "p \<noteq> [] \<and> fs' = dset fs p (FileNode m)"
    using m(2) by (auto simp: write_text_def split: option.splits fnode.splits if_splits)
  ultimately show ?thesis by (auto simp: node_at_dset)
qed

definition returns_files :: files where
  "returns_files = [([''w''], DirNode), ([''w'', ''a''], FileNode (''a'' @ [CHR 0x0D, nl] @ ''b'' @ [CHR 0x0D, nl]))]"

theorem edit_drops_returns_witness:
  "\<exists>c. node_at (snd (edit_file (\<lambda>_ _ _. []) demo_ops returns_files ''a'' [[(''old_text'', ''b''), (''new_text'', ''c'')]] False)) [''w'', ''a''] =
     Some (FileNode c) \<and> CHR 0x0D \<notin> set c"
proof (rule edit_drops_returns)
  show "validate demo_ops returns_files True ''a'' = Inr [''w'', ''a'']" by code_simp
  let ?run = "edit_file (\<lambda>_ _ _. []) demo_ops returns_files ''a'' [[(''old_text'', ''b''), (''new_text'', ''c'')]] False"
  show "?run = (Inr ''Applied 1 edit(s) to /w/a'', snd ?run)" by code_simp
  show "snd ?run \<noteq> returns_files" by code_simp
qed simp

section \<open>Ways around\<close>

text \<open>A directory that may not be written is protected against every path into it, but not against a move of a directory
  above it: it is moved away, its files are changed where they are now, and it is moved back.
\<close>

theorem excluded_by_moves:
  "node_at demo_files [''w'', ''lake'', ''packages'', ''p''] = Some (FileNode ''x'') \<and>
   fst (write_file demo_ops demo_files ''lake/packages/p'' ''evil'') =
     Inl (PermissionError (''Write denied: '' @ repr_str ''lake/packages/p'' @ '' is inside write-excluded directory '' @ repr_str ''/w/lake/packages'' @ ''.'')) \<and>
   node_at (fs_session (\<lambda>_ _ _. []) demo_ops demo_files
       [MoveFile ''lake'' ''l2'', WriteFile ''l2/packages/p'' ''evil'', MoveFile ''l2'' ''lake'']) [''w'', ''lake'', ''packages'', ''p''] =
     Some (FileNode ''evil'')"
  by code_simp

definition linked_files :: files where
  "linked_files = ([''w'', ''lib''], LinkNode ''/lib'') # demo_files"

text \<open>A file in a directory that may only be read is denied to a write under its own path, but a link to that directory in an allowed one
  opens it: the path is in the allowed directory before links are followed, and the file behind it is written.
\<close>

theorem read_only_by_link:
  "fst (write_file demo_ops linked_files ''/lib/m'' ''evil'') =
     Inl (PermissionError (''Write denied: '' @ repr_str ''/lib/m'' @ '' is inside read-only directory '' @ repr_str ''/lib'' @ ''.'')) \<and>
   node_at (snd (write_file demo_ops linked_files ''lib/m'' ''evil'')) [''lib'', ''m''] = Some (FileNode ''evil'')"
  by code_simp

end
