(* ===== verification/Spec2Isabelle.thy ===== *)
theory Spec2Isabelle
imports Prelude Py_Strings Item_Tracker Item_Tracker_Correct Tracker_Refinement Agent_Pool Executor_Interface
  Dist_Executor Dist_Executor_Correct Dag_Runner Dag_Runner_Correct Effects Worktree Worktree_Correct
  Merge_Queue Merge_Queue_Correct Merge_Client_Correct Concurrent_Agents Concurrent_Agents_Correct
  Py_Float Dep_Graph Dep_Graph_Correct Dep_Graph_Queries Dep_Graph_Queries_Correct
  Py_Regex Py_Json Lean_Source Lean_Checks Lean_Checks_Correct Lean_Repl Lean_Repl_Correct
  Rubric Eval_Gate Eval_Gate_Correct Goal_Tracker Eval_Metrics Eval_Metrics_Correct
  Message_Extract Inference Openai_Backend Backend_Interface Openai_Correct Mcp_Manager Tool_Runtime
  Tool_Runtime_Correct Agent_Loop Agent_Loop_Correct Mcp_Correct
  Book_Chunks Statement_Names Yaml_Response Statement_Extraction Statement_Extraction_Correct
  Json_Roundtrip Anthropic_Backend Anthropic_Correct
  Constrained_Tracker Tracker_Removal Constrained_Correct Run_Archive Run_Archive_Correct
  Zmq_Channel Worker_Node Lean_Workflow Orchestrator_Rounds
  Filesystem_Tools Filesystem_Correct Filesystem_Reads Filesystem_Edits
begin

text \<open>
  A multi-agent system that formalizes mathematics in Lean 4. Work items live in a tracker; a scheduling
  loop hands ready items to agents through an executor; every agent works in a git worktree, and what it
  produced is reviewed and then merged by a merge queue that builds a batch before it lands; Lean code is
  checked through a REPL session and by compilation, keyword and axiom checks; an evaluation gate over a
  dependency graph of declarations decides which statements count. All paths below are under \<open>src/\<close>.

  Parts and theories.

  \<^item> Python itself. \<open>Prelude\<close> (exceptions as the values of \<open>py_error\<close>, dictionaries as association lists
    in insertion order, JSON values), \<open>Py_Strings\<close>, \<open>Py_Float\<close> (floats as rationals, each operation rounded
    to 53 bits by \<open>flt\<close>), \<open>Py_Regex\<close> (a backtracking matcher for the patterns the code uses),
    \<open>Py_Json\<close> (\<open>json.loads\<close>, \<open>json.dumps\<close>) and \<open>Effects\<close> (computations over a state that end in a
    value or an exception). Text is ASCII.
  \<^item> Work items. \<open>Item_Tracker\<close> is \<open>core/tracker/core.py\<close>: the dictionary of items, one counter for
    each prefix of ids, every query and mutation, save and load. \<open>Item_Tracker_Correct\<close> has the structural
    invariant \<open>tracker_inv\<close> and its preservation, which items are ready, who can claim an item and the save
    and load round trip. \<open>Tracker_Refinement\<close> states what clients see (a map from ids to status,
    dependencies and owner) and shows that the tracker implements it. \<open>Goal_Tracker\<close> is
    \<open>autoform/eval/utils/tracker.py\<close>, targets stored as items.
  \<^item> Scheduling. \<open>Agent_Pool\<close> is \<open>core/coordination/pool.py\<close>; \<open>Executor_Interface\<close> states as the
    locale \<open>task_executor\<close> what the scheduling loop relies on and shows it of the local executor
    (\<open>core/coordination/executor.py\<close>); \<open>Dist_Executor\<close> is \<open>core/coordination/multinode/executor.py\<close>, with
    node choice, heartbeats and the result listener, and \<open>Dist_Executor_Correct\<close> shows the same contract of it;
    \<open>Dag_Runner\<close> is \<open>core/coordination/dag_runner.py\<close>, and \<open>Dag_Runner_Correct\<close> shows over the contract
    that no item runs twice at a time and that no ready item starves.
  \<^item> Merging. \<open>Worktree\<close> is \<open>core/worktree.py\<close>; \<open>Merge_Queue\<close> is \<open>core/coordination/merge_queue.py\<close>,
    with the batch, its bisection, the bridge between workers and the coordinator; \<open>Merge_Queue_Correct\<close> shows
    that every request of a batch is answered, that nothing lands without a build that passed, and
    what the bisection does to each request; \<open>Merge_Client_Correct\<close> has the worker's end;
    \<open>Concurrent_Agents\<close> is \<open>core/coordination/concurrent_agents.py\<close>, the way of an agent's work through review,
    rebase and merge.
  \<^item> Lean. \<open>Lean_Source\<close> is \<open>tools/execution/lean/parsing.py\<close> and \<open>constant.py\<close>; \<open>Lean_Checks\<close> is
    \<open>autoform/eval/lean_checks.py\<close>; \<open>Lean_Repl\<close> is \<open>tools/execution/lean/repl/core.py\<close> and
    \<open>proof_checker.py\<close>. Their \<open>_Correct\<close> theories show which keywords and axioms are reported, which
    code is sent to the process, how a run ends and what a valid proof has passed.
  \<^item> Evaluation. \<open>Dep_Graph\<close> and \<open>Dep_Graph_Queries\<close> are \<open>autoform/eval/dependency_graph\<close> and
    \<open>autoform/eval/tools/dep_graph/core.py\<close>; \<open>Rubric\<close> is \<open>core/eval/rubric.py\<close>; \<open>Eval_Gate\<close> is the graders and
    \<open>autoform/eval/utils/gate.py\<close>; \<open>Eval_Metrics\<close> is \<open>core/eval/metrics.py\<close> and the pipelines. Their
    \<open>_Correct\<close> theories show that cones are exactly what is reachable, what a gate that passes has
    let through, and that the numbers of a judge, a jury and a metric stay in their bounds.
  \<^item> Agents. \<open>Message_Extract\<close> is \<open>core/message_extract.py\<close>; \<open>Inference\<close> is the types and the operations
    of a backend of \<open>core/inference/protocol.py\<close>; \<open>Openai_Backend\<close> is \<open>core/inference/openai_api.py\<close> and
    \<open>Anthropic_Backend\<close> is \<open>core/inference/sdk/anthropic.py\<close>, with cache breakpoints and streaming;
    \<open>Mcp_Manager\<close> is \<open>core/mcp/manager.py\<close> and \<open>bridge.py\<close>; \<open>Tool_Runtime\<close> is \<open>core/mcp/tool_runtime.py\<close> and
    \<open>core/tool.py\<close>; \<open>Agent_Loop\<close> is \<open>core/agent/loop.py\<close>. \<open>Backend_Interface\<close> states as locales what the
    agent relies on, of any backend and of one whose conversations the service accepts; \<open>Agent_Loop_Correct\<close> proves over
    them how a call ends and what it leaves, and \<open>Openai_Correct\<close> and \<open>Anthropic_Correct\<close> discharge the
    locales for the two backends. \<open>Anthropic_Correct\<close> also shows that a streamed answer is the answer in one piece, over the
    round trip of \<open>json.dumps\<close> and \<open>json.loads\<close> in \<open>Json_Roundtrip\<close>. \<open>Tool_Runtime_Correct\<close> and \<open>Mcp_Correct\<close>
    show which tools are called, the sizes of results and what discovery finds.
  \<^item> Statements of a book (\<open>autoform/statement_extraction\<close>). \<open>Book_Chunks\<close> is \<open>chunking.py\<close>, whose loop is a partial
    function, as it does not end for every overlap; \<open>Statement_Names\<close> is \<open>normalization.py\<close>; \<open>Yaml_Response\<close> is
    \<open>parsing.py\<close>; \<open>Statement_Extraction\<close> is \<open>extraction.py\<close>, \<open>reconciliation.py\<close>, \<open>merging.py\<close> and the run of
    \<open>__main__.py\<close>. \<open>Statement_Extraction_Correct\<close> shows what agents agree on, and which statements get into the result.
  \<^item> The bot (\<open>autoform/bot\<close>). \<open>Constrained_Tracker\<close> is \<open>tools/task_tracker\<close>, the tracker as agents may use it;
    \<open>Tracker_Removal\<close> shows what the removal of items does to a tracker, and \<open>Constrained_Correct\<close> which items
    agents cannot change. \<open>Run_Archive\<close> is \<open>archive.py\<close>, the archive of traces and the preparation of a fresh run, and
    \<open>Run_Archive_Correct\<close> shows which messages are kept, which tracker is loaded afterwards and which files are left
    alone. \<open>Orchestrator_Rounds\<close> is the loop of \<open>coordinator.py\<close> with the reports of \<open>analysis.py\<close> and
    \<open>tools/reports/core.py\<close>: rounds, their prompts, and what becomes of a report. \<open>Lean_Workflow\<close> is
    \<open>concurrent.py\<close>, the build, review and merge that \<open>Concurrent_Agents\<close> takes as parameters.
  \<^item> Nodes. \<open>Zmq_Channel\<close> is the server's end of \<open>core/coordination/multinode/zmq_queue.py\<close>, the names of the nodes and the
    handshake of \<open>autoform/bot/main.py\<close> at startup, and shows who gets through it; \<open>Worker_Node\<close> is \<open>WorkerNode\<close> of
    \<open>core/coordination/multinode/nodes.py\<close> and \<open>autoform/bot/worker_node.py\<close>: restarts are bounded, every agent is
    free or works for one task, and the result that is sent is the one the coordinator reads.
  \<^item> Files. \<open>Filesystem_Tools\<close> is \<open>tools/files/filesystem/core.py\<close> over a file system of files, directories and links, with
    the resolution of paths that \<open>pathlib\<close> does; \<open>Filesystem_Correct\<close> shows that no sequence of calls changes anything
    outside the allowed directories, \<open>Filesystem_Reads\<close> that what is read depends on the readable directories only and
    that what was written is read back, and \<open>Filesystem_Edits\<close> which lines an edit leaves, with the ways around
    the directories that may not be written.

  Interaction. The runner reads the tracker and calls an executor; the executor runs the workflow, whose
  merge step submits to the merge queue, which calls worktree functions; the outcome of a task comes back to
  the tracker. The runner's workers are agents: the loop asks the backend, runs the tools the answer
  calls through the runtime and its servers, and compacts the conversation. The gate reads the goal tracker and the dependency graph and calls the Lean checks and
  the rubrics. Concurrency is explicit: a coroutine is split at the points where it waits, and a theorem is about
  every order in which these pieces can run (the histories of \<open>Dag_Runner_Correct\<close> and
  \<open>Dist_Executor_Correct\<close>), or about one call with the answers of the others as parameters.

  Parameters. Code outside the repository is an argument of the definitions that use it: operating-system calls
  and git (\<open>os\<close>, a function from a world and a call to a reply and the next world), the build and the hooks of the merge
  queue, agents, reviewers and judges, the REPL process and the outcome of \<open>lake\<close>, the clock, the source files of a
  project, the sum of a list of floats (which depends on the version of Python), and the wording of the
  messages of the JSON parser's errors.

  Bounds and fuel. Loops are recursions on what they consume where that is possible. The bisection of a batch
  recurses as the code does, on halves of the batch, and on the empty subset it does not end by itself; its first
  argument is the number of nested calls that Python's recursion limit leaves. \<open>collect_cone\<close> and
  \<open>all_deps\<close> take that number too; more of it than the graph has nodes is enough, because every call adds
  a node to the visited set or to the stack. The workflow
  of an agent has the number of turns the code allows. The JSON parser has twice the length of the text and
  one, as each level of nesting consumes a character. Retries of the REPL are counted as in the code.

  What the model shows to go wrong in the code is listed as such with the theorem that shows it: an update can
  close a dependency cycle, the memoised closure of the dependency graph is not the closure on a graph
  with a cycle, a restart of the REPL between two snippets is not noticed, the keyword check is
  blind behind a string literal with a comment mark, an answer that was continued keeps only its last piece, a persisted
  result is overwritten by one with a similar id, the cutting of a book does not end for a large overlap, a worker that
  registers early stops the handshake of the others, and a report that lands during a round is not seen, among others.

  Not modelled: the visualizer (HTTP and HTML), the other adapters to inference services, ZeroMQ sockets and
  process management (operating system), traces and reports written for people, and logging everywhere.
\<close>

end
